(* ===== verification/Cupel_Prelude.thy ===== *)
theory Cupel_Prelude
  imports Main "HOL-Library.Word" "HOL-Library.Char_ord" "HOL-Library.List_Lexorder"
    "HOL-Library.Sublist"
begin

text \<open>
  What the theories of this development share: the Go integer types at their width, the part of
  Go's \<open>strings\<close>, \<open>strconv\<close>, \<open>sort\<close> and \<open>fmt\<close> packages the source uses, string maps, and the
  generic lemmas about them.

  A Go string is a sequence of bytes, so it is a \<^typ>\<open>string\<close> here (a list of 8-bit
  characters), and \<open>sort.Strings\<close> is \<open>sort\<close> for the byte-wise lexicographic order.  Case
  mapping, white space and quoting are modelled for ASCII text: on non-ASCII text Go also folds
  Unicode letters, which no definition of this development does.
\<close>

named_theorems go_string_simps \<open>rewrite rules for the string functions of the Go library\<close>
named_theorems wf_intros \<open>introduction rules for the well-formedness predicates\<close>

section \<open>Integers\<close>

type_synonym uint64 = "64 word"
type_synonym int64 = "64 word"
type_synonym int32 = "32 word"

section \<open>Decimal numbers\<close>

definition digit_char :: "nat \<Rightarrow> char" where
  "digit_char d = char_of (48 + d)"

definition char_digit :: "char \<Rightarrow> nat" where
  "char_digit c = of_char c - 48"

definition is_digit :: "char \<Rightarrow> bool" where
  "is_digit c \<longleftrightarrow> 48 \<le> (of_char c :: nat) \<and> (of_char c :: nat) \<le> 57"

fun nat_str :: "nat \<Rightarrow> string" where
  "nat_str n =
     (if n < 10 then [digit_char n] else nat_str (n div 10) @ [digit_char (n mod 10)])"

declare nat_str.simps [simp del]

definition str_nat :: "string \<Rightarrow> nat" where
  "str_nat s = foldl (\<lambda>a c. 10 * a + char_digit c) 0 s"

text \<open>\<open>fmt.Sprintf("%d", i)\<close>, and \<open>"%0wd"\<close> of a number that is not negative.\<close>

definition int_str :: "int \<Rightarrow> string" where
  "int_str i = (if i < 0 then CHR ''-'' # nat_str (nat (- i)) else nat_str (nat i))"

definition zero_pad :: "nat \<Rightarrow> string \<Rightarrow> string" where
  "zero_pad w s = replicate (w - length s) (CHR ''0'') @ s"

lemma of_char_digit [simp]: "d < 10 \<Longrightarrow> (of_char (digit_char d) :: nat) = 48 + d"
  by (simp add: digit_char_def)

lemma char_digit_digit [simp]: "d < 10 \<Longrightarrow> char_digit (digit_char d) = d"
  by (simp add: char_digit_def)

lemma is_digit_digit [simp]: "d < 10 \<Longrightarrow> is_digit (digit_char d)"
  by (simp add: is_digit_def)

lemma str_nat_append: "str_nat (s @ [c]) = 10 * str_nat s + char_digit c"
  by (simp add: str_nat_def)

lemma str_nat_nat_str [simp]: "str_nat (nat_str n) = n"
proof (induction n rule: nat_str.induct)
  case (1 n)
  show ?case
  proof (cases "n < 10")
    case True
    then show ?thesis by (simp add: nat_str.simps [of n] str_nat_def)
  next
    case False
    with 1 show ?thesis by (simp add: nat_str.simps [of n] str_nat_append)
  qed
qed

lemma nat_str_inject [simp]: "nat_str m = nat_str n \<longleftrightarrow> m = n"
  by (metis str_nat_nat_str)

lemma nat_str_digits: "c \<in> set (nat_str n) \<Longrightarrow> is_digit c"
proof (induction n rule: nat_str.induct)
  case (1 n)
  then show ?case
    by (cases "n < 10") (auto simp: nat_str.simps [of n])
qed

lemma nat_str_not_Nil [simp]: "nat_str n \<noteq> []"
  by (simp add: nat_str.simps [of n])

lemma is_digit_zero: "is_digit (CHR ''0'')"
  by (simp add: is_digit_def)

lemma zero_pad_digits: "(\<And>c. c \<in> set s \<Longrightarrow> is_digit c) \<Longrightarrow> c \<in> set (zero_pad w s) \<Longrightarrow> is_digit c"
  by (auto simp: zero_pad_def is_digit_zero split: if_splits)

lemma str_nat_replicate_zero: "str_nat (replicate k (CHR ''0'') @ s) = str_nat s"
proof -
  have z: "foldl (\<lambda>a c. 10 * a + char_digit c) 0 (replicate k (CHR ''0'')) = 0" for k
    by (induction k) (simp_all add: char_digit_def)
  show ?thesis by (simp add: str_nat_def z)
qed

lemma str_nat_zero_pad [simp]: "str_nat (zero_pad w s) = str_nat s"
  by (simp add: zero_pad_def str_nat_replicate_zero)

lemma zero_pad_nat_str_inject [simp]:
  "zero_pad w (nat_str m) = zero_pad w (nat_str n) \<longleftrightarrow> m = n"
  by (metis str_nat_nat_str str_nat_zero_pad)

lemma length_nat_str_small: "n < 100 \<Longrightarrow> length (nat_str n) \<le> 2"
proof -
  assume "n < 100"
  then have "n div 10 < 10" by simp
  then show ?thesis by (simp add: nat_str.simps [of n] nat_str.simps [of "n div 10"])
qed

lemma length_zero_pad: "length s \<le> w \<Longrightarrow> length (zero_pad w s) = w"
  by (simp add: zero_pad_def)

section \<open>Strings\<close>

text \<open>The characters the source writes as escapes.\<close>

abbreviation newline_char :: char where "newline_char \<equiv> CHR 0x0A"
abbreviation backslash_char :: char where "backslash_char \<equiv> CHR 0x5C"
abbreviation dquote_char :: char where "dquote_char \<equiv> CHR 0x22"
abbreviation dash_char :: char where "dash_char \<equiv> CHR ''-''"

text \<open>\<open>strings.ToLower\<close> and \<open>strings.EqualFold\<close>.\<close>

definition is_upper :: "char \<Rightarrow> bool" where
  "is_upper c \<longleftrightarrow> 65 \<le> (of_char c :: nat) \<and> (of_char c :: nat) \<le> 90"

definition is_lower :: "char \<Rightarrow> bool" where
  "is_lower c \<longleftrightarrow> 97 \<le> (of_char c :: nat) \<and> (of_char c :: nat) \<le> 122"

definition lower_char :: "char \<Rightarrow> char" where
  "lower_char c = (if is_upper c then char_of ((of_char c :: nat) + 32) else c)"

definition to_lower :: "string \<Rightarrow> string" where
  "to_lower s = map lower_char s"

definition equal_fold :: "string \<Rightarrow> string \<Rightarrow> bool" where
  "equal_fold a b \<longleftrightarrow> to_lower a = to_lower b"

text \<open>\<open>strings.TrimSpace\<close>, \<open>TrimRight(s, c)\<close>, \<open>Trim(s, c)\<close>, \<open>TrimSuffix(s, p)\<close>.\<close>

definition is_space :: "char \<Rightarrow> bool" where
  "is_space c \<longleftrightarrow> c = CHR '' '' \<or> (9 \<le> (of_char c :: nat) \<and> (of_char c :: nat) \<le> 13)"

definition trim_right_if :: "(char \<Rightarrow> bool) \<Rightarrow> string \<Rightarrow> string" where
  "trim_right_if p s = rev (dropWhile p (rev s))"

definition trim_if :: "(char \<Rightarrow> bool) \<Rightarrow> string \<Rightarrow> string" where
  "trim_if p s = trim_right_if p (dropWhile p s)"

definition trim_space :: "string \<Rightarrow> string" where
  "trim_space s = trim_if is_space s"

definition trim_suffix :: "string \<Rightarrow> string \<Rightarrow> string" where
  "trim_suffix s p = (if suffix p s then take (length s - length p) s else s)"

text \<open>\<open>strings.Index\<close>, \<open>LastIndex\<close> of one character, and \<open>Contains\<close>.\<close>

fun str_index :: "string \<Rightarrow> string \<Rightarrow> nat option" where
  "str_index [] p = (if p = [] then Some 0 else None)"
| "str_index (c # s) p =
     (if prefix p (c # s) then Some 0 else map_option Suc (str_index s p))"

fun last_index_char :: "string \<Rightarrow> char \<Rightarrow> nat option" where
  "last_index_char [] x = None"
| "last_index_char (c # s) x =
     (case last_index_char s x of
        Some i \<Rightarrow> Some (Suc i)
      | None \<Rightarrow> if c = x then Some 0 else None)"

definition str_contains :: "string \<Rightarrow> string \<Rightarrow> bool" where
  "str_contains s p \<longleftrightarrow> str_index s p \<noteq> None"

text \<open>\<open>strings.Split(s, c)\<close> and \<open>strings.Join(parts, sep)\<close>.\<close>

fun split_char :: "char \<Rightarrow> string \<Rightarrow> string list" where
  "split_char x [] = [[]]"
| "split_char x (c # s) =
     (if c = x then [] # split_char x s
      else (case split_char x s of [] \<Rightarrow> [[c]] | p # ps \<Rightarrow> (c # p) # ps))"

fun str_join :: "string \<Rightarrow> string list \<Rightarrow> string" where
  "str_join sep [] = []"
| "str_join sep [p] = p"
| "str_join sep (p # q # ps) = p @ sep @ str_join sep (q # ps)"

lemma split_char_not_Nil [simp]: "split_char x s \<noteq> []"
  by (induction s) (auto split: list.splits)

lemma join_split_char [go_string_simps]: "str_join [x] (split_char x s) = s"
proof (induction s)
  case Nil
  then show ?case by simp
next
  case (Cons c s)
  obtain p ps where ps: "split_char x s = p # ps"
    by (cases "split_char x s") auto
  with Cons show ?case by (cases ps) auto
qed

lemma split_char_no_sep [go_string_simps]: "x \<notin> set s \<Longrightarrow> split_char x s = [s]"
  by (induction s) auto

lemma split_char_parts: "p \<in> set (split_char x s) \<Longrightarrow> x \<notin> set p"
proof (induction s arbitrary: p)
  case Nil
  then show ?case by simp
next
  case (Cons c s)
  then show ?case by (auto split: list.splits if_splits)
qed

lemma split_char_append_sep:
  "x \<notin> set s \<Longrightarrow> split_char x (s @ x # t) = s # split_char x t"
  by (induction s) auto

lemma split_join_char:
  "ps \<noteq> [] \<Longrightarrow> (\<And>p. p \<in> set ps \<Longrightarrow> x \<notin> set p) \<Longrightarrow> split_char x (str_join [x] ps) = ps"
proof (induction "[x]" ps rule: str_join.induct)
  case (3 p q ps)
  then show ?case by (simp add: split_char_append_sep)
qed (auto simp: split_char_no_sep)

text \<open>\<open>strconv.Quote\<close>, which \<open>%q\<close> prints, on ASCII text.\<close>

definition hex_digit :: "nat \<Rightarrow> char" where
  "hex_digit d = (if d < 10 then digit_char d else char_of (87 + d))"

definition quote_char :: "char \<Rightarrow> string" where
  "quote_char c =
     (if c = dquote_char then [backslash_char, dquote_char]
      else if c = backslash_char then [backslash_char, backslash_char]
      else if c = CHR 0x07 then [backslash_char, CHR ''a'']
      else if c = CHR 0x08 then [backslash_char, CHR ''b'']
      else if c = CHR 0x0C then [backslash_char, CHR ''f'']
      else if c = CHR 0x0A then [backslash_char, CHR ''n'']
      else if c = CHR 0x0D then [backslash_char, CHR ''r'']
      else if c = CHR 0x09 then [backslash_char, CHR ''t'']
      else if c = CHR 0x0B then [backslash_char, CHR ''v'']
      else if (of_char c :: nat) < 32 \<or> (of_char c :: nat) = 127
        then [backslash_char, CHR ''x'', hex_digit (of_char c div 16), hex_digit (of_char c mod 16)]
      else [c])"

definition quote :: "string \<Rightarrow> string" where
  "quote s = dquote_char # concat (map quote_char s) @ [dquote_char]"

section \<open>String maps\<close>

text \<open>
  A \<open>map[string]string\<close> is an association list with distinct keys.  Reading a key that is not
  there gives the empty string, as it does in Go.
\<close>

type_synonym str_map = "(string \<times> string) list"

definition sm_get :: "str_map \<Rightarrow> string \<Rightarrow> string" where
  "sm_get m k = (case map_of m k of None \<Rightarrow> [] | Some v \<Rightarrow> v)"

fun sm_put :: "string \<Rightarrow> string \<Rightarrow> str_map \<Rightarrow> str_map" where
  "sm_put k v [] = [(k, v)]"
| "sm_put k v ((k', v') # m) = (if k = k' then (k, v) # m else (k', v') # sm_put k v m)"

definition sm_wf :: "str_map \<Rightarrow> bool" where
  "sm_wf m \<longleftrightarrow> distinct (map fst m)"

lemma map_of_sm_put [simp]: "map_of (sm_put k v m) = (map_of m)(k \<mapsto> v)"
  by (induction m) (auto simp: fun_eq_iff)

lemma sm_get_put [simp]: "sm_get (sm_put k v m) k' = (if k' = k then v else sm_get m k')"
  by (simp add: sm_get_def)

lemma keys_sm_put: "fst ` set (sm_put k v m) = insert k (fst ` set m)"
  by (induction k v m rule: sm_put.induct) auto

lemma sm_wf_put [wf_intros]: "sm_wf m \<Longrightarrow> sm_wf (sm_put k v m)"
  by (induction k v m rule: sm_put.induct) (auto simp: sm_wf_def keys_sm_put)

lemma sm_wf_Nil [wf_intros, simp]: "sm_wf []"
  by (simp add: sm_wf_def)

section \<open>Lists\<close>

text \<open>A text up to a separator it does not hold is determined by the whole.\<close>

lemma append_sep_eq:
  assumes "x \<notin> set a" and "x \<notin> set b" and "a @ x # s = b @ x # t"
  shows "a = b \<and> s = t"
  using assms
proof (induction a arbitrary: b)
  case Nil
  then show ?case by (cases b) auto
next
  case (Cons c a)
  then show ?case by (cases b) auto
qed

text \<open>A function's graph over a set determines the set and the function on it.\<close>

lemma graph_eqD:
  assumes "(\<lambda>k. (k, f k)) ` A = (\<lambda>k. (k, g k)) ` B"
  shows "A = B \<and> (\<forall>k \<in> A. f k = g k)"
proof
  have "fst ` (\<lambda>k. (k, f k)) ` A = fst ` (\<lambda>k. (k, g k)) ` B" using assms by simp
  then show "A = B" by (simp add: image_image)
  show "\<forall>k \<in> A. f k = g k"
  proof
    fix k assume "k \<in> A"
    then have "(k, f k) \<in> (\<lambda>k. (k, g k)) ` B" unfolding assms [symmetric] by (rule imageI)
    then show "f k = g k" by (elim imageE) simp
  qed
qed

text \<open>Inserting into a set kept as a list, and dropping the duplicates of a list.\<close>

definition add_new :: "'a \<Rightarrow> 'a list \<Rightarrow> 'a list" where
  "add_new x xs = (if x \<in> set xs then xs else xs @ [x])"

lemma set_add_new [simp]: "set (add_new x xs) = insert x (set xs)"
  by (auto simp: add_new_def)

lemma distinct_add_new [wf_intros]: "distinct xs \<Longrightarrow> distinct (add_new x xs)"
  by (auto simp: add_new_def)

lemma sort_eq_of_set:
  "distinct xs \<Longrightarrow> distinct ys \<Longrightarrow> set xs = set ys \<Longrightarrow> sort xs = sort ys"
  by (rule sorted_distinct_set_unique) auto

end
