(* ===== verification/Go_Time.thy ===== *)
theory Go_Time
  imports Cupel_Prelude
begin

text \<open>
  The part of Go's \<open>time\<close> package the source uses.  A \<open>time.Time\<close> is the number of nanoseconds
  since the Unix epoch, a \<open>time.Duration\<close> a number of nanoseconds; both are integers here, and
  \<open>Time.Sub\<close> saturates at the bounds of the 64-bit duration, as the library's does.  The RFC 3339
  text of a time in UTC is written out down to the calendar, because it is part of the audit
  chain's hash preimage: \<open>rfc3339_inject\<close> shows that two different seconds never share a text.
\<close>

type_synonym go_time = int
type_synonym duration = int

definition second :: duration where "second = 1000000000"
definition minute :: duration where "minute = 60 * second"
definition hour :: duration where "hour = 60 * minute"

text \<open>\<open>t.Truncate(time.Second)\<close> and the Unix second a time lies in.\<close>

definition unix_sec :: "go_time \<Rightarrow> int" where
  "unix_sec t = t div second"

definition truncate_sec :: "go_time \<Rightarrow> go_time" where
  "truncate_sec t = second * unix_sec t"

lemma unix_sec_truncate [simp]: "unix_sec (truncate_sec t) = unix_sec t"
  by (simp add: truncate_sec_def unix_sec_def second_def)

lemma truncate_sec_idem [simp]: "truncate_sec (truncate_sec t) = truncate_sec t"
  by (simp add: truncate_sec_def [of "truncate_sec t"]) (simp add: truncate_sec_def)

text \<open>\<open>t.Sub(u)\<close>.\<close>

definition max_duration :: duration where "max_duration = 2 ^ 63 - 1"
definition min_duration :: duration where "min_duration = - (2 ^ 63)"

definition time_sub :: "go_time \<Rightarrow> go_time \<Rightarrow> duration" where
  "time_sub t u = max min_duration (min max_duration (t - u))"

lemma time_sub_gt: "0 \<le> d \<Longrightarrow> d < max_duration \<Longrightarrow> d < time_sub t u \<longleftrightarrow> d < t - u"
  by (auto simp: time_sub_def max_duration_def min_duration_def)

text \<open>The zero \<open>time.Time\<close>, which \<open>IsZero\<close> asks for: the first instant of the year 1.\<close>

definition zero_time :: go_time where
  "zero_time = - 62135596800 * second"

section \<open>The civil date of a day\<close>

text \<open>
  Days are counted from 1970-01-01.  Years start in March inside the computation, so that the leap
  day is the last day of a year; a cycle of 400 years has 146097 days.
\<close>

definition century_of :: "int \<Rightarrow> int" where
  "century_of doe = min 3 (doe div 36524)"

definition quad_of :: "int \<Rightarrow> int" where
  "quad_of doc = doc div 1461"

definition year_in_quad :: "int \<Rightarrow> int" where
  "year_in_quad doq = min 3 (doq div 365)"

definition march_of :: "int \<Rightarrow> int \<times> int" where
  \<comment> \<open>a day of the 400-year cycle: the year of the cycle and the day of that year\<close>
  "march_of doe =
     (let c = century_of doe; doc = doe - 36524 * c;
          q = quad_of doc; doq = doc - 1461 * q;
          y = year_in_quad doq
      in (100 * c + 4 * q + y, doq - 365 * y))"

definition month_of :: "int \<Rightarrow> int \<times> int" where
  \<comment> \<open>a day of the March-based year: the month, 0 for March, and the day of the month from 1\<close>
  "month_of doy = (let mp = (5 * doy + 2) div 153 in (mp, doy - (153 * mp + 2) div 5 + 1))"

definition civil_of_days :: "int \<Rightarrow> int \<times> int \<times> int" where
  "civil_of_days days =
     (let z = days + 719468; era = z div 146097;
          (yoe, doy) = march_of (z mod 146097);
          (mp, d) = month_of doy;
          m = (if mp < 10 then mp + 3 else mp - 9)
      in (400 * era + yoe + (if m \<le> 2 then 1 else 0), m, d))"

text \<open>The inverse, used only to show that the date determines the day.\<close>

definition days_of_march :: "int \<Rightarrow> int \<Rightarrow> int" where
  "days_of_march yoe doy =
     36524 * (yoe div 100) + 1461 * (yoe mod 100 div 4) + 365 * (yoe mod 4) + doy"

definition days_of_civil :: "int \<times> int \<times> int \<Rightarrow> int" where
  "days_of_civil = (\<lambda>(y, m, d).
     let y' = y - (if m \<le> 2 then 1 else 0);
         mp = (if m > 2 then m - 3 else m + 9)
     in 146097 * (y' div 400) + days_of_march (y' mod 400) ((153 * mp + 2) div 5 + d - 1) - 719468)"

lemma century_bounds:
  "0 \<le> doe \<Longrightarrow> doe < 146097 \<Longrightarrow>
     0 \<le> century_of doe \<and> century_of doe \<le> 3 \<and>
     0 \<le> doe - 36524 * century_of doe \<and> doe - 36524 * century_of doe \<le> 36524"
  unfolding century_of_def min_def by (cases "3 \<le> doe div 36524") auto

lemma quad_bounds:
  "0 \<le> doc \<Longrightarrow> doc \<le> 36524 \<Longrightarrow>
     0 \<le> quad_of doc \<and> quad_of doc \<le> 24 \<and>
     0 \<le> doc - 1461 * quad_of doc \<and> doc - 1461 * quad_of doc \<le> 1460"
  unfolding quad_of_def by auto

lemma year_bounds:
  "0 \<le> doq \<Longrightarrow> doq \<le> 1460 \<Longrightarrow>
     0 \<le> year_in_quad doq \<and> year_in_quad doq \<le> 3 \<and>
     0 \<le> doq - 365 * year_in_quad doq \<and> doq - 365 * year_in_quad doq \<le> 365"
  unfolding year_in_quad_def min_def by (cases "3 \<le> doq div 365") auto

lemma march_of_bounds:
  assumes "0 \<le> doe" and "doe < 146097" and "march_of doe = (yoe, doy)"
  shows "0 \<le> yoe \<and> yoe \<le> 399 \<and> 0 \<le> doy \<and> doy \<le> 365 \<and> days_of_march yoe doy = doe"
proof -
  define c where "c = century_of doe"
  define doc where "doc = doe - 36524 * c"
  define q where "q = quad_of doc"
  define doq where "doq = doc - 1461 * q"
  define y where "y = year_in_quad doq"
  have c: "0 \<le> c" "c \<le> 3" "0 \<le> doc" "doc \<le> 36524"
    using century_bounds [OF assms(1,2)] by (auto simp: c_def doc_def)
  have q: "0 \<le> q" "q \<le> 24" "0 \<le> doq" "doq \<le> 1460"
    using quad_bounds [OF c(3,4)] by (auto simp: q_def doq_def)
  have y: "0 \<le> y" "y \<le> 3" "0 \<le> doq - 365 * y" "doq - 365 * y \<le> 365"
    using year_bounds [OF q(3,4)] by (auto simp: y_def)
  have e: "yoe = 100 * c + 4 * q + y" "doy = doq - 365 * y"
    using assms(3) by (auto simp: march_of_def Let_def c_def doc_def q_def doq_def y_def)
  have "yoe div 100 = c" "yoe mod 100 = 4 * q + y"
    using int_div_pos_eq [of yoe 100 c "4 * q + y"] int_mod_pos_eq [of yoe 100 c "4 * q + y"] q y
    by (simp_all add: e)
  moreover have "(4 * q + y) div 4 = q" using int_div_pos_eq [of _ 4 q y] y by simp
  moreover have "yoe mod 4 = y" using int_mod_pos_eq [of yoe 4 "25 * c + q" y] y by (simp add: e)
  ultimately have "yoe div 100 = c" "yoe mod 100 div 4 = q" "yoe mod 4 = y" by simp_all
  then have "days_of_march yoe doy = doe"
    by (simp add: days_of_march_def e(2) doq_def doc_def)
  with c q y show ?thesis by (simp add: e)
qed

lemma month_of_bounds:
  assumes "0 \<le> doy" and "doy \<le> 365" and "month_of doy = (mp, d)"
  shows "0 \<le> mp \<and> mp \<le> 11 \<and> 1 \<le> d \<and> d \<le> 31 \<and> (153 * mp + 2) div 5 + d - 1 = doy"
proof -
  have mp: "mp = (5 * doy + 2) div 153" and d: "d = doy - (153 * mp + 2) div 5 + 1"
    using assms(3) by (auto simp: month_of_def Let_def)
  have b: "153 * mp \<le> 5 * doy + 2" "5 * doy + 2 < 153 * mp + 153"
    unfolding mp by (simp_all add: mult.commute [of 153])
  define k where "k = (153 * mp + 2) div 5"
  have k: "5 * k \<le> 153 * mp + 2" "153 * mp + 2 < 5 * k + 5"
    using pos_mod_bound [of 5 "153 * mp + 2"] pos_mod_sign [of 5 "153 * mp + 2"]
      div_mult_mod_eq [of "153 * mp + 2" 5] unfolding k_def by linarith+
  have "0 \<le> mp" "mp \<le> 11" using b assms(1,2) by linarith+
  moreover have "1 \<le> d" "d \<le> 31" using b k unfolding d k_def [symmetric] by linarith+
  ultimately show ?thesis by (simp add: d)
qed

lemma civil_roundtrip: "days_of_civil (civil_of_days days) = days"
proof -
  define z where "z = days + 719468"
  obtain yoe doy where yd: "march_of (z mod 146097) = (yoe, doy)" by force
  obtain mp d where md: "month_of doy = (mp, d)" by force
  have y: "0 \<le> yoe" "yoe \<le> 399" "0 \<le> doy" "doy \<le> 365"
      "days_of_march yoe doy = z mod 146097"
    using march_of_bounds [OF _ _ yd] by auto
  have m: "0 \<le> mp" "mp \<le> 11" "(153 * mp + 2) div 5 + d - 1 = doy"
    using month_of_bounds [OF y(3,4) md] by auto
  define mm where "mm = (if mp < 10 then mp + 3 else mp - 9)"
  have mm: "(if mm > 2 then mm - 3 else mm + 9) = mp" using m(1,2) by (auto simp: mm_def)
  have era: "(400 * (z div 146097) + yoe) div 400 = z div 146097"
    "(400 * (z div 146097) + yoe) mod 400 = yoe"
    using y(1,2) by auto
  have "civil_of_days days = (400 * (z div 146097) + yoe + (if mm \<le> 2 then 1 else 0), mm, d)"
    by (simp add: civil_of_days_def Let_def z_def [symmetric] yd md mm_def)
  then have "days_of_civil (civil_of_days days)
      = 146097 * (z div 146097) + days_of_march yoe ((153 * mp + 2) div 5 + d - 1) - 719468"
    using era mm by (auto simp: days_of_civil_def Let_def)
  also have "\<dots> = days" by (simp add: m(3) y(5) z_def)
  finally show ?thesis .
qed

lemma civil_bounds:
  "civil_of_days days = (y, m, d) \<Longrightarrow> 1 \<le> m \<and> m \<le> 12 \<and> 1 \<le> d \<and> d \<le> 31"
proof -
  assume a: "civil_of_days days = (y, m, d)"
  obtain yoe doy where yd: "march_of ((days + 719468) mod 146097) = (yoe, doy)" by force
  obtain mp d' where md: "month_of doy = (mp, d')" by force
  have "0 \<le> doy \<and> doy \<le> 365" using march_of_bounds [OF _ _ yd] by auto
  then show ?thesis
    using a month_of_bounds [OF _ _ md] by (auto simp: civil_of_days_def Let_def yd md split: if_splits)
qed

section \<open>RFC 3339\<close>

definition two_digits :: "int \<Rightarrow> string" where
  "two_digits i = zero_pad 2 (nat_str (nat i))"

definition year_str :: "int \<Rightarrow> string" where
  "year_str y = (if y < 0 then CHR ''-'' # zero_pad 4 (nat_str (nat (- y)))
                 else zero_pad 4 (nat_str (nat y)))"

text \<open>\<open>t.UTC().Format(time.RFC3339)\<close>, from the Unix second.\<close>

definition rfc3339 :: "int \<Rightarrow> string" where
  "rfc3339 s =
     (case civil_of_days (s div 86400) of (y, m, d) \<Rightarrow>
       let sod = s mod 86400 in
       year_str y @ ''-'' @ two_digits m @ ''-'' @ two_digits d @ ''T'' @
       two_digits (sod div 3600) @ '':'' @ two_digits (sod div 60 mod 60) @ '':'' @
       two_digits (sod mod 60) @ ''Z'')"

lemma length_two_digits: "i < 100 \<Longrightarrow> length (two_digits i) = 2"
  unfolding two_digits_def by (rule length_zero_pad) (simp add: length_nat_str_small)

lemma two_digits_inject: "0 \<le> i \<Longrightarrow> 0 \<le> j \<Longrightarrow> two_digits i = two_digits j \<longleftrightarrow> i = j"
  by (auto simp: two_digits_def)

lemma two_digits_digits: "c \<in> set (two_digits i) \<Longrightarrow> is_digit c"
  unfolding two_digits_def by (blast intro: zero_pad_digits nat_str_digits)

lemma dash_not_digit: "\<not> is_digit (CHR ''-'')"
  by (simp add: is_digit_def)

lemma zero_pad_not_dash: "zero_pad w (nat_str n) \<noteq> CHR ''-'' # s"
  by (metis dash_not_digit list.set_intros(1) nat_str_digits zero_pad_digits)

lemma year_str_inject: "year_str y = year_str y' \<Longrightarrow> y = y'"
  using zero_pad_not_dash zero_pad_not_dash [symmetric]
  by (auto simp: year_str_def split: if_splits)

text \<open>A stamp of fixed-width fields is determined field by field.\<close>

lemma stamp_eq:
  assumes "length a = 2" "length b = 2" "length c = 2" "length e = 2" "length f = 2"
    and "length a' = 2" "length b' = 2" "length c' = 2" "length e' = 2" "length f' = 2"
    and "y @ ''-'' @ a @ ''-'' @ b @ ''T'' @ c @ '':'' @ e @ '':'' @ f @ ''Z''
       = y' @ ''-'' @ a' @ ''-'' @ b' @ ''T'' @ c' @ '':'' @ e' @ '':'' @ f' @ ''Z''"
  shows "y = y' \<and> a = a' \<and> b = b' \<and> c = c' \<and> e = e' \<and> f = f'"
  using assms by (auto simp: length_Suc_conv numeral_2_eq_2)

lemma rfc3339_inject:
  assumes eq: "rfc3339 s = rfc3339 t"
  shows "s = t"
proof -
  obtain y m d where c: "civil_of_days (s div 86400) = (y, m, d)" by (metis prod_cases3)
  obtain y' m' d' where c': "civil_of_days (t div 86400) = (y', m', d')" by (metis prod_cases3)
  note b = civil_bounds [OF c] civil_bounds [OF c']
  define p where "p = s mod 86400"
  define q where "q = t mod 86400"
  have pq: "0 \<le> p" "p < 86400" "0 \<le> q" "q < 86400" by (simp_all add: p_def q_def)
  then have r: "p div 3600 < 100" "q div 3600 < 100" "p div 60 mod 60 < 100"
    "q div 60 mod 60 < 100" "p mod 60 < 100" "q mod 60 < 100" by simp_all
  have len: "length (two_digits m) = 2" "length (two_digits m') = 2" "length (two_digits d) = 2"
    "length (two_digits d') = 2" using b by (simp_all add: length_two_digits)
  have h: "length (two_digits (p div 3600)) = 2" "length (two_digits (p div 60 mod 60)) = 2"
    "length (two_digits (p mod 60)) = 2" "length (two_digits (q div 3600)) = 2"
    "length (two_digits (q div 60 mod 60)) = 2" "length (two_digits (q mod 60)) = 2"
    using r by (simp_all only: length_two_digits)
  have "year_str y = year_str y' \<and> two_digits m = two_digits m' \<and> two_digits d = two_digits d'
    \<and> two_digits (p div 3600) = two_digits (q div 3600)
    \<and> two_digits (p div 60 mod 60) = two_digits (q div 60 mod 60)
    \<and> two_digits (p mod 60) = two_digits (q mod 60)"
    by (rule stamp_eq [OF len(1,3) h(1,2,3) len(2,4) h(4,5,6)])
      (use eq in \<open>simp only: rfc3339_def c c' p_def q_def Let_def prod.case\<close>)
  then have "y = y'" "m = m'" "d = d'" "p div 3600 = q div 3600" "p div 60 mod 60 = q div 60 mod 60"
    "p mod 60 = q mod 60"
    using b pq by (simp_all add: two_digits_inject year_str_inject)
  have "s div 86400 = t div 86400"
    using civil_roundtrip c c' \<open>y = y'\<close> \<open>m = m'\<close> \<open>d = d'\<close> by metis
  have "p div 60 = 60 * (p div 3600) + p div 60 mod 60" for p :: int
    using zdiv_zmult2_eq [of 60 p 60] mult_div_mod_eq [of 60 "p div 60"] by simp
  then have "p div 60 = q div 60"
    using \<open>p div 3600 = q div 3600\<close> \<open>p div 60 mod 60 = q div 60 mod 60\<close> by metis
  then have "p = q" using \<open>p mod 60 = q mod 60\<close> by (metis div_mult_mod_eq)
  note \<open>s div 86400 = t div 86400\<close> \<open>p = q\<close>
  then show ?thesis by (metis p_def q_def div_mult_mod_eq)
qed

lemma rfc3339_no_newline: "newline_char \<notin> set (rfc3339 s)"
proof -
  have n: "\<not> is_digit newline_char" by (simp add: is_digit_def)
  then have t: "newline_char \<notin> set (two_digits i)" for i using two_digits_digits by blast
  have y: "newline_char \<notin> set (year_str i)" for i
    using n by (auto simp: year_str_def dest!: zero_pad_digits [rotated] nat_str_digits)
  show ?thesis by (auto simp: rfc3339_def t y Let_def split: prod.splits)
qed

lemma rfc3339_epoch: "rfc3339 0 = ''1970-01-01T00:00:00Z''"
  by code_simp

lemma rfc3339_leap_day: "rfc3339 951827696 = ''2000-02-29T12:34:56Z''"
  by code_simp

section \<open>Printing durations\<close>

text \<open>\<open>Duration.String\<close>: hours, minutes and seconds with the fraction's trailing zeros dropped.\<close>

definition frac_str :: "nat \<Rightarrow> nat \<Rightarrow> string" where
  "frac_str u prec =
     (let digits = trim_right_if (\<lambda>c. c = CHR ''0'') (zero_pad prec (nat_str (u mod 10 ^ prec)))
      in if digits = [] then [] else CHR ''.'' # digits)"

definition duration_body :: "nat \<Rightarrow> string" where
  "duration_body u =
     (if u < 1000 then nat_str u @ ''ns''
      else if u < 1000000 then nat_str (u div 1000) @ frac_str u 3 @ [CHR 0xC2, CHR 0xB5, CHR ''s'']
      else if u < 1000000000 then nat_str (u div 1000000) @ frac_str u 6 @ ''ms''
      else
        (let secs = u div 1000000000; m = secs div 60; h = m div 60
         in (if h > 0 then nat_str h @ ''h'' else []) @
            (if m > 0 then nat_str (m mod 60) @ ''m'' else []) @
            nat_str (secs mod 60) @ frac_str u 9 @ ''s''))"

definition duration_str :: "duration \<Rightarrow> string" where
  "duration_str d =
     (if d = 0 then ''0s'' else if d < 0 then CHR ''-'' # duration_body (nat (- d))
      else duration_body (nat d))"

text \<open>\<open>d.Round(m)\<close> for a duration that is not negative: half a unit rounds up.\<close>

definition round_duration :: "duration \<Rightarrow> duration \<Rightarrow> duration" where
  "round_duration d m = (d + m div 2) div m * m"

end
