(* ===== verification/Audit_Chain.thy ===== *)
theory Audit_Chain
  imports Go_Time
begin

text \<open>
  The tamper-evident decision log of \<open>internal/audit/chain.go\<close>: the record, its canonical form
  (the hash preimage), sealing a record after its predecessor, and the verification of a chain or
  of a suffix of one against an anchor and a checkpoint.

  The hash is a parameter \<open>H\<close>: the hexadecimal SHA-256 digest of a byte string.  What the log
  needs of it is that the preimages actually hashed do not collide, and that is the hypothesis
  \<open>inj_on H S\<close> of the theorems that need it, for the finite set \<open>S\<close> of those preimages.
\<close>

type_synonym digest_fn = "string \<Rightarrow> string"

section \<open>Records\<close>

record audit_record =
  ar_seq :: uint64
  ar_time :: go_time
  ar_type :: string
  ar_subject :: string
  ar_actor :: string
  ar_detail :: str_map
  ar_prev :: string
  ar_hash :: string

definition genesis_hash :: string where
  "genesis_hash = replicate 64 (CHR ''0'')"

definition event_risk_accepted :: string where "event_risk_accepted = ''RiskAccepted''"
definition event_verdict_issued :: string where "event_verdict_issued = ''VerdictIssued''"
definition event_deployment_blocked :: string where
  "event_deployment_blocked = ''DeploymentBlocked''"
definition event_deployment_admitted :: string where
  "event_deployment_admitted = ''DeploymentAdmitted''"
definition event_model_promoted :: string where "event_model_promoted = ''ModelPromoted''"
definition event_promotion_refused :: string where
  "event_promotion_refused = ''PromotionRefused''"

lemmas event_types =
  event_risk_accepted_def event_verdict_issued_def event_deployment_blocked_def
  event_deployment_admitted_def event_model_promoted_def event_promotion_refused_def

section \<open>The canonical form\<close>

definition escape_char :: "char \<Rightarrow> string" where
  "escape_char c =
     (if c = backslash_char then [backslash_char, backslash_char]
      else if c = newline_char then [backslash_char, CHR ''n'']
      else if c = CHR '':'' then [backslash_char, CHR ''c'']
      else if c = CHR '';'' then [backslash_char, CHR ''s'']
      else if c = CHR ''='' then [backslash_char, CHR ''e'']
      else [c])"

definition escape :: "string \<Rightarrow> string" where
  "escape s = concat (map escape_char s)"

definition canonical_detail :: "str_map \<Rightarrow> string" where
  "canonical_detail d =
     concat (map (\<lambda>k. escape k @ '':'' @ escape (sm_get d k) @ '';'') (sort (map fst d)))"

definition canonical :: "audit_record \<Rightarrow> string" where
  "canonical r =
     ''seq='' @ nat_str (unat (ar_seq r)) @
     newline_char # ''time='' @ rfc3339 (unix_sec (ar_time r)) @
     newline_char # ''type='' @ ar_type r @
     newline_char # ''subject='' @ escape (ar_subject r) @
     newline_char # ''actor='' @ escape (ar_actor r) @
     newline_char # ''prev='' @ ar_prev r @
     newline_char # ''detail='' @ canonical_detail (ar_detail r) @ [newline_char]"

definition compute_hash :: "digest_fn \<Rightarrow> audit_record \<Rightarrow> string" where
  "compute_hash H r = H (canonical r)"

text \<open>Undoing the escape, which the code never has to do: it shows that the escape loses nothing.\<close>

fun unescape :: "string \<Rightarrow> string" where
  "unescape [] = []"
| "unescape [c] = [c]"
| "unescape (c # d # s) =
     (if c = backslash_char then
        (if d = CHR ''n'' then newline_char else if d = CHR ''c'' then CHR '':''
         else if d = CHR ''s'' then CHR '';'' else if d = CHR ''e'' then CHR ''='' else d)
        # unescape s
      else c # unescape (d # s))"

lemma escape_simps [go_string_simps]:
  "escape [] = []" "escape (c # s) = escape_char c @ escape s"
  by (simp_all add: escape_def)

lemma unescape_escape_char: "unescape (escape_char c @ s) = c # unescape s"
  by (cases s) (auto simp: escape_char_def)

lemma unescape_escape: "unescape (escape s) = s"
  by (induction s) (simp_all add: escape_simps unescape_escape_char)

lemma escape_inject [simp]: "escape s = escape t \<longleftrightarrow> s = t"
  by (metis unescape_escape)

lemma escape_no_delim:
  "c \<in> {newline_char, CHR '':'', CHR '';'', CHR ''=''} \<Longrightarrow> c \<notin> set (escape s)"
  by (induction s) (auto simp: escape_simps escape_char_def)

lemma escape_no_newline [simp]: "newline_char \<notin> set (escape s)"
  by (rule escape_no_delim) simp

text \<open>The detail of a record is determined by its canonical form.\<close>

definition encode_pair :: "string \<times> string \<Rightarrow> string" where
  "encode_pair p = escape (fst p) @ CHR '':'' # escape (snd p) @ [CHR '';'']"

lemma encode_pair_append_eq:
  "encode_pair p @ s = encode_pair q @ t \<longleftrightarrow> p = q \<and> s = t"
proof
  assume "encode_pair p @ s = encode_pair q @ t"
  then have e: "escape (fst p) @ CHR '':'' # escape (snd p) @ CHR '';'' # s
      = escape (fst q) @ CHR '':'' # escape (snd q) @ CHR '';'' # t"
    by (simp add: encode_pair_def)
  have "CHR '':'' \<notin> set (escape x)" "CHR '';'' \<notin> set (escape x)" for x
    by (simp_all add: escape_no_delim)
  note n = this
  from append_sep_eq [OF n(1) n(1) e]
  have k: "escape (fst p) = escape (fst q)"
    and r: "escape (snd p) @ CHR '';'' # s = escape (snd q) @ CHR '';'' # t" by simp_all
  from append_sep_eq [OF n(2) n(2) r] k show "p = q \<and> s = t" by (simp add: prod_eq_iff)
qed simp

lemma encode_pair_not_Nil: "encode_pair p \<noteq> []"
  by (simp add: encode_pair_def)

lemma encode_pairs_inject:
  "concat (map encode_pair ps) = concat (map encode_pair qs) \<Longrightarrow> ps = qs"
proof (induction ps arbitrary: qs)
  case Nil
  then show ?case by (cases qs) (auto simp: encode_pair_not_Nil)
next
  case (Cons p ps)
  then show ?case
    by (cases qs) (auto simp: encode_pair_not_Nil encode_pair_append_eq)
qed

lemma canonical_detail_pairs:
  "canonical_detail d = concat (map encode_pair (map (\<lambda>k. (k, sm_get d k)) (sort (map fst d))))"
  by (simp add: canonical_detail_def encode_pair_def comp_def)

lemma canonical_detail_inject:
  assumes "canonical_detail d = canonical_detail e"
  shows "map_of d = map_of e"
proof
  fix k
  have "map (\<lambda>k. (k, sm_get d k)) (sort (map fst d)) = map (\<lambda>k. (k, sm_get e k)) (sort (map fst e))"
    using assms by (intro encode_pairs_inject) (simp only: canonical_detail_pairs)
  then have "set (map (\<lambda>k. (k, sm_get d k)) (sort (map fst d)))
      = set (map (\<lambda>k. (k, sm_get e k)) (sort (map fst e)))" by simp
  then have "(\<lambda>k. (k, sm_get d k)) ` fst ` set d = (\<lambda>k. (k, sm_get e k)) ` fst ` set e"
    by simp
  then have g: "fst ` set d = fst ` set e \<and> (\<forall>k \<in> fst ` set d. sm_get d k = sm_get e k)"
    by (rule graph_eqD)
  show "map_of d k = map_of e k"
  proof (cases "k \<in> fst ` set d")
    case True
    then have "map_of d k \<noteq> None" "map_of e k \<noteq> None"
      using g by (simp_all add: map_of_eq_None_iff)
    moreover have "sm_get d k = sm_get e k" using g True by blast
    ultimately show ?thesis by (auto simp: sm_get_def)
  next
    case False
    with g have "map_of d k = None" "map_of e k = None" by (simp_all add: map_of_eq_None_iff)
    then show ?thesis by simp
  qed
qed

lemma canonical_detail_no_newline [simp]: "newline_char \<notin> set (canonical_detail d)"
  by (auto simp: canonical_detail_def)

lemma nat_str_no_newline [simp]: "newline_char \<notin> set (nat_str n)"
  using nat_str_digits [of newline_char n] by (auto simp: is_digit_def)

text \<open>
  What the hash of a record commits to.  A record is well formed when its type and its link hold no
  line break: the two fields the canonical form writes without escaping them.  Every type the code
  writes is one of its constants, and a link is a digest.
\<close>

definition record_wf :: "audit_record \<Rightarrow> bool" where
  "record_wf r \<longleftrightarrow> newline_char \<notin> set (ar_type r) \<and> newline_char \<notin> set (ar_prev r)"

definition same_event :: "audit_record \<Rightarrow> audit_record \<Rightarrow> bool" where
  "same_event r q \<longleftrightarrow>
     ar_seq r = ar_seq q \<and> unix_sec (ar_time r) = unix_sec (ar_time q) \<and> ar_type r = ar_type q
     \<and> ar_subject r = ar_subject q \<and> ar_actor r = ar_actor q
     \<and> map_of (ar_detail r) = map_of (ar_detail q) \<and> ar_prev r = ar_prev q"

lemma canonical_newlines:
  "count_list (canonical r) newline_char
     = 7 + count_list (ar_type r) newline_char + count_list (ar_prev r) newline_char"
proof -
  have z: "count_list s newline_char = 0" if "newline_char \<notin> set s" for s :: string
    using that by (simp add: count_list_0_iff)
  show ?thesis
    by (simp add: canonical_def z rfc3339_no_newline)
qed

lemma record_wf_transfer:
  assumes "record_wf r" and "canonical r = canonical q"
  shows "record_wf q"
proof -
  have "count_list (ar_type r) newline_char = 0" "count_list (ar_prev r) newline_char = 0"
    using assms(1) by (simp_all add: record_wf_def count_list_0_iff)
  moreover have "count_list (canonical r) newline_char = count_list (canonical q) newline_char"
    using assms(2) by simp
  ultimately have "count_list (ar_type q) newline_char = 0 \<and> count_list (ar_prev q) newline_char = 0"
    by (simp add: canonical_newlines)
  then show ?thesis by (simp add: record_wf_def count_list_0_iff)
qed

text \<open>One line of the canonical form: a label, then a text without a line break.\<close>

lemma line_eqD:
  assumes "newline_char \<notin> set a" and "newline_char \<notin> set b"
    and "newline_char \<notin> set l" and "(l @ a) @ newline_char # s = (l @ b) @ newline_char # t"
  shows "a = b \<and> s = t"
  using append_sep_eq [of newline_char "l @ a" "l @ b" s t] assms by auto

lemma canonical_content:
  assumes "record_wf r" and "record_wf q" and "canonical r = canonical q"
  shows "same_event r q"
proof -
  have wf: "newline_char \<notin> set (ar_type r)" "newline_char \<notin> set (ar_type q)"
    "newline_char \<notin> set (ar_prev r)" "newline_char \<notin> set (ar_prev q)"
    using assms(1,2) by (simp_all add: record_wf_def)
  have e1: "(''seq='' @ nat_str (unat (ar_seq r))) @ newline_char #
      ((''time='' @ rfc3339 (unix_sec (ar_time r))) @ newline_char #
      ((''type='' @ ar_type r) @ newline_char #
      ((''subject='' @ escape (ar_subject r)) @ newline_char #
      ((''actor='' @ escape (ar_actor r)) @ newline_char #
      ((''prev='' @ ar_prev r) @ newline_char #
      ((''detail='' @ canonical_detail (ar_detail r)) @ newline_char # []))))))
    = (''seq='' @ nat_str (unat (ar_seq q))) @ newline_char #
      ((''time='' @ rfc3339 (unix_sec (ar_time q))) @ newline_char #
      ((''type='' @ ar_type q) @ newline_char #
      ((''subject='' @ escape (ar_subject q)) @ newline_char #
      ((''actor='' @ escape (ar_actor q)) @ newline_char #
      ((''prev='' @ ar_prev q) @ newline_char #
      ((''detail='' @ canonical_detail (ar_detail q)) @ newline_char # []))))))"
    using assms(3) by (simp only: canonical_def append_assoc append_Cons append_Nil)
  have l: "newline_char \<notin> set ''seq=''" "newline_char \<notin> set ''time=''"
    "newline_char \<notin> set ''type=''" "newline_char \<notin> set ''subject=''"
    "newline_char \<notin> set ''actor=''" "newline_char \<notin> set ''prev=''"
    "newline_char \<notin> set ''detail=''" by simp_all
  note c1 = line_eqD [OF nat_str_no_newline nat_str_no_newline l(1) e1]
  note c2 = line_eqD [OF rfc3339_no_newline rfc3339_no_newline l(2) c1 [THEN conjunct2]]
  note c3 = line_eqD [OF wf(1,2) l(3) c2 [THEN conjunct2]]
  note c4 = line_eqD [OF escape_no_newline escape_no_newline l(4) c3 [THEN conjunct2]]
  note c5 = line_eqD [OF escape_no_newline escape_no_newline l(5) c4 [THEN conjunct2]]
  note c6 = line_eqD [OF wf(3,4) l(6) c5 [THEN conjunct2]]
  note c7 = line_eqD [OF canonical_detail_no_newline canonical_detail_no_newline l(7)
      c6 [THEN conjunct2]]
  show ?thesis
    using c1 [THEN conjunct1] c3 [THEN conjunct1] c4 [THEN conjunct1] c5 [THEN conjunct1]
      c6 [THEN conjunct1] rfc3339_inject [OF c2 [THEN conjunct1]]
      canonical_detail_inject [OF c7 [THEN conjunct1]]
    by (simp add: same_event_def word_unat_eq_iff)
qed

section \<open>Sealing\<close>

definition seal :: "digest_fn \<Rightarrow> audit_record \<Rightarrow> audit_record option \<Rightarrow> audit_record" where
  "seal H r prev =
     (let r1 = (case prev of
                  None \<Rightarrow> r\<lparr>ar_seq := 1, ar_prev := genesis_hash\<rparr>
                | Some p \<Rightarrow> r\<lparr>ar_seq := ar_seq p + 1, ar_prev := ar_hash p\<rparr>);
          r2 = r1\<lparr>ar_time := truncate_sec (ar_time r1)\<rparr>
      in r2\<lparr>ar_hash := compute_hash H r2\<rparr>)"

section \<open>Checkpoints, anchors and verification\<close>

record anchor =
  an_length :: uint64
  an_head :: string
  an_location :: string

record checkpoint =
  cp_length :: uint64
  cp_head :: string
  cp_time :: go_time
  cp_archived :: "anchor option"

definition checkpoint_anchor :: "checkpoint option \<Rightarrow> anchor option" where
  "checkpoint_anchor c = (case c of None \<Rightarrow> None | Some cp \<Rightarrow> cp_archived cp)"

record verification =
  v_valid :: bool
  v_length :: uint64
  v_anchored :: uint64
  v_head :: string
  v_problems :: "string list"

definition short :: "string \<Rightarrow> string" where
  "short h = (if length h \<le> 12 then h else take 12 h)"

definition u64_str :: "uint64 \<Rightarrow> string" where
  "u64_str w = nat_str (unat w)"

definition flag :: "string \<Rightarrow> verification \<Rightarrow> verification" where
  "flag msg v = v\<lparr>v_problems := v_problems v @ [msg], v_valid := False\<rparr>"

definition check_record ::
    "digest_fn \<Rightarrow> uint64 \<Rightarrow> string \<Rightarrow> audit_record \<Rightarrow> verification \<Rightarrow> verification" where
  "check_record H want_seq prev r v =
     (let v1 = (if ar_seq r \<noteq> want_seq
                then flag (''record '' @ u64_str want_seq @ '' claims sequence '' @
                  u64_str (ar_seq r) @ '': a record was inserted, removed, or reordered'') v
                else v);
          v2 = (if ar_prev r \<noteq> prev
                then flag (''record '' @ u64_str (ar_seq r) @ '' does not follow record '' @
                  u64_str (ar_seq r - 1) @ '': expected predecessor '' @ short prev @
                  '', found '' @ short (ar_prev r)) v1
                else v1);
          got = compute_hash H r
      in if got \<noteq> ar_hash r
         then flag (''record '' @ u64_str (ar_seq r) @
           '' has been modified since it was written: contents hash to '' @ short got @
           '' but it carries '' @ short (ar_hash r)) v2
         else v2)"

fun verify_walk ::
    "digest_fn \<Rightarrow> uint64 \<Rightarrow> string \<Rightarrow> audit_record list \<Rightarrow> verification \<Rightarrow> verification \<times> string"
where
  "verify_walk H want_seq prev [] v = (v, prev)"
| "verify_walk H want_seq prev (r # rs) v =
     verify_walk H (want_seq + 1) (ar_hash r) rs (check_record H want_seq prev r v)"

definition check_checkpoint :: "checkpoint option \<Rightarrow> verification \<Rightarrow> verification" where
  "check_checkpoint c v =
     (case c of None \<Rightarrow> v
      | Some cp \<Rightarrow>
          if v_length v < cp_length cp
          then flag (''the log is shorter than its checkpoint: '' @ u64_str (v_length v) @
            '' records now, '' @ u64_str (cp_length cp) @ '' at checkpoint time. '' @
            ''Records have been deleted from the end, which an unanchored chain cannot show.'') v
          else if v_length v = cp_length cp \<and> v_head v \<noteq> cp_head cp
          then flag (''the log has the checkpointed length but a different head ('' @
            short (v_head v) @ '', checkpoint says '' @ short (cp_head cp) @ ''): '' @
            ''it has been rewritten.'') v
          else v)"

definition verify_from ::
    "digest_fn \<Rightarrow> audit_record list \<Rightarrow> anchor option \<Rightarrow> checkpoint option \<Rightarrow> verification" where
  "verify_from H records anc cp =
     (let offset = (case anc of None \<Rightarrow> 0 | Some a \<Rightarrow> an_length a);
          prev = (case anc of None \<Rightarrow> genesis_hash | Some a \<Rightarrow> an_head a);
          v = \<lparr>v_valid = True, v_length = 0, v_anchored = offset, v_head = prev, v_problems = []\<rparr>;
          (v1, last_hash) = verify_walk H (offset + 1) prev records v;
          v2 = v1\<lparr>v_length := offset + of_nat (length records), v_head := last_hash\<rparr>
      in check_checkpoint cp v2)"

definition verify :: "digest_fn \<Rightarrow> audit_record list \<Rightarrow> checkpoint option \<Rightarrow> verification" where
  "verify H records cp = verify_from H records None cp"

text \<open>\<open>Head(records)\<close>, at the time \<open>now\<close>.\<close>

definition head_checkpoint :: "go_time \<Rightarrow> audit_record list \<Rightarrow> checkpoint" where
  "head_checkpoint now records =
     \<lparr>cp_length = of_nat (length records),
      cp_head = (if records = [] then genesis_hash else ar_hash (last records)),
      cp_time = truncate_sec now, cp_archived = None\<rparr>"

section \<open>The specification of a chain\<close>

text \<open>
  A chain that continues a prefix of \<open>n\<close> records with head \<open>h\<close>: every record carries the next
  number, links to the hash before it and carries the hash of its own content.  It says nothing
  about problems, messages or the order of the checks: \<open>verify_from_valid_iff\<close> is the refinement.
\<close>

fun chain_ok :: "digest_fn \<Rightarrow> uint64 \<Rightarrow> string \<Rightarrow> audit_record list \<Rightarrow> bool" where
  "chain_ok H n h [] \<longleftrightarrow> True"
| "chain_ok H n h (r # rs) \<longleftrightarrow>
     ar_seq r = n + 1 \<and> ar_prev r = h \<and> ar_hash r = compute_hash H r \<and>
     chain_ok H (n + 1) (ar_hash r) rs"

definition head_hash :: "string \<Rightarrow> audit_record list \<Rightarrow> string" where
  "head_hash h rs = (if rs = [] then h else ar_hash (last rs))"

definition anchor_length :: "anchor option \<Rightarrow> uint64" where
  "anchor_length anc = (case anc of None \<Rightarrow> 0 | Some a \<Rightarrow> an_length a)"

definition anchor_head :: "anchor option \<Rightarrow> string" where
  "anchor_head anc = (case anc of None \<Rightarrow> genesis_hash | Some a \<Rightarrow> an_head a)"

definition checkpoint_ok :: "checkpoint option \<Rightarrow> uint64 \<Rightarrow> string \<Rightarrow> bool" where
  "checkpoint_ok c n h \<longleftrightarrow>
     (case c of None \<Rightarrow> True
      | Some cp \<Rightarrow> cp_length cp < n \<or> (cp_length cp = n \<and> cp_head cp = h))"

lemma head_hash_simps [simp]:
  "head_hash h [] = h" "head_hash h (r # rs) = head_hash (ar_hash r) rs"
  "head_hash h (rs @ [r]) = ar_hash r"
  by (simp_all add: head_hash_def)

lemma head_hash_append [simp]: "head_hash h (xs @ ys) = head_hash (head_hash h xs) ys"
  by (simp add: head_hash_def)

lemma chain_ok_append [simp]:
  "chain_ok H n h (xs @ ys) \<longleftrightarrow>
     chain_ok H n h xs \<and> chain_ok H (n + of_nat (length xs)) (head_hash h xs) ys"
  by (induction xs arbitrary: n h) (auto simp: add.assoc)

lemma flag_simps [simp]:
  "v_valid (flag m v) = False" "v_anchored (flag m v) = v_anchored v"
  "v_length (flag m v) = v_length v" "v_head (flag m v) = v_head v"
  by (simp_all add: flag_def)

lemma check_record_simps [simp]:
  "v_valid (check_record H n h r v) \<longleftrightarrow>
     v_valid v \<and> ar_seq r = n \<and> ar_prev r = h \<and> ar_hash r = compute_hash H r"
  "v_anchored (check_record H n h r v) = v_anchored v"
  by (auto simp: check_record_def Let_def)

lemma verify_walk_spec:
  "v_valid (fst (verify_walk H w h rs v)) \<longleftrightarrow> v_valid v \<and> chain_ok H (w - 1) h rs"
  "snd (verify_walk H w h rs v) = head_hash h rs"
  "v_anchored (fst (verify_walk H w h rs v)) = v_anchored v"
  by (induction rs arbitrary: w h v) auto

lemma check_checkpoint_valid:
  "v_valid (check_checkpoint c v) \<longleftrightarrow> v_valid v \<and> checkpoint_ok c (v_length v) (v_head v)"
  by (auto simp: check_checkpoint_def checkpoint_ok_def split: option.splits)

lemma check_checkpoint_frame [simp]:
  "v_length (check_checkpoint c v) = v_length v" "v_head (check_checkpoint c v) = v_head v"
  "v_anchored (check_checkpoint c v) = v_anchored v"
  by (auto simp: check_checkpoint_def split: option.splits)

lemma verify_from_frame:
  "v_length (verify_from H rs anc cp) = anchor_length anc + of_nat (length rs)"
  "v_head (verify_from H rs anc cp) = head_hash (anchor_head anc) rs"
  "v_anchored (verify_from H rs anc cp) = anchor_length anc"
  by (simp_all add: verify_from_def Let_def verify_walk_spec case_prod_beta anchor_length_def
      anchor_head_def)

lemma verify_from_valid:
  "v_valid (verify_from H rs anc cp) \<longleftrightarrow>
     chain_ok H (anchor_length anc) (anchor_head anc) rs \<and>
     checkpoint_ok cp (anchor_length anc + of_nat (length rs)) (head_hash (anchor_head anc) rs)"
  by (simp add: verify_from_def Let_def verify_walk_spec check_checkpoint_valid case_prod_beta
      anchor_length_def anchor_head_def)


section \<open>Lemmas on chains\<close>

lemma chain_ok_last_seq:
  "chain_ok H n h rs \<Longrightarrow> rs \<noteq> [] \<Longrightarrow> ar_seq (last rs) = n + of_nat (length rs)"
  by (induction rs rule: rev_induct) (auto simp: add.assoc)

lemma chain_ok_nth_seq:
  "chain_ok H n h rs \<Longrightarrow> i < length rs \<Longrightarrow> ar_seq (rs ! i) = n + of_nat (Suc i)"
  by (induction rs arbitrary: n h i) (auto simp: nth_Cons' algebra_simps)

lemma seal_simps [simp]:
  "ar_seq (seal H r None) = 1" "ar_prev (seal H r None) = genesis_hash"
  "ar_seq (seal H r (Some p)) = ar_seq p + 1" "ar_prev (seal H r (Some p)) = ar_hash p"
  "ar_time (seal H r prev) = truncate_sec (ar_time r)" "ar_type (seal H r prev) = ar_type r"
  "ar_subject (seal H r prev) = ar_subject r" "ar_actor (seal H r prev) = ar_actor r"
  "ar_detail (seal H r prev) = ar_detail r"
  by (simp_all add: seal_def Let_def split: option.split)

definition sealed_after :: "digest_fn \<Rightarrow> audit_record list \<Rightarrow> audit_record \<Rightarrow> audit_record" where
  "sealed_after H rs event = seal H event (if rs = [] then None else Some (last rs))"

lemma canonical_hash_irrelevant [simp]: "canonical (r\<lparr>ar_hash := h\<rparr>) = canonical r"
  by (simp add: canonical_def)

lemma seal_hash [simp]: "ar_hash (seal H r prev) = compute_hash H (seal H r prev)"
  by (simp add: seal_def Let_def compute_hash_def)

lemma chain_unique:
  assumes "chain_ok H n h rs" and "chain_ok H n h qs" and "length rs = length qs"
    and "head_hash h rs = head_hash h qs"
    and "\<forall>r \<in> set rs. record_wf r" and "inj_on H (canonical ` (set rs \<union> set qs))"
  shows "list_all2 same_event rs qs \<and> map ar_hash rs = map ar_hash qs"
  using assms
proof (induction rs arbitrary: qs rule: rev_induct)
  case Nil
  then show ?case by simp
next
  case (snoc r rs)
  then obtain qs' q where qs: "qs = qs' @ [q]"
    by (metis append_Nil2 length_0_conv rev_exhaust snoc_eq_iff_butlast)
  have hash: "H (canonical r) = H (canonical q)"
    using snoc.prems(1,2,4) by (simp add: qs compute_hash_def)
  moreover have "canonical r \<in> canonical ` (set (rs @ [r]) \<union> set qs)"
    "canonical q \<in> canonical ` (set (rs @ [r]) \<union> set qs)" by (simp_all add: qs)
  ultimately have "canonical r = canonical q" by (rule inj_onD [OF snoc.prems(6)])
  moreover have wf: "record_wf r" using snoc.prems(5) by simp
  ultimately have same: "same_event r q"
    using record_wf_transfer canonical_content by blast
  have "head_hash h rs = head_hash h qs'"
    using same snoc.prems(1,2) by (simp add: qs same_event_def)
  moreover have "inj_on H (canonical ` (set rs \<union> set qs'))"
    by (rule inj_on_subset [OF snoc.prems(6)]) (auto simp: qs)
  ultimately have "list_all2 same_event rs qs' \<and> map ar_hash rs = map ar_hash qs'"
    using snoc.prems by (intro snoc.IH) (auto simp: qs)
  then show ?case
    using same snoc.prems(4) by (simp add: qs list_all2_appendI)
qed

lemma unat_of_nat_u64: "n < 2 ^ 64 \<Longrightarrow> unat (of_nat n :: uint64) = n"
  by (simp add: unat_of_nat)

lemma of_nat_length_eq:
  "(of_nat m :: uint64) = of_nat n \<Longrightarrow> m < 2 ^ 64 \<Longrightarrow> n < 2 ^ 64 \<Longrightarrow> m = n"
  using unat_of_nat_u64 by metis

section \<open>Properties\<close>

text \<open>
  Claim C35. The canonical form commits to a whole record. Whatever record \<open>q\<close> an attacker writes,
  if it has the same hash preimage as a well-formed record \<open>r\<close> then it agrees with \<open>r\<close> in
  sequence number, second, type, subject, actor, link and every key and value of the detail.
\<close>

theorem canonical_commits:
  assumes "record_wf r" and "canonical r = canonical q"
  shows "same_event r q"
  using assms record_wf_transfer [OF assms] by (intro canonical_content)

definition sample_record :: audit_record where
  "sample_record =
     \<lparr>ar_seq = 1, ar_time = 1700000000500000000, ar_type = event_risk_accepted,
      ar_subject = ''fraud/v3'', ar_actor = ''alice'',
      ar_detail = [(''reason'', ''a;b:c''), (''findings'', ''CVE-1'')],
      ar_prev = genesis_hash, ar_hash = []\<rparr>"

text \<open>The same record with its detail in another order and the fraction of the second dropped.\<close>

definition sample_record' :: audit_record where
  "sample_record' =
     sample_record\<lparr>ar_time := 1700000000000000000,
       ar_detail := [(''findings'', ''CVE-1''), (''reason'', ''a;b:c'')]\<rparr>"

lemma sample_record_wf: "record_wf sample_record"
  by (simp add: record_wf_def sample_record_def event_types genesis_hash_def)

lemma sample_record_canonical: "canonical sample_record = canonical sample_record'"
  by code_simp

theorem canonical_commits_witness: "same_event sample_record sample_record'"
  using canonical_commits [OF sample_record_wf sample_record_canonical] .

text \<open>
  Verification decides the chain specification: the walk over the records with its
  accumulated problems reports a log valid exactly when every record from the anchor on carries the
  next number, links to its predecessor and hashes to what it carries, and the checkpoint, if one
  is given, is either behind the log or has its exact length and head.
\<close>

theorem verify_from_valid_iff:
  "v_valid (verify_from H rs anc cp) \<longleftrightarrow>
     chain_ok H (anchor_length anc) (anchor_head anc) rs \<and>
     checkpoint_ok cp (anchor_length anc + of_nat (length rs)) (head_hash (anchor_head anc) rs)"
  by (rule verify_from_valid)


text \<open>
  Sealing extends a valid log: the record sealed after the last record of a valid log
  (or as the first record of an empty one) makes a log that verifies against the checkpoint taken
  of it, whatever event was sealed.
\<close>

theorem seal_extends_valid_log:
  assumes "v_valid (verify H rs None)"
  shows "v_valid (verify H (rs @ [sealed_after H rs event])
           (Some (head_checkpoint now (rs @ [sealed_after H rs event]))))"
proof -
  define r where "r = sealed_after H rs event"
  have ok: "chain_ok H 0 genesis_hash rs"
    using assms(1) by (simp add: verify_def verify_from_valid anchor_length_def anchor_head_def)
  then have "ar_seq r = of_nat (length rs) + 1" "ar_prev r = head_hash genesis_hash rs"
    using chain_ok_last_seq [OF ok] by (auto simp: r_def sealed_after_def head_hash_def)
  moreover have "ar_hash r = compute_hash H r" by (simp add: r_def sealed_after_def)
  ultimately show ?thesis
    using ok unfolding r_def [symmetric] by (simp add: verify_def verify_from_valid anchor_length_def anchor_head_def
        checkpoint_ok_def head_checkpoint_def)
qed

text \<open>
  Claim C30. Tamper evidence. Two logs that continue the same anchor, both verify, and both have the
  length of the checkpoint they are verified against, are the same log record by record, with the
  same hashes, unless two of the preimages hashed collide.
\<close>

theorem tamper_evident:
  assumes "v_valid (verify_from H rs anc (Some cp))" and "v_valid (verify_from H qs anc (Some cp))"
    and "v_length (verify_from H rs anc (Some cp)) = cp_length cp"
    and "v_length (verify_from H qs anc (Some cp)) = cp_length cp"
    and "length rs < 2 ^ 64" and "length qs < 2 ^ 64"
    and "\<forall>r \<in> set rs. record_wf r" and "inj_on H (canonical ` (set rs \<union> set qs))"
  shows "list_all2 same_event rs qs \<and> map ar_hash rs = map ar_hash qs"
proof (rule chain_unique [OF _ _ _ _ assms(7,8)])
  show "chain_ok H (anchor_length anc) (anchor_head anc) rs"
    "chain_ok H (anchor_length anc) (anchor_head anc) qs"
    using assms(1,2) by (simp_all add: verify_from_valid)
  show "length rs = length qs"
  proof (rule of_nat_length_eq [OF _ assms(5,6)])
    have "anchor_length anc + of_nat (length rs) = anchor_length anc + of_nat (length qs)"
      using assms(3,4) unfolding verify_from_frame by metis
    then show "(of_nat (length rs) :: uint64) = of_nat (length qs)" by (rule add_left_imp_eq)
  qed
  show "head_hash (anchor_head anc) rs = head_hash (anchor_head anc) qs"
    using assms(1-4) by (auto simp: verify_from_valid verify_from_frame checkpoint_ok_def)
qed

definition event0 :: audit_record where
  "event0 = \<lparr>ar_seq = 0, ar_time = 5, ar_type = event_verdict_issued, ar_subject = ''m/1'',
     ar_actor = ''system'', ar_detail = [(''verdict'', ''Approved'')], ar_prev = [], ar_hash = []\<rparr>"

definition sample_log :: "audit_record list" where
  "sample_log =
     (let a = seal escape event0 None; b = seal escape (event0\<lparr>ar_actor := ''bob''\<rparr>) (Some a) in [a, b])"

lemma sample_log_wf: "\<forall>r \<in> set sample_log. record_wf r"
  by code_simp

theorem seal_extends_valid_log_witness:
  "v_valid (verify escape [sealed_after escape [] event0] (Some (head_checkpoint 9 [sealed_after escape [] event0])))"
proof -
  have "v_valid (verify escape [] None)"
    by (simp add: verify_def verify_from_valid checkpoint_ok_def)
  from seal_extends_valid_log [OF this, of event0 9] show ?thesis by simp
qed

theorem tamper_evident_witness:
  "list_all2 same_event sample_log sample_log \<and> map ar_hash sample_log = map ar_hash sample_log"
proof (rule tamper_evident [of escape sample_log None "head_checkpoint 0 sample_log"])
  show "v_valid (verify_from escape sample_log None (Some (head_checkpoint 0 sample_log)))"
    by (simp add: verify_from_valid sample_log_def Let_def anchor_length_def anchor_head_def
        checkpoint_ok_def head_checkpoint_def)
  then show "v_valid (verify_from escape sample_log None (Some (head_checkpoint 0 sample_log)))" .
  show "v_length (verify_from escape sample_log None (Some (head_checkpoint 0 sample_log)))
      = cp_length (head_checkpoint 0 sample_log)"
    by (simp add: verify_from_frame anchor_length_def head_checkpoint_def)
  then show "v_length (verify_from escape sample_log None (Some (head_checkpoint 0 sample_log)))
      = cp_length (head_checkpoint 0 sample_log)" .
  show "\<forall>r \<in> set sample_log. record_wf r" by (rule sample_log_wf)
  show "inj_on escape (canonical ` (set sample_log \<union> set sample_log))"
    by (rule inj_onI) simp
qed (simp_all add: sample_log_def Let_def)


text \<open>
  Truncation is caught. Once a checkpoint has been taken of a log (whole, or the suffix
  after an anchor), no log that lost a non-empty tail verifies against it.
\<close>

theorem truncation_detected:
  assumes "cp_length cp = anchor_length anc + of_nat (length (rs @ tail))" and "tail \<noteq> []"
    and "unat (anchor_length anc) + length (rs @ tail) < 2 ^ 64"
  shows "\<not> v_valid (verify_from H rs anc (Some cp))"
proof -
  have u: "unat (anchor_length anc + of_nat n) = unat (anchor_length anc) + n"
    if "unat (anchor_length anc) + n < 2 ^ 64" for n
    using that by (simp add: unat_word_ariths unat_of_nat)
  have "anchor_length anc + of_nat (length rs) < cp_length cp"
    unfolding word_less_nat_alt assms(1) using assms(2,3)
    by (subst u, simp, subst u, simp_all)
  then have "\<not> checkpoint_ok (Some cp) (anchor_length anc + of_nat (length rs)) h" for h
    by (auto simp: checkpoint_ok_def)
  then show ?thesis by (simp add: verify_from_valid)
qed

theorem truncation_detected_witness:
  "\<not> v_valid (verify_from escape [hd sample_log] None (Some (head_checkpoint 0 sample_log)))"
  by (rule truncation_detected [of _ None "[hd sample_log]" "tl sample_log"])
    (simp_all add: sample_log_def Let_def head_checkpoint_def anchor_length_def)

text \<open>
  Archiving keeps the proof. A log cut anywhere verifies as a whole exactly when its front
  verifies from the anchor and its rest verifies from the anchor the archiver publishes, the number
  and the last hash of everything up to the cut.
\<close>

theorem verify_split:
  "v_valid (verify_from H (xs @ ys) anc cp) \<longleftrightarrow>
     v_valid (verify_from H xs anc None) \<and>
     v_valid (verify_from H ys
       (Some \<lparr>an_length = v_length (verify_from H xs anc None),
              an_head = v_head (verify_from H xs anc None), an_location = loc\<rparr>) cp)"
  by (auto simp: verify_from_valid verify_from_frame checkpoint_ok_def anchor_length_def
      anchor_head_def add.assoc split: option.splits)

text \<open>
  A checkpoint says nothing about a longer log. The head of the checkpoint is compared
  only when the lengths agree, so a log that is longer than its checkpoint verifies exactly when it
  is internally consistent, also when it was rewritten from the first record.
\<close>

theorem longer_log_head_unchecked:
  assumes "cp_length cp < v_length (verify_from H rs anc None)"
  shows "v_valid (verify_from H rs anc (Some cp)) \<longleftrightarrow> v_valid (verify_from H rs anc None)"
  using assms by (simp add: verify_from_valid verify_from_frame checkpoint_ok_def)

definition rewritten_log :: "audit_record list" where
  "rewritten_log =
     (let a = seal escape (event0\<lparr>ar_actor := ''mallory''\<rparr>) None;
          b = seal escape event0 (Some a) in [a, b])"

text \<open>The checkpoint is taken of the first record of one log; another log passes it.\<close>

theorem longer_log_head_unchecked_witness:
  "v_valid (verify_from escape rewritten_log None (Some (head_checkpoint 0 [hd sample_log])))
   \<and> hd rewritten_log \<noteq> hd sample_log"
proof
  have "cp_length (head_checkpoint 0 [hd sample_log])
      < v_length (verify_from escape rewritten_log None None)"
    by (simp add: verify_from_frame anchor_length_def head_checkpoint_def rewritten_log_def Let_def)
  then have "v_valid (verify_from escape rewritten_log None (Some (head_checkpoint 0 [hd sample_log])))
      = v_valid (verify_from escape rewritten_log None None)"
    by (rule longer_log_head_unchecked)
  then show "v_valid (verify_from escape rewritten_log None
      (Some (head_checkpoint 0 [hd sample_log])))"
    by (simp add: verify_from_valid rewritten_log_def Let_def anchor_length_def anchor_head_def
        checkpoint_ok_def)
  have "ar_actor (hd rewritten_log) \<noteq> ar_actor (hd sample_log)"
    by (simp add: rewritten_log_def sample_log_def Let_def event0_def)
  then show "hd rewritten_log \<noteq> hd sample_log" by metis
qed

end
