(* ===== verification/Kube.thy ===== *)
theory Kube
  imports Cupel_Prelude
begin

text \<open>
  The Kubernetes client the source is written against.  The API server is not part of this
  repository, so every operation that talks to it takes the client as an argument: a record of
  functions on an abstract state of the world \<open>'s\<close>, one client per kind of object \<open>'o\<close>.  An object is
  read together with its resource version, and an update sends back the version that was read.

  \<open>kclient_ok\<close> states what the code relies on, the documented behaviour of the API server: a
  read returns what is stored, a create fails when the name is taken, an update fails when the
  object has changed since it was read, a call that reports another error may or may not have had its
  effect.  Between two calls other clients may act: what they may do is the relation \<open>env\<close>, a
  parameter of the law, so the same theorems hold with and without interference.
\<close>

datatype kerr = NotFound | AlreadyExists | Conflict | ApiError string

type_synonym okey = "string \<times> string"
type_synonym 'o view = "okey \<Rightarrow> ('o \<times> nat) option"

record ('s, 'o) kclient =
  k_get :: "okey \<Rightarrow> 's \<Rightarrow> (kerr + 'o \<times> nat) \<times> 's"
  k_create :: "okey \<Rightarrow> 'o \<Rightarrow> 's \<Rightarrow> kerr option \<times> 's"
  k_update :: "okey \<Rightarrow> 'o \<times> nat \<Rightarrow> 's \<Rightarrow> kerr option \<times> 's"
  k_delete :: "okey \<Rightarrow> 's \<Rightarrow> kerr option \<times> 's"
  k_list :: "string \<Rightarrow> 's \<Rightarrow> (kerr + (string \<times> 'o \<times> nat) list) \<times> 's"
  k_version :: "okey \<Rightarrow> 's \<Rightarrow> nat"

text \<open>
  The answer to a create or an update that succeeded carries the new version of the object:
  \<open>k_version c k s'\<close>, in the state \<open>s'\<close> after the call.  Most callers of a list need the objects only.
\<close>

definition list_plain :: "('s, 'o) kclient \<Rightarrow> string \<Rightarrow> 's \<Rightarrow> (kerr + (string \<times> 'o) list) \<times> 's" where
  "list_plain c ns s =
     (case k_list c ns s of
        (Inl e, s') \<Rightarrow> (Inl e, s')
      | (Inr xs, s') \<Rightarrow> (Inr (map (\<lambda>p. (fst p, fst (snd p))) xs), s'))"

section \<open>The laws\<close>

definition get_law :: "('s \<Rightarrow> 'o view) \<Rightarrow> ('s \<Rightarrow> 's \<Rightarrow> bool) \<Rightarrow> ('s, 'o) kclient \<Rightarrow> bool" where
  "get_law vw env c \<longleftrightarrow>
     (\<forall>k s r s'. k_get c k s = (r, s') \<longrightarrow>
        env s s' \<and>
        (case r of Inr o' \<Rightarrow> vw s' k = Some o' | Inl e \<Rightarrow> e = NotFound \<longrightarrow> vw s' k = None))"

definition list_law :: "('s \<Rightarrow> 'o view) \<Rightarrow> ('s \<Rightarrow> 's \<Rightarrow> bool) \<Rightarrow> ('s, 'o) kclient \<Rightarrow> bool" where
  "list_law vw env c \<longleftrightarrow>
     (\<forall>ns s r s'. k_list c ns s = (r, s') \<longrightarrow>
        env s s' \<and>
        (case r of
           Inr xs \<Rightarrow> distinct (map fst xs) \<and> (\<forall>n. map_of xs n = vw s' (ns, n))
         | Inl e \<Rightarrow> True))"

definition create_law ::
    "('s \<Rightarrow> 'o view) \<Rightarrow> ('s \<Rightarrow> 's \<Rightarrow> bool) \<Rightarrow> ('s \<Rightarrow> 's \<Rightarrow> bool) \<Rightarrow> ('s, 'o) kclient \<Rightarrow> bool" where
  "create_law vw fr env c \<longleftrightarrow>
     (\<forall>k x s r s'. k_create c k x s = (r, s') \<longrightarrow>
        (\<exists>t. env s t \<and> fr t s' \<and>
           (let written = (vw t k = None \<and> (\<exists>rv. vw s' = (vw t)(k \<mapsto> (x, rv))));
                untouched = (vw s' = vw t)
            in case r of
                 None \<Rightarrow> written
               | Some e \<Rightarrow> if e = AlreadyExists then vw t k \<noteq> None \<and> untouched
                           else written \<or> untouched)))"

definition update_law ::
    "('s \<Rightarrow> 'o view) \<Rightarrow> ('s \<Rightarrow> 's \<Rightarrow> bool) \<Rightarrow> ('s \<Rightarrow> 's \<Rightarrow> bool) \<Rightarrow> ('s, 'o) kclient \<Rightarrow> bool" where
  "update_law vw fr env c \<longleftrightarrow>
     (\<forall>k x rv s r s'. k_update c k (x, rv) s = (r, s') \<longrightarrow>
        (\<exists>t. env s t \<and> fr t s' \<and>
           (let written = (\<exists>y rv'. vw t k = Some (y, rv) \<and> vw s' = (vw t)(k \<mapsto> (x, rv')));
                untouched = (vw s' = vw t)
            in case r of
                 None \<Rightarrow> written
               | Some e \<Rightarrow> if e = Conflict \<or> e = NotFound then untouched
                           else written \<or> untouched)))"

definition delete_law ::
    "('s \<Rightarrow> 'o view) \<Rightarrow> ('s \<Rightarrow> 's \<Rightarrow> bool) \<Rightarrow> ('s \<Rightarrow> 's \<Rightarrow> bool) \<Rightarrow> ('s, 'o) kclient \<Rightarrow> bool" where
  "delete_law vw fr env c \<longleftrightarrow>
     (\<forall>k s r s'. k_delete c k s = (r, s') \<longrightarrow>
        (\<exists>t. env s t \<and> fr t s' \<and>
           (case r of
              None \<Rightarrow> vw t k \<noteq> None \<and> vw s' = (vw t)(k := None)
            | Some e \<Rightarrow> if e = NotFound then vw t k = None \<and> vw s' = vw t
                        else vw s' = (vw t)(k := None) \<or> vw s' = vw t)))"

definition reply_law :: "('s \<Rightarrow> 'o view) \<Rightarrow> ('s, 'o) kclient \<Rightarrow> bool" where
  "reply_law vw c \<longleftrightarrow>
     (\<forall>k x s s'. k_create c k x s = (None, s') \<longrightarrow> vw s' k = Some (x, k_version c k s')) \<and>
     (\<forall>k x rv s s'. k_update c k (x, rv) s = (None, s') \<longrightarrow> vw s' k = Some (x, k_version c k s'))"

text \<open>
  A resource version names one state of an object: what is stored under it does not change
  without the version changing.
\<close>

definition version_law :: "('s \<Rightarrow> 'o view) \<Rightarrow> ('s \<Rightarrow> 's \<Rightarrow> bool) \<Rightarrow> bool" where
  "version_law vw env \<longleftrightarrow>
     (\<forall>s t k x y rv. env s t \<longrightarrow> vw s k = Some (x, rv) \<longrightarrow> vw t k = Some (y, rv) \<longrightarrow> x = y)"

definition kclient_ok ::
    "('s \<Rightarrow> 'o view) \<Rightarrow> ('s \<Rightarrow> 's \<Rightarrow> bool) \<Rightarrow> ('s \<Rightarrow> 's \<Rightarrow> bool) \<Rightarrow> ('s, 'o) kclient \<Rightarrow> bool" where
  "kclient_ok vw fr env c \<longleftrightarrow>
     get_law vw env c \<and> list_law vw env c \<and> create_law vw fr env c \<and> update_law vw fr env c \<and>
     delete_law vw fr env c \<and> version_law vw env \<and> reply_law vw c"

text \<open>The laws in the form the proofs use: from one call to what it says of the states.\<close>

lemma get_cases:
  assumes "kclient_ok vw fr env c" and "k_get c k s = (r, s')"
  shows "env s s'"
    and "r = Inr x \<Longrightarrow> vw s' k = Some x"
    and "r = Inl NotFound \<Longrightarrow> vw s' k = None"
  using assms unfolding kclient_ok_def get_law_def by fastforce+

lemma list_rv_cases:
  assumes "kclient_ok vw fr env c" and "k_list c ns s = (r, s')"
  shows "env s s'"
    and "r = Inr xs \<Longrightarrow> distinct (map fst xs)"
    and "r = Inr xs \<Longrightarrow> map_of xs n = vw s' (ns, n)"
  using assms unfolding kclient_ok_def list_law_def by fastforce+

lemma map_of_fst_snd: "map_of (map (\<lambda>p. (fst p, fst (snd p))) xs) n = map_option fst (map_of xs n)"
  by (induction xs) auto

lemma list_cases:
  assumes ok: "kclient_ok vw fr env c" and l: "list_plain c ns s = (r, s')"
  shows "env s s'"
    and "r = Inr xs \<Longrightarrow> distinct (map fst xs)"
    and "r = Inr xs \<Longrightarrow> map_of xs n = map_option fst (vw s' (ns, n))"
proof -
  obtain q where q: "k_list c ns s = (q, s')"
    and r: "r = map_sum id (map (\<lambda>p. (fst p, fst (snd p)))) q"
    using l by (auto simp: list_plain_def split: prod.splits sum.splits)
  show "env s s'" by (rule list_rv_cases(1) [OF ok q])
  assume "r = Inr xs"
  then obtain ys where "q = Inr ys" "xs = map (\<lambda>p. (fst p, fst (snd p))) ys" using r by (cases q) auto
  then show "distinct (map fst xs)" "map_of xs n = map_option fst (vw s' (ns, n))"
    using list_rv_cases(2,3) [OF ok q] by (simp_all add: comp_def map_of_fst_snd)
qed

lemma create_cases:
  assumes "kclient_ok vw fr env c" and "k_create c k x s = (r, s')"
  obtains (written) t rv where "env s t" "fr t s'" "vw t k = None" "vw s' = (vw t)(k \<mapsto> (x, rv))"
      "r \<noteq> Some AlreadyExists"
    | (untouched) t where "env s t" "fr t s'" "vw s' = vw t" "r \<noteq> None"
        "r = Some AlreadyExists \<Longrightarrow> vw t k \<noteq> None"
proof -
  obtain t where t: "env s t" "fr t s'"
    and c: "case r of
              None \<Rightarrow> vw t k = None \<and> (\<exists>rv. vw s' = (vw t)(k \<mapsto> (x, rv)))
            | Some e \<Rightarrow> if e = AlreadyExists then vw t k \<noteq> None \<and> vw s' = vw t
                else (vw t k = None \<and> (\<exists>rv. vw s' = (vw t)(k \<mapsto> (x, rv)))) \<or> vw s' = vw t"
    using assms unfolding kclient_ok_def create_law_def Let_def by meson
  show thesis
    using t c written untouched by (cases r) (auto split: if_splits)
qed

lemma update_cases:
  assumes "kclient_ok vw fr env c" and "k_update c k (x, rv) s = (r, s')"
  obtains (written) t y rv' where "env s t" "fr t s'" "vw t k = Some (y, rv)"
      "vw s' = (vw t)(k \<mapsto> (x, rv'))"
    | (untouched) t where "env s t" "fr t s'" "vw s' = vw t" "r \<noteq> None"
proof -
  obtain t where t: "env s t" "fr t s'"
    and c: "case r of
              None \<Rightarrow> \<exists>y rv'. vw t k = Some (y, rv) \<and> vw s' = (vw t)(k \<mapsto> (x, rv'))
            | Some e \<Rightarrow> if e = Conflict \<or> e = NotFound then vw s' = vw t
                else (\<exists>y rv'. vw t k = Some (y, rv) \<and> vw s' = (vw t)(k \<mapsto> (x, rv'))) \<or> vw s' = vw t"
    using assms unfolding kclient_ok_def update_law_def Let_def by meson
  show thesis
    using t c written untouched by (cases r) (auto split: if_splits)
qed

lemma reply_version:
  assumes "kclient_ok vw fr env c"
  shows "k_create c k x s = (None, s') \<Longrightarrow> vw s' k = Some (x, k_version c k s')"
    and "k_update c k (x, rv) s = (None, s') \<Longrightarrow> vw s' k = Some (x, k_version c k s')"
  using assms unfolding kclient_ok_def reply_law_def by blast+

lemma version_unique:
  "kclient_ok vw fr env c \<Longrightarrow> env s t \<Longrightarrow> vw s k = Some (x, rv) \<Longrightarrow> vw t k = Some (y, rv) \<Longrightarrow> y = x"
  unfolding kclient_ok_def version_law_def by blast

text \<open>
  A write that was prepared from an earlier read: where versions are unique over the whole history, what it
  replaces is what was read.
\<close>

lemma rtranclp_le:
  assumes "R\<^sup>*\<^sup>* a b" and "R \<le> S" and "transp S" and "reflp S"
  shows "S a b"
  using assms(1)
proof (induction rule: rtranclp_induct)
  case base
  then show ?case using assms(4) by (rule reflpD)
next
  case (step b c)
  then show ?case using assms(2,3) by (blast dest: transpD)
qed

lemma version_same:
  "version_law vw hist \<Longrightarrow> hist s t \<Longrightarrow> vw s k = Some (x, rv) \<Longrightarrow> vw t k = Some (y, rv) \<Longrightarrow> y = x"
  unfolding version_law_def by blast

lemma update_writes:
  assumes ok: "kclient_ok vw fr env c" and u: "k_update c k (x', rv) s = (r, s')"
    and law: "version_law vw hist" "env \<le> hist" "transp hist"
    and read: "hist t0 s" "vw t0 k = Some (x, rv)"
  shows "\<exists>t. env s t \<and> fr t s' \<and>
    (vw s' = vw t \<and> r \<noteq> None \<or> vw t k = Some (x, rv) \<and> (\<exists>rv'. vw s' = (vw t)(k \<mapsto> (x', rv'))))"
proof (rule update_cases [OF ok u])
  fix t y rv'
  assume a: "env s t" "fr t s'" "vw t k = Some (y, rv)" "vw s' = (vw t)(k \<mapsto> (x', rv'))"
  have "hist t0 t" using law(2,3) read(1) a(1) by (blast dest: transpD)
  then have "y = x" using version_same [OF law(1) _ read(2) a(3)] by blast
  then show ?thesis using a by blast
next
  fix t
  assume "env s t" "fr t s'" "vw s' = vw t" "r \<noteq> None"
  then show ?thesis by blast
qed

section \<open>A store in memory\<close>

text \<open>
  The instance the witnesses run on: objects in an association list, no other clients, no failures.
  \<open>store_of\<close> and \<open>set_store\<close> say where in the world the objects of one kind are.
\<close>

type_synonym 'o mem_store = "(okey \<times> 'o \<times> nat) list"

fun mem_put :: "okey \<Rightarrow> 'o \<times> nat \<Rightarrow> 'o mem_store \<Rightarrow> 'o mem_store" where
  "mem_put k x [] = [(k, x)]"
| "mem_put k x ((k', y) # m) = (if k = k' then (k, x) # m else (k', y) # mem_put k x m)"

definition mem_del :: "okey \<Rightarrow> 'o mem_store \<Rightarrow> 'o mem_store" where
  "mem_del k m = filter (\<lambda>p. fst p \<noteq> k) m"

definition mem_list :: "string \<Rightarrow> 'o mem_store \<Rightarrow> (string \<times> 'o \<times> nat) list" where
  "mem_list ns m =
     map (\<lambda>n. (n, the (map_of m (ns, n))))
       (remdups (map (\<lambda>p. snd (fst p)) (filter (\<lambda>p. fst (fst p) = ns) m)))"

definition mem_client ::
    "('s \<Rightarrow> 'o mem_store) \<Rightarrow> ('o mem_store \<Rightarrow> 's \<Rightarrow> 's) \<Rightarrow> ('s, 'o) kclient" where
  "mem_client store_of set_store =
     \<lparr>k_get = (\<lambda>k s. (case map_of (store_of s) k of None \<Rightarrow> Inl NotFound | Some x \<Rightarrow> Inr x, s)),
      k_create = (\<lambda>k x s. if map_of (store_of s) k = None
                          then (None, set_store (mem_put k (x, 1) (store_of s)) s)
                          else (Some AlreadyExists, s)),
      k_update = (\<lambda>k x s. case map_of (store_of s) k of
                            None \<Rightarrow> (Some NotFound, s)
                          | Some y \<Rightarrow> if snd y = snd x
                                      then (None, set_store (mem_put k (fst x, Suc (snd x)) (store_of s)) s)
                                      else (Some Conflict, s)),
      k_delete = (\<lambda>k s. if map_of (store_of s) k = None then (Some NotFound, s)
                        else (None, set_store (mem_del k (store_of s)) s)),
      k_list = (\<lambda>ns s. (Inr (mem_list ns (store_of s)), s)),
      k_version = (\<lambda>k s. snd (the (map_of (store_of s) k)))\<rparr>"

lemma map_of_mem_put [simp]: "map_of (mem_put k x m) = (map_of m)(k \<mapsto> x)"
  by (induction k x m rule: mem_put.induct) (auto simp: fun_eq_iff)

lemma map_of_mem_del [simp]: "map_of (mem_del k m) = (map_of m)(k := None)"
  by (induction m) (auto simp: mem_del_def fun_eq_iff)

lemma map_of_mem_list: "map_of (mem_list ns m) n = map_of m (ns, n)"
proof -
  define ks where "ks = remdups (map (\<lambda>p. snd (fst p)) (filter (\<lambda>p. fst (fst p) = ns) m))"
  have ks: "n \<in> set ks \<longleftrightarrow> (ns, n) \<in> fst ` set m" by (force simp: ks_def)
  show ?thesis
  proof (cases "map_of m (ns, n)")
    case None
    then have "n \<notin> set ks" unfolding ks by (simp add: map_of_eq_None_iff)
    with None show ?thesis
      unfolding mem_list_def ks_def [symmetric] by (simp add: map_of_map_restrict)
  next
    case (Some x)
    then have "n \<in> set ks" unfolding ks by (metis map_of_eq_None_iff option.distinct(1))
    with Some show ?thesis
      unfolding mem_list_def ks_def [symmetric] by (simp add: map_of_map_restrict)
  qed
qed

lemma distinct_mem_list: "distinct (map fst (mem_list ns m))"
  by (simp add: mem_list_def comp_def)

lemma mem_client_ok:
  assumes "\<And>m s. store_of (set_store m s) = m" and "\<And>m s. fr s (set_store m s)" and "\<And>s. fr s s"
  shows "kclient_ok (\<lambda>s. map_of (store_of s)) fr (=) (mem_client store_of set_store)"
  unfolding kclient_ok_def get_law_def list_law_def create_law_def update_law_def delete_law_def
    version_law_def reply_law_def mem_client_def
  using assms by (auto split: option.splits if_splits simp: map_of_mem_list distinct_mem_list)

section \<open>A store that counts revisions\<close>

text \<open>
  The second instance: every write takes the next revision of the store as the version of its object,
  as etcd does, so a version names one state of an object over the whole history, deletions included.
\<close>

record 'o rev_store =
  vs_rev :: nat
  vs_objs :: "'o mem_store"

definition vs_visible :: "'o rev_store \<Rightarrow> 'o mem_store" where
  "vs_visible m = filter (\<lambda>p. snd (snd p) \<le> vs_rev m) (vs_objs m)"

definition vs_view :: "'o rev_store \<Rightarrow> 'o view" where
  "vs_view m = map_of (vs_visible m)"

definition vs_put :: "okey \<Rightarrow> 'o \<Rightarrow> 'o rev_store \<Rightarrow> 'o rev_store" where
  "vs_put k x m = \<lparr>vs_rev = Suc (vs_rev m), vs_objs = mem_put k (x, Suc (vs_rev m)) (vs_visible m)\<rparr>"

definition vs_del :: "okey \<Rightarrow> 'o rev_store \<Rightarrow> 'o rev_store" where
  "vs_del k m = m\<lparr>vs_objs := mem_del k (vs_visible m)\<rparr>"

definition rev_client ::
    "('s \<Rightarrow> 'o rev_store) \<Rightarrow> ('o rev_store \<Rightarrow> 's \<Rightarrow> 's) \<Rightarrow> ('s, 'o) kclient" where
  "rev_client store_of set_store =
     \<lparr>k_get = (\<lambda>k s. (case vs_view (store_of s) k of None \<Rightarrow> Inl NotFound | Some x \<Rightarrow> Inr x, s)),
      k_create = (\<lambda>k x s. if vs_view (store_of s) k = None
                          then (None, set_store (vs_put k x (store_of s)) s) else (Some AlreadyExists, s)),
      k_update = (\<lambda>k x s. case vs_view (store_of s) k of
                            None \<Rightarrow> (Some NotFound, s)
                          | Some y \<Rightarrow> if snd y = snd x then (None, set_store (vs_put k (fst x) (store_of s)) s)
                                      else (Some Conflict, s)),
      k_delete = (\<lambda>k s. if vs_view (store_of s) k = None then (Some NotFound, s)
                        else (None, set_store (vs_del k (store_of s)) s)),
      k_list = (\<lambda>ns s. (Inr (mem_list ns (vs_visible (store_of s))), s)),
      k_version = (\<lambda>k s. snd (the (vs_view (store_of s) k)))\<rparr>"

text \<open>The history of such a store: what is stored under an old version was stored then.\<close>

definition vs_le :: "'o rev_store \<Rightarrow> 'o rev_store \<Rightarrow> bool" where
  "vs_le m m' \<longleftrightarrow> vs_rev m \<le> vs_rev m' \<and>
     (\<forall>k y u. vs_view m' k = Some (y, u) \<longrightarrow> u \<le> vs_rev m \<longrightarrow> vs_view m k = Some (y, u))"

lemma vs_le_refl [simp]: "vs_le m m"
  by (simp add: vs_le_def)

lemma vs_le_trans: "vs_le a b \<Longrightarrow> vs_le b c \<Longrightarrow> vs_le a c"
  unfolding vs_le_def by (meson order.trans)

lemma mem_put_all: "\<forall>p \<in> set m. Q p \<Longrightarrow> Q (k, x) \<Longrightarrow> \<forall>p \<in> set (mem_put k x m). Q p"
  by (induction k x m rule: mem_put.induct) auto

lemma visible_put [simp]: "vs_visible (vs_put k x m) = mem_put k (x, Suc (vs_rev m)) (vs_visible m)"
proof -
  have "\<forall>p \<in> set (mem_put k (x, Suc (vs_rev m)) (vs_visible m)). snd (snd p) \<le> Suc (vs_rev m)"
    by (rule mem_put_all) (auto simp: vs_visible_def)
  then have "filter (\<lambda>p. snd (snd p) \<le> Suc (vs_rev m)) (mem_put k (x, Suc (vs_rev m)) (vs_visible m))
      = mem_put k (x, Suc (vs_rev m)) (vs_visible m)" by (simp add: filter_id_conv)
  then show ?thesis by (simp add: vs_visible_def [of "vs_put k x m"]) (simp add: vs_put_def)
qed

lemma visible_del [simp]: "vs_visible (vs_del k m) = mem_del k (vs_visible m)"
  by (auto simp: vs_visible_def vs_del_def mem_del_def intro: filter_cong)

lemma view_put [simp]: "vs_view (vs_put k x m) = (vs_view m)(k \<mapsto> (x, Suc (vs_rev m)))"
  by (simp add: vs_view_def)

lemma view_del [simp]: "vs_view (vs_del k m) = (vs_view m)(k := None)"
  by (simp add: vs_view_def)

lemma view_version: "vs_view m k = Some (x, v) \<Longrightarrow> v \<le> vs_rev m"
  by (auto simp: vs_view_def vs_visible_def dest: map_of_SomeD)

lemma vs_le_put: "vs_le m (vs_put k x m)"
  by (auto simp: vs_le_def) (simp add: vs_put_def)

lemma vs_le_del: "vs_le m (vs_del k m)"
  by (auto simp: vs_le_def split: if_splits) (simp add: vs_del_def)

lemma vs_le_version: "vs_le m m' \<Longrightarrow> vs_view m k = Some (x, v) \<Longrightarrow> vs_view m' k = Some (y, v) \<Longrightarrow> y = x"
  using view_version unfolding vs_le_def by fastforce

text \<open>A client that is alone obeys the laws also where others may act, as long as versions stay unique.\<close>

lemma law_mono:
  assumes "\<And>a b. R a b \<Longrightarrow> env a b"
  shows "get_law vw R c \<Longrightarrow> get_law vw env c" "list_law vw R c \<Longrightarrow> list_law vw env c"
    "create_law vw fr R c \<Longrightarrow> create_law vw fr env c" "update_law vw fr R c \<Longrightarrow> update_law vw fr env c"
    "delete_law vw fr R c \<Longrightarrow> delete_law vw fr env c"
  unfolding get_law_def list_law_def create_law_def update_law_def delete_law_def
  using assms by (simp, simp, (elim all_forward imp_forward ex_forward conj_forward; simp)+)

lemma kclient_ok_env:
  assumes "kclient_ok vw fr (=) c" and "reflp env" and "version_law vw env"
  shows "kclient_ok vw fr env c"
proof -
  have "env a b" if "a = b" for a b using that assms(2) by (simp add: reflpD)
  note mono = law_mono [where R = "(=)" and env = env, OF this]
  show ?thesis using assms(1,3) mono unfolding kclient_ok_def by blast
qed

lemma rev_client_ok:
  assumes "\<And>m s. store_of (set_store m s) = m"
    and "\<And>m s. vs_le (store_of s) m \<Longrightarrow> fr s (set_store m s)" and "\<And>s. fr s s"
    and "reflp env" and "version_law (\<lambda>s. vs_view (store_of s)) env"
  shows "kclient_ok (\<lambda>s. vs_view (store_of s)) fr env (rev_client store_of set_store)"
proof (rule kclient_ok_env [OF _ assms(4,5)])
  show "kclient_ok (\<lambda>s. vs_view (store_of s)) fr (=) (rev_client store_of set_store)"
    unfolding kclient_ok_def get_law_def list_law_def create_law_def update_law_def delete_law_def
      version_law_def reply_law_def rev_client_def
    using assms(1,3) assms(2) [OF vs_le_put] assms(2) [OF vs_le_del]
    by (auto split: option.splits if_splits simp: map_of_mem_list distinct_mem_list vs_view_def [symmetric])
qed

end
