(* ===== verification/Audit_Store.thy ===== *)
theory Audit_Store
  imports Audit_Chain Kube
begin

text \<open>
  The recorder of \<open>internal/audit/recorder.go\<close>: the decision log kept as one Kubernetes object per
  record, with a checkpoint object that publishes its head.  Appending races with other appenders
  and is decided by the API server, because the name of a record is its sequence number.

  The definitions take the two Kubernetes clients (for records and for checkpoints), a runtime for
  the clock, the random numbers and the waiting, the digest \<open>H\<close> and the namespace.
\<close>

section \<open>Stored objects\<close>

record audit_record_spec =
  ars_seq :: int64
  ars_time :: go_time
  ars_type :: string
  ars_subject :: string
  ars_actor :: string
  ars_detail :: str_map
  ars_prev :: string
  ars_hash :: string

record audit_obj =
  ao_labels :: str_map
  ao_spec :: audit_record_spec

record checkpoint_spec =
  cps_length :: int64
  cps_head :: string
  cps_time :: go_time
  cps_archived_length :: int64
  cps_archived_head :: string
  cps_location :: string

text \<open>
  The conversions between the log's types and the stored ones.  A \<open>uint64\<close> becomes an \<open>int64\<close> of the
  same bits.
\<close>

definition from_api :: "audit_obj \<Rightarrow> audit_record" where
  "from_api ob =
     (let sp = ao_spec ob in
      \<lparr>ar_seq = ars_seq sp, ar_time = ars_time sp, ar_type = ars_type sp,
       ar_subject = ars_subject sp, ar_actor = ars_actor sp, ar_detail = ars_detail sp,
       ar_prev = ars_prev sp, ar_hash = ars_hash sp\<rparr>)"

definition to_api :: "audit_record \<Rightarrow> audit_obj" where
  "to_api r =
     \<lparr>ao_labels = [(''security.davano.io/audit-type'', ar_type r)],
      ao_spec = \<lparr>ars_seq = ar_seq r, ars_time = ar_time r, ars_type = ar_type r,
        ars_subject = ar_subject r, ars_actor = ar_actor r, ars_detail = ar_detail r,
        ars_prev = ar_prev r, ars_hash = ar_hash r\<rparr>\<rparr>"

definition checkpoint_from_api :: "checkpoint_spec \<Rightarrow> checkpoint" where
  "checkpoint_from_api sp =
     \<lparr>cp_length = cps_length sp, cp_head = cps_head sp, cp_time = cps_time sp,
      cp_archived =
        (if 0 <s cps_archived_length sp
         then Some \<lparr>an_length = cps_archived_length sp, an_head = cps_archived_head sp,
                    an_location = cps_location sp\<rparr>
         else None)\<rparr>"

definition spec_from_checkpoint :: "checkpoint \<Rightarrow> checkpoint_spec" where
  "spec_from_checkpoint cp =
     (let sp = \<lparr>cps_length = cp_length cp, cps_head = cp_head cp, cps_time = cp_time cp,
                cps_archived_length = 0, cps_archived_head = [], cps_location = []\<rparr>
      in case cp_archived cp of
           None \<Rightarrow> sp
         | Some a \<Rightarrow> sp\<lparr>cps_archived_length := an_length a, cps_archived_head := an_head a,
                        cps_location := an_location a\<rparr>)"

definition record_name :: "uint64 \<Rightarrow> string" where
  "record_name seq = ''audit-'' @ zero_pad 12 (nat_str (unat seq))"

definition checkpoint_name :: string where
  "checkpoint_name = ''cupel-audit-head''"

lemma from_to_api [simp]: "from_api (to_api r) = r"
  by (simp add: from_api_def to_api_def)

lemma record_name_inject [simp]: "record_name a = record_name b \<longleftrightarrow> a = b"
  by (auto simp: record_name_def word_unat_eq_iff)

section \<open>The environment of a recorder\<close>

record 's runtime =
  rt_now :: "'s \<Rightarrow> go_time \<times> 's"
  rt_rand :: "int \<Rightarrow> 's \<Rightarrow> int \<times> 's"
  rt_sleep :: "duration \<Rightarrow> 's \<Rightarrow> string option \<times> 's"

record 's recorder =
  rec_records :: "('s, audit_obj) kclient"
  rec_checkpoints :: "('s, checkpoint_spec) kclient"
  rec_runtime :: "'s runtime"
  rec_digest :: digest_fn
  rec_ns :: string

datatype rec_error =
    ListErr kerr
  | ReadCheckpointErr kerr
  | ReadRecordErr uint64 kerr
  | WriteErr kerr
  | RegressLength int64 int64
  | RegressBoundary int64 int64
  | PastHead int64 uint64
  | BoundaryContended
  | GaveUp nat string
  | CreateErr kerr
  | LostHead rec_error
  | LostRaces nat kerr

section \<open>Reading\<close>

definition load :: "'s recorder \<Rightarrow> 's \<Rightarrow> (rec_error + audit_record list) \<times> 's" where
  "load R s =
     (case list_plain (rec_records R) (rec_ns R) s of
        (Inl e, s') \<Rightarrow> (Inl (ListErr e), s')
      | (Inr xs, s') \<Rightarrow> (Inr (sort_key ar_seq (map (\<lambda>p. from_api (snd p)) xs)), s'))"

definition record_at :: "'s recorder \<Rightarrow> uint64 \<Rightarrow> 's \<Rightarrow> (rec_error + audit_record option) \<times> 's" where
  "record_at R seq s =
     (if seq = 0 then (Inr None, s)
      else case k_get (rec_records R) (rec_ns R, record_name seq) s of
             (Inl e, s') \<Rightarrow> (if e = NotFound then Inr None else Inl (ReadRecordErr seq e), s')
           | (Inr x, s') \<Rightarrow> (Inr (Some (from_api (fst x))), s'))"

definition read_checkpoint ::
    "'s recorder \<Rightarrow> 's \<Rightarrow> (rec_error + checkpoint option) \<times> 's" where
  "read_checkpoint R s =
     (case k_get (rec_checkpoints R) (rec_ns R, checkpoint_name) s of
        (Inl e, s') \<Rightarrow> (if e = NotFound then Inr None else Inl (ReadCheckpointErr e), s')
      | (Inr x, s') \<Rightarrow> (Inr (Some (checkpoint_from_api (fst x))), s'))"

text \<open>\<open>Chain\<close>: the stored log and its checkpoint, without what the archive boundary covers.\<close>

definition chain ::
    "'s recorder \<Rightarrow> 's \<Rightarrow> (rec_error + audit_record list \<times> checkpoint option) \<times> 's" where
  "chain R s =
     (case load R s of
        (Inl e, s1) \<Rightarrow> (Inl e, s1)
      | (Inr records, s1) \<Rightarrow>
          (case k_get (rec_checkpoints R) (rec_ns R, checkpoint_name) s1 of
             (Inl e, s2) \<Rightarrow>
               (if e = NotFound then Inr (records, None) else Inl (ReadCheckpointErr e), s2)
           | (Inr x, s2) \<Rightarrow>
               (let cp = checkpoint_from_api (fst x) in
                (Inr (case checkpoint_anchor (Some cp) of
                        None \<Rightarrow> (records, Some cp)
                      | Some a \<Rightarrow>
                          (if 0 < an_length a
                           then filter (\<lambda>r. an_length a < ar_seq r) records else records, Some cp)),
                 s2))))"

text \<open>\<open>Size\<close>: the length of the whole log and how much of it is still stored.\<close>

definition size_of_log :: "'s recorder \<Rightarrow> 's \<Rightarrow> (rec_error + uint64 \<times> uint64) \<times> 's" where
  "size_of_log R s =
     (case k_get (rec_checkpoints R) (rec_ns R, checkpoint_name) s of
        (Inl e, s1) \<Rightarrow>
          (if e = NotFound
           then (case load R s1 of
                   (Inl e', s2) \<Rightarrow> (Inl e', s2)
                 | (Inr records, s2) \<Rightarrow>
                     (Inr (of_nat (length records), of_nat (length records)), s2))
           else (Inl (ReadCheckpointErr e), s1))
      | (Inr x, s1) \<Rightarrow>
          (Inr (cps_length (fst x), cps_length (fst x) - cps_archived_length (fst x)), s1))"

text \<open>\<open>Recorder.Verify\<close>.\<close>

definition recorder_verify :: "'s recorder \<Rightarrow> 's \<Rightarrow> (rec_error + verification) \<times> 's" where
  "recorder_verify R s =
     (case chain R s of
        (Inl e, s') \<Rightarrow> (Inl e, s')
      | (Inr (records, cp), s') \<Rightarrow> (Inr (verify (rec_digest R) records cp), s'))"

section \<open>The head of the log\<close>

definition max_catch_up :: nat where "max_catch_up = 1000"

fun catch_up ::
    "'s recorder \<Rightarrow> nat \<Rightarrow> uint64 \<Rightarrow> audit_record option \<Rightarrow> 's
       \<Rightarrow> (rec_error + audit_record option) \<times> 's"
where
  "catch_up R 0 seq prev s = (Inr prev, s)"
| "catch_up R (Suc m) seq prev s =
     (case record_at R seq s of
        (Inl e, s') \<Rightarrow> (Inl e, s')
      | (Inr None, s') \<Rightarrow> (Inr prev, s')
      | (Inr (Some r), s') \<Rightarrow> catch_up R m (seq + 1) (Some r) s')"

definition head_of_log :: "'s recorder \<Rightarrow> 's \<Rightarrow> (rec_error + audit_record option) \<times> 's" where
  "head_of_log R s =
     (case k_get (rec_checkpoints R) (rec_ns R, checkpoint_name) s of
        (Inl e, s1) \<Rightarrow>
          (if e = NotFound
           then (case load R s1 of
                   (Inl e', s2) \<Rightarrow> (Inl e', s2)
                 | (Inr records, s2) \<Rightarrow>
                     (Inr (if records = [] then None else Some (last records)), s2))
           else (Inl (ReadCheckpointErr e), s1))
      | (Inr x, s1) \<Rightarrow>
          (case record_at R (cps_length (fst x)) s1 of
             (Inl e, s2) \<Rightarrow> (Inl e, s2)
           | (Inr prev, s2) \<Rightarrow> catch_up R max_catch_up (cps_length (fst x) + 1) prev s2))"

section \<open>Publishing the head\<close>

definition put_checkpoint :: "'s recorder \<Rightarrow> checkpoint \<Rightarrow> 's \<Rightarrow> rec_error option \<times> 's" where
  "put_checkpoint R cp s =
     (let key = (rec_ns R, checkpoint_name); sp = spec_from_checkpoint cp in
      case k_get (rec_checkpoints R) key s of
        (Inl e, s1) \<Rightarrow>
          (if e = NotFound
           then (case k_create (rec_checkpoints R) key sp s1 of
                   (r, s2) \<Rightarrow> (map_option WriteErr r, s2))
           else (Some (ReadCheckpointErr e), s1))
      | (Inr (old, rv), s1) \<Rightarrow>
          (if cps_length sp <s cps_length old
           then (Some (RegressLength (cps_length old) (cps_length sp)), s1)
           else if cps_archived_length sp <s cps_archived_length old \<and> 0 <s cps_archived_length sp
           then (Some (RegressBoundary (cps_archived_length old) (cps_archived_length sp)), s1)
           else
             (let sp' = (if cps_archived_length sp = 0
                         then sp\<lparr>cps_archived_length := cps_archived_length old,
                                 cps_archived_head := cps_archived_head old,
                                 cps_location := cps_location old\<rparr>
                         else sp)
              in case k_update (rec_checkpoints R) key (sp', rv) s1 of
                   (r, s2) \<Rightarrow> (map_option WriteErr r, s2))))"

definition write_checkpoint :: "'s recorder \<Rightarrow> audit_record \<Rightarrow> 's \<Rightarrow> rec_error option \<times> 's" where
  "write_checkpoint R r s =
     put_checkpoint R \<lparr>cp_length = ar_seq r, cp_head = ar_hash r, cp_time = ar_time r,
                       cp_archived = None\<rparr> s"

text \<open>\<open>advanceBoundary\<close>: five attempts, and another attempt only after a conflict.\<close>

fun advance_attempts ::
    "'s recorder \<Rightarrow> nat \<Rightarrow> anchor \<Rightarrow> 's \<Rightarrow> rec_error option \<times> 's"
where
  "advance_attempts R 0 a s = (Some BoundaryContended, s)"
| "advance_attempts R (Suc m) a s =
     (let key = (rec_ns R, checkpoint_name) in
      case k_get (rec_checkpoints R) key s of
        (Inl e, s1) \<Rightarrow> (Some (ReadCheckpointErr e), s1)
      | (Inr (old, rv), s1) \<Rightarrow>
          (if an_length a <s cps_archived_length old
           then (Some (RegressBoundary (cps_archived_length old) (an_length a)), s1)
           else if cps_length old <s an_length a
           then (Some (PastHead (cps_length old) (an_length a)), s1)
           else
             (case k_update (rec_checkpoints R) key
                     (old\<lparr>cps_archived_length := an_length a, cps_archived_head := an_head a,
                          cps_location := an_location a\<rparr>, rv) s1 of
                (None, s2) \<Rightarrow> (None, s2)
              | (Some e, s2) \<Rightarrow>
                  if e = Conflict then advance_attempts R m a s2 else (Some (WriteErr e), s2))))"

definition advance_boundary :: "'s recorder \<Rightarrow> anchor \<Rightarrow> 's \<Rightarrow> rec_error option \<times> 's" where
  "advance_boundary R a s = advance_attempts R 5 a s"

section \<open>Appending\<close>

definition max_append_attempts :: nat where "max_append_attempts = 4096"
definition min_append_backoff :: duration where "min_append_backoff = 250000"
definition max_append_backoff :: duration where "max_append_backoff = 25000000"

text \<open>\<open>minAppendBackoff << min(attempt-1, 16)\<close> on the 64-bit duration, with its cap.\<close>

definition backoff_window :: "nat \<Rightarrow> duration" where
  "backoff_window attempt =
     (let d = sint (push_bit (min (attempt - 1) 16) (of_int min_append_backoff :: int64))
      in if d > max_append_backoff \<or> d \<le> 0 then max_append_backoff else d)"

definition back_off :: "'s recorder \<Rightarrow> nat \<Rightarrow> 's \<Rightarrow> string option \<times> 's" where
  "back_off R attempt s =
     (case rt_rand (rec_runtime R) (backoff_window attempt) s of
        (jitter, s1) \<Rightarrow> rt_sleep (rec_runtime R) (jitter + min_append_backoff) s1)"

fun append_attempts ::
    "'s recorder \<Rightarrow> nat \<Rightarrow> nat \<Rightarrow> audit_record \<Rightarrow> audit_record option \<Rightarrow> 's
       \<Rightarrow> (rec_error + audit_record) \<times> 's"
where
  "append_attempts R 0 i event prev s = (Inl (LostRaces max_append_attempts AlreadyExists), s)"
| "append_attempts R (Suc m) i event prev s =
     (case (if 0 < i then back_off R i s else (None, s)) of
        (Some e, s1) \<Rightarrow> (Inl (GaveUp i e), s1)
      | (None, s1) \<Rightarrow>
          (let sealed = seal (rec_digest R) event prev in
           case k_create (rec_records R) (rec_ns R, record_name (ar_seq sealed)) (to_api sealed) s1 of
             (None, s2) \<Rightarrow> (case write_checkpoint R sealed s2 of (_, s3) \<Rightarrow> (Inr sealed, s3))
           | (Some e, s2) \<Rightarrow>
               if e = AlreadyExists
               then (case head_of_log R s2 of
                       (Inl e', s3) \<Rightarrow> (Inl (LostHead e'), s3)
                     | (Inr found, s3) \<Rightarrow> append_attempts R m (Suc i) event found s3)
               else (Inl (CreateErr e), s2)))"

definition append_event :: "'s recorder \<Rightarrow> audit_record \<Rightarrow> 's \<Rightarrow> (rec_error + audit_record) \<times> 's" where
  "append_event R event s =
     (case head_of_log R s of
        (Inl e, s1) \<Rightarrow> (Inl e, s1)
      | (Inr prev, s1) \<Rightarrow> append_attempts R max_append_attempts 0 event prev s1)"

end
