(* ===== verification/Audit_Append.thy ===== *)
theory Audit_Append
  imports Audit_Store
begin

text \<open>
  Appending to the stored log, with other writers appending at the same time
  (\<open>internal/audit/recorder.go\<close>).  \<open>logged\<close> is the invariant: the records stored in the namespace are
  exactly a chain, under the names their sequence numbers give, and the checkpoint is the length and
  the head the log had at one of its records.
  What the other clients may do between two calls is any step that keeps the invariant and only
  adds records: appending and publishing heads (\<open>log_env\<close>).  Archiving, which removes records, is
  the subject of the archive's theory.
\<close>

section \<open>The invariant\<close>

definition log_at ::
    "digest_fn \<Rightarrow> string \<Rightarrow> uint64 \<Rightarrow> string \<Rightarrow> audit_record list
       \<Rightarrow> audit_obj view \<Rightarrow> checkpoint_spec view \<Rightarrow> bool" where
  "log_at H ns a h rs V C \<longleftrightarrow>
     chain_ok H a h rs \<and> unat a + length rs \<le> 2 ^ 63 \<and>
     (\<forall>n. map_option (\<lambda>x. from_api (fst x)) (V (ns, n))
            = map_of (map (\<lambda>r. (record_name (ar_seq r), r)) rs) n) \<and>
     (rs = [] \<longrightarrow> a = 0) \<and> (a = 0 \<longrightarrow> h = genesis_hash) \<and>
     (\<forall>c v. C (ns, checkpoint_name) = Some (c, v) \<longrightarrow>
        (\<exists>r \<in> set rs. ar_seq r = cps_length c \<and> ar_hash r = cps_head c))"

text \<open>
  A log may be full: it holds at most \<open>2\<^sup>6\<^sup>3\<close> records, the range of the stored sequence numbers.  The
  other writers are taken to stop one record short of that, so that the appender whose call is
  looked at still has room; the flag says which of the two bounds holds.
\<close>

definition log_cap :: "bool \<Rightarrow> nat" where
  "log_cap full = (if full then 2 ^ 63 else 2 ^ 63 - 1)"

definition logged ::
    "bool \<Rightarrow> ('s \<Rightarrow> audit_obj view) \<Rightarrow> ('s \<Rightarrow> checkpoint_spec view) \<Rightarrow> 's recorder \<Rightarrow> uint64
       \<Rightarrow> string \<Rightarrow> audit_record list \<Rightarrow> 's \<Rightarrow> bool" where
  "logged f rv cv R a h rs s \<longleftrightarrow>
     log_at (rec_digest R) (rec_ns R) a h rs (rv s) (cv s) \<and> unat a + length rs \<le> log_cap f"

definition recorder_ok ::
    "('s \<Rightarrow> audit_obj view) \<Rightarrow> ('s \<Rightarrow> checkpoint_spec view) \<Rightarrow> ('s \<Rightarrow> 's \<Rightarrow> bool) \<Rightarrow> 's recorder \<Rightarrow> bool"
where
  "recorder_ok rv cv env R \<longleftrightarrow>
     kclient_ok rv (\<lambda>s t. cv t = cv s) env (rec_records R) \<and>
     kclient_ok cv (\<lambda>s t. rv t = rv s) env (rec_checkpoints R) \<and>
     (\<forall>n s x t. rt_rand (rec_runtime R) n s = (x, t) \<longrightarrow> env s t) \<and>
     (\<forall>n s x t. rt_sleep (rec_runtime R) n s = (x, t) \<longrightarrow> env s t)"

definition log_env ::
    "('s \<Rightarrow> audit_obj view) \<Rightarrow> ('s \<Rightarrow> checkpoint_spec view) \<Rightarrow> ('s \<Rightarrow> 's \<Rightarrow> bool) \<Rightarrow> 's recorder
       \<Rightarrow> uint64 \<Rightarrow> string \<Rightarrow> bool"
where
  "log_env rv cv env R a h \<longleftrightarrow>
     (\<forall>f s t rs. env s t \<longrightarrow> logged f rv cv R a h rs s \<longrightarrow>
        (\<exists>ys. logged f rv cv R a h (rs @ ys) t))"

section \<open>Looking a record up by its name\<close>

lemma unat_Suc_word:
  fixes n :: uint64
  shows "unat n + 1 < 2 ^ 64 \<Longrightarrow> unat (n + 1) = unat n + 1"
  by (simp add: unat_word_ariths)

lemma lookup_chain:
  assumes "chain_ok H n h rs" and "unat n + length rs < 2 ^ 64"
  shows "map_of (map (\<lambda>r. (record_name (ar_seq r), r)) rs) (record_name q) =
     (if unat n < unat q \<and> unat q \<le> unat n + length rs then Some (rs ! (unat q - unat n - 1))
      else None)"
  using assms
proof (induction rs arbitrary: n h)
  case Nil
  then show ?case by simp
next
  case (Cons r rs)
  have n1: "unat (n + 1) = unat n + 1" using Cons.prems by (intro unat_Suc_word) simp
  have q: "n + 1 = q \<longleftrightarrow> unat q = unat n + 1" using n1 by (metis word_unat_eq_iff)
  have ih: "map_of (map (\<lambda>r. (record_name (ar_seq r), r)) rs) (record_name q) =
     (if unat n + 1 < unat q \<and> unat q \<le> unat n + 1 + length rs
      then Some (rs ! (unat q - (unat n + 1) - 1)) else None)"
  proof -
    have "chain_ok H (n + 1) (ar_hash r) rs" "unat (n + 1) + length rs < 2 ^ 64"
      using Cons.prems n1 by auto
    from Cons.IH [OF this] show ?thesis by (simp only: n1)
  qed
  show ?case
  proof (cases "unat q = unat n + 1")
    case True
    then show ?thesis using Cons.prems(1) q by simp
  next
    case False
    then have "q \<noteq> ar_seq r" using Cons.prems(1) q by auto
    moreover have "unat n < unat q \<and> unat q \<le> unat n + length (r # rs)
        \<longleftrightarrow> unat n + 1 < unat q \<and> unat q \<le> unat n + 1 + length rs" using False by auto
    moreover have "unat n + 1 < unat q \<Longrightarrow> (r # rs) ! (unat q - unat n - 1) = rs ! (unat q - (unat n + 1) - 1)"
      by (simp add: nth_Cons')
    ultimately show ?thesis using ih by simp
  qed
qed

lemma log_lookup:
  assumes "log_at H ns a h rs V C"
  shows "map_option (\<lambda>x. from_api (fst x)) (V (ns, record_name q)) =
     (if unat a < unat q \<and> unat q \<le> unat a + length rs then Some (rs ! (unat q - unat a - 1))
      else None)"
proof -
  have "chain_ok H a h rs" "unat a + length rs < 2 ^ 64"
    using assms by (simp_all add: log_at_def)
  then show ?thesis using assms lookup_chain [of H a h rs q] by (simp add: log_at_def)
qed

lemma log_present:
  assumes "log_at H ns a h rs V C" and "V (ns, record_name q) = Some (x, v)"
  shows "from_api x \<in> set rs" and "unat a < unat q" and "unat q \<le> unat a + length rs"
  using log_lookup [OF assms(1), of q] assms(2) by (auto split: if_splits)

lemma log_absent:
  assumes "log_at H ns a h rs V C" and "V (ns, record_name q) = None"
  shows "\<not> (unat a < unat q \<and> unat q \<le> unat a + length rs)"
  using log_lookup [OF assms(1), of q] assms(2) by (auto split: if_splits)

lemma log_seq:
  assumes "log_at H ns a h rs V C" and "p \<in> set rs"
  shows "unat a < unat (ar_seq p) \<and> unat (ar_seq p) \<le> unat a + length rs
     \<and> (unat (ar_seq p) = unat a + length rs \<longrightarrow> p = last rs)"
proof -
  obtain i where i: "i < length rs" "p = rs ! i" using assms(2) by (auto simp: in_set_conv_nth)
  have b: "chain_ok H a h rs" "unat a + length rs \<le> 2 ^ 63" using assms(1) by (simp_all add: log_at_def)
  have "ar_seq p = a + of_nat (Suc i)" using chain_ok_nth_seq [OF b(1) i(1)] i(2) by simp
  moreover have "unat (of_nat (Suc i) :: uint64) = Suc i"
    using b(2) i(1) by (intro unat_of_nat_u64) simp
  ultimately have "unat (ar_seq p) = unat a + Suc i"
    using b(2) i(1) by (simp add: unat_word_ariths)
  then show ?thesis using i
    by (cases "rs = []") (auto simp: last_conv_nth intro!: arg_cong [of _ _ "(!) rs"])
qed

text \<open>Creating the record that follows the last one keeps the invariant.\<close>

lemma log_at_snoc:
  assumes log: "log_at H ns a h rs V C" and len: "unat a + length rs < 2 ^ 63"
    and link: "ar_seq r = a + of_nat (length rs) + 1" "ar_prev r = head_hash h rs"
      "ar_hash r = compute_hash H r"
    and new: "V (ns, record_name (ar_seq r)) = None"
  shows "log_at H ns a h (rs @ [r]) (V((ns, record_name (ar_seq r)) \<mapsto> (to_api r, v))) C"
proof -
  have "map_of (map (\<lambda>r. (record_name (ar_seq r), r)) (rs @ [r])) n
      = map_option (\<lambda>x. from_api (fst x)) ((V((ns, record_name (ar_seq r)) \<mapsto> (to_api r, v))) (ns, n))"
    for n
  proof (cases "n = record_name (ar_seq r)")
    case True
    moreover have "map_of (map (\<lambda>r. (record_name (ar_seq r), r)) rs) (record_name (ar_seq r)) = None"
      using log new by (metis (no_types, lifting) log_at_def option.map_disc_iff)
    ultimately show ?thesis by (simp add: map_add_def)
  next
    case False
    then show ?thesis using log by (simp add: log_at_def map_add_def split: option.split)
  qed
  then show ?thesis
    using assms by (fastforce simp: log_at_def)
qed

section \<open>The operations keep the invariant\<close>

definition append_world ::
    "('s \<Rightarrow> audit_obj view) \<Rightarrow> ('s \<Rightarrow> checkpoint_spec view) \<Rightarrow> ('s \<Rightarrow> 's \<Rightarrow> bool) \<Rightarrow> 's recorder
       \<Rightarrow> uint64 \<Rightarrow> string \<Rightarrow> bool"
where
  "append_world rv cv env R a h \<longleftrightarrow> recorder_ok rv cv env R \<and> log_env rv cv env R a h"

definition grown ::
    "bool \<Rightarrow> ('s \<Rightarrow> audit_obj view) \<Rightarrow> ('s \<Rightarrow> checkpoint_spec view) \<Rightarrow> 's recorder \<Rightarrow> uint64
       \<Rightarrow> string \<Rightarrow> audit_record list \<Rightarrow> 's \<Rightarrow> bool"
where
  "grown f rv cv R a h rs s \<longleftrightarrow> (\<exists>ys. logged f rv cv R a h (rs @ ys) s)"

lemma logged_log_at:
  "logged f rv cv R a h rs s \<Longrightarrow> log_at (rec_digest R) (rec_ns R) a h rs (rv s) (cv s)"
  by (simp add: logged_def)

lemma logged_full: "logged f rv cv R a h rs s \<Longrightarrow> logged True rv cv R a h rs s"
  by (auto simp: logged_def log_cap_def split: if_splits)

lemma grown_refl: "logged f rv cv R a h rs s \<Longrightarrow> grown f rv cv R a h rs s"
  unfolding grown_def by (rule exI [of _ "[]"]) simp

lemma env_grown:
  "append_world rv cv env R a h \<Longrightarrow> env s t \<Longrightarrow> logged f rv cv R a h rs s \<Longrightarrow>
     \<exists>ys. logged f rv cv R a h (rs @ ys) t"
  unfolding append_world_def log_env_def by blast

lemma get_record_world:
  "append_world rv cv env R a h \<Longrightarrow> k_get (rec_records R) k s = (r, s') \<Longrightarrow>
     env s s' \<and> (\<forall>x. r = Inr x \<longrightarrow> rv s' k = Some x) \<and> (r = Inl NotFound \<longrightarrow> rv s' k = None)"
  unfolding append_world_def recorder_ok_def by (blast dest: get_cases)

lemma get_checkpoint_world:
  "append_world rv cv env R a h \<Longrightarrow> k_get (rec_checkpoints R) k s = (r, s') \<Longrightarrow>
     env s s' \<and> (\<forall>x. r = Inr x \<longrightarrow> cv s' k = Some x) \<and> (r = Inl NotFound \<longrightarrow> cv s' k = None)"
  unfolding append_world_def recorder_ok_def by (blast dest: get_cases)

text \<open>What an appender may believe of the head it read: a record of the log, or no record.\<close>

definition prev_ok :: "uint64 \<Rightarrow> audit_record list \<Rightarrow> audit_record option \<Rightarrow> bool" where
  "prev_ok a rs prev \<longleftrightarrow> (case prev of None \<Rightarrow> a = 0 | Some p \<Rightarrow> p \<in> set rs)"

lemma prev_ok_append: "prev_ok a rs prev \<Longrightarrow> prev_ok a (rs @ ys) prev"
  by (auto simp: prev_ok_def split: option.splits)

lemma record_at_world:
  assumes w: "append_world rv cv env R a h" and l: "logged f rv cv R a h rs s"
    and e: "record_at R q s = (r, s')"
  shows "\<exists>ys. logged f rv cv R a h (rs @ ys) s' \<and> (\<forall>p. r = Inr (Some p) \<longrightarrow> p \<in> set (rs @ ys)) \<and>
    (r = Inr None \<longrightarrow> \<not> (unat a < unat q \<and> unat q \<le> unat a + length rs))"
proof (cases "q = 0")
  case True
  then show ?thesis using e l by (intro exI [of _ "[]"]) (auto simp: record_at_def)
next
  case False
  obtain r0 s1 where g: "k_get (rec_records R) (rec_ns R, record_name q) s = (r0, s1)" by force
  then have s1: "s1 = s'" using e False by (auto simp: record_at_def split: sum.splits)
  from get_record_world [OF w g] have env: "env s s'"
    and some: "\<And>x. r0 = Inr x \<Longrightarrow> rv s' (rec_ns R, record_name q) = Some x"
    and none: "r0 = Inl NotFound \<Longrightarrow> rv s' (rec_ns R, record_name q) = None"
    unfolding s1 by auto
  from env_grown [OF w env l] obtain ys where ys: "logged f rv cv R a h (rs @ ys) s'" by blast
  note la = logged_log_at [OF ys]
  show ?thesis
  proof (cases r0)
    case (Inr x)
    then have "r = Inr (Some (from_api (fst x)))" using e g False by (simp add: record_at_def)
    moreover have "from_api (fst x) \<in> set (rs @ ys)"
      using log_present(1) [OF la, of q "fst x" "snd x"] some [OF Inr] by simp
    ultimately show ?thesis using ys by auto
  next
    case (Inl err)
    then have "r = (if err = NotFound then Inr None else Inl (ReadRecordErr q err))"
      using e g False by (simp add: record_at_def)
    moreover have "\<not> (unat a < unat q \<and> unat q \<le> unat a + length rs)" if "err = NotFound"
      using log_absent [OF la, of q] none Inl that by auto
    ultimately show ?thesis using ys by (intro exI [of _ ys]) auto
  qed
qed

lemma catch_up_world:
  assumes w: "append_world rv cv env R a h"
  shows "logged f rv cv R a h rs s \<Longrightarrow> prev_ok a rs prev \<Longrightarrow> catch_up R m q prev s = (r, s') \<Longrightarrow>
    \<exists>ys. logged f rv cv R a h (rs @ ys) s' \<and> (\<forall>p. r = Inr p \<longrightarrow> prev_ok a (rs @ ys) p)"
proof (induction m arbitrary: rs q prev s)
  case 0
  then show ?case by (intro exI [of _ "[]"]) auto
next
  case (Suc m)
  obtain x s1 where g: "record_at R q s = (x, s1)" by force
  from record_at_world [OF w Suc.prems(1) g] obtain ys
    where ys: "logged f rv cv R a h (rs @ ys) s1" "\<And>p. x = Inr (Some p) \<Longrightarrow> p \<in> set (rs @ ys)"
    by blast
  consider (err) e where "x = Inl e" | (stop) "x = Inr None" | (go) p where "x = Inr (Some p)"
    by (metis sum.exhaust option.exhaust)
  then show ?case
  proof cases
    case err
    then show ?thesis using Suc.prems(3) g ys(1) by auto
  next
    case stop
    then show ?thesis using Suc.prems(2,3) g ys(1) by (auto intro: prev_ok_append)
  next
    case go
    then have "catch_up R m (q + 1) (Some p) s1 = (r, s')" using Suc.prems(3) g by simp
    moreover have "prev_ok a (rs @ ys) (Some p)" using ys(2) [OF go] by (simp add: prev_ok_def)
    ultimately obtain zs where "logged f rv cv R a h ((rs @ ys) @ zs) s'"
      "\<forall>p. r = Inr p \<longrightarrow> prev_ok a ((rs @ ys) @ zs) p"
      using Suc.IH [OF ys(1)] by blast
    then show ?thesis by (metis append.assoc)
  qed
qed

lemma load_world:
  assumes w: "append_world rv cv env R a h" and l: "logged f rv cv R a h rs s"
    and e: "load R s = (r, s')"
  shows "\<exists>ys. logged f rv cv R a h (rs @ ys) s' \<and> (\<forall>xs. r = Inr xs \<longrightarrow> set xs = set (rs @ ys))"
proof -
  obtain r0 s1 where g: "list_plain (rec_records R) (rec_ns R) s = (r0, s1)" by force
  then have s1: "s1 = s'" using e by (auto simp: load_def split: sum.splits)
  have k: "kclient_ok rv (\<lambda>s t. cv t = cv s) env (rec_records R)"
    using w by (simp add: append_world_def recorder_ok_def)
  from env_grown [OF w list_cases(1) [OF k g, unfolded s1] l]
  obtain ys where ys: "logged f rv cv R a h (rs @ ys) s'" by blast
  have "set (map (\<lambda>p. from_api (snd p)) xs) = set (rs @ ys)" if "r0 = Inr xs" for xs
  proof -
    have d: "distinct (map fst xs)"
      and m: "\<And>n. map_of xs n = map_option fst (rv s' (rec_ns R, n))"
      using list_cases(2,3) [OF k g that] unfolding s1 by auto
    have la: "log_at (rec_digest R) (rec_ns R) a h (rs @ ys) (rv s') (cv s')"
      using ys by (simp add: logged_def)
    have eq: "map_option from_api (map_of xs n)
        = map_of (map (\<lambda>r. (record_name (ar_seq r), r)) (rs @ ys)) n" for n
      using la unfolding log_at_def m by (simp add: option.map_comp comp_def)
    have ran1: "ran (map_of xs) = snd ` set xs" using d by (rule ran_distinct)
    have inj: "distinct (map fst (map (\<lambda>r. (record_name (ar_seq r), r)) (rs @ ys)))"
    proof -
      have c: "chain_ok (rec_digest R) a h (rs @ ys)" "unat a + length (rs @ ys) \<le> 2 ^ 63"
        using la by (simp_all add: log_at_def)
      have "inj_on (\<lambda>i. ar_seq ((rs @ ys) ! i)) {..<length (rs @ ys)}"
      proof (rule inj_onI)
        fix i j assume ij: "i \<in> {..<length (rs @ ys)}" "j \<in> {..<length (rs @ ys)}"
          and eq: "ar_seq ((rs @ ys) ! i) = ar_seq ((rs @ ys) ! j)"
        have "(of_nat (Suc i) :: uint64) = of_nat (Suc j)"
          using eq ij chain_ok_nth_seq [OF c(1)] by (metis add_left_cancel lessThan_iff)
        moreover have "Suc i < 2 ^ 64" "Suc j < 2 ^ 64" using ij c(2) by simp_all
        ultimately show "i = j" using of_nat_length_eq by blast
      qed
      then have "distinct (map ar_seq (rs @ ys))"
        by (auto simp: distinct_conv_nth inj_on_def simp del: map_append)
      then have "distinct (map record_name (map ar_seq (rs @ ys)))"
        by (simp add: distinct_map inj_on_def del: map_append)
      then show ?thesis by (simp add: comp_def del: map_append)
    qed
    have "ran (\<lambda>n. map_option from_api (map_of xs n)) = from_api ` snd ` set xs"
      unfolding ran1 [symmetric] by (auto simp: ran_def image_iff)
    moreover have "ran (map_of (map (\<lambda>r. (record_name (ar_seq r), r)) (rs @ ys))) = set (rs @ ys)"
      using ran_distinct [OF inj] by (simp add: image_image del: map_append)
    ultimately show ?thesis using eq by (simp add: image_image)
  qed
  moreover have "r = (case r0 of Inl e' \<Rightarrow> Inl (ListErr e')
      | Inr xs \<Rightarrow> Inr (sort_key ar_seq (map (\<lambda>p. from_api (snd p)) xs)))"
    using e g by (auto simp: load_def split: sum.splits)
  ultimately show ?thesis using ys by (auto split: sum.splits)
qed


lemma head_of_log_world:
  assumes w: "append_world rv cv env R a h" and l: "logged f rv cv R a h rs s"
    and e: "head_of_log R s = (r, s')"
  shows "\<exists>ys. logged f rv cv R a h (rs @ ys) s' \<and> (\<forall>p. r = Inr p \<longrightarrow> prev_ok a (rs @ ys) p)"
proof -
  obtain r0 s1 where g: "k_get (rec_checkpoints R) (rec_ns R, checkpoint_name) s = (r0, s1)" by force
  from get_checkpoint_world [OF w g] have env: "env s s1"
    and some: "\<And>x. r0 = Inr x \<Longrightarrow> cv s1 (rec_ns R, checkpoint_name) = Some x" by auto
  from env_grown [OF w env l] obtain ys where ys: "logged f rv cv R a h (rs @ ys) s1" by blast
  show ?thesis
  proof (cases r0)
    case (Inl err)
    show ?thesis
    proof (cases "err = NotFound")
      case True
      obtain q s2 where q: "load R s1 = (q, s2)" by force
      from load_world [OF w ys q] obtain zs where zs: "logged f rv cv R a h ((rs @ ys) @ zs) s2"
        "\<And>xs. q = Inr xs \<Longrightarrow> set xs = set ((rs @ ys) @ zs)" by blast
      have "prev_ok a ((rs @ ys) @ zs) (if xs = [] then None else Some (last xs))" if "q = Inr xs" for xs
      proof (cases "xs = []")
        case True
        then have "(rs @ ys) @ zs = []" using zs(2) [OF that] by simp
        then show ?thesis using zs(1) True by (simp add: prev_ok_def logged_def log_at_def)
      next
        case False
        then have "last xs \<in> set ((rs @ ys) @ zs)" using zs(2) [OF that] last_in_set by blast
        then show ?thesis using False by (simp add: prev_ok_def)
      qed
      then show ?thesis using e g Inl True q zs(1)
        by (intro exI [of _ "ys @ zs"]) (auto simp: head_of_log_def split: sum.splits)
    next
      case False
      then show ?thesis using e g Inl ys by (auto simp: head_of_log_def)
    qed
  next
    case (Inr x)
    obtain c v where x: "x = (c, v)" by (cases x)
    have C: "cv s1 (rec_ns R, checkpoint_name) = Some (c, v)" using some [OF Inr] x by simp
    have cp: "unat a < unat (cps_length c) \<and> unat (cps_length c) \<le> unat a + length (rs @ ys)"
      using ys C log_seq [OF logged_log_at [OF ys]] unfolding logged_def log_at_def by metis
    obtain q s2 where q: "record_at R (cps_length c) s1 = (q, s2)" by force
    from record_at_world [OF w ys q] obtain zs where zs: "logged f rv cv R a h ((rs @ ys) @ zs) s2"
      "\<And>p. q = Inr (Some p) \<Longrightarrow> p \<in> set ((rs @ ys) @ zs)" and "q \<noteq> Inr None" using cp by blast
    show ?thesis
    proof (cases q)
      case (Inl err)
      then show ?thesis using e g Inr x q zs(1)
        by (intro exI [of _ "ys @ zs"]) (auto simp: head_of_log_def)
    next
      case (Inr p)
      then have pk: "prev_ok a ((rs @ ys) @ zs) p"
        using zs(2) \<open>q \<noteq> Inr None\<close> by (cases p) (auto simp: prev_ok_def)
      have "catch_up R max_catch_up (cps_length c + 1) p s2 = (r, s')"
        using e g \<open>r0 = Inr x\<close> x q Inr by (simp add: head_of_log_def)
      from catch_up_world [OF w zs(1) pk this]
      show ?thesis by (metis append.assoc)
    qed
  qed
qed

lemma logged_checkpoint_put:
  assumes "logged f rv cv R a h rs s" and "rv s' = rv s"
    and "cv s' = (cv s)((rec_ns R, checkpoint_name) \<mapsto> (c, v))"
    and "\<exists>r \<in> set rs. ar_seq r = cps_length c \<and> ar_hash r = cps_head c"
  shows "logged f rv cv R a h rs s'"
  using assms by (simp add: logged_def log_at_def)

lemma logged_frame:
  "logged f rv cv R a h rs s \<Longrightarrow> rv s' = rv s \<Longrightarrow> cv s' = cv s \<Longrightarrow> logged f rv cv R a h rs s'"
  by (simp add: logged_def)

lemma put_checkpoint_world:
  assumes w: "append_world rv cv env R a h" and l: "logged f rv cv R a h rs s"
    and e: "put_checkpoint R cp s = (r, s')"
    and b: "\<exists>r \<in> set rs. ar_seq r = cp_length cp \<and> ar_hash r = cp_head cp"
  shows "grown f rv cv R a h rs s'"
proof -
  have k: "kclient_ok cv (\<lambda>s t. rv t = rv s) env (rec_checkpoints R)"
    using w by (simp add: append_world_def recorder_ok_def)
  have len: "cps_length (spec_from_checkpoint cp) = cp_length cp"
      "cps_head (spec_from_checkpoint cp) = cp_head cp"
    by (simp_all add: spec_from_checkpoint_def Let_def split: option.splits)
  have step: "grown f rv cv R a h rs u" if "logged f rv cv R a h (rs @ ys) t" "rv u = rv t"
    "cv u = (cv t)((rec_ns R, checkpoint_name) \<mapsto> (c, v)) \<or> cv u = cv t"
    "cps_length c = cp_length cp" "cps_head c = cp_head cp" for t u c v ys
    using that b logged_checkpoint_put [OF that(1,2), of c v] logged_frame [OF that(1,2)]
    unfolding grown_def by auto
  obtain r0 s1 where g: "k_get (rec_checkpoints R) (rec_ns R, checkpoint_name) s = (r0, s1)" by force
  from env_grown [OF w get_checkpoint_world [OF w g, THEN conjunct1] l]
  obtain ys where ys: "logged f rv cv R a h (rs @ ys) s1" by blast
  then have g1: "grown f rv cv R a h rs s1" unfolding grown_def by blast
  show ?thesis
  proof (cases r0)
    case (Inl err)
    show ?thesis
    proof (cases "err = NotFound")
      case True
      obtain q where c: "k_create (rec_checkpoints R) (rec_ns R, checkpoint_name)
          (spec_from_checkpoint cp) s1 = (q, s')"
        using e g Inl True by (auto simp: put_checkpoint_def Let_def split: prod.splits)
      from k c show ?thesis
      proof (cases rule: create_cases)
        case (written t v)
        with env_grown [OF w written(1) ys] len show ?thesis by (metis append.assoc step)
      next
        case (untouched t)
        with env_grown [OF w untouched(1) ys] len show ?thesis by (metis append.assoc step)
      qed
    next
      case False
      then show ?thesis using e g Inl g1 by (auto simp: put_checkpoint_def Let_def)
    qed
  next
    case (Inr x)
    obtain old v where x: "x = (old, v)" by (cases x)
    show ?thesis
    proof (cases "s' = s1")
      case False
      then obtain q sp where c: "k_update (rec_checkpoints R) (rec_ns R, checkpoint_name) (sp, v) s1 = (q, s')"
        and sp: "cps_length sp = cp_length cp" "cps_head sp = cp_head cp"
        using e g Inr x len by (auto simp: put_checkpoint_def Let_def split: prod.splits if_splits)
      from k c show ?thesis
      proof (cases rule: update_cases)
        case (written t y v')
        with env_grown [OF w written(1) ys] sp show ?thesis by (metis append.assoc step)
      next
        case (untouched t)
        with env_grown [OF w untouched(1) ys] sp show ?thesis by (metis append.assoc step)
      qed
    qed (use g1 in simp)
  qed
qed


lemma seal_follows:
  assumes la: "log_at H ns a h rs V C" and len: "unat a + length rs < 2 ^ 63"
    and p: "prev_ok a rs prev" and new: "V (ns, record_name (ar_seq (seal H event prev))) = None"
  shows "ar_seq (seal H event prev) = a + of_nat (length rs) + 1
    \<and> ar_prev (seal H event prev) = head_hash h rs"
proof (cases prev)
  case None
  then have a0: "a = 0" using p by (simp add: prev_ok_def)
  then have "rs = []" using log_absent [OF la new] None by (cases rs) auto
  then show ?thesis using None a0 la by (simp add: log_at_def)
next
  case (Some q)
  then have q: "q \<in> set rs" using p by (simp add: prev_ok_def)
  note b = log_seq [OF la q]
  have "unat (ar_seq q + 1) = unat (ar_seq q) + 1" using b len by (intro unat_Suc_word) simp
  then have "unat (ar_seq q) = unat a + length rs"
    using log_absent [OF la new] b Some by simp
  then have last: "q = last rs" using b by simp
  have "rs \<noteq> []" using q by auto
  then have "ar_seq q = a + of_nat (length rs)"
    using la chain_ok_last_seq last by (auto simp: log_at_def)
  then show ?thesis using Some last \<open>rs \<noteq> []\<close> by (simp add: head_hash_def)
qed

lemma create_record_world:
  assumes w: "append_world rv cv env R a h" and l: "logged False rv cv R a h rs s"
    and p: "prev_ok a rs prev" and sealed: "sealed = seal (rec_digest R) event prev"
    and e: "k_create (rec_records R) (rec_ns R, record_name (ar_seq sealed)) (to_api sealed) s = (q, s')"
  shows "(q \<noteq> Some AlreadyExists \<and> (\<exists>ys. logged True rv cv R a h (rs @ ys) s' \<and> sealed \<in> set ys \<and>
      unat (ar_seq sealed) = unat a + length (rs @ ys) \<and> unat a < unat (ar_seq sealed)))
    \<or> (q \<noteq> None \<and> (\<exists>ys. logged False rv cv R a h (rs @ ys) s'))"
proof -
  have k: "kclient_ok rv (\<lambda>s t. cv t = cv s) env (rec_records R)"
    using w by (simp add: append_world_def recorder_ok_def)
  from k e show ?thesis
  proof (cases rule: create_cases)
    case (written t v)
    from env_grown [OF w written(1) l] obtain ys where ys: "logged False rv cv R a h (rs @ ys) t"
      by blast
    then have len: "unat a + length (rs @ ys) < 2 ^ 63" by (auto simp: logged_def log_cap_def)
    note la = logged_log_at [OF ys]
    have link: "ar_seq sealed = a + of_nat (length (rs @ ys)) + 1"
      "ar_prev sealed = head_hash h (rs @ ys)"
      using seal_follows [OF la len prev_ok_append [OF p]] written(3) unfolding sealed by blast+
    have "log_at (rec_digest R) (rec_ns R) a h ((rs @ ys) @ [sealed]) (rv s') (cv t)"
      unfolding written(4)
      by (rule log_at_snoc [OF la len link _ written(3)]) (simp add: sealed)
    then have l': "logged True rv cv R a h (rs @ ys @ [sealed]) s'"
      using written(2) len by (simp add: logged_def log_cap_def)
    moreover have "unat (ar_seq sealed) = unat a + length (rs @ ys @ [sealed])"
      using len unfolding link(1) by (simp add: unat_word_ariths unat_of_nat)
    ultimately show ?thesis using written(5)
      by (intro disjI1 conjI exI [of _ "ys @ [sealed]"]) auto
  next
    case (untouched t)
    from env_grown [OF w untouched(1) l] obtain ys where "logged False rv cv R a h (rs @ ys) t"
      by blast
    then have "logged False rv cv R a h (rs @ ys) s'"
      using untouched(2,3) by (simp add: logged_frame)
    then show ?thesis using untouched(4) by blast
  qed
qed

lemma back_off_world:
  assumes w: "append_world rv cv env R a h" and l: "logged f rv cv R a h rs s"
    and e: "back_off R i s = (x, s')"
  shows "grown f rv cv R a h rs s'"
proof -
  obtain j s1 where r: "rt_rand (rec_runtime R) (backoff_window i) s = (j, s1)" by force
  then have z: "rt_sleep (rec_runtime R) (j + min_append_backoff) s1 = (x, s')"
    using e by (simp add: back_off_def)
  have "env s s1" "env s1 s'" using w r z unfolding append_world_def recorder_ok_def by blast+
  then show ?thesis
    using env_grown [OF w _ l] env_grown [OF w] unfolding grown_def by (metis append.assoc)
qed

definition event_kept :: "audit_record \<Rightarrow> audit_record \<Rightarrow> bool" where
  "event_kept event r \<longleftrightarrow>
     ar_time r = truncate_sec (ar_time event) \<and> ar_type r = ar_type event \<and>
     ar_subject r = ar_subject event \<and> ar_actor r = ar_actor event \<and>
     ar_detail r = ar_detail event"

lemma seal_event_kept: "event_kept event (seal H event prev)"
  by (simp add: event_kept_def)

lemma append_attempts_world:
  assumes w: "append_world rv cv env R a h"
  shows "logged False rv cv R a h rs s \<Longrightarrow> prev_ok a rs prev \<Longrightarrow>
    append_attempts R m i event prev s = (r, s') \<Longrightarrow>
    \<exists>ys. logged True rv cv R a h (rs @ ys) s' \<and>
      (\<forall>x. r = Inr x \<longrightarrow> x \<in> set ys \<and> event_kept event x)"
proof (induction m arbitrary: rs i prev s)
  case 0
  then show ?case by (intro exI [of _ "[]"]) (auto dest: logged_full)
next
  case (Suc m)
  obtain b s1 where b: "(if 0 < i then back_off R i s else (None, s)) = (b, s1)" by force
  then have "grown False rv cv R a h rs s1"
    using back_off_world [OF w Suc.prems(1)] grown_refl [OF Suc.prems(1)] by (auto split: if_splits)
  then obtain ys where ys: "logged False rv cv R a h (rs @ ys) s1" unfolding grown_def by blast
  show ?case
  proof (cases b)
    case (Some err)
    then show ?thesis using Suc.prems(3) b logged_full [OF ys] by auto
  next
    case None
    define sealed where "sealed = seal (rec_digest R) event prev"
    obtain q s2 where q: "k_create (rec_records R) (rec_ns R, record_name (ar_seq sealed))
        (to_api sealed) s1 = (q, s2)" by force
    note c = create_record_world [OF w ys prev_ok_append [OF Suc.prems(2)] sealed_def q]
    have rest: "(r, s') = (case (q, s2) of
        (None, s2) \<Rightarrow> (case write_checkpoint R sealed s2 of (_, s3) \<Rightarrow> (Inr sealed, s3))
      | (Some e, s2) \<Rightarrow>
          if e = AlreadyExists
          then (case head_of_log R s2 of
                  (Inl e', s3) \<Rightarrow> (Inl (LostHead e'), s3)
                | (Inr found, s3) \<Rightarrow> append_attempts R m (Suc i) event found s3)
          else (Inl (CreateErr e), s2))"
      unfolding sealed_def using Suc.prems(3) [symmetric] b None q [unfolded sealed_def]
      by (simp add: Let_def)
    consider (made) "q = None" | (lost) "q = Some AlreadyExists"
      | (failed) err where "q = Some err" "err \<noteq> AlreadyExists" by (cases q) auto
    then show ?thesis
    proof cases
      case made
      from c made obtain zs where zs: "logged True rv cv R a h ((rs @ ys) @ zs) s2"
        and n: "sealed \<in> set zs" "unat (ar_seq sealed) = unat a + length ((rs @ ys) @ zs)"
          "unat a < unat (ar_seq sealed)" by blast
      obtain d s3 where d: "write_checkpoint R sealed s2 = (d, s3)" by force
      then have r: "r = Inr sealed" "s' = s3" using rest made by auto
      have "grown True rv cv R a h ((rs @ ys) @ zs) s3"
        by (rule put_checkpoint_world [OF w zs d [unfolded write_checkpoint_def]])
          (use n(1) in auto)
      then obtain us where "logged True rv cv R a h (((rs @ ys) @ zs) @ us) s'"
        unfolding grown_def r by blast
      then show ?thesis using n r seal_event_kept
        by (intro exI [of _ "ys @ zs @ us"]) (auto simp: sealed_def)
    next
      case failed
      then have "r = Inl (CreateErr err)" "s' = s2" using rest by auto
      moreover have "\<exists>zs. logged True rv cv R a h ((rs @ ys) @ zs) s2"
        using c by (elim disjE conjE exE) (blast intro: logged_full)+
      ultimately show ?thesis by (metis Inl_Inr_False append.assoc)
    next
      case lost
      from c lost obtain zs where zs: "logged False rv cv R a h ((rs @ ys) @ zs) s2" by blast
      obtain f s3 where f: "head_of_log R s2 = (f, s3)" by force
      from head_of_log_world [OF w zs f] obtain us
        where us: "logged False rv cv R a h (((rs @ ys) @ zs) @ us) s3"
          "\<And>p. f = Inr p \<Longrightarrow> prev_ok a (((rs @ ys) @ zs) @ us) p" by blast
      show ?thesis
      proof (cases f)
        case (Inl e')
        then have "r = Inl (LostHead e')" "s' = s3" using rest lost f by auto
        then show ?thesis using logged_full [OF us(1)] by (intro exI [of _ "ys @ zs @ us"]) auto
      next
        case (Inr found)
        then have "append_attempts R m (Suc i) event found s3 = (r, s')"
          using rest lost f by simp
        from Suc.IH [OF us(1) us(2) [OF Inr] this] obtain vs
          where "logged True rv cv R a h ((((rs @ ys) @ zs) @ us) @ vs) s'"
            "\<forall>x. r = Inr x \<longrightarrow> x \<in> set vs \<and> event_kept event x" by blast
        then show ?thesis by (intro exI [of _ "ys @ zs @ us @ vs"]) auto
      qed
    qed
  qed
qed

lemma append_event_world:
  assumes w: "append_world rv cv env R a h" and l: "logged False rv cv R a h rs s"
    and e: "append_event R event s = (r, s')"
  shows "\<exists>ys. logged True rv cv R a h (rs @ ys) s' \<and>
    (\<forall>x. r = Inr x \<longrightarrow> x \<in> set ys \<and> event_kept event x)"
proof -
  obtain f s1 where f: "head_of_log R s = (f, s1)" by force
  from head_of_log_world [OF w l f] obtain ys
    where ys: "logged False rv cv R a h (rs @ ys) s1" "\<And>p. f = Inr p \<Longrightarrow> prev_ok a (rs @ ys) p"
    by blast
  show ?thesis
  proof (cases f)
    case (Inl e')
    then have "r = Inl e'" "s' = s1" using e f by (auto simp: append_event_def)
    then show ?thesis using logged_full [OF ys(1)] by blast
  next
    case (Inr prev)
    then have "append_attempts R max_append_attempts 0 event prev s1 = (r, s')"
      using e f by (simp add: append_event_def)
    from append_attempts_world [OF w ys(1) ys(2) [OF Inr] this] obtain zs
      where "logged True rv cv R a h ((rs @ ys) @ zs) s'"
        "\<forall>x. r = Inr x \<longrightarrow> x \<in> set zs \<and> event_kept event x" by blast
    then show ?thesis by (intro exI [of _ "ys @ zs"]) auto
  qed
qed

end
