(* ===== verification/Audit_Log.thy ===== *)
theory Audit_Log
  imports Audit_Append
begin

text \<open>
  The properties of the stored log: what an append promises when others append at the same time,
  what the published checkpoint promises, and two states in which the appender of
  \<open>internal/audit/recorder.go\<close> does not do what its comments promise.
\<close>

section \<open>Whoever appends\<close>

text \<open>
  What a caller relies on when it appends an event, whatever the log is kept in: the record it gets
  back is its event, sealed.
\<close>

locale appender =
  fixes H :: digest_fn
    and append_to :: "audit_record \<Rightarrow> 's \<Rightarrow> ('e + audit_record) \<times> 's"
  assumes returns_sealed: "append_to ev s = (Inr x, s') \<Longrightarrow> \<exists>prev. x = seal H ev prev"
begin

lemma returned_event: "append_to ev s = (Inr x, s') \<Longrightarrow> event_kept ev x"
  using returns_sealed seal_event_kept by blast

lemma returned_hash: "append_to ev s = (Inr x, s') \<Longrightarrow> ar_hash x = compute_hash H x"
  using returns_sealed seal_hash by blast

end

lemma append_attempts_sealed:
  "append_attempts R m i ev prev s = (Inr x, s') \<Longrightarrow> \<exists>p. x = seal (rec_digest R) ev p"
proof (induction m arbitrary: i prev s)
  case (Suc m)
  then show ?case
    by (auto simp: Let_def split: prod.splits option.splits sum.splits if_splits)
qed simp

lemma append_event_sealed:
  "append_event R ev s = (Inr x, s') \<Longrightarrow> \<exists>p. x = seal (rec_digest R) ev p"
  by (auto simp: append_event_def dest: append_attempts_sealed split: prod.splits sum.splits)

interpretation recorder_appender: appender "rec_digest R" "append_event R" for R
  by unfold_locales (rule append_event_sealed)

section \<open>A world to run the recorder in\<close>

record log_world =
  lw_records :: "audit_obj mem_store"
  lw_checkpoints :: "checkpoint_spec mem_store"

definition demo_runtime :: "log_world runtime" where
  "demo_runtime = \<lparr>rt_now = (\<lambda>s. (7, s)), rt_rand = (\<lambda>n s. (0, s)), rt_sleep = (\<lambda>d s. (None, s))\<rparr>"

definition demo_recorder :: "log_world recorder" where
  "demo_recorder =
     \<lparr>rec_records = mem_client lw_records (\<lambda>m. lw_records_update (\<lambda>_. m)),
      rec_checkpoints = mem_client lw_checkpoints (\<lambda>m. lw_checkpoints_update (\<lambda>_. m)),
      rec_runtime = demo_runtime, rec_digest = escape, rec_ns = ''audit''\<rparr>"

abbreviation demo_rv :: "log_world \<Rightarrow> audit_obj view" where
  "demo_rv \<equiv> \<lambda>s. map_of (lw_records s)"

abbreviation demo_cv :: "log_world \<Rightarrow> checkpoint_spec view" where
  "demo_cv \<equiv> \<lambda>s. map_of (lw_checkpoints s)"

lemma demo_recorder_ok: "recorder_ok demo_rv demo_cv (=) demo_recorder"
  unfolding recorder_ok_def demo_recorder_def demo_runtime_def
  by (auto intro!: mem_client_ok)

lemma demo_append_world: "append_world demo_rv demo_cv (=) demo_recorder a h"
  unfolding append_world_def log_env_def using demo_recorder_ok
  by (auto intro: exI [of _ "[]"])

lemma demo_sel [simp]:
  "rec_records demo_recorder = mem_client lw_records (\<lambda>m. lw_records_update (\<lambda>_. m))"
  "rec_checkpoints demo_recorder = mem_client lw_checkpoints (\<lambda>m. lw_checkpoints_update (\<lambda>_. m))"
  "rec_runtime demo_recorder = demo_runtime" "rec_digest demo_recorder = escape"
  "rec_ns demo_recorder = ''audit''"
  by (simp_all add: demo_recorder_def)

lemmas demo_run =
  append_event_def head_of_log_def load_def list_plain_def mem_client_def mem_list_def Let_def write_checkpoint_def
  put_checkpoint_def spec_from_checkpoint_def record_at_def

definition empty_log :: log_world where
  "empty_log = \<lparr>lw_records = [], lw_checkpoints = []\<rparr>"

lemma empty_logged: "logged False demo_rv demo_cv demo_recorder 0 genesis_hash [] empty_log"
  by (simp add: logged_def log_at_def empty_log_def log_cap_def)

section \<open>Appending under contention\<close>

text \<open>
  Claim C29. Appends are linear. Start from a stored log that is a chain of records \<open>rs\<close> after an
  archived prefix, and let other clients append and publish heads between any two calls of this
  append. Then the store afterwards is again a chain, the old one with records added at its end
  only, and the checkpoint names one of its records; when the append reports success, the record it
  returned is one of the added ones and holds the event it was given.
\<close>

theorem append_linear:
  assumes "append_world rv cv env R a h" and "logged False rv cv R a h rs s"
    and "append_event R event s = (r, s')"
  shows "\<exists>ys. logged True rv cv R a h (rs @ ys) s' \<and>
    (\<forall>x. r = Inr x \<longrightarrow> x \<in> set ys \<and> event_kept event x)"
  by (rule append_event_world [OF assms])

lemma demo_append:
  "append_event demo_recorder event0 empty_log
     = (Inr (seal escape event0 None), snd (append_event demo_recorder event0 empty_log))"
proof -
  have "fst (append_attempts demo_recorder (Suc m) 0 event0 None empty_log)
      = Inr (seal escape event0 None)" for m
    by (simp add: demo_run empty_log_def)
  from this [of 4095] have "fst (append_event demo_recorder event0 empty_log)
      = Inr (seal escape event0 None)"
    by (simp add: demo_run max_append_attempts_def empty_log_def del: append_attempts.simps)
  then show ?thesis by (metis prod.collapse)
qed

theorem append_linear_witness:
  "\<exists>ys. logged True demo_rv demo_cv demo_recorder 0 genesis_hash ys
       (snd (append_event demo_recorder event0 empty_log)) \<and> seal escape event0 None \<in> set ys"
  using append_linear [OF demo_append_world empty_logged demo_append] by auto


text \<open>A store holding a given log and checkpoint.\<close>

definition stored_log :: "audit_record list \<Rightarrow> checkpoint_spec \<Rightarrow> log_world" where
  "stored_log rs c =
     \<lparr>lw_records = map (\<lambda>r. ((''audit'', record_name (ar_seq r)), (to_api r, 1))) rs,
      lw_checkpoints = [((''audit'', checkpoint_name), (c, 1))]\<rparr>"

definition spec_at :: "uint64 \<Rightarrow> string \<Rightarrow> uint64 \<Rightarrow> string \<Rightarrow> checkpoint_spec" where
  "spec_at n h a g = \<lparr>cps_length = n, cps_head = h, cps_time = 0, cps_archived_length = a,
     cps_archived_head = g, cps_location = []\<rparr>"

lemma stored_records:
  "map_option (\<lambda>x. from_api (fst x)) (map_of (lw_records (stored_log rs c)) (''audit'', n))
     = map_of (map (\<lambda>r. (record_name (ar_seq r), r)) rs) n"
  by (induction rs) (auto simp: stored_log_def)

lemma stored_logged:
  assumes "chain_ok escape a h rs" and "unat a + length rs < 2 ^ 63" and "rs \<noteq> []"
    and "a = 0 \<longrightarrow> h = genesis_hash"
    and "\<exists>r \<in> set rs. ar_seq r = cps_length c \<and> ar_hash r = cps_head c"
  shows "logged False demo_rv demo_cv demo_recorder a h rs (stored_log rs c)"
  using assms stored_records [of rs c]
  by (auto simp: logged_def log_at_def log_cap_def stored_log_def)

fun sealed_log :: "nat \<Rightarrow> audit_record list" where
  "sealed_log 0 = []"
| "sealed_log (Suc n) = (let rs = sealed_log n in rs @ [sealed_after escape rs event0])"

lemma length_sealed_log [simp]: "length (sealed_log n) = n"
  by (induction n) (auto simp: Let_def)

lemma sealed_log_chain: "chain_ok escape 0 genesis_hash (sealed_log n)"
proof (induction n)
  case (Suc n)
  have "sealed_log n \<noteq> [] \<Longrightarrow> ar_seq (last (sealed_log n)) = of_nat n"
    using chain_ok_last_seq [OF Suc] by simp
  then show ?case using Suc
    by (cases "sealed_log n = []") (auto simp: Let_def sealed_after_def head_hash_def
        dest: arg_cong [of _ _ length])
qed simp

section \<open>The published checkpoint\<close>

text \<open>One checkpoint is at least as far on as another, in both of its counters.\<close>

definition cp_le :: "checkpoint_spec \<Rightarrow> checkpoint_spec \<Rightarrow> bool" where
  "cp_le c d \<longleftrightarrow> cps_length c \<le>s cps_length d \<and> cps_archived_length c \<le>s cps_archived_length d"

definition cp_at_least ::
    "('s \<Rightarrow> checkpoint_spec view) \<Rightarrow> 's recorder \<Rightarrow> checkpoint_spec \<Rightarrow> 's \<Rightarrow> bool" where
  "cp_at_least cv R c s \<longleftrightarrow> (\<exists>d v. cv s (rec_ns R, checkpoint_name) = Some (d, v) \<and> cp_le c d)"

definition cp_env :: "('s \<Rightarrow> checkpoint_spec view) \<Rightarrow> ('s \<Rightarrow> 's \<Rightarrow> bool) \<Rightarrow> 's recorder \<Rightarrow> bool" where
  "cp_env cv env R \<longleftrightarrow> (\<forall>s t c. env s t \<longrightarrow> cp_at_least cv R c s \<longrightarrow> cp_at_least cv R c t)"

lemma cp_le_trans: "cp_le c d \<Longrightarrow> cp_le d e \<Longrightarrow> cp_le c e"
  by (auto simp: cp_le_def intro: order.trans)

lemma cp_at_least_env: "cp_env cv env R \<Longrightarrow> env s t \<Longrightarrow> cp_at_least cv R c s \<Longrightarrow> cp_at_least cv R c t"
  unfolding cp_env_def by blast

text \<open>
  A read followed by a conditional update: when the update goes through, the object was the one
  read, so a change that goes forward from what was read goes forward from what is replaced.
\<close>

lemma cp_update:
  assumes k: "kclient_ok cv fr env (rec_checkpoints R)" and me: "cp_env cv env R"
    and g: "k_get (rec_checkpoints R) (rec_ns R, checkpoint_name) s = (Inr (old, v), s1)"
    and u: "k_update (rec_checkpoints R) (rec_ns R, checkpoint_name) (sp, v) s1 = (r, s')"
    and le: "cp_le old sp" and c: "cp_at_least cv R c s"
  shows "cp_at_least cv R c s'"
proof -
  have s1: "cp_at_least cv R c s1" using cp_at_least_env [OF me get_cases(1) [OF k g] c] .
  have o1: "cv s1 (rec_ns R, checkpoint_name) = Some (old, v)" using get_cases(2) [OF k g] by simp
  from k u show ?thesis
  proof (cases rule: update_cases)
    case (written t y v')
    have "y = old" using version_unique [OF k written(1) o1 written(3)] .
    moreover have "cp_at_least cv R c t" using cp_at_least_env [OF me written(1) s1] .
    ultimately have "cp_le c old" using written(3) by (auto simp: cp_at_least_def)
    then show ?thesis using written(4) cp_le_trans [OF _ le] by (auto simp: cp_at_least_def)
  next
    case (untouched t)
    then show ?thesis using cp_at_least_env [OF me untouched(1) s1] by (auto simp: cp_at_least_def)
  qed
qed

lemma write_checkpoint_forward:
  assumes k: "kclient_ok cv fr env (rec_checkpoints R)" and me: "cp_env cv env R"
    and e: "write_checkpoint R x s = (r, s')" and c: "cp_at_least cv R c s"
  shows "cp_at_least cv R c s'"
proof -
  obtain r0 s1 where g: "k_get (rec_checkpoints R) (rec_ns R, checkpoint_name) s = (r0, s1)" by force
  have s1: "cp_at_least cv R c s1" using cp_at_least_env [OF me get_cases(1) [OF k g] c] .
  show ?thesis
  proof (cases r0)
    case (Inl err)
    have "err \<noteq> NotFound" using get_cases(3) [OF k g] Inl s1 by (auto simp: cp_at_least_def)
    then show ?thesis using e g Inl s1
      by (auto simp: write_checkpoint_def put_checkpoint_def Let_def)
  next
    case (Inr q)
    obtain old v where q: "q = (old, v)" by (cases q)
    show ?thesis
    proof (cases "ar_seq x <s cps_length old")
      case True
      then show ?thesis using e g Inr q s1
        by (auto simp: write_checkpoint_def put_checkpoint_def spec_from_checkpoint_def Let_def)
    next
      case False
      obtain sp r1 where u: "k_update (rec_checkpoints R) (rec_ns R, checkpoint_name) (sp, v) s1 = (r1, s')"
        and sp: "cps_length sp = ar_seq x" "cps_archived_length sp = cps_archived_length old"
        using e g Inr q False
        by (auto simp: write_checkpoint_def put_checkpoint_def spec_from_checkpoint_def Let_def
            split: prod.splits)
      have "cp_le old sp" using False sp by (simp add: cp_le_def)
      from cp_update [OF k me _ u this c] g Inr q show ?thesis by simp
    qed
  qed
qed

lemma advance_forward:
  assumes k: "kclient_ok cv fr env (rec_checkpoints R)" and me: "cp_env cv env R"
  shows "advance_attempts R m a s = (r, s') \<Longrightarrow> cp_at_least cv R c s \<Longrightarrow> cp_at_least cv R c s'"
proof (induction m arbitrary: s)
  case (Suc m)
  note c = Suc.prems(2)
  obtain r0 s1 where g: "k_get (rec_checkpoints R) (rec_ns R, checkpoint_name) s = (r0, s1)" by force
  have s1: "cp_at_least cv R c s1" using cp_at_least_env [OF me get_cases(1) [OF k g] c] .
  show ?case
  proof (cases r0)
    case (Inl err)
    then show ?thesis using Suc.prems(1) g s1 by (auto simp: Let_def)
  next
    case (Inr q)
    obtain old v where q: "q = (old, v)" by (cases q)
    define sp where "sp = old\<lparr>cps_archived_length := an_length a, cps_archived_head := an_head a,
                              cps_location := an_location a\<rparr>"
    obtain r1 s2 where u: "k_update (rec_checkpoints R) (rec_ns R, checkpoint_name) (sp, v) s1 = (r1, s2)"
      by force
    show ?thesis
    proof (cases "an_length a <s cps_archived_length old \<or> cps_length old <s an_length a")
      case True
      then show ?thesis using Suc.prems(1) g Inr q s1 by (auto simp: Let_def split: if_splits)
    next
      case False
      then have "cp_le old sp" by (auto simp: cp_le_def sp_def word_sle_eq word_sless_alt)
      from cp_update [OF k me _ u this c] g Inr q have s2: "cp_at_least cv R c s2" by simp
      have "(r, s') = (case r1 of None \<Rightarrow> (None, s2)
          | Some e \<Rightarrow> if e = Conflict then advance_attempts R m a s2 else (Some (WriteErr e), s2))"
        using Suc.prems(1) [symmetric] g Inr q False u [unfolded sp_def] by (simp add: Let_def)
      then show ?thesis using s2 Suc.IH [of s2] by (auto split: option.splits if_splits)
    qed
  qed
qed simp

text \<open>
  A checkpoint never regresses. If no other client moves the published checkpoint
  backwards, then neither publishing the head of an append nor advancing the archive boundary does:
  both counters are at least what they were, whichever of the calls failed, conflicted or had been
  overtaken. It is the resource version of the update that makes this true under races.
\<close>

theorem checkpoint_never_regresses:
  assumes "kclient_ok cv fr env (rec_checkpoints R)" and "cp_env cv env R"
    and "cp_at_least cv R c s"
  shows "cp_at_least cv R c (snd (write_checkpoint R x s)) \<and>
    cp_at_least cv R c (snd (advance_boundary R a s))"
  using write_checkpoint_forward [OF assms(1,2) _ assms(3)] advance_forward [OF assms(1,2) _ assms(3)]
  unfolding advance_boundary_def by (metis prod.collapse)

definition far_log :: log_world where
  "far_log = empty_log\<lparr>lw_checkpoints :=
     [((''audit'', checkpoint_name),
       (\<lparr>cps_length = 5, cps_head = ''h'', cps_time = 0, cps_archived_length = 3,
         cps_archived_head = ''g'', cps_location = []\<rparr>, 1))]\<rparr>"

theorem checkpoint_never_regresses_witness:
  "cp_at_least demo_cv demo_recorder (fst (the (demo_cv far_log (''audit'', checkpoint_name))))
     (snd (write_checkpoint demo_recorder (event0\<lparr>ar_seq := 4\<rparr>) far_log)) \<and>
   cp_at_least demo_cv demo_recorder (fst (the (demo_cv far_log (''audit'', checkpoint_name))))
     (snd (advance_boundary demo_recorder \<lparr>an_length = 4, an_head = ''x'', an_location = []\<rparr> far_log))"
  by (rule checkpoint_never_regresses [where env = "(=)" and fr = "\<lambda>s t. lw_records t = lw_records s"])
    (auto simp: cp_env_def cp_at_least_def far_log_def cp_le_def intro!: mem_client_ok)


section \<open>A checkpoint too far behind\<close>

text \<open>
  From here on no other client acts: \<open>env\<close> is equality.  A read then leaves the state as it is.
\<close>

lemma quiet_record_at:
  assumes w: "append_world rv cv (=) R a h" and l: "logged True rv cv R a h rs s"
    and e: "record_at R q s = (r, s')" and q: "unat a < unat q" "unat q \<le> unat a + length rs"
  shows "s' = s \<and> (\<forall>p. r = Inr p \<longrightarrow> p = Some (rs ! (unat q - unat a - 1)))"
proof -
  have q0: "q \<noteq> 0" using q(1) by auto
  obtain r0 s1 where g: "k_get (rec_records R) (rec_ns R, record_name q) s = (r0, s1)" by force
  from get_record_world [OF w g] have v: "s1 = s" "\<And>x. r0 = Inr x \<Longrightarrow> rv s (rec_ns R, record_name q) = Some x"
    "r0 = Inl NotFound \<Longrightarrow> rv s (rec_ns R, record_name q) = None" by auto
  have "map_option (\<lambda>x. from_api (fst x)) (rv s (rec_ns R, record_name q)) = Some (rs ! (unat q - unat a - 1))"
    using log_lookup [OF logged_log_at [OF l], of q] q by simp
  then show ?thesis using e g q0 v
    by (auto simp: record_at_def split: sum.splits if_splits)
qed

lemma quiet_catch_up:
  assumes w: "append_world rv cv (=) R a h" and l: "logged True rv cv R a h rs s"
  shows "catch_up R (Suc m) q prev s = (r, s') \<Longrightarrow> unat a < unat q \<Longrightarrow>
    unat q + m \<le> unat a + length rs \<Longrightarrow>
    s' = s \<and> (\<forall>p. r = Inr p \<longrightarrow> p = Some (rs ! (unat q + m - unat a - 1)))"
proof (induction m arbitrary: q prev)
  case 0
  obtain x s1 where x: "record_at R q s = (x, s1)" by force
  from quiet_record_at [OF w l x] 0 x show ?case
    by (cases x) (auto split: option.splits)
next
  case (Suc m)
  obtain x s1 where x: "record_at R q s = (x, s1)" by force
  from quiet_record_at [OF w l x] Suc.prems(2,3)
  have v: "s1 = s" "\<And>p. x = Inr p \<Longrightarrow> p = Some (rs ! (unat q - unat a - 1))" by auto
  have "unat a + length rs < 2 ^ 64" using logged_log_at [OF l] by (simp add: log_at_def)
  then have q1: "unat (q + 1) = unat q + 1" using Suc.prems(3) by (intro unat_Suc_word) simp
  show ?case
  proof (cases x)
    case (Inl e)
    then show ?thesis using Suc.prems(1) x v(1) by auto
  next
    case (Inr p)
    then obtain y where "p = Some y" using v(2) by blast
    then have "catch_up R (Suc m) (q + 1) (Some y) s = (r, s')"
      using Suc.prems(1) x v(1) Inr by simp
    from Suc.IH [OF this] q1 Suc.prems(2,3) show ?thesis by simp
  qed
qed

definition cp_behind ::
    "('s \<Rightarrow> checkpoint_spec view) \<Rightarrow> 's recorder \<Rightarrow> uint64 \<Rightarrow> 's \<Rightarrow> bool" where
  "cp_behind cv R n s \<longleftrightarrow>
     (\<exists>c v. cv s (rec_ns R, checkpoint_name) = Some (c, v) \<and> cps_length c = n)"

lemma quiet_head_behind:
  assumes w: "append_world rv cv (=) R a h" and l: "logged True rv cv R a h rs s"
    and b: "cp_behind cv R n s" and far: "unat n + 1000 < unat a + length rs"
    and e: "head_of_log R s = (r, s')"
  shows "s' = s \<and> (\<forall>p. r = Inr p \<longrightarrow> (\<exists>x. p = Some x \<and> ar_seq x = n + 1000))"
proof -
  note la = logged_log_at [OF l]
  obtain r0 s1 where g: "k_get (rec_checkpoints R) (rec_ns R, checkpoint_name) s = (r0, s1)" by force
  from get_checkpoint_world [OF w g] b have s1: "s1 = s" and nf: "r0 \<noteq> Inl NotFound"
    and c: "\<And>c v. r0 = Inr (c, v) \<Longrightarrow> cps_length c = n" by (auto simp: cp_behind_def)
  have n: "unat a < unat n" using b la log_seq [OF la] unfolding cp_behind_def log_at_def by metis
  have len: "unat a + length rs \<le> 2 ^ 63" "chain_ok (rec_digest R) a h rs"
    using la by (simp_all add: log_at_def)
  have n1: "unat (n + 1) = unat n + 1" using far len by (intro unat_Suc_word) simp
  show ?thesis
  proof (cases r0)
    case (Inl err)
    then show ?thesis using e g nf s1 by (auto simp: head_of_log_def)
  next
    case (Inr q)
    obtain c v where q: "q = (c, v)" by (cases q)
    obtain x s2 where x: "record_at R n s = (x, s2)" by force
    from quiet_record_at [OF w l x n] far have v: "s2 = s" by simp
    show ?thesis
    proof (cases x)
      case (Inl err)
      then show ?thesis using e g Inr q c s1 x v by (auto simp: head_of_log_def)
    next
      case (Inr prev)
      have "catch_up R (Suc 999) (n + 1) prev s = (r, s')"
        using e g \<open>r0 = Inr q\<close> q c s1 x v Inr by (simp add: head_of_log_def max_catch_up_def del: catch_up.simps)
      from quiet_catch_up [OF w l this] n1 n far
      have u: "s' = s" "\<And>p. r = Inr p \<Longrightarrow> p = Some (rs ! (unat n + 1000 - unat a - 1))" by auto
      have "ar_seq (rs ! (unat n + 1000 - unat a - 1)) = a + of_nat (unat n + 1000 - unat a)"
        using chain_ok_nth_seq [OF len(2), of "unat n + 1000 - unat a - 1"] n far by simp
      also have "\<dots> = of_nat (unat a + (unat n + 1000 - unat a))" by (simp del: of_nat_diff)
      also have "\<dots> = n + 1000" using n by simp
      finally show ?thesis using u by auto
    qed
  qed
qed

lemma quiet_back_off:
  assumes w: "append_world rv cv (=) R a h"
  shows "snd (back_off R i s) = s"
proof -
  obtain j s1 where r: "rt_rand (rec_runtime R) (backoff_window i) s = (j, s1)" by force
  obtain x s2 where z: "rt_sleep (rec_runtime R) (j + min_append_backoff) s1 = (x, s2)" by force
  have "s = s1" "s1 = s2" using w r z unfolding append_world_def recorder_ok_def by blast+
  then show ?thesis using r z by (simp add: back_off_def)
qed

lemma stuck_attempts:
  assumes w: "append_world rv cv (=) R a h" and far: "unat n + 1000 < unat a + length rs"
  shows "logged True rv cv R a h rs s \<Longrightarrow> cp_behind cv R n s \<Longrightarrow>
    append_attempts R m i event (Some x) s = (r, s') \<Longrightarrow> ar_seq x = n + 1000 \<Longrightarrow> isl r"
proof (induction m arbitrary: s i x)
  case (Suc m)
  note l = Suc.prems(1) and b = Suc.prems(2)
  note la = logged_log_at [OF l]
  have k: "kclient_ok rv (\<lambda>s t. cv t = cv s) (=) (rec_records R)"
    using w by (simp add: append_world_def recorder_ok_def)
  define sealed where "sealed = seal (rec_digest R) event (Some x)"
  have len: "unat a + length rs \<le> 2 ^ 63" using la by (simp add: log_at_def)
  have n1: "unat (n + 1001) = unat n + 1001" using far len by (simp add: unat_word_ariths)
  have seq: "ar_seq sealed = n + 1001" using Suc.prems(4) by (simp add: sealed_def)
  have n: "unat a < unat n" using b la log_seq [OF la] unfolding cp_behind_def log_at_def by metis
  have taken: "rv s (rec_ns R, record_name (ar_seq sealed)) \<noteq> None"
    using log_absent [OF la, of "n + 1001"] n1 n far unfolding seq by linarith
  obtain q s2 where q: "k_create (rec_records R) (rec_ns R, record_name (ar_seq sealed))
      (to_api sealed) s = (q, s2)" by force
  from k q have q': "q \<noteq> None \<and> rv s2 = rv s \<and> cv s2 = cv s"
    by (cases rule: create_cases) (use taken in auto)
  then have l2: "logged True rv cv R a h rs s2" and b2: "cp_behind cv R n s2"
    using l b by (auto simp: logged_def cp_behind_def)
  obtain b0 where b0: "(if 0 < i then back_off R i s else (None, s)) = (b0, s)"
    using quiet_back_off [OF w, of i s] by (metis prod.collapse)
  obtain e where e: "q = Some e" using q' by auto
  show ?case
  proof (cases "b0 = None \<and> e = AlreadyExists")
    case False
    then show ?thesis using Suc.prems(3) b0 q [unfolded sealed_def] e
      by (auto simp: Let_def split: option.splits if_splits)
  next
    case True
    obtain f s3 where f: "head_of_log R s2 = (f, s3)" by force
    note hb = quiet_head_behind [OF w l2 b2 far f]
    show ?thesis
    proof (cases f)
      case (Inl e')
      then show ?thesis using Suc.prems(3) b0 q [unfolded sealed_def] e f True by (auto simp: Let_def)
    next
      case (Inr p)
      then obtain y where y: "p = Some y" "ar_seq y = n + 1000" "s3 = s2" using hb by auto
      then have "append_attempts R m (Suc i) event (Some y) s2 = (r, s')"
        using Suc.prems(3) b0 q [unfolded sealed_def] e f True Inr by (simp add: Let_def)
      from Suc.IH [OF l2 b2 this y(2)] show ?thesis .
    qed
  qed
qed auto

text \<open>
  An append that is too far behind never succeeds. The walk from the checkpoint to the
  end of the log stops after 1000 records, and the append then takes the record it stopped at for
  the last one. Once the checkpoint is more than 1000 records behind, every append, alone on the
  store, fails whatever its number of attempts: each attempt tries the same taken position, and the
  checkpoint, which only a successful append moves, stays behind.
\<close>

theorem append_far_behind_fails:
  assumes "append_world rv cv (=) R a h" and "logged True rv cv R a h rs s"
    and "cp_behind cv R n s" and "unat n + 1000 < unat a + length rs"
  shows "isl (fst (append_event R event s))"
proof -
  obtain f s1 where f: "head_of_log R s = (f, s1)" by force
  note hb = quiet_head_behind [OF assms f]
  show ?thesis
  proof (cases f)
    case (Inl e)
    then show ?thesis using f by (simp add: append_event_def)
  next
    case (Inr p)
    then obtain x where "p = Some x" "ar_seq x = n + 1000" "s1 = s" using hb by auto
    then show ?thesis using f Inr stuck_attempts [OF assms(1,4,2,3)]
      by (auto simp: append_event_def) (metis prod.collapse)
  qed
qed


lemma sealed_log_logged:
  assumes "0 < k" and "k \<le> n" and "n < 2 ^ 63"
  shows "logged False demo_rv demo_cv demo_recorder 0 genesis_hash (sealed_log n)
    (stored_log (sealed_log n) (spec_at (of_nat k) (ar_hash (sealed_log n ! (k - 1))) 0 []))"
proof (rule stored_logged [OF sealed_log_chain])
  have "sealed_log n ! (k - 1) \<in> set (sealed_log n)" using assms by simp
  moreover have "ar_seq (sealed_log n ! (k - 1)) = of_nat k"
    using chain_ok_nth_seq [OF sealed_log_chain, of "k - 1" n] assms by simp
  ultimately show "\<exists>r \<in> set (sealed_log n).
      ar_seq r = cps_length (spec_at (of_nat k) (ar_hash (sealed_log n ! (k - 1))) 0 []) \<and>
      ar_hash r = cps_head (spec_at (of_nat k) (ar_hash (sealed_log n ! (k - 1))) 0 [])"
    by (auto simp: spec_at_def)
qed (use assms in \<open>auto dest: arg_cong [of _ _ length]\<close>)

theorem append_far_behind_fails_witness:
  "isl (fst (append_event demo_recorder event0
     (stored_log (sealed_log 1002) (spec_at (of_nat 1) (ar_hash (sealed_log 1002 ! 0)) 0 []))))"
proof (rule append_far_behind_fails [OF demo_append_world])
  show "logged True demo_rv demo_cv demo_recorder 0 genesis_hash (sealed_log 1002)
      (stored_log (sealed_log 1002) (spec_at (of_nat 1) (ar_hash (sealed_log 1002 ! 0)) 0 []))"
    using sealed_log_logged [of 1 1002] logged_full by simp
  show "cp_behind demo_cv demo_recorder 1
      (stored_log (sealed_log 1002) (spec_at (of_nat 1) (ar_hash (sealed_log 1002 ! 0)) 0 []))"
    by (simp add: cp_behind_def stored_log_def spec_at_def)
qed simp


section \<open>A head that was archived\<close>

lemma quiet_record_missing:
  assumes "recorder_ok rv cv (=) R" and "record_at R q s = (r, t)"
    and "rv s (rec_ns R, record_name q) = None"
  shows "t = s \<and> (\<forall>p. r = Inr p \<longrightarrow> p = None)"
proof -
  have k: "kclient_ok rv (\<lambda>s t. cv t = cv s) (=) (rec_records R)"
    using assms(1) by (simp add: recorder_ok_def)
  obtain r0 s1 where g: "k_get (rec_records R) (rec_ns R, record_name q) s = (r0, s1)" by force
  have "s1 = s" "isl r0" using get_cases(1,2) [OF k g] assms(3) by (cases r0; auto)+
  then show ?thesis using assms(2) g by (cases r0) (auto simp: record_at_def split: if_splits)
qed

lemma quiet_get_checkpoint:
  assumes "recorder_ok rv cv (=) R" and "cv s (rec_ns R, checkpoint_name) = Some (c, v)"
    and "k_get (rec_checkpoints R) (rec_ns R, checkpoint_name) s = (r, t)"
  shows "t = s" "r \<noteq> Inl NotFound" "r = Inr y \<Longrightarrow> y = (c, v)"
proof -
  have k: "kclient_ok cv (\<lambda>s t. rv t = rv s) (=) (rec_checkpoints R)"
    using assms(1) by (simp add: recorder_ok_def)
  show "t = s" "r \<noteq> Inl NotFound" "r = Inr y \<Longrightarrow> y = (c, v)"
    using get_cases [OF k assms(3)] assms(2) by auto
qed

lemma quiet_head_missing:
  assumes ok: "recorder_ok rv cv (=) R" and c: "cv s (rec_ns R, checkpoint_name) = Some (c, v)"
    and m: "rv s (rec_ns R, record_name (cps_length c)) = None"
      "rv s (rec_ns R, record_name (cps_length c + 1)) = None"
    and f: "head_of_log R s = (f, s1)"
  shows "s1 = s \<and> (\<forall>p. f = Inr p \<longrightarrow> p = None)"
proof -
  obtain r0 t where g: "k_get (rec_checkpoints R) (rec_ns R, checkpoint_name) s = (r0, t)" by force
  note t = quiet_get_checkpoint [OF ok c g]
  obtain r1 t1 where r1: "record_at R (cps_length c) s = (r1, t1)" by force
  obtain r2 t2 where r2: "record_at R (cps_length c + 1) s = (r2, t2)" by force
  note n = quiet_record_missing [OF ok r1 m(1)] quiet_record_missing [OF ok r2 m(2)]
  obtain k where k: "max_catch_up = Suc k" using that [of 999] by (simp add: max_catch_up_def)
  have "\<exists>e. (f, s1) = (Inl e, s)" if "isl r0 \<or> isl r1 \<or> isl r2"
    using that f g t r1 r2 n by (cases r0; cases r1; cases r2) (auto simp: head_of_log_def k)
  moreover have "(f, s1) = (Inr None, s)" if "\<not> isl r0" "\<not> isl r1" "\<not> isl r2"
    using that f g t r1 r2 n by (cases r0; cases r1; cases r2) (auto simp: head_of_log_def k)
  ultimately show ?thesis by auto
qed

lemma quiet_write_behind:
  assumes ok: "recorder_ok rv cv (=) R" and c: "cv s (rec_ns R, checkpoint_name) = Some (c, v)"
    and "ar_seq x <s cps_length c"
  shows "snd (write_checkpoint R x s) = s"
proof -
  obtain r0 t where g: "k_get (rec_checkpoints R) (rec_ns R, checkpoint_name) s = (r0, t)" by force
  from quiet_get_checkpoint [OF ok c g] show ?thesis using g assms(3)
    by (cases r0) (auto simp: write_checkpoint_def put_checkpoint_def spec_from_checkpoint_def Let_def)
qed

lemma quiet_chain_boundary:
  assumes ok: "recorder_ok rv cv (=) R" and c: "cv s (rec_ns R, checkpoint_name) = Some (c, v)"
    and b: "0 <s cps_archived_length c" and e: "chain R s = (Inr (records, cp), t)"
    and y: "y \<in> set records"
  shows "cps_archived_length c < ar_seq y"
proof -
  have k: "kclient_ok rv (\<lambda>s t. cv t = cv s) (=) (rec_records R)"
    using ok by (simp add: recorder_ok_def)
  obtain l u where l: "load R s = (l, u)" by force
  then have u: "u = s" using list_cases(1) [OF k] by (auto simp: load_def split: prod.splits sum.splits)
  obtain r0 t where g: "k_get (rec_checkpoints R) (rec_ns R, checkpoint_name) s = (r0, t)" by force
  note t = quiet_get_checkpoint [OF ok c g]
  have "0 < cps_archived_length c" using b by (auto simp: word_neq_0_conv [symmetric])
  then show ?thesis using e l u g t b y
    by (cases l; cases r0) (auto simp: chain_def checkpoint_from_api_def checkpoint_anchor_def Let_def
        split: if_splits)
qed

text \<open>
  A missing head restarts the chain. When the checkpoint names a length at which no record
  is stored (and none at the next number), the append takes the log for empty: the record it
  reports as appended is record 1 after the genesis hash. If the checkpoint's boundary covers
  record 1, the record just reported is not part of the chain that is read back: the event is lost.
\<close>

theorem missing_head_restarts:
  assumes "recorder_ok rv cv (=) R" and "cv s (rec_ns R, checkpoint_name) = Some (c, v)"
    and "rv s (rec_ns R, record_name (cps_length c)) = None"
    and "rv s (rec_ns R, record_name (cps_length c + 1)) = None"
    and "rv s (rec_ns R, record_name 1) = None"
    and "1 <s cps_length c" and "0 <s cps_archived_length c"
    and "append_event R event s = (Inr x, s')"
  shows "ar_seq x = 1 \<and> ar_prev x = genesis_hash \<and>
    (\<forall>records cp s''. chain R s' = (Inr (records, cp), s'') \<longrightarrow> (\<forall>y \<in> set records. ar_seq y \<noteq> 1))"
proof -
  have k: "kclient_ok rv (\<lambda>s t. cv t = cv s) (=) (rec_records R)"
    using assms(1) by (simp add: recorder_ok_def)
  obtain f s1 where f: "head_of_log R s = (f, s1)" by force
  then have f': "f = Inr None" "s1 = s"
    using assms(8) f quiet_head_missing [OF assms(1-4) f] by (cases f; auto simp: append_event_def)+
  define sealed where "sealed = seal (rec_digest R) event None"
  obtain q s2 where q: "k_create (rec_records R) (rec_ns R, record_name 1) (to_api sealed) s = (q, s2)"
    by force
  from k q assms(5) have na: "q \<noteq> Some AlreadyExists" "q = None \<longrightarrow> cv s2 = cv s"
    by (cases rule: create_cases; auto)+
  obtain m where m: "max_append_attempts = Suc m"
    using that [of 4095] by (simp add: max_append_attempts_def)
  have "append_attempts R (Suc m) 0 event None s = (Inr x, s')"
    using assms(8) f f' by (simp add: append_event_def m [symmetric])
  then have x: "x = sealed" "q = None" "s' = snd (write_checkpoint R sealed s2)"
    using q na by (auto simp: sealed_def Let_def split: option.splits prod.splits if_splits)
  have c2: "cv s2 (rec_ns R, checkpoint_name) = Some (c, v)" using na x(2) assms(2) by simp
  have "s' = s2"
    unfolding x(3) by (rule quiet_write_behind [OF assms(1) c2]) (simp add: sealed_def assms(6))
  then have "cps_archived_length c < ar_seq y"
    if "chain R s' = (Inr (records, cp), s'')" "y \<in> set records" for records cp s'' y
    using quiet_chain_boundary [OF assms(1) c2 assms(7)] that by blast
  moreover have "\<not> cps_archived_length c < 1" using assms(7) by (auto simp: word_less_1)
  then have "cps_archived_length c < y \<Longrightarrow> y \<noteq> 1" for y by blast
  ultimately show ?thesis unfolding x(1) sealed_def seal_simps by blast
qed

theorem missing_head_restarts_witness:
  "let w = stored_log [] (spec_at 5 ''h'' 3 ''g''); (r, w') = append_event demo_recorder event0 w
   in \<exists>x. r = Inr x \<and> ar_seq x = 1 \<and> (\<forall>records cp s''.
        chain demo_recorder w' = (Inr (records, cp), s'') \<longrightarrow> (\<forall>y \<in> set records. ar_seq y \<noteq> 1))"
proof -
  define w where "w = stored_log [] (spec_at 5 ''h'' 3 ''g'')"
  obtain m where m: "max_append_attempts = Suc m"
    using that [of 4095] by (simp add: max_append_attempts_def)
  obtain n where n: "max_catch_up = Suc n" using that [of 999] by (simp add: max_catch_up_def)
  have "\<not> isl (fst (append_event demo_recorder event0 w))"
    by (simp add: append_event_def head_of_log_def mem_client_def record_at_def w_def stored_log_def
        spec_at_def m n Let_def split: prod.split)
  then obtain x w' where e: "append_event demo_recorder event0 w = (Inr x, w')"
    by (metis isl_def sum.exhaust_sel prod.collapse)
  have "1 <s (5 :: int64)" "0 <s (3 :: int64)" by code_simp+
  then show ?thesis
    using missing_head_restarts [OF demo_recorder_ok, of w "spec_at 5 ''h'' 3 ''g''" 1 event0 x w'] e
    unfolding w_def [symmetric] by (auto simp: w_def stored_log_def spec_at_def)
qed


section \<open>Verifying the stored log\<close>

lemma log_sorted:
  assumes la: "log_at H ns a h rs V C"
  shows "sorted (map ar_seq rs) \<and> distinct (map ar_seq rs)"
proof -
  have c: "chain_ok H a h rs" "unat a + length rs \<le> 2 ^ 63" using la by (simp_all add: log_at_def)
  have "unat (ar_seq (rs ! i)) = unat a + Suc i" if "i < length rs" for i
  proof -
    have "unat (of_nat (Suc i) :: uint64) = Suc i" using c(2) that by (intro unat_of_nat_u64) simp
    then show ?thesis using chain_ok_nth_seq [OF c(1) that] c(2) that by (simp add: unat_word_ariths)
  qed
  then have "sorted_wrt (<) (map ar_seq rs)"
    by (auto simp: sorted_wrt_iff_nth_less word_less_nat_alt)
  then show ?thesis by (simp add: strict_sorted_iff)
qed

lemma logged_unique:
  assumes l: "logged f rv cv R a h rs s" and m: "logged g rv cv R a h (rs @ ys) s"
  shows "ys = []"
proof (rule ccontr)
  assume "ys \<noteq> []"
  note la = logged_log_at [OF l] and lb = logged_log_at [OF m]
  define q :: uint64 where "q = of_nat (unat a + length rs + 1)"
  have "unat a + length (rs @ ys) \<le> 2 ^ 63" using lb by (simp add: log_at_def)
  then have q: "unat q = unat a + length rs + 1" using \<open>ys \<noteq> []\<close>
    unfolding q_def by (intro unat_of_nat_u64) (cases ys; simp)
  have "Suc 0 \<le> length ys" using \<open>ys \<noteq> []\<close> by (cases ys) simp_all
  then show False
    using log_lookup [OF la, of q] log_lookup [OF lb, of q] unfolding q by simp
qed

lemma quiet_load:
  assumes w: "append_world rv cv (=) R a h" and l: "logged True rv cv R a h rs s"
    and e: "load R s = (Inr xs, s')"
  shows "s' = s \<and> xs = rs"
proof -
  have k: "kclient_ok rv (\<lambda>s t. cv t = cv s) (=) (rec_records R)"
    using w by (simp add: append_world_def recorder_ok_def)
  obtain os where g: "list_plain (rec_records R) (rec_ns R) s = (Inr os, s')"
    and xs: "xs = sort_key ar_seq (map (\<lambda>p. from_api (snd p)) os)"
    using e by (auto simp: load_def split: prod.splits sum.splits)
  have s': "s' = s" using list_cases(1) [OF k g] by simp
  note la = logged_log_at [OF l]
  have "fst p = record_name (ar_seq (from_api (snd p)))" if "p \<in> set os" for p
  proof -
    have "map_of os (fst p) = Some (snd p)"
      using list_cases(2) [OF k g] that by (metis map_of_eq_Some_iff prod.collapse)
    then have "map_option from_api (map_of os (fst p)) = Some (from_api (snd p))" by simp
    moreover have "map_option from_api (map_of os (fst p))
        = map_of (map (\<lambda>r. (record_name (ar_seq r), r)) rs) (fst p)"
      using la list_cases(3) [OF k g, of os "fst p"] s'
      by (simp add: log_at_def option.map_comp comp_def)
    ultimately have "map_of (map (\<lambda>r. (record_name (ar_seq r), r)) rs) (fst p) = Some (from_api (snd p))"
      by simp
    from map_of_SomeD [OF this] show ?thesis by auto
  qed
  then have "inj_on (\<lambda>p. ar_seq (from_api (snd p))) (set os)"
    using list_cases(2) [OF k g] by (intro inj_onI) (metis distinct_map inj_onD)
  moreover have "distinct os" using list_cases(2) [OF k g] by (simp add: distinct_map)
  ultimately have "distinct (map (\<lambda>p. from_api (snd p)) os)"
    and "inj_on ar_seq ((\<lambda>p. from_api (snd p)) ` set os)"
    by (auto simp: distinct_map inj_on_def)
  then have d: "distinct (map ar_seq xs)" unfolding xs by (simp add: distinct_map [of ar_seq])
  obtain ys where ys: "logged True rv cv R a h (rs @ ys) s" "set xs = set (rs @ ys)"
    using load_world [OF w l e] s' by blast
  then have set_eq: "set xs = set rs" using logged_unique [OF l ys(1)] by simp
  have "map ar_seq xs = map ar_seq rs"
    using log_sorted [OF la] d set_eq unfolding xs
    by (intro sorted_distinct_set_unique) (simp_all del: set_sort)
  then have "xs = rs"
    using log_sorted [OF la] set_eq by (intro map_inj_on [of ar_seq]) (auto simp: distinct_map)
  then show ?thesis using s' by simp
qed

lemma log_boundary_filter:
  assumes la: "log_at H ns a h rs V C"
  shows "filter (\<lambda>r. a < ar_seq r) rs = rs"
  using log_seq [OF la] by (auto simp: filter_id_conv word_less_nat_alt)

lemma quiet_chain:
  assumes w: "append_world rv cv (=) R a h" and l: "logged True rv cv R a h rs s"
    and b: "\<forall>c v. cv s (rec_ns R, checkpoint_name) = Some (c, v) \<longrightarrow> cps_archived_length c = a"
    and e: "chain R s = (Inr (xs, cp), s')"
  shows "xs = rs \<and> (case cp of None \<Rightarrow> True | Some d \<Rightarrow>
    \<exists>c v. cv s (rec_ns R, checkpoint_name) = Some (c, v) \<and> d = checkpoint_from_api c)"
proof -
  obtain ys s1 where ld: "load R s = (Inr ys, s1)"
    using e by (auto simp: chain_def split: prod.splits sum.splits)
  from quiet_load [OF w l ld] have ys: "s1 = s" "ys = rs" by auto
  obtain r0 t where g: "k_get (rec_checkpoints R) (rec_ns R, checkpoint_name) s = (r0, t)" by force
  have t: "t = s" "\<And>x. r0 = Inr x \<Longrightarrow> cv s (rec_ns R, checkpoint_name) = Some x"
    using get_checkpoint_world [OF w g] by auto
  show ?thesis
  proof (cases r0)
    case (Inl err)
    then show ?thesis using e ld ys g by (auto simp: chain_def split: if_splits)
  next
    case (Inr x)
    then have x: "cv s (rec_ns R, checkpoint_name) = Some x" using t(2) by blast
    then have a: "cps_archived_length (fst x) = a" using b by (cases x) auto
    have "cp = Some (checkpoint_from_api (fst x))"
      using e ld ys g Inr by (auto simp: chain_def Let_def split: option.splits if_splits)
    moreover have "xs = rs" using e ld ys g Inr a log_boundary_filter [OF logged_log_at [OF l]]
      by (auto simp: chain_def Let_def checkpoint_anchor_def checkpoint_from_api_def
          split: option.splits if_splits)
    ultimately show ?thesis using x by (cases x) auto
  qed
qed

lemma chain_seq_start: "chain_ok H a h rs \<Longrightarrow> chain_ok H b g rs \<Longrightarrow> rs \<noteq> [] \<Longrightarrow> a = b"
  by (cases rs) auto

text \<open>
  Verifying the stored log accepts exactly the logs nothing was archived from. On a store
  that holds an intact log after a prefix of \<open>a\<close> archived records, with the boundary published in the
  checkpoint, the recorder's check reports it valid when \<open>a = 0\<close>, and reports it broken otherwise:
  it verifies the records that are left from the genesis hash and not from the boundary.
\<close>

theorem recorder_verify_valid_iff:
  assumes "append_world rv cv (=) R a h" and "logged True rv cv R a h rs s"
    and "\<forall>c v. cv s (rec_ns R, checkpoint_name) = Some (c, v) \<longrightarrow> cps_archived_length c = a"
    and "recorder_verify R s = (Inr ver, s')"
  shows "v_valid ver \<longleftrightarrow> a = 0"
proof -
  note la = logged_log_at [OF assms(2)]
  obtain xs cp where xs: "chain R s = (Inr (xs, cp), s')" "ver = verify (rec_digest R) xs cp"
    using assms(4) by (auto simp: recorder_verify_def split: prod.splits sum.splits)
  then have ch: "chain R s = (Inr (rs, cp), s')" and ver: "ver = verify (rec_digest R) rs cp"
    using quiet_chain [OF assms(1-3) xs(1)] by simp_all
  have ok: "chain_ok (rec_digest R) a h rs" and nil: "rs = [] \<longrightarrow> a = 0"
    and gen: "a = 0 \<longrightarrow> h = genesis_hash" and bound: "unat a + length rs \<le> 2 ^ 63"
    using la by (simp_all add: log_at_def)
  have cpok: "checkpoint_ok cp (a + of_nat (length rs)) (head_hash h rs)"
  proof (cases cp)
    case (Some d)
    then obtain c v where c: "cv s (rec_ns R, checkpoint_name) = Some (c, v)" "d = checkpoint_from_api c"
      using quiet_chain [OF assms(1-3) ch] by auto
    then obtain r where r: "r \<in> set rs" "ar_seq r = cps_length c" "ar_hash r = cps_head c"
      using la unfolding log_at_def by blast
    have last: "ar_hash r = head_hash h rs" if "unat (ar_seq r) = unat a + length rs"
      using log_seq [OF la r(1)] r(1) that by (auto simp: head_hash_def)
    have len: "unat (a + of_nat (length rs)) = unat a + length rs"
      using bound by (simp add: unat_word_ariths unat_of_nat)
    note b = log_seq [OF la r(1)]
    then have "unat (cps_length c) < unat a + length rs \<or>
        unat (cps_length c) = unat a + length rs \<and> cps_head c = head_hash h rs"
      using last r(2,3) by auto
    then show ?thesis unfolding Some c(2)
      by (simp add: checkpoint_ok_def checkpoint_from_api_def word_less_nat_alt word_unat_eq_iff len)
  qed (simp add: checkpoint_ok_def)
  show ?thesis
  proof
    assume "v_valid ver"
    then have "chain_ok (rec_digest R) 0 genesis_hash rs"
      by (simp add: ver verify_def verify_from_valid anchor_length_def anchor_head_def)
    then show "a = 0" using chain_seq_start [OF ok] nil by blast
  next
    assume "a = 0"
    then show "v_valid ver" using ok gen cpok
      by (simp add: ver verify_def verify_from_valid anchor_length_def anchor_head_def)
  qed
qed


text \<open>Two records are left of a log whose first record was archived: intact, and reported broken.\<close>

definition archived_world :: log_world where
  "archived_world =
     (let rs = tl (sealed_log 3) in
      stored_log rs (spec_at 3 (ar_hash (last rs)) 1 (ar_hash (hd (sealed_log 3)))))"

theorem recorder_verify_valid_iff_witness:
  "\<not> v_valid (projr (fst (recorder_verify demo_recorder archived_world)))"
proof -
  define h where "h = ar_hash (hd (sealed_log 3))"
  define rs where "rs = tl (sealed_log 3)"
  have three: "sealed_log 3 = hd (sealed_log 3) # rs" "length rs = 2"
    unfolding rs_def by (simp_all add: numeral_3_eq_3 Let_def)
  then have c: "chain_ok escape 1 h rs"
    using sealed_log_chain [of 3] unfolding h_def by (metis add_0 chain_ok.simps(2))
  have ne: "rs \<noteq> []" using three(2) by auto
  have last: "ar_seq (last rs) = 3" using chain_ok_last_seq [OF c ne] three(2) by simp
  have w: "archived_world = stored_log rs (spec_at 3 (ar_hash (last rs)) 1 h)"
    by (simp add: archived_world_def Let_def rs_def h_def)
  have l: "logged True demo_rv demo_cv demo_recorder 1 h rs archived_world"
    unfolding w using ne last
    by (intro logged_full [OF stored_logged] c) (auto simp: three(2) spec_at_def)
  have "\<not> isl (fst (recorder_verify demo_recorder archived_world))"
    by (simp add: recorder_verify_def chain_def load_def list_plain_def mem_client_def w stored_log_def Let_def
        split: prod.split option.split)
  then obtain ver s' where e: "recorder_verify demo_recorder archived_world = (Inr ver, s')"
    by (metis isl_def sum.exhaust_sel prod.collapse)
  have "v_valid ver \<longleftrightarrow> (1 :: uint64) = 0"
    by (rule recorder_verify_valid_iff [OF demo_append_world l _ e])
      (simp add: w stored_log_def spec_at_def)
  then show ?thesis using e by simp
qed


section \<open>Waiting between attempts\<close>

text \<open>
  The window an append draws its waiting time from is never empty and never above the
  ceiling, for any number of attempts: the shift of the 64-bit duration is capped before it can
  overflow, so the draw of a random number below the window cannot panic.
\<close>

theorem backoff_window_bounds:
  "min_append_backoff \<le> backoff_window i \<and> backoff_window i \<le> max_append_backoff"
proof -
  have "sint (push_bit k (of_int min_append_backoff :: int64)) = 250000 * 2 ^ k" if "k \<le> 16" for k
  proof -
    have "(2 :: int) ^ k \<le> 2 ^ 16" using that by (intro power_increasing) auto
    moreover have "(0 :: int) < 2 ^ k" by simp
    ultimately have "sint (of_int (250000 * 2 ^ k) :: int64) = 250000 * 2 ^ k"
      unfolding int_word_sint by (subst mod_pos_pos_trivial) auto
    moreover have "push_bit k (of_int min_append_backoff :: int64) = of_int (250000 * 2 ^ k)"
      by (simp add: min_append_backoff_def push_bit_eq_mult)
    ultimately show ?thesis by metis
  qed
  from this [of "min (i - 1) 16"] have
    "sint (push_bit (min (i - 1) 16) (of_int min_append_backoff :: int64)) = 250000 * 2 ^ min (i - 1) 16"
    by simp
  moreover have "(1 :: int) \<le> 2 ^ min (i - 1) 16" by simp
  ultimately show ?thesis
    unfolding backoff_window_def Let_def min_append_backoff_def max_append_backoff_def by simp
qed

end
