(* ===== verification/Audit_Sink.thy ===== *)
theory Audit_Sink
  imports Audit_Store "HOL-Library.AList"
begin

text \<open>
  Where archived segments go (\<open>internal/audit/archive.go\<close>): the \<open>Sink\<close> interface as a locale, the
  directory sink on a disk whose calls can fail and whose writes can be torn, the segments' names,
  and their encoding.

  \<open>encoding/json\<close> is represented by the three operations the source calls on it: encoding one record
  as a line, asking a decoder whether there is more, and decoding one record off the front.
\<close>

section \<open>The interface\<close>

record 's sink =
  snk_put :: "string \<Rightarrow> string \<Rightarrow> 's \<Rightarrow> (string + string) \<times> 's"
  snk_get :: "string \<Rightarrow> 's \<Rightarrow> (string + string) \<times> 's"
  snk_remove :: "(string \<Rightarrow> 's \<Rightarrow> string option \<times> 's) option"

text \<open>
  What the archiver relies on, for the names it uses (\<open>names\<close>): a put that succeeds stores exactly
  the bytes, a put that fails leaves the old segment or the complete new one, a get returns what is
  stored, and no operation on one segment touches another.
\<close>

locale segment_sink =
  fixes S :: "'s sink" and content :: "'s \<Rightarrow> string \<Rightarrow> string option" and names :: "string set"
  assumes put_stores: "n \<in> names \<Longrightarrow> snk_put S n d s = (Inr l, s') \<Longrightarrow> content s' n = Some d"
    and put_fails: "n \<in> names \<Longrightarrow> snk_put S n d s = (Inl e, s') \<Longrightarrow>
      content s' n = content s n \<or> content s' n = Some d"
    and put_others: "n \<in> names \<Longrightarrow> m \<in> names \<Longrightarrow> m \<noteq> n \<Longrightarrow> snk_put S n d s = (r, s') \<Longrightarrow>
      content s' m = content s m"
    and get_reads: "n \<in> names \<Longrightarrow> snk_get S n s = (Inr d, s') \<Longrightarrow> content s n = Some d"
    and get_keeps: "n \<in> names \<Longrightarrow> m \<in> names \<Longrightarrow> snk_get S n s = (r, s') \<Longrightarrow> content s' m = content s m"
    and remove_others: "n \<in> names \<Longrightarrow> m \<in> names \<Longrightarrow> m \<noteq> n \<Longrightarrow> snk_remove S = Some rm \<Longrightarrow>
      rm n s = (q, s') \<Longrightarrow> content s' m = content s m"
begin

lemma put_complete:
  "n \<in> names \<Longrightarrow> snk_put S n d s = (r, s') \<Longrightarrow> content s' n \<in> {content s n, Some d}"
  by (cases r) (auto dest: put_stores put_fails)

lemma put_get:
  "n \<in> names \<Longrightarrow> snk_put S n d s = (Inr l, s1) \<Longrightarrow> snk_get S n s1 = (Inr x, s2) \<Longrightarrow> x = d"
  by (metis get_reads put_stores option.inject)

end

text \<open>\<open>discard\<close>: not every sink can remove.\<close>

definition discard :: "'s sink \<Rightarrow> string \<Rightarrow> 's \<Rightarrow> string option \<times> 's" where
  "discard S name s = (case snk_remove S of None \<Rightarrow> (None, s) | Some rm \<Rightarrow> rm name s)"

section \<open>A disk\<close>

text \<open>
  Files by path, and what goes wrong with the next calls: a call may fail without effect, and a
  write may stop after some bytes.  An empty list of faults means that nothing goes wrong any more.
\<close>

datatype io_fault = Works | Fails string | Torn nat string

record disk =
  dk_files :: "(string \<times> string) list"
  dk_faults :: "io_fault list"

definition next_fault :: "disk \<Rightarrow> io_fault \<times> disk" where
  "next_fault k = (case dk_faults k of [] \<Rightarrow> (Works, k) | f # fs \<Rightarrow> (f, k\<lparr>dk_faults := fs\<rparr>))"

definition os_mkdir_all :: "disk \<Rightarrow> string option \<times> disk" where
  "os_mkdir_all k = (case next_fault k of
     (Works, k') \<Rightarrow> (None, k') | (Fails e, k') \<Rightarrow> (Some e, k') | (Torn n e, k') \<Rightarrow> (Some e, k'))"

definition os_write_file :: "string \<Rightarrow> string \<Rightarrow> disk \<Rightarrow> string option \<times> disk" where
  "os_write_file p d k = (case next_fault k of
     (Works, k') \<Rightarrow> (None, k'\<lparr>dk_files := AList.update p d (dk_files k')\<rparr>)
   | (Fails e, k') \<Rightarrow> (Some e, k')
   | (Torn n e, k') \<Rightarrow> (Some e, k'\<lparr>dk_files := AList.update p (take n d) (dk_files k')\<rparr>))"

definition os_rename :: "string \<Rightarrow> string \<Rightarrow> disk \<Rightarrow> string option \<times> disk" where
  "os_rename p q k = (case next_fault k of
     (Works, k') \<Rightarrow>
       (case map_of (dk_files k') p of
          None \<Rightarrow> (Some ''no such file'', k')
        | Some d \<Rightarrow> (None, k'\<lparr>dk_files := AList.update q d (AList.delete p (dk_files k'))\<rparr>))
   | (Fails e, k') \<Rightarrow> (Some e, k') | (Torn n e, k') \<Rightarrow> (Some e, k'))"

definition os_read_file :: "string \<Rightarrow> disk \<Rightarrow> (string + string) \<times> disk" where
  "os_read_file p k = (case next_fault k of
     (Works, k') \<Rightarrow>
       (case map_of (dk_files k') p of None \<Rightarrow> (Inl ''no such file'', k') | Some d \<Rightarrow> (Inr d, k'))
   | (Fails e, k') \<Rightarrow> (Inl e, k') | (Torn n e, k') \<Rightarrow> (Inl e, k'))"

text \<open>\<open>os.Remove\<close>; \<open>Inr ()\<close> for a file that is not there, which the caller tells apart.\<close>

definition os_remove :: "string \<Rightarrow> disk \<Rightarrow> (string + unit) option \<times> disk" where
  "os_remove p k = (case next_fault k of
     (Works, k') \<Rightarrow>
       (case map_of (dk_files k') p of
          None \<Rightarrow> (Some (Inr ()), k')
        | Some d \<Rightarrow> (None, k'\<lparr>dk_files := AList.delete p (dk_files k')\<rparr>))
   | (Fails e, k') \<Rightarrow> (Some (Inl e), k') | (Torn n e, k') \<Rightarrow> (Some (Inl e), k'))"

text \<open>\<open>filepath.Join\<close> for a clean directory and a plain file name.\<close>

definition join_path :: "string \<Rightarrow> string \<Rightarrow> string" where
  "join_path dir name = (if dir = [] then name else dir @ ''/'' @ name)"

section \<open>The directory sink\<close>

definition dir_put :: "string \<Rightarrow> string \<Rightarrow> string \<Rightarrow> disk \<Rightarrow> (string + string) \<times> disk" where
  "dir_put dir name d k =
     (case os_mkdir_all k of
        (Some e, k1) \<Rightarrow> (Inl e, k1)
      | (None, k1) \<Rightarrow>
          (let path = join_path dir name; tmp = path @ ''.partial'' in
           case os_write_file tmp d k1 of
             (Some e, k2) \<Rightarrow> (Inl e, k2)
           | (None, k2) \<Rightarrow>
               (case os_rename tmp path k2 of
                  (Some e, k3) \<Rightarrow> (Inl e, k3)
                | (None, k3) \<Rightarrow> (Inr path, k3))))"

definition dir_get :: "string \<Rightarrow> string \<Rightarrow> disk \<Rightarrow> (string + string) \<times> disk" where
  "dir_get dir name k = os_read_file (join_path dir name) k"

definition dir_remove :: "string \<Rightarrow> string \<Rightarrow> disk \<Rightarrow> string option \<times> disk" where
  "dir_remove dir name k =
     (case os_remove (join_path dir name) k of
        (None, k') \<Rightarrow> (None, k') | (Some (Inr _), k') \<Rightarrow> (None, k') | (Some (Inl e), k') \<Rightarrow> (Some e, k'))"

definition dir_sink :: "string \<Rightarrow> disk sink" where
  "dir_sink dir = \<lparr>snk_put = dir_put dir, snk_get = dir_get dir, snk_remove = Some (dir_remove dir)\<rparr>"

definition dir_content :: "string \<Rightarrow> disk \<Rightarrow> string \<Rightarrow> string option" where
  "dir_content dir k name = map_of (dk_files k) (join_path dir name)"

text \<open>The names the archiver uses end in \<open>.jsonl\<close>, so no name is another's temporary file.\<close>

definition segment_name :: "uint64 \<Rightarrow> uint64 \<Rightarrow> string" where
  "segment_name lo hi =
     ''audit-'' @ zero_pad 12 (nat_str (unat lo)) @ ''-'' @ zero_pad 12 (nat_str (unat hi)) @ ''.jsonl''"

definition segment_names :: "string set" where
  "segment_names = {segment_name f l | f l. True}"

lemma next_fault_files [simp]: "next_fault k = (f, k') \<Longrightarrow> dk_files k' = dk_files k"
  by (auto simp: next_fault_def split: list.splits)

lemma join_path_inject [simp]: "join_path dir m = join_path dir n \<longleftrightarrow> m = n"
  by (simp add: join_path_def)

lemma jsonl_not_partial: "x @ ''.jsonl'' \<noteq> y @ ''.partial''"
proof
  assume "x @ ''.jsonl'' = y @ ''.partial''"
  then have "rev (x @ ''.jsonl'') = rev (y @ ''.partial'')" by (rule arg_cong)
  then show False by simp
qed

lemma join_path_partial:
  assumes "m \<in> segment_names"
  shows "join_path dir m \<noteq> join_path dir n @ ''.partial''"
proof -
  obtain y where y: "m = y @ ''.jsonl''"
  proof -
    have "\<exists>y. segment_name f l = y @ ''.jsonl''" for f l
      by (rule exI [of _ "''audit-'' @ zero_pad 12 (nat_str (unat f)) @ ''-'' @
            zero_pad 12 (nat_str (unat l))"]) (simp add: segment_name_def)
    then show thesis using assms that by (auto simp: segment_names_def)
  qed
  have "join_path dir m = (if dir = [] then y else dir @ ''/'' @ y) @ ''.jsonl''"
    by (simp add: y join_path_def)
  then show ?thesis by (metis jsonl_not_partial)
qed

lemma dir_put_files:
  assumes "dir_put dir n d k = (r, k')" and "p \<noteq> join_path dir n @ ''.partial''"
  shows "map_of (dk_files k') p =
    (if p = join_path dir n \<and> \<not> isl r then Some d else map_of (dk_files k) p)"
  using assms
  by (auto simp: dir_put_def os_mkdir_all_def os_write_file_def os_rename_def Let_def update_conv'
      delete_conv' split: prod.splits io_fault.splits option.splits)

lemma dir_get_files: "dir_get dir n k = (r, k') \<Longrightarrow> dk_files k' = dk_files k"
  by (auto simp: dir_get_def os_read_file_def split: prod.splits io_fault.splits option.splits)

lemma dir_remove_files:
  "dir_remove dir n k = (r, k') \<Longrightarrow> p \<noteq> join_path dir n \<Longrightarrow>
     map_of (dk_files k') p = map_of (dk_files k) p"
  by (auto simp: dir_remove_def os_remove_def delete_conv' split: prod.splits io_fault.splits option.splits)

interpretation dir: segment_sink "dir_sink d" "dir_content d" segment_names for d
proof
  fix n m x s r s' l
  assume n: "n \<in> segment_names"
  note files = dir_put_files [OF _ join_path_partial]
  show "snk_put (dir_sink d) n x s = (Inr l, s') \<Longrightarrow> dir_content d s' n = Some x"
    using files [OF _ n] by (fastforce simp: dir_sink_def dir_content_def)
  show "snk_put (dir_sink d) n x s = (Inl l, s') \<Longrightarrow>
      dir_content d s' n = dir_content d s n \<or> dir_content d s' n = Some x"
    using files [OF _ n] by (fastforce simp: dir_sink_def dir_content_def)
  show "m \<in> segment_names \<Longrightarrow> m \<noteq> n \<Longrightarrow> snk_put (dir_sink d) n x s = (r, s') \<Longrightarrow>
      dir_content d s' m = dir_content d s m"
    using files [of d n x s r s' m] by (auto simp: dir_sink_def dir_content_def)
  show "snk_get (dir_sink d) n s = (Inr x, s') \<Longrightarrow> dir_content d s n = Some x"
    by (auto simp: dir_sink_def dir_content_def dir_get_def os_read_file_def
        split: prod.splits io_fault.splits option.splits)
  show "snk_get (dir_sink d) n s = (r, s') \<Longrightarrow> dir_content d s' m = dir_content d s m"
    by (simp add: dir_sink_def dir_content_def dir_get_files)
next
  fix n m s q s' rm
  assume "m \<noteq> n" "snk_remove (dir_sink d) = Some rm" "rm n s = (q, s')"
  then show "dir_content d s' m = dir_content d s m"
    using dir_remove_files [of d n s q s' "join_path d m"] by (auto simp: dir_sink_def dir_content_def)
qed

text \<open>
  A segment on disk is complete or absent. Whatever the faults (a failing call, a write
  torn after any number of bytes), writing a segment leaves under its name what was there before or
  all of the new bytes, all of them when it reports success, and reading it back then returns
  exactly these bytes if the read succeeds.
\<close>

theorem dir_put_atomic:
  assumes "n \<in> segment_names" and "dir_put d n x k = (r, k')"
  shows "dir_content d k' n \<in> {dir_content d k n, Some x} \<and>
    (\<forall>l y k''. r = Inr l \<longrightarrow> dir_get d n k' = (Inr y, k'') \<longrightarrow> y = x)"
  using dir.put_complete [OF assms(1)] dir.put_get [OF assms(1)] assms(2)
  by (auto simp: dir_sink_def)

theorem dir_put_atomic_witness:
  "let n = segment_name 1 2; k = \<lparr>dk_files = [], dk_faults = [Works, Torn 3 ''full'']\<rparr>;
       (r, k') = dir_put ''var'' n ''content'' k
   in dk_files k' \<noteq> [] \<and> dir_content ''var'' k' n \<in> {dir_content ''var'' k n, Some ''content''}"
proof -
  define n where "n = segment_name 1 2"
  define k where "k = \<lparr>dk_files = [], dk_faults = [Works, Torn 3 ''full'']\<rparr>"
  obtain r k' where e: "dir_put ''var'' n ''content'' k = (r, k')" by force
  have "n \<in> segment_names" by (auto simp: n_def segment_names_def)
  from dir_put_atomic [OF this e] show ?thesis
    using e unfolding n_def [symmetric] k_def [symmetric]
    by (auto simp: k_def dir_put_def os_mkdir_all_def os_write_file_def next_fault_def Let_def)
qed

section \<open>Segments\<close>

text \<open>
  The \<open>encoding/json\<close> calls: \<open>js_line\<close> encodes a record, \<open>js_more\<close> is \<open>Decoder.More\<close> on what is left
  of the input, \<open>js_decode\<close> is \<open>Decoder.Decode\<close>, with what is left after it.
\<close>

record record_codec =
  js_line :: "audit_record \<Rightarrow> string + string"
  js_more :: "string \<Rightarrow> bool"
  js_decode :: "string \<Rightarrow> string + audit_record \<times> string"

fun encode_segment :: "record_codec \<Rightarrow> audit_record list \<Rightarrow> string + string" where
  "encode_segment J [] = Inr []"
| "encode_segment J (r # rs) =
     (case js_line J r of
        Inl e \<Rightarrow> Inl e
      | Inr line \<Rightarrow> (case encode_segment J rs of Inl e \<Rightarrow> Inl e | Inr rest \<Rightarrow> Inr (line @ rest)))"

text \<open>
  A decode that does not shorten the input would not end: the fuel is the number of bytes, and a
  decode consumes at least one.
\<close>

fun decode_fuel :: "record_codec \<Rightarrow> nat \<Rightarrow> string \<Rightarrow> string + audit_record list" where
  "decode_fuel J 0 d = Inr []"
| "decode_fuel J (Suc m) d =
     (if js_more J d
      then (case js_decode J d of
              Inl e \<Rightarrow> Inl e
            | Inr (r, rest) \<Rightarrow>
                (case decode_fuel J m rest of Inl e \<Rightarrow> Inl e | Inr rs \<Rightarrow> Inr (r # rs)))
      else Inr [])"

definition decode_segment :: "record_codec \<Rightarrow> string \<Rightarrow> string + audit_record list" where
  "decode_segment J d = decode_fuel J (length d) d"

text \<open>What \<open>encoding/json\<close> does with the records \<open>P\<close> it can represent.\<close>

definition codec_ok :: "record_codec \<Rightarrow> (audit_record \<Rightarrow> bool) \<Rightarrow> bool" where
  "codec_ok J P \<longleftrightarrow> \<not> js_more J [] \<and>
     (\<forall>r line rest. P r \<longrightarrow> js_line J r = Inr line \<longrightarrow>
        line \<noteq> [] \<and> js_more J (line @ rest) \<and> js_decode J (line @ rest) = Inr (r, rest))"

lemma decode_fuel_encode:
  "codec_ok J P \<Longrightarrow> \<forall>r \<in> set rs. P r \<Longrightarrow> encode_segment J rs = Inr d \<Longrightarrow> length d \<le> m \<Longrightarrow>
     decode_fuel J m d = Inr rs"
proof (induction rs arbitrary: d m)
  case Nil
  then show ?case by (cases m) (auto simp: codec_ok_def)
next
  case (Cons r rs)
  obtain line rest where l: "js_line J r = Inr line" "encode_segment J rs = Inr rest" "d = line @ rest"
    using Cons.prems(3) by (auto split: sum.splits)
  have c: "line \<noteq> []" "js_more J d" "js_decode J d = Inr (r, rest)"
    using Cons.prems(1,2) l unfolding codec_ok_def by auto
  obtain k where k: "m = Suc k" using Cons.prems(4) l(3) c(1) by (cases m) auto
  moreover have "length rest \<le> k" using Cons.prems(4) l(3) c(1) k by (cases line) auto
  ultimately show ?case using Cons.IH [OF Cons.prems(1) _ l(2)] Cons.prems(2) c by simp
qed

lemma decode_encode:
  "codec_ok J P \<Longrightarrow> \<forall>r \<in> set rs. P r \<Longrightarrow> encode_segment J rs = Inr d \<Longrightarrow> decode_segment J d = Inr rs"
  by (simp add: decode_segment_def decode_fuel_encode)

text \<open>A codec in unary for the records \<open>rs\<close>, which the examples compute with.\<close>

definition unary_codec :: "audit_record list \<Rightarrow> record_codec" where
  "unary_codec rs =
     \<lparr>js_line = (\<lambda>r. Inr (replicate (unat (ar_seq r)) CHR ''x'' @ [newline_char])),
      js_more = (\<lambda>d. d \<noteq> []),
      js_decode = (\<lambda>d. let n = length (takeWhile (\<lambda>c. c = CHR ''x'') d) in
         case find (\<lambda>r. unat (ar_seq r) = n) rs of
           None \<Rightarrow> Inl ''no such record'' | Some r \<Rightarrow> Inr (r, drop (Suc n) d))\<rparr>"

lemma unary_codec_ok:
  assumes "distinct (map ar_seq rs)"
  shows "codec_ok (unary_codec rs) (\<lambda>r. r \<in> set rs)"
proof -
  have f: "find (\<lambda>q. unat (ar_seq q) = unat (ar_seq r)) rs = Some r" if "r \<in> set rs" for r
    using assms that by (induction rs) (auto simp: word_unat_eq_iff image_iff)
  have t: "takeWhile (\<lambda>c. c = CHR ''x'') (replicate k CHR ''x'' @ newline_char # rest)
      = replicate k CHR ''x''" for k rest
    by (induction k) auto
  show ?thesis
    by (auto simp: codec_ok_def unary_codec_def t f)
qed

end
