(* ===== verification/Audit_Archive.thy ===== *)
theory Audit_Archive
  imports Audit_Log Audit_Sink
begin

text \<open>
  The archiver of \<open>internal/audit/archive.go\<close>: it moves the front of the chain out of the cluster.
  The theorem is the one its comment claims: at every point where a run can stop, with any call
  failing, each record is still in the cluster or complete in the archive, and every record the
  published boundary covers is in the archive.
\<close>

section \<open>The archiver\<close>

record 's archiver =
  ac_recorder :: "'s recorder"
  ac_sink :: "'s sink"
  ac_codec :: record_codec
  ac_threshold :: int
  ac_retain :: int

datatype arch_error =
    SweepErr arch_error
  | CheckpointErr rec_error
  | GetErr kerr
  | LoadErr rec_error
  | DeleteErr kerr
  | MeasureErr rec_error
  | ReadChainErr rec_error
  | RefusedSegment "string list"
  | EncodeErr string
  | PutErr string
  | ReadBackErr string
  | ReadsDifferent
  | ParseErr string
  | UnverifiedSegment "string list"
  | BoundaryErr rec_error
  | NotRemoved arch_error string

definition archive_threshold :: "'s archiver \<Rightarrow> int" where
  "archive_threshold A = (if ac_threshold A > 0 then ac_threshold A else 50000)"

definition archive_retain :: "'s archiver \<Rightarrow> int" where
  "archive_retain A = (if ac_retain A > 0 then ac_retain A else 10000)"

definition delete_record :: "'s archiver \<Rightarrow> uint64 \<Rightarrow> 's \<Rightarrow> kerr option \<times> 's" where
  "delete_record A seq s =
     k_delete (rec_records (ac_recorder A)) (rec_ns (ac_recorder A), record_name seq) s"

text \<open>\<open>sweep\<close>: the loop over the stored records, then the pass.\<close>

fun sweep_loop :: "'s archiver \<Rightarrow> uint64 \<Rightarrow> audit_record list \<Rightarrow> 's \<Rightarrow> arch_error option \<times> 's" where
  "sweep_loop A b [] s = (None, s)"
| "sweep_loop A b (r # rs) s =
     (if ar_seq r > b then sweep_loop A b rs s
      else case delete_record A (ar_seq r) s of
             (q, s') \<Rightarrow>
               (if q = None \<or> q = Some NotFound then sweep_loop A b rs s'
                else (map_option DeleteErr q, s')))"

definition sweep :: "'s archiver \<Rightarrow> 's \<Rightarrow> arch_error option \<times> 's" where
  "sweep A s =
     (case read_checkpoint (ac_recorder A) s of
        (Inl e, s1) \<Rightarrow> (Some (CheckpointErr e), s1)
      | (Inr cp, s1) \<Rightarrow>
          (case checkpoint_anchor cp of
             None \<Rightarrow> (None, s1)
           | Some a \<Rightarrow>
               if an_length a = 0 then (None, s1)
               else
                 (case k_get (rec_records (ac_recorder A))
                         (rec_ns (ac_recorder A), record_name (an_length a)) s1 of
                    (Inl e, s2) \<Rightarrow> (if e = NotFound then None else Some (GetErr e), s2)
                  | (Inr _, s2) \<Rightarrow>
                      (case load (ac_recorder A) s2 of
                         (Inl e, s3) \<Rightarrow> (Some (LoadErr e), s3)
                       | (Inr stored, s3) \<Rightarrow> sweep_loop A (an_length a) stored s3))))"

text \<open>
  \<open>deleteThrough\<close>: the loop from \<open>first\<close> while \<open>seq <= last\<close>.  The number of rounds is
  \<open>last + 1 - first\<close>; the sequence numbers stay below \<open>2\<^sup>6\<^sup>4 - 1\<close>, where the loop of the source would not end.
\<close>

fun delete_loop :: "'s archiver \<Rightarrow> nat \<Rightarrow> uint64 \<Rightarrow> nat \<Rightarrow> 's \<Rightarrow> (nat \<times> arch_error option) \<times> 's" where
  "delete_loop A 0 seq deleted s = ((deleted, None), s)"
| "delete_loop A (Suc m) seq deleted s =
     (case delete_record A seq s of
        (None, s') \<Rightarrow> delete_loop A m (seq + 1) (deleted + 1) s'
      | (Some e, s') \<Rightarrow>
          (if e = NotFound then delete_loop A m (seq + 1) deleted s'
           else ((deleted, Some (DeleteErr e)), s')))"

definition delete_through ::
    "'s archiver \<Rightarrow> uint64 \<Rightarrow> uint64 \<Rightarrow> 's \<Rightarrow> (nat \<times> arch_error option) \<times> 's" where
  "delete_through A lo hi s = delete_loop A (unat hi + 1 - unat lo) lo 0 s"

definition reject :: "'s archiver \<Rightarrow> string \<Rightarrow> arch_error \<Rightarrow> 's \<Rightarrow> (nat \<times> arch_error option) \<times> 's" where
  "reject A name cause s =
     (case discard (ac_sink A) name s of
        (None, s') \<Rightarrow> ((0, Some cause), s')
      | (Some e, s') \<Rightarrow> ((0, Some (NotRemoved cause e)), s'))"

text \<open>
  \<open>Run\<close>, in three parts: what follows a segment that reads back right (\<open>run_publish\<close>), what follows
  the choice of a segment (\<open>run_segment\<close>), and the pass.
\<close>

definition run_publish ::
    "'s archiver \<Rightarrow> audit_record list \<Rightarrow> string \<Rightarrow> 's \<Rightarrow> (nat \<times> arch_error option) \<times> 's" where
  "run_publish A segment location s =
     (case advance_boundary (ac_recorder A)
             \<lparr>an_length = ar_seq (last segment), an_head = ar_hash (last segment),
              an_location = location\<rparr> s of
        (Some e, s1) \<Rightarrow> ((0, Some (BoundaryErr e)), s1)
      | (None, s1) \<Rightarrow> delete_through A (ar_seq (hd segment)) (ar_seq (last segment)) s1)"

definition run_segment ::
    "'s archiver \<Rightarrow> audit_record list \<Rightarrow> anchor option \<Rightarrow> 's \<Rightarrow> (nat \<times> arch_error option) \<times> 's" where
  "run_segment A segment anchor s =
     (let H = rec_digest (ac_recorder A); v = verify_from H segment anchor None in
      if \<not> v_valid v then ((0, Some (RefusedSegment (v_problems v))), s)
      else
        (case encode_segment (ac_codec A) segment of
           Inl e \<Rightarrow> ((0, Some (EncodeErr e)), s)
         | Inr data \<Rightarrow>
             (let name = segment_name (ar_seq (hd segment)) (ar_seq (last segment)) in
              case snk_put (ac_sink A) name data s of
                (Inl e, s1) \<Rightarrow> ((0, Some (PutErr e)), s1)
              | (Inr location, s1) \<Rightarrow>
                  (case snk_get (ac_sink A) name s1 of
                     (Inl e, s2) \<Rightarrow> reject A name (ReadBackErr e) s2
                   | (Inr back, s2) \<Rightarrow>
                       (if back \<noteq> data then reject A name ReadsDifferent s2
                        else
                          (case decode_segment (ac_codec A) back of
                             Inl e \<Rightarrow> reject A name (ParseErr e) s2
                           | Inr restored \<Rightarrow>
                               (let w = verify_from H restored anchor None in
                                if \<not> v_valid w
                                then reject A name (UnverifiedSegment (v_problems w)) s2
                                else run_publish A segment location s2)))))))"

definition archive_run :: "'s archiver \<Rightarrow> 's \<Rightarrow> (nat \<times> arch_error option) \<times> 's" where
  "archive_run A s =
     (case sweep A s of
        (Some e, s1) \<Rightarrow> ((0, Some e), s1)
      | (None, s1) \<Rightarrow>
          (case size_of_log (ac_recorder A) s1 of
             (Inl e, s2) \<Rightarrow> ((0, Some (MeasureErr e)), s2)
           | (Inr (_, retained), s2) \<Rightarrow>
               if unat retained \<le> nat (archive_threshold A) then ((0, None), s2)
               else
                 (case chain (ac_recorder A) s2 of
                    (Inl e, s3) \<Rightarrow> ((0, Some (ReadChainErr e)), s3)
                  | (Inr (records, cp), s3) \<Rightarrow>
                      (let cut = int (length records) - archive_retain A in
                       if int (length records) \<le> archive_threshold A \<or> cut \<le> 0 then ((0, None), s3)
                       else run_segment A (take (nat cut) records) (checkpoint_anchor cp) s3))))"

section \<open>What is archived and what is stored\<close>

definition boundary :: "('s \<Rightarrow> checkpoint_spec view) \<Rightarrow> 's archiver \<Rightarrow> 's \<Rightarrow> int64" where
  "boundary cv A s = (case cv s (rec_ns (ac_recorder A), checkpoint_name) of
     None \<Rightarrow> 0 | Some c \<Rightarrow> cps_archived_length (fst c))"

definition stored :: "('s \<Rightarrow> audit_obj view) \<Rightarrow> 's archiver \<Rightarrow> 's \<Rightarrow> audit_record \<Rightarrow> bool" where
  "stored rv A s r \<longleftrightarrow>
     (\<exists>x v. rv s (rec_ns (ac_recorder A), record_name (ar_seq r)) = Some (x, v) \<and> from_api x = r)"

text \<open>A record is in the archive when a segment that the boundary covers decodes to records with it.\<close>

definition archived ::
    "('s \<Rightarrow> string \<Rightarrow> string option) \<Rightarrow> int64 \<Rightarrow> 's archiver \<Rightarrow> 's \<Rightarrow> audit_record \<Rightarrow> bool" where
  "archived ct b A s r \<longleftrightarrow>
     (\<exists>f l data seg. ct s (segment_name f l) = Some data \<and> l \<le> b \<and>
        decode_segment (ac_codec A) data = Inr seg \<and> r \<in> set seg)"

text \<open>
  A stored record has the name its number gives, and \<open>encoding/json\<close> can represent it (\<open>P\<close>): it came
  in as JSON.
\<close>

definition well_named ::
    "('s \<Rightarrow> audit_obj view) \<Rightarrow> (audit_record \<Rightarrow> bool) \<Rightarrow> 's archiver \<Rightarrow> 's \<Rightarrow> bool" where
  "well_named rv P A s \<longleftrightarrow>
     (\<forall>n x v. rv s (rec_ns (ac_recorder A), n) = Some (x, v) \<longrightarrow>
        n = record_name (ar_seq (from_api x)) \<and> P (from_api x))"

definition kept ::
    "('s \<Rightarrow> audit_obj view) \<Rightarrow> ('s \<Rightarrow> checkpoint_spec view) \<Rightarrow> ('s \<Rightarrow> string \<Rightarrow> string option)
       \<Rightarrow> (audit_record \<Rightarrow> bool) \<Rightarrow> 's archiver \<Rightarrow> audit_record list \<Rightarrow> 's \<Rightarrow> bool" where
  "kept rv cv ct P A rs s \<longleftrightarrow>
     well_named rv P A s \<and> 0 \<le>s boundary cv A s \<and> (\<forall>r \<in> set rs. 0 < ar_seq r) \<and>
     (\<forall>r \<in> set rs. if ar_seq r \<le> boundary cv A s then archived ct (boundary cv A s) A s r
                   else stored rv A s r)"


text \<open>
  What the other clients may do while a run is under way: append records and publish heads.  There
  is one archiver (the manager runs under leader election), so the boundary and the segments are
  only moved by this run.
\<close>

definition archive_env ::
    "('s \<Rightarrow> audit_obj view) \<Rightarrow> ('s \<Rightarrow> checkpoint_spec view) \<Rightarrow> ('s \<Rightarrow> string \<Rightarrow> string option)
       \<Rightarrow> ('s \<Rightarrow> 's \<Rightarrow> bool) \<Rightarrow> (audit_record \<Rightarrow> bool) \<Rightarrow> 's archiver \<Rightarrow> bool" where
  "archive_env rv cv ct env P A \<longleftrightarrow>
     (\<forall>s t. env s t \<longrightarrow>
        ct t = ct s \<and> boundary cv A t = boundary cv A s \<and>
        (well_named rv P A s \<longrightarrow> well_named rv P A t) \<and>
        (\<forall>r. stored rv A s r \<longrightarrow> stored rv A t r))"

definition sink_frame ::
    "('s \<Rightarrow> audit_obj view) \<Rightarrow> ('s \<Rightarrow> checkpoint_spec view) \<Rightarrow> ('s \<Rightarrow> 's \<Rightarrow> bool) \<Rightarrow> 's sink \<Rightarrow> bool" where
  "sink_frame rv cv env S \<longleftrightarrow>
     (\<forall>n d s r s'. snk_put S n d s = (r, s') \<longrightarrow> (\<exists>t. env s t \<and> rv s' = rv t \<and> cv s' = cv t)) \<and>
     (\<forall>n s r s'. snk_get S n s = (r, s') \<longrightarrow> (\<exists>t. env s t \<and> rv s' = rv t \<and> cv s' = cv t)) \<and>
     (\<forall>rm n s r s'. snk_remove S = Some rm \<longrightarrow> rm n s = (r, s') \<longrightarrow>
        (\<exists>t. env s t \<and> rv s' = rv t \<and> cv s' = cv t))"

definition archive_world ::
    "('s \<Rightarrow> audit_obj view) \<Rightarrow> ('s \<Rightarrow> checkpoint_spec view) \<Rightarrow> ('s \<Rightarrow> string \<Rightarrow> string option)
       \<Rightarrow> ('s \<Rightarrow> 's \<Rightarrow> bool) \<Rightarrow> (audit_record \<Rightarrow> bool) \<Rightarrow> 's archiver \<Rightarrow> bool" where
  "archive_world rv cv ct env P A \<longleftrightarrow>
     kclient_ok rv (\<lambda>s t. cv t = cv s \<and> ct t = ct s) env (rec_records (ac_recorder A)) \<and>
     kclient_ok cv (\<lambda>s t. rv t = rv s \<and> ct t = ct s) env (rec_checkpoints (ac_recorder A)) \<and>
     segment_sink (ac_sink A) ct segment_names \<and> sink_frame rv cv env (ac_sink A) \<and>
     archive_env rv cv ct env P A"

lemma archived_mono: "archived ct b A s r \<Longrightarrow> b \<le> c \<Longrightarrow> archived ct c A s r"
  unfolding archived_def by (meson order.trans)

lemma archived_frame: "ct s' = ct s \<Longrightarrow> archived ct b A s' r = archived ct b A s r"
  by (simp add: archived_def)

lemma kept_frame:
  assumes "rv s' = rv s" "cv s' = cv s" "ct s' = ct s"
  shows "kept rv cv ct P A rs s' = kept rv cv ct P A rs s"
  by (simp add: kept_def boundary_def stored_def well_named_def assms archived_frame [of ct, OF assms(3)])

lemma kept_env:
  assumes "archive_world rv cv ct env P A" "env s t" "kept rv cv ct P A rs s"
  shows "kept rv cv ct P A rs t \<and> boundary cv A t = boundary cv A s \<and> ct t = ct s"
proof -
  have e: "ct t = ct s" "boundary cv A t = boundary cv A s"
    "well_named rv P A s \<Longrightarrow> well_named rv P A t" "\<And>r. stored rv A s r \<Longrightarrow> stored rv A t r"
    using assms(1,2) unfolding archive_world_def archive_env_def by blast+
  show ?thesis using assms(3) e(3,4)
    unfolding kept_def e(2) archived_frame [of ct, OF e(1)] by (simp add: e(1))
qed

lemma record_name_segment [simp]: "segment_name f l \<in> segment_names"
  by (auto simp: segment_names_def)

lemma nonneg_uint:
  fixes b :: int64
  assumes "0 \<le>s b"
  shows "uint b = sint b" "sint b < 2 ^ 63"
proof -
  have b: "0 \<le> sint b" "sint b < 2 ^ 63" using assms sint_lt [of b] by (simp_all add: word_sle_eq)
  have "uint b = take_bit LENGTH(64) (sint b)" by (rule uint_sint)
  also have "\<dots> = sint b" by (rule take_bit_int_eq_self) (use b in simp_all)
  finally show "uint b = sint b" .
  show "sint b < 2 ^ 63" by (rule b(2))
qed

lemma nonneg_unat:
  fixes b :: int64
  assumes "0 \<le>s b"
  shows "unat b < 2 ^ 63"
proof -
  have "nat (uint b) < nat (2 ^ 63)"
    using nonneg_uint [OF assms] by (subst nat_mono_iff) simp_all
  then show ?thesis by simp
qed

lemma nonneg_sle:
  fixes b c :: int64
  assumes "0 \<le>s b" "b \<le>s c"
  shows "0 \<le>s c" "b \<le> c"
proof -
  show c: "0 \<le>s c" using assms by (rule signed.order.trans)
  show "b \<le> c"
    using assms(2) nonneg_uint(1) [OF assms(1)] nonneg_uint(1) [OF c] by (simp add: word_sle_eq word_le_def)
qed

section \<open>Deleting what the boundary covers\<close>

lemma delete_record_kept:
  assumes w: "archive_world rv cv ct env P A" and k: "kept rv cv ct P A rs s"
    and b: "seq \<le> boundary cv A s" and e: "delete_record A seq s = (q, s')"
  shows "kept rv cv ct P A rs s' \<and> boundary cv A s' = boundary cv A s"
proof -
  let ?k = "(rec_ns (ac_recorder A), record_name seq)"
  have "delete_law rv (\<lambda>s t. cv t = cv s \<and> ct t = ct s) env (rec_records (ac_recorder A))"
    using w by (simp add: archive_world_def kclient_ok_def)
  then obtain t where t: "env s t" "cv s' = cv t" "ct s' = ct t"
    and d: "rv s' = (rv t)(?k := None) \<or> rv s' = rv t"
    using e unfolding delete_law_def delete_record_def by (fastforce split: option.splits if_splits)
  note kt = kept_env [OF w t(1) k]
  have b': "boundary cv A s' = boundary cv A t" using t(2) by (simp add: boundary_def)
  have "stored rv A s' r" if "stored rv A t r" "\<not> ar_seq r \<le> boundary cv A t" for r
  proof -
    have "record_name (ar_seq r) \<noteq> record_name seq" using that(2) b kt by auto
    then show ?thesis using that(1) d by (auto simp: stored_def)
  qed
  moreover have "well_named rv P A s'"
  proof -
    have "well_named rv P A t" using kt by (simp add: kept_def)
    then show ?thesis using d unfolding well_named_def by (auto split: if_splits) blast+
  qed
  ultimately show ?thesis
    using kt unfolding kept_def b' archived_frame [of ct, OF t(3)] by (simp split: if_splits)
qed

lemma sweep_loop_kept:
  "archive_world rv cv ct env P A \<Longrightarrow> kept rv cv ct P A rs s \<Longrightarrow> b \<le> boundary cv A s \<Longrightarrow>
     sweep_loop A b xs s = (q, s') \<Longrightarrow> kept rv cv ct P A rs s'"
proof (induction xs arbitrary: s)
  case (Cons x xs)
  show ?case
  proof (cases "ar_seq x > b")
    case False
    obtain p t where d: "delete_record A (ar_seq x) s = (p, t)" by force
    have "ar_seq x \<le> boundary cv A s" using False Cons.prems(3) by auto
    note kd = delete_record_kept [OF Cons.prems(1,2) this d]
    then show ?thesis using Cons.IH [OF Cons.prems(1), of t] Cons.prems(3,4) False d
      by (auto split: if_splits)
  qed (use Cons in auto)
qed simp

lemma delete_loop_kept:
  "archive_world rv cv ct env P A \<Longrightarrow> kept rv cv ct P A rs s \<Longrightarrow>
     unat seq + m \<le> unat (boundary cv A s) + 1 \<Longrightarrow>
     delete_loop A m seq n s = (q, s') \<Longrightarrow> kept rv cv ct P A rs s'"
proof (induction m arbitrary: seq n s)
  case (Suc m)
  obtain p t where d: "delete_record A seq s = (p, t)" by force
  have le: "seq \<le> boundary cv A s" using Suc.prems(3) by (simp add: word_le_nat_alt)
  note kd = delete_record_kept [OF Suc.prems(1,2) le d]
  have "unat (boundary cv A s) < 2 ^ 63"
    using Suc.prems(2) nonneg_unat [of "boundary cv A s"] by (simp add: kept_def)
  then have "unat seq + 1 < 2 ^ 64" using le by (simp add: word_le_nat_alt)
  then have "unat (seq + 1) = unat seq + 1" by (rule unat_Suc_word)
  then have "delete_loop A m (seq + 1) i t = (q, s') \<Longrightarrow> kept rv cv ct P A rs s'" for i
    using Suc.IH [OF Suc.prems(1), of t "seq + 1"] kd Suc.prems(3) by simp
  then show ?case using Suc.prems(4) d kd by (auto split: option.splits if_splits)
qed simp


section \<open>What a run reads\<close>

lemma load_kept:
  assumes w: "archive_world rv cv ct env P A" and k: "kept rv cv ct P A rs s"
    and e: "load (ac_recorder A) s = (r, s')"
  shows "kept rv cv ct P A rs s'" "boundary cv A s' = boundary cv A s"
    and "r = Inr xs \<Longrightarrow> sorted_wrt (<) (map ar_seq xs)"
    and "r = Inr xs \<Longrightarrow> stored rv A s x \<Longrightarrow> x \<in> set xs"
    and "r = Inr xs \<Longrightarrow> y \<in> set xs \<Longrightarrow> P y"
proof -
  let ?ns = "rec_ns (ac_recorder A)"
  have kr: "kclient_ok rv (\<lambda>s t. cv t = cv s \<and> ct t = ct s) env (rec_records (ac_recorder A))"
    using w by (simp add: archive_world_def)
  obtain r0 s1 where g: "list_plain (rec_records (ac_recorder A)) ?ns s = (r0, s1)" by force
  then have s1: "s1 = s'" using e by (auto simp: load_def split: sum.splits)
  note l = list_cases [OF kr g, unfolded s1]
  from kept_env [OF w l(1) k] show ks: "kept rv cv ct P A rs s'" "boundary cv A s' = boundary cv A s"
    by auto
  fix xs assume r: "r = Inr xs"
  then obtain os where os: "r0 = Inr os" "xs = sort_key ar_seq (map (\<lambda>p. from_api (snd p)) os)"
    using e g by (auto simp: load_def split: sum.splits)
  have from_store: "\<exists>v. rv s' (?ns, fst p) = Some (snd p, v)" if p: "p \<in> set os" for p
  proof -
    have "map_of os (fst p) = Some (snd p)"
      using l(2) [OF os(1)] p by (metis map_of_eq_Some_iff prod.collapse)
    then show ?thesis using l(3) [OF os(1), of "fst p"] by (cases "rv s' (?ns, fst p)") auto
  qed
  then show "y \<in> set xs \<Longrightarrow> P y"
    using ks(1) unfolding os(2) kept_def well_named_def by force
  have "fst p = record_name (ar_seq (from_api (snd p)))" if "p \<in> set os" for p
    using from_store [OF that] ks(1) by (auto simp: kept_def well_named_def)
  then have "inj_on (\<lambda>p. ar_seq (from_api (snd p))) (set os)"
    using l(2) [OF os(1)] by (intro inj_onI) (metis distinct_map inj_onD)
  moreover have "distinct os" using l(2) [OF os(1)] by (simp add: distinct_map)
  ultimately have "distinct (map (\<lambda>p. from_api (snd p)) os)"
    and "inj_on ar_seq ((\<lambda>p. from_api (snd p)) ` set os)"
    by (auto simp: distinct_map inj_on_def)
  then show "sorted_wrt (<) (map ar_seq xs)"
    unfolding os(2) strict_sorted_iff by (simp add: distinct_map [of ar_seq])
  assume x: "stored rv A s x"
  have "stored rv A s' x" using w l(1) x unfolding archive_world_def archive_env_def by blast
  then obtain y v where y: "rv s' (?ns, record_name (ar_seq x)) = Some (y, v)" "from_api y = x"
    by (auto simp: stored_def)
  then have "map_of os (record_name (ar_seq x)) = Some y" using l(3) [OF os(1)] by simp
  from map_of_SomeD [OF this] show "x \<in> set xs" using y(2) os(2) by force
qed

lemma get_checkpoint_kept:
  assumes w: "archive_world rv cv ct env P A" and k: "kept rv cv ct P A rs s"
    and e: "k_get (rec_checkpoints (ac_recorder A)) (rec_ns (ac_recorder A), checkpoint_name) s = (r, s')"
  shows "kept rv cv ct P A rs s'" "boundary cv A s' = boundary cv A s"
    and "\<And>x. stored rv A s x \<Longrightarrow> stored rv A s' x"
    and "r = Inl NotFound \<Longrightarrow> boundary cv A s = 0"
    and "r = Inr (c, v) \<Longrightarrow> cps_archived_length c = boundary cv A s"
proof -
  have kc: "kclient_ok cv (\<lambda>s t. rv t = rv s \<and> ct t = ct s) env (rec_checkpoints (ac_recorder A))"
    using w by (simp add: archive_world_def)
  note g = get_cases [OF kc e]
  show "kept rv cv ct P A rs s'" "boundary cv A s' = boundary cv A s" using kept_env [OF w g(1) k] by auto
  then show "r = Inl NotFound \<Longrightarrow> boundary cv A s = 0"
    "r = Inr (c, v) \<Longrightarrow> cps_archived_length c = boundary cv A s"
    using g(2,3) by (auto simp: boundary_def)
  show "\<And>x. stored rv A s x \<Longrightarrow> stored rv A s' x"
    using w g(1) unfolding archive_world_def archive_env_def by blast
qed

lemma checkpoint_anchor_boundary:
  "0 \<le>s cps_archived_length c \<Longrightarrow>
     checkpoint_anchor (Some (checkpoint_from_api c)) =
       (if cps_archived_length c = 0 then None
        else Some \<lparr>an_length = cps_archived_length c, an_head = cps_archived_head c,
                   an_location = cps_location c\<rparr>)"
  by (auto simp: checkpoint_anchor_def checkpoint_from_api_def signed.less_le)

lemma chain_kept:
  assumes w: "archive_world rv cv ct env P A" and k: "kept rv cv ct P A rs s"
    and e: "chain (ac_recorder A) s = (r, s')"
  shows "kept rv cv ct P A rs s'" "boundary cv A s' = boundary cv A s"
    and "r = Inr (xs, cp) \<Longrightarrow> sorted_wrt (<) (map ar_seq xs)"
    and "r = Inr (xs, cp) \<Longrightarrow> anchor_length (checkpoint_anchor cp) = boundary cv A s"
    and "r = Inr (xs, cp) \<Longrightarrow> x \<in> set rs \<Longrightarrow> boundary cv A s < ar_seq x \<Longrightarrow> x \<in> set xs"
    and "r = Inr (xs, cp) \<Longrightarrow> y \<in> set xs \<Longrightarrow> P y"
proof -
  let ?R = "ac_recorder A"
  obtain l s1 where l: "load ?R s = (l, s1)" by force
  note kl = load_kept [OF w k l]
  obtain q s2 where q: "k_get (rec_checkpoints ?R) (rec_ns ?R, checkpoint_name) s1 = (q, s2)" by force
  note kq = get_checkpoint_kept [OF w kl(1) q]
  have s': "s' = s1 \<or> s' = s2" and inr: "r = Inr (xs, cp) \<Longrightarrow> \<not> isl l"
    using e l q by (auto simp: chain_def Let_def split: sum.splits if_splits)
  show "kept rv cv ct P A rs s'" "boundary cv A s' = boundary cv A s"
    using s' kl(1,2) kq(1,2) by auto
  assume r: "r = Inr (xs, cp)"
  then obtain ys where ys: "l = Inr ys" using inr by (cases l) auto
  have pos: "0 \<le>s boundary cv A s" using k by (simp add: kept_def)
  have xs: "xs = filter (\<lambda>r. boundary cv A s < ar_seq r \<or> boundary cv A s = 0) ys"
  proof (cases q)
    case (Inl err)
    then have "err = NotFound" "xs = ys" using r e l q ys by (auto simp: chain_def split: if_splits)
    then show ?thesis using kq(4) Inl kl(2) by simp
  next
    case (Inr x)
    have b: "cps_archived_length (fst x) = boundary cv A s" using kq(5) [of "fst x" "snd x"] Inr kl(2) by simp
    then show ?thesis using r e l q ys Inr checkpoint_anchor_boundary [of "fst x"] pos
      by (auto simp: chain_def Let_def word_gt_0 filter_id_conv split: if_splits)
  qed
  show "sorted_wrt (<) (map ar_seq xs)"
    using kl(3) [OF ys] unfolding xs by (simp add: sorted_wrt_map sorted_wrt_filter)
  show "anchor_length (checkpoint_anchor cp) = boundary cv A s"
  proof (cases q)
    case (Inl err)
    then have "err = NotFound" "cp = None" using r e l q ys by (auto simp: chain_def split: if_splits)
    then show ?thesis using kq(4) Inl kl(2) by (simp add: anchor_length_def checkpoint_anchor_def)
  next
    case (Inr x)
    then have "cp = Some (checkpoint_from_api (fst x))"
      using r e l q ys by (auto simp: chain_def Let_def split: option.splits if_splits)
    then show ?thesis using kq(5) [of "fst x" "snd x"] Inr kl(2) pos
        checkpoint_anchor_boundary [of "fst x"] by (simp add: anchor_length_def)
  qed
  show "y \<in> set xs \<Longrightarrow> P y" using kl(5) [OF ys] unfolding xs by auto
  assume x: "x \<in> set rs" "boundary cv A s < ar_seq x"
  then have "stored rv A s x" using k by (auto simp: kept_def split: if_splits)
  then show "x \<in> set xs" using kl(4) [OF ys] x(2) unfolding xs by auto
qed

lemma sweep_kept:
  assumes w: "archive_world rv cv ct env P A" and k: "kept rv cv ct P A rs s"
    and e: "sweep A s = (r, s')"
  shows "kept rv cv ct P A rs s'"
proof -
  let ?R = "ac_recorder A"
  obtain q s1 where q: "k_get (rec_checkpoints ?R) (rec_ns ?R, checkpoint_name) s = (q, s1)" by force
  note kq = get_checkpoint_kept [OF w k q]
  show ?thesis
  proof (cases q)
    case (Inl err)
    then show ?thesis using e q kq(1)
      by (auto simp: sweep_def read_checkpoint_def checkpoint_anchor_def split: if_splits)
  next
    case (Inr x)
    define b where "b = boundary cv A s"
    have b: "cps_archived_length (fst x) = b" "0 \<le>s b"
      using kq(5) [of "fst x" "snd x"] Inr k by (simp_all add: b_def kept_def)
    show ?thesis
    proof (cases "b = 0")
      case True
      then show ?thesis using e q kq(1) Inr checkpoint_anchor_boundary [of "fst x"] b
        by (auto simp: sweep_def read_checkpoint_def)
    next
      case False
      obtain g s2 where g: "k_get (rec_records ?R) (rec_ns ?R, record_name b) s1 = (g, s2)" by force
      have kr: "kclient_ok rv (\<lambda>s t. cv t = cv s \<and> ct t = ct s) env (rec_records ?R)"
        using w by (simp add: archive_world_def)
      have k2: "kept rv cv ct P A rs s2" "boundary cv A s2 = b"
        using kept_env [OF w get_cases(1) [OF kr g] kq(1)] kq(2) b_def by auto
      obtain l s3 where l: "load ?R s2 = (l, s3)" by force
      note kl = load_kept [OF w k2(1) l]
      have "(r, s') = (case g of Inl e \<Rightarrow> (if e = NotFound then None else Some (GetErr e), s2)
          | Inr _ \<Rightarrow> (case l of Inl e \<Rightarrow> (Some (LoadErr e), s3) | Inr ys \<Rightarrow> sweep_loop A b ys s3))"
        using e [symmetric] q Inr checkpoint_anchor_boundary [of "fst x"] b False g l
        by (auto simp: sweep_def read_checkpoint_def split: sum.splits)
      then show ?thesis using k2 kl(1,2) sweep_loop_kept [OF w kl(1), of b _ r s']
        by (auto split: sum.splits simp: eq_commute [of "(r, s')"])
    qed
  qed
qed

lemma size_kept:
  assumes w: "archive_world rv cv ct env P A" and k: "kept rv cv ct P A rs s"
    and e: "size_of_log (ac_recorder A) s = (r, s')"
  shows "kept rv cv ct P A rs s'"
proof -
  let ?R = "ac_recorder A"
  obtain q s1 where q: "k_get (rec_checkpoints ?R) (rec_ns ?R, checkpoint_name) s = (q, s1)" by force
  note kq = get_checkpoint_kept [OF w k q]
  obtain l s2 where l: "load ?R s1 = (l, s2)" by force
  note kl = load_kept [OF w kq(1) l]
  show ?thesis using e q l kq(1) kl(1)
    by (cases q; cases l) (auto simp: size_of_log_def split: if_splits)
qed


section \<open>Moving the boundary\<close>

text \<open>Everything up to \<open>m\<close> is in the archive, under names the boundary \<open>m\<close> covers.\<close>

definition covers ::
    "('s \<Rightarrow> string \<Rightarrow> string option) \<Rightarrow> 's archiver \<Rightarrow> audit_record list \<Rightarrow> int64 \<Rightarrow> 's \<Rightarrow> bool" where
  "covers ct A rs m s \<longleftrightarrow> (\<forall>r \<in> set rs. ar_seq r \<le> m \<longrightarrow> archived ct m A s r)"

lemma covers_frame: "ct s' = ct s \<Longrightarrow> covers ct A rs m s' = covers ct A rs m s"
  unfolding covers_def by (simp add: archived_frame [of ct s' s])

lemma advance_kept:
  assumes w: "archive_world rv cv ct env P A"
  shows "kept rv cv ct P A rs s \<Longrightarrow> covers ct A rs (an_length a) s \<Longrightarrow>
    advance_attempts (ac_recorder A) n a s = (r, s') \<Longrightarrow>
    kept rv cv ct P A rs s' \<and> (r = None \<longrightarrow> boundary cv A s' = an_length a)"
proof (induction n arbitrary: s)
  case (Suc n)
  let ?R = "ac_recorder A"
  let ?k = "(rec_ns ?R, checkpoint_name)"
  have kc: "kclient_ok cv (\<lambda>s t. rv t = rv s \<and> ct t = ct s) env (rec_checkpoints ?R)"
    using w by (simp add: archive_world_def)
  obtain q s1 where q: "k_get (rec_checkpoints ?R) ?k s = (q, s1)" by force
  note k1 = get_checkpoint_kept [OF w Suc.prems(1) q]
  have c1: "ct s1 = ct s" using kept_env [OF w get_cases(1) [OF kc q] Suc.prems(1)] by simp
  show ?case
  proof (cases q)
    case (Inl err)
    then show ?thesis using Suc.prems(3) q k1(1) by (auto simp: Let_def)
  next
    case (Inr x)
    obtain old v where x: "x = (old, v)" by (cases x)
    have b: "cps_archived_length old = boundary cv A s" using k1(5) Inr x by simp
    define sp where "sp = old\<lparr>cps_archived_length := an_length a, cps_archived_head := an_head a,
                              cps_location := an_location a\<rparr>"
    obtain u s2 where u: "k_update (rec_checkpoints ?R) ?k (sp, v) s1 = (u, s2)" by force
    show ?thesis
    proof (cases "an_length a <s cps_archived_length old \<or> cps_length old <s an_length a")
      case True
      then show ?thesis using Suc.prems(3) q Inr x k1(1) by (auto simp: Let_def split: if_splits)
    next
      case False
      have pos: "0 \<le>s boundary cv A s" using Suc.prems(1) by (simp add: kept_def)
      have le: "boundary cv A s \<le>s an_length a" using False b by (auto simp: not_less signed.not_less)
      have k2: "kept rv cv ct P A rs s2 \<and> ct s2 = ct s \<and> (u = None \<longrightarrow> boundary cv A s2 = an_length a)"
      proof -
        from kc u consider
            (written) t v' where "env s1 t" "rv s2 = rv t" "ct s2 = ct t" "cv s2 = (cv t)(?k \<mapsto> (sp, v'))"
          | (untouched) t where "env s1 t" "rv s2 = rv t" "ct s2 = ct t" "cv s2 = cv t" "u \<noteq> None"
          by (cases rule: update_cases) blast+
        then show ?thesis
        proof cases
          case untouched
          then show ?thesis using kept_env [OF w untouched(1) k1(1)] kept_frame [of rv s2 t cv ct P A rs] c1
            by auto
        next
          case written
          note kt = kept_env [OF w written(1) k1(1)]
          have b2: "boundary cv A s2 = an_length a" using written(4) by (simp add: boundary_def sp_def)
          note a = nonneg_sle [OF pos le]
          have "covers ct A rs (an_length a) s2"
            using Suc.prems(2) covers_frame [of ct s2 s] kt c1 written(3) by simp
          moreover have "stored rv A s2 z" if "z \<in> set rs" "\<not> ar_seq z \<le> an_length a" for z
          proof -
            have "\<not> ar_seq z \<le> boundary cv A t" using that(2) a(2) kt k1(2) by auto
            then have "stored rv A t z" using kt that(1) by (auto simp: kept_def)
            then show ?thesis using written(2) by (simp add: stored_def)
          qed
          ultimately have "kept rv cv ct P A rs s2"
            using kt written(2) a(1) unfolding kept_def b2 by (simp add: covers_def well_named_def)
          then show ?thesis using b2 kt c1 written(3) by simp
        qed
      qed
      have "(r, s') = (case u of None \<Rightarrow> (None, s2)
          | Some e \<Rightarrow> if e = Conflict then advance_attempts ?R n a s2 else (Some (WriteErr e), s2))"
        using Suc.prems(3) [symmetric] q Inr x False u [unfolded sp_def] by (simp add: Let_def)
      then show ?thesis using k2 Suc.IH [of s2] Suc.prems(2) covers_frame [of ct s2 s]
        by (auto split: option.splits if_splits)
    qed
  qed
qed auto

section \<open>Writing a segment\<close>

lemma segment_name_inject: "segment_name f l = segment_name f' l' \<longleftrightarrow> f = f' \<and> l = l'"
proof
  let ?p = "\<lambda>n :: uint64. zero_pad 12 (nat_str (unat n))"
  assume "segment_name f l = segment_name f' l'"
  then have e: "?p f @ CHR ''-'' # (?p l @ ''.jsonl'') = ?p f' @ CHR ''-'' # (?p l' @ ''.jsonl'')"
    by (simp add: segment_name_def)
  have dash: "CHR ''-'' \<notin> set (?p n)" for n
    using zero_pad_digits [of "nat_str (unat n)" "CHR ''-''" 12] nat_str_digits
    by (auto simp: is_digit_def)
  from append_sep_eq [OF dash dash e] show "f = f' \<and> l = l'" by (simp add: word_unat_eq_iff)
qed simp

lemma covers_after_put:
  assumes k: "kept rv cv ct P A rs s" and b: "boundary cv A s < m"
    and seg: "decode_segment (ac_codec A) data = Inr seg"
    and all: "\<And>x. x \<in> set rs \<Longrightarrow> boundary cv A s < ar_seq x \<Longrightarrow> ar_seq x \<le> m \<Longrightarrow> x \<in> set seg"
    and here: "ct s' (segment_name f m) = Some data"
    and others: "\<And>g l. (g, l) \<noteq> (f, m) \<Longrightarrow> ct s' (segment_name g l) = ct s (segment_name g l)"
  shows "covers ct A rs m s'"
  unfolding covers_def
proof (intro ballI impI)
  fix x assume x: "x \<in> set rs" "ar_seq x \<le> m"
  show "archived ct m A s' x"
  proof (cases "ar_seq x \<le> boundary cv A s")
    case True
    then have "archived ct (boundary cv A s) A s x" using k x(1) by (simp add: kept_def)
    then obtain g l d sg where a: "ct s (segment_name g l) = Some d" "l \<le> boundary cv A s"
        "decode_segment (ac_codec A) d = Inr sg" "x \<in> set sg"
      unfolding archived_def by blast
    then have "(g, l) \<noteq> (f, m)" "l \<le> m" using b by auto
    then show ?thesis using a others unfolding archived_def by metis
  next
    case False
    then show ?thesis using all [OF x(1) _ x(2)] here seg unfolding archived_def by force
  qed
qed

lemma kept_others:
  assumes k: "kept rv cv ct P A rs s" and b: "boundary cv A s < m"
    and w: "archive_world rv cv ct env P A" and t: "env s t" "rv s' = rv t" "cv s' = cv t"
    and others: "\<And>g l. (g, l) \<noteq> (f, m) \<Longrightarrow> ct s' (segment_name g l) = ct s (segment_name g l)"
  shows "kept rv cv ct P A rs s' \<and> boundary cv A s' = boundary cv A s"
proof -
  note kt = kept_env [OF w t(1) k]
  have bs: "boundary cv A s' = boundary cv A s" using kt t(3) by (simp add: boundary_def)
  have "archived ct (boundary cv A s) A s' x" if ar: "archived ct (boundary cv A s) A t x" for x
  proof -
    obtain g l d sg where a: "ct s (segment_name g l) = Some d" "l \<le> boundary cv A s"
        "decode_segment (ac_codec A) d = Inr sg" "x \<in> set sg"
      using ar kt unfolding archived_def by metis
    then have "(g, l) \<noteq> (f, m)" using b by auto
    then show ?thesis using a others unfolding archived_def by metis
  qed
  then show ?thesis using kt t(2) bs
    by (auto simp: kept_def well_named_def stored_def split: if_splits)
qed

lemma run_publish_kept:
  assumes w: "archive_world rv cv ct env P A" and k: "kept rv cv ct P A rs s"
    and c: "covers ct A rs (ar_seq (last segment)) s"
    and le: "ar_seq (hd segment) \<le> ar_seq (last segment)"
    and e: "run_publish A segment loc s = (r, s')"
  shows "kept rv cv ct P A rs s'"
proof -
  define a where "a = \<lparr>an_length = ar_seq (last segment), an_head = ar_hash (last segment), an_location = loc\<rparr>"
  obtain q s1 where q: "advance_attempts (ac_recorder A) 5 a s = (q, s1)" by force
  have "kept rv cv ct P A rs s1 \<and> (q = None \<longrightarrow> boundary cv A s1 = ar_seq (last segment))"
    using advance_kept [OF w k _ q] c by (simp add: a_def)
  then show ?thesis
    using e q le delete_loop_kept [OF w, of rs s1 "ar_seq (hd segment)"
        "unat (ar_seq (last segment)) + 1 - unat (ar_seq (hd segment))" 0 r s']
    by (auto simp: run_publish_def advance_boundary_def a_def delete_through_def word_le_nat_alt
        split: option.splits prod.splits)
qed


lemma reject_kept:
  assumes w: "archive_world rv cv ct env P A" and k: "kept rv cv ct P A rs s"
    and b: "boundary cv A s < m" and e: "reject A (segment_name f m) c s = (r, s')"
  shows "kept rv cv ct P A rs s'"
proof (cases "snk_remove (ac_sink A)")
  case None
  then show ?thesis using e k by (auto simp: reject_def discard_def split: option.splits)
next
  case (Some rm)
  then have rm: "rm (segment_name f m) s = (fst (rm (segment_name f m) s), s')"
    using e by (auto simp: reject_def discard_def split: prod.splits option.splits)
  then obtain t where t: "env s t" "rv s' = rv t" "cv s' = cv t"
    using w Some unfolding archive_world_def sink_frame_def by meson
  have "segment_sink (ac_sink A) ct segment_names" using w by (simp add: archive_world_def)
  note others = segment_sink.remove_others [OF this _ _ _ Some rm]
  show ?thesis
    using kept_others [OF k b w t, of f] others by (simp add: segment_name_inject)
qed

lemma run_segment_kept:
  assumes w: "archive_world rv cv ct env P A" and k: "kept rv cv ct P A rs s"
    and ne: "segment \<noteq> []" and srt: "sorted_wrt (<) (map ar_seq segment)"
    and anc: "anchor_length anchor = boundary cv A s"
    and all: "\<And>x. x \<in> set rs \<Longrightarrow> boundary cv A s < ar_seq x \<Longrightarrow>
      ar_seq x \<le> ar_seq (last segment) \<Longrightarrow> x \<in> set segment"
    and codec: "codec_ok (ac_codec A) P" "\<forall>x \<in> set segment. P x"
    and e: "run_segment A segment anchor s = (r, s')"
  shows "kept rv cv ct P A rs s'"
proof (cases "v_valid (verify_from (rec_digest (ac_recorder A)) segment anchor None)")
  case False
  then show ?thesis using e k by (simp add: run_segment_def Let_def)
next
  case valid: True
  define m where "m = ar_seq (last segment)"
  define f where "f = ar_seq (hd segment)"
  obtain x xs where seg: "segment = x # xs" using ne by (cases segment) auto
  have hd: "f = boundary cv A s + 1" using valid seg anc by (simp add: verify_from_valid f_def)
  have "last segment \<in> set segment" using ne by (rule last_in_set)
  then have fm: "f \<le> m" using srt seg by (auto simp: f_def m_def)
  have "unat (boundary cv A s) < 2 ^ 63" using k nonneg_unat [of "boundary cv A s"] by (simp add: kept_def)
  then have "unat f = unat (boundary cv A s) + 1" unfolding hd by (intro unat_Suc_word) simp
  then have b: "boundary cv A s < m" using fm by (simp add: word_less_nat_alt word_le_nat_alt)
  have snk: "segment_sink (ac_sink A) ct segment_names" "sink_frame rv cv env (ac_sink A)"
    using w by (simp_all add: archive_world_def)
  let ?n = "segment_name f m"
  show ?thesis
  proof (cases "encode_segment (ac_codec A) segment")
    case (Inl err)
    then show ?thesis using e k valid by (simp add: run_segment_def Let_def)
  next
    case (Inr data)
    note dec = decode_encode [OF codec Inr]
    obtain p s1 where p: "snk_put (ac_sink A) ?n data s = (p, s1)" by force
    obtain t where t: "env s t" "rv s1 = rv t" "cv s1 = cv t"
      using snk(2) p unfolding sink_frame_def by meson
    have o1: "(g, l) \<noteq> (f, m) \<Longrightarrow> ct s1 (segment_name g l) = ct s (segment_name g l)" for g l
      using segment_sink.put_others [OF snk(1) _ _ _ p] by (simp add: segment_name_inject)
    from kept_others [OF k b w t o1] have k1: "kept rv cv ct P A rs s1" "boundary cv A s1 = boundary cv A s"
      by auto
    obtain q s2 where q: "snk_get (ac_sink A) ?n s1 = (q, s2)" by force
    obtain u where u: "env s1 u" "rv s2 = rv u" "cv s2 = cv u"
      using snk(2) q unfolding sink_frame_def by meson
    have o2: "ct s2 (segment_name g l) = ct s1 (segment_name g l)" for g l
      using segment_sink.get_keeps [OF snk(1) _ _ q] by simp
    from kept_others [OF k1(1) _ w u o2, of m] b k1(2)
    have k2: "kept rv cv ct P A rs s2" "boundary cv A s2 = boundary cv A s" by auto
    have rej: "reject A ?n c s2 = (r, s') \<Longrightarrow> ?thesis" for c
      using reject_kept [OF w k2(1) _ ] b k2(2) by simp
    have pub: "run_publish A segment loc s2 = (r, s') \<Longrightarrow> p = Inr l \<Longrightarrow> ?thesis" for loc l
    proof -
      assume pb: "run_publish A segment loc s2 = (r, s')" and "p = Inr l"
      then have "ct s2 ?n = Some data" using segment_sink.put_stores [OF snk(1) _ p [unfolded \<open>p = Inr l\<close>]] o2 by simp
      then have "covers ct A rs m s2"
        using covers_after_put [OF k b dec] all o1 o2 by (simp add: m_def)
      then show ?thesis using run_publish_kept [OF w k2(1) _ _ pb] fm by (simp add: m_def f_def)
    qed
    show ?thesis using e valid Inr p q k1(1) rej pub
      by (auto simp: run_segment_def Let_def f_def [symmetric] m_def [symmetric] split: sum.splits if_splits)
  qed
qed

text \<open>
  Claim C31. Archiving loses nothing. Let other clients append while a run is under way, let any call
  to the API server or to the archive fail, with or without its effect, and let the run stop there.
  If before the run every record of the log was either still stored or, where the published
  boundary covers it, readable from a segment of the archive, then so it is after the run.
\<close>

theorem archive_run_loses_nothing:
  assumes "archive_world rv cv ct env P A" and "kept rv cv ct P A rs s"
    and "codec_ok (ac_codec A) P"
  shows "kept rv cv ct P A rs (snd (archive_run A s))"
proof -
  obtain r s' where e: "archive_run A s = (r, s')" by (cases "archive_run A s")
  obtain q s1 where q: "sweep A s = (q, s1)" by force
  note k1 = sweep_kept [OF assms(1,2) q]
  obtain z s2 where z: "size_of_log (ac_recorder A) s1 = (z, s2)" by force
  note k2 = size_kept [OF assms(1) k1 z]
  obtain c s3 where c: "chain (ac_recorder A) s2 = (c, s3)" by force
  note k3 = chain_kept [OF assms(1) k2 c]
  have seg: "kept rv cv ct P A rs s'"
    if cp: "c = Inr (xs, cp)" and n: "n \<le> length xs" "0 < n"
      and run: "run_segment A (take n xs) (checkpoint_anchor cp) s3 = (r, s')" for xs cp n
  proof (rule run_segment_kept [OF assms(1) k3(1) _ _ _ _ assms(3) _ run])
    show "take n xs \<noteq> []" using n by auto
    show "sorted_wrt (<) (map ar_seq (take n xs))"
      using k3(3) [OF cp] by (simp add: take_map [symmetric] sorted_wrt_take)
    show "\<forall>x \<in> set (take n xs). P x"
      using k3(6) [OF cp] by (meson in_set_takeD)
    show "anchor_length (checkpoint_anchor cp) = boundary cv A s3" using k3(2,4) cp by simp
    fix x assume x: "x \<in> set rs" "boundary cv A s3 < ar_seq x" "ar_seq x \<le> ar_seq (last (take n xs))"
    then have "x \<in> set xs" using k3(2,5) cp by simp
    moreover have "x \<notin> set (drop n xs)"
    proof
      assume "x \<in> set (drop n xs)"
      moreover have "last (take n xs) \<in> set (take n xs)" using n by (intro last_in_set) auto
      ultimately have "ar_seq (last (take n xs)) < ar_seq x"
        using k3(3) [OF cp] by (subst (asm) append_take_drop_id [of n xs, symmetric])
          (auto simp del: append_take_drop_id simp: sorted_wrt_append)
      then show False using x(3) by simp
    qed
    ultimately show "x \<in> set (take n xs)"
      by (metis Un_iff append_take_drop_id set_append)
  qed
  show ?thesis
  proof (cases c)
    case (Inl err)
    then show ?thesis using e q z c k1 k2 k3(1)
      by (auto simp: archive_run_def split: option.splits sum.splits prod.splits if_splits)
  next
    case (Inr rc)
    obtain xs cp where rc: "rc = (xs, cp)" by (cases rc)
    have "0 < archive_retain A" by (simp add: archive_retain_def)
    then have "run_segment A (take (nat (int (length xs) - archive_retain A)) xs) (checkpoint_anchor cp) s3
        = (r, s') \<Longrightarrow> archive_retain A < int (length xs) \<Longrightarrow> kept rv cv ct P A rs s'"
      using seg [of xs cp "nat (int (length xs) - archive_retain A)"] Inr rc by simp
    then show ?thesis using e q z c k1 k2 k3(1) Inr rc
      by (auto simp: archive_run_def Let_def not_le split: option.splits sum.splits prod.splits if_splits)
  qed
qed


section \<open>A world to run the archiver in\<close>

text \<open>
  The store in memory, with a directory sink on a disk.  The codec writes a record as its sequence
  number in unary, which is enough to tell the records of one log apart.
\<close>

record arch_world = log_world + aw_disk :: disk

definition on_disk :: "(disk \<Rightarrow> 'a \<times> disk) \<Rightarrow> arch_world \<Rightarrow> 'a \<times> arch_world" where
  "on_disk f s = (case f (aw_disk s) of (r, k) \<Rightarrow> (r, s\<lparr>aw_disk := k\<rparr>))"

definition demo_sink :: "arch_world sink" where
  "demo_sink =
     \<lparr>snk_put = (\<lambda>n d. on_disk (dir_put ''var'' n d)), snk_get = (\<lambda>n. on_disk (dir_get ''var'' n)),
      snk_remove = Some (\<lambda>n. on_disk (dir_remove ''var'' n))\<rparr>"

definition demo_archiver :: "audit_record list \<Rightarrow> arch_world archiver" where
  "demo_archiver rs =
     \<lparr>ac_recorder =
        \<lparr>rec_records = mem_client lw_records (\<lambda>m. lw_records_update (\<lambda>_. m)),
         rec_checkpoints = mem_client lw_checkpoints (\<lambda>m. lw_checkpoints_update (\<lambda>_. m)),
         rec_runtime = \<lparr>rt_now = (\<lambda>s. (7, s)), rt_rand = (\<lambda>n s. (0, s)), rt_sleep = (\<lambda>d s. (None, s))\<rparr>,
         rec_digest = escape, rec_ns = ''audit''\<rparr>,
      ac_sink = demo_sink, ac_codec = unary_codec rs, ac_threshold = 1, ac_retain = 1\<rparr>"

definition demo_arch_world :: "audit_record list \<Rightarrow> io_fault list \<Rightarrow> arch_world" where
  "demo_arch_world rs fs =
     \<lparr>lw_records = lw_records (stored_log rs (spec_at 3 [] 0 [])),
      lw_checkpoints = lw_checkpoints (stored_log rs (spec_at 3 [] 0 [])),
      aw_disk = \<lparr>dk_files = [], dk_faults = fs\<rparr>\<rparr>"

abbreviation demo_ct :: "arch_world \<Rightarrow> string \<Rightarrow> string option" where
  "demo_ct \<equiv> \<lambda>s. dir_content ''var'' (aw_disk s)"

lemma demo_sink_ok: "segment_sink demo_sink demo_ct segment_names"
proof
  fix n m d s r s' l e q rm
  assume n: "n \<in> segment_names"
  show "snk_put demo_sink n d s = (Inr l, s') \<Longrightarrow> demo_ct s' n = Some d"
    using dir.put_stores [OF n, of "''var''" d "aw_disk s"]
    by (auto simp: demo_sink_def on_disk_def dir_sink_def split: prod.splits)
  show "snk_put demo_sink n d s = (Inl l, s') \<Longrightarrow> demo_ct s' n = demo_ct s n \<or> demo_ct s' n = Some d"
    using dir.put_fails [OF n, of "''var''" d "aw_disk s"]
    by (auto simp: demo_sink_def on_disk_def dir_sink_def split: prod.splits)
  show "m \<in> segment_names \<Longrightarrow> m \<noteq> n \<Longrightarrow> snk_put demo_sink n d s = (r, s') \<Longrightarrow> demo_ct s' m = demo_ct s m"
    using dir.put_others [OF n, of m "''var''" d "aw_disk s" r]
    by (auto simp: demo_sink_def on_disk_def dir_sink_def split: prod.splits)
  show "snk_get demo_sink n s = (Inr d, s') \<Longrightarrow> demo_ct s n = Some d"
    using dir.get_reads [OF n, of "''var''" "aw_disk s" d]
    by (auto simp: demo_sink_def on_disk_def dir_sink_def split: prod.splits)
  show "m \<in> segment_names \<Longrightarrow> snk_get demo_sink n s = (r, s') \<Longrightarrow> demo_ct s' m = demo_ct s m"
    using dir.get_keeps [OF n, of m "''var''" "aw_disk s" r]
    by (auto simp: demo_sink_def on_disk_def dir_sink_def split: prod.splits)
  show "m \<in> segment_names \<Longrightarrow> m \<noteq> n \<Longrightarrow> snk_remove demo_sink = Some rm \<Longrightarrow> rm n s = (q, s') \<Longrightarrow>
      demo_ct s' m = demo_ct s m"
    using dir.remove_others [OF n, of m "''var''" "dir_remove ''var''" "aw_disk s" q]
    by (auto simp: demo_sink_def on_disk_def dir_sink_def split: prod.splits)
qed

lemma demo_archive_world:
  "archive_world (\<lambda>s. map_of (lw_records s)) (\<lambda>s. map_of (lw_checkpoints s)) demo_ct (=) P (demo_archiver rs)"
proof -
  have "sink_frame (\<lambda>s. map_of (lw_records s)) (\<lambda>s. map_of (lw_checkpoints s)) (=) demo_sink"
    by (auto simp: sink_frame_def demo_sink_def on_disk_def split: prod.splits)
  then show ?thesis unfolding archive_world_def demo_archiver_def
    by (auto intro!: mem_client_ok simp: demo_sink_ok archive_env_def)
qed


lemma sealed_log_seq:
  assumes "n < 2 ^ 63" and "i < n"
  shows "unat (ar_seq (sealed_log n ! i)) = Suc i"
  using chain_ok_nth_seq [OF sealed_log_chain, of i n] assms unat_of_nat_u64 [of "Suc i"] by simp

lemma sealed_log_distinct: "n < 2 ^ 63 \<Longrightarrow> distinct (map ar_seq (sealed_log n))"
  unfolding distinct_conv_nth by (metis length_map length_sealed_log nat.inject nth_map sealed_log_seq)

lemma demo_kept:
  assumes "n < 2 ^ 63"
  shows "kept (\<lambda>s. map_of (lw_records s)) (\<lambda>s. map_of (lw_checkpoints s)) demo_ct
    (\<lambda>r. r \<in> set (sealed_log n)) (demo_archiver (sealed_log n)) (sealed_log n)
    (demo_arch_world (sealed_log n) fs)"
proof -
  have pos: "\<forall>r \<in> set (sealed_log n). 0 < ar_seq r"
    using sealed_log_seq [OF assms] by (auto simp: in_set_conv_nth word_less_nat_alt)
  have inj: "inj_on ar_seq (set (sealed_log n))"
    using sealed_log_distinct [OF assms] by (simp add: distinct_map)
  have st: "map_of (map (\<lambda>r. ((''audit'', record_name (ar_seq r)), (to_api r, 1 :: nat))) rs)
      (''audit'', record_name (ar_seq r)) = Some (to_api r, 1)"
    if "r \<in> set rs" "inj_on ar_seq (set rs)" for r rs
    using that by (induction rs) (auto simp: inj_on_def)
  show ?thesis
    using pos st [OF _ inj]
    by (auto simp: kept_def well_named_def boundary_def stored_def demo_arch_world_def stored_log_def
        demo_archiver_def spec_at_def dest!: map_of_SomeD)
qed

text \<open>Three records, one of which is to stay: the run moves two, or stops at a torn write.\<close>

theorem archive_run_loses_nothing_witness:
  "let rs = sealed_log 3 in
   kept (\<lambda>s. map_of (lw_records s)) (\<lambda>s. map_of (lw_checkpoints s)) demo_ct (\<lambda>r. r \<in> set rs)
     (demo_archiver rs) rs (snd (archive_run (demo_archiver rs) (demo_arch_world rs [Works, Torn 2 ''full''])))"
proof -
  have "codec_ok (ac_codec (demo_archiver (sealed_log 3))) (\<lambda>r. r \<in> set (sealed_log 3))"
    using unary_codec_ok [OF sealed_log_distinct [of 3]] by (simp add: demo_archiver_def)
  then show ?thesis unfolding Let_def
    by (intro archive_run_loses_nothing [OF demo_archive_world] demo_kept) simp_all
qed

end
