(* ===== verification/Cupel_Types.thy ===== *)
theory Cupel_Types
  imports Go_Time
begin

text \<open>
  The resources of \<open>api/v1alpha1\<close>: artifacts, scans, policies, reports, exceptions, promotion
  requests and publishers.  A pointer is an \<open>option\<close>, an absent list is \<open>[]\<close>, \<open>metav1.Time\<close> is a
  \<open>go_time\<close>, an \<open>int32\<close> is a 32-bit word.  Every object is its metadata, its spec and its status;
  the JSON tags, the generated deep copies and the registration with the scheme are not modelled.
\<close>

section \<open>Metadata\<close>

text \<open>\<open>om_owner\<close> is the uid of the controlling owner reference, if there is one.\<close>

record object_meta =
  om_name :: string
  om_namespace :: string
  om_uid :: string
  om_labels :: str_map
  om_annotations :: str_map
  om_owner :: "string option"
  om_created :: go_time
  om_deleted :: "go_time option"

section \<open>Shared types\<close>

record artifact_ref =
  ar_uri :: string
  ar_digest :: string
  ar_media_type :: string
  ar_format :: string
  ar_size :: "int64 option"

record severity_counts =
  n_critical :: int32
  n_high :: int32
  n_medium :: int32
  n_low :: int32
  n_unknown :: int32

definition total_counts :: "severity_counts \<Rightarrow> int32" where
  "total_counts s = n_critical s + n_high s + n_medium s + n_low s + n_unknown s"

definition no_counts :: severity_counts where
  "no_counts = \<lparr>n_critical = 0, n_high = 0, n_medium = 0, n_low = 0, n_unknown = 0\<rparr>"

record scanner_result =
  sr_scanner :: string
  sr_status :: string
  sr_findings :: int32
  sr_severities :: severity_counts
  sr_drift :: severity_counts
  sr_unexamined :: severity_counts
  sr_produced :: "bool option"
  sr_message :: string
  sr_report_ref :: string
  sr_completed :: "go_time option"

record finding =
  f_id :: string
  f_title :: string
  f_severity :: string
  f_category :: string
  f_location :: string
  f_description :: string

record secret_key_ref =
  skr_name :: string
  skr_key :: string

definition verdict_approved :: string where "verdict_approved = ''Approved''"
definition verdict_quarantined :: string where "verdict_quarantined = ''Quarantined''"
definition verdict_review_required :: string where "verdict_review_required = ''ReviewRequired''"
definition verdict_unknown :: string where "verdict_unknown = ''Unknown''"

lemmas verdict_defs =
  verdict_approved_def verdict_quarantined_def verdict_review_required_def verdict_unknown_def

section \<open>Scans\<close>

record artifact_scan_spec =
  ss_model :: string
  ss_version :: string
  ss_registry_model :: string
  ss_registry_version :: string
  ss_connector :: string
  ss_artifact :: artifact_ref
  ss_policy_ref :: string
  ss_scanners :: "string list"
  ss_trigger :: string
  ss_triggered_by :: string

record artifact_scan_status =
  st_phase :: string
  st_started :: "go_time option"
  st_completed :: "go_time option"
  st_results :: "scanner_result list"
  st_risk :: "int32 option"
  st_verdict :: string
  st_message :: string
  st_digest :: string

record artifact_scan =
  as_meta :: object_meta
  as_spec :: artifact_scan_spec
  as_status :: artifact_scan_status

record artifact_scan_report =
  sp_meta :: object_meta
  sp_scanner :: string
  sp_scan_ref :: string
  sp_summary :: scanner_result
  sp_findings :: "finding list"

section \<open>Policies\<close>

record scanner_spec =
  sn_name :: string
  sn_image :: string
  sn_enabled :: "bool option"
  sn_args :: "string list"
  sn_timeout :: "int64 option"

record policy_rules =
  pr_max_critical :: "int32 option"
  pr_max_high :: "int32 option"
  pr_block_malware :: "bool option"
  pr_block_secrets :: "bool option"
  pr_block_unsafe :: "bool option"
  pr_require_signature :: bool
  pr_require_sbom :: bool
  pr_require_aibom :: bool
  pr_block_drift :: "bool option"
  pr_block_unexamined :: "bool option"
  pr_max_high_model :: "int32 option"
  pr_require_provenance :: bool
  pr_allowed_formats :: "string list"
  pr_blocked_formats :: "string list"

record scan_policy =
  po_meta :: object_meta
  po_scanners :: "scanner_spec list"
  po_rules :: policy_rules
  po_enforcement :: string
  po_promotion :: string

section \<open>Exceptions\<close>

record exception_spec =
  ex_model :: string
  ex_version :: string
  ex_findings :: "string list"
  ex_rules :: "string list"
  ex_reason :: string
  ex_digest :: string
  ex_approved_by :: string
  ex_approved_groups :: "string list"
  ex_approved_at :: "go_time option"
  ex_expires :: "go_time option"

record artifact_exception =
  ae_meta :: object_meta
  ae_spec :: exception_spec
  ae_phase :: string

section \<open>Model security reports\<close>

record report_spec =
  rs_model :: string
  rs_version :: string
  rs_artifact :: artifact_ref
  rs_scan_ref :: string

record report_status =
  rt_verdict :: string
  rt_risk :: int32
  rt_malware :: string
  rt_secrets :: string
  rt_cves :: severity_counts
  rt_unexamined :: severity_counts
  rt_sbom_ref :: string
  rt_aibom_ref :: string
  rt_signature_verified :: bool
  rt_scanners :: "scanner_result list"
  rt_last_scan :: "go_time option"
  rt_environments :: "string list"

record model_report =
  mr_meta :: object_meta
  mr_spec :: report_spec
  mr_status :: report_status

section \<open>Promotion requests\<close>

record promotion_spec =
  pq_model :: string
  pq_version :: string
  pq_target :: string
  pq_requestor :: string
  pq_justification :: string
  pq_decision :: string
  pq_decision_reason :: string
  pq_decided_by :: string
  pq_decided_groups :: "string list"
  pq_decided_at :: "go_time option"

record promotion_status =
  ps_phase :: string
  ps_verdict :: string
  ps_observed :: "go_time option"
  ps_reviewed_by :: string
  ps_review_time :: "go_time option"
  ps_message :: string

record promotion_request =
  pm_meta :: object_meta
  pm_spec :: promotion_spec
  pm_status :: promotion_status

definition promotion_pending :: string where "promotion_pending = ''Pending''"
definition promotion_approved :: string where "promotion_approved = ''Approved''"
definition promotion_rejected :: string where "promotion_rejected = ''Rejected''"
definition promotion_blocked :: string where "promotion_blocked = ''Blocked''"
definition decision_approve :: string where "decision_approve = ''Approve''"
definition decision_reject :: string where "decision_reject = ''Reject''"

lemmas promotion_defs =
  promotion_pending_def promotion_approved_def promotion_rejected_def promotion_blocked_def
  decision_approve_def decision_reject_def

section \<open>Trusted publishers\<close>

record keyless_identity =
  ki_issuer :: string
  ki_subject :: string

record trusted_publisher =
  tp_meta :: object_meta
  tp_display :: string
  tp_cosign_key :: string
  tp_keyless :: "keyless_identity option"
  tp_prefixes :: "string list"

end
