(* ===== verification/Audit_Events.thy ===== *)
theory Audit_Events
  imports Audit_Chain
begin

text \<open>
  The events the rest of the system appends to the log (\<open>internal/audit/recorder.go\<close>): who decided
  what about which model, before the record is sealed.  \<open>now\<close> is the reading of the clock.
\<close>

definition event_at :: "go_time \<Rightarrow> string \<Rightarrow> string \<Rightarrow> string \<Rightarrow> str_map \<Rightarrow> audit_record" where
  "event_at now type subject actor detail =
     \<lparr>ar_seq = 0, ar_time = now, ar_type = type, ar_subject = subject, ar_actor = actor,
      ar_detail = detail, ar_prev = [], ar_hash = []\<rparr>"

definition subject_name :: "string \<Rightarrow> string \<Rightarrow> string" where
  "subject_name model version = (if version = [] then model else model @ ''/'' @ version)"

definition risk_accepted ::
    "go_time \<Rightarrow> string \<Rightarrow> string \<Rightarrow> string \<Rightarrow> string \<Rightarrow> string list \<Rightarrow> string \<Rightarrow> audit_record" where
  "risk_accepted now model version actor reason findings digest =
     (let d0 = [(''reason'', reason)];
          d1 = (if findings \<noteq> [] then sm_put ''findings'' (str_join '','' (sort findings)) d0 else d0);
          d2 = (if digest \<noteq> [] then sm_put ''digest'' digest d1 else d1)
      in event_at now event_risk_accepted (subject_name model version) actor d2)"

definition verdict_issued :: "go_time \<Rightarrow> string \<Rightarrow> string \<Rightarrow> string \<Rightarrow> int32 \<Rightarrow> string \<Rightarrow> audit_record" where
  "verdict_issued now model version verdict risk digest =
     (let d0 = [(''verdict'', verdict), (''risk'', int_str (sint risk))];
          d1 = (if digest \<noteq> [] then sm_put ''digest'' digest d0 else d0)
      in event_at now event_verdict_issued (subject_name model version) ''system'' d1)"

definition deployment_decision ::
    "go_time \<Rightarrow> string \<Rightarrow> string \<Rightarrow> string \<Rightarrow> string \<Rightarrow> bool \<Rightarrow> string \<Rightarrow> audit_record" where
  "deployment_decision now model version ns workload admitted why =
     event_at now (if admitted then event_deployment_admitted else event_deployment_blocked)
       (subject_name model version) ''system''
       [(''namespace'', ns), (''workload'', workload), (''reason'', why)]"

definition promotion_decision ::
    "go_time \<Rightarrow> string \<Rightarrow> string \<Rightarrow> string \<Rightarrow> string \<Rightarrow> string \<Rightarrow> string \<Rightarrow> string \<Rightarrow> audit_record" where
  "promotion_decision now model version environment phase decided_by verdict why =
     event_at now (if phase \<noteq> ''Approved'' then event_promotion_refused else event_model_promoted)
       (subject_name model version) (if decided_by = [] then ''system'' else decided_by)
       [(''environment'', environment), (''phase'', phase), (''verdict'', verdict), (''reason'', why)]"

lemma event_at_simps [simp]:
  "ar_time (event_at now t s a d) = now" "ar_type (event_at now t s a d) = t"
  "ar_subject (event_at now t s a d) = s" "ar_actor (event_at now t s a d) = a"
  "ar_detail (event_at now t s a d) = d"
  by (simp_all add: event_at_def)

lemma deployment_decision_simps [simp]:
  "ar_type (deployment_decision now m v ns w adm why)
     = (if adm then event_deployment_admitted else event_deployment_blocked)"
  "sm_get (ar_detail (deployment_decision now m v ns w adm why)) ''reason'' = why"
  "sm_get (ar_detail (deployment_decision now m v ns w adm why)) ''namespace'' = ns"
  by (simp_all add: deployment_decision_def sm_get_def)

lemma promotion_decision_simps [simp]:
  "ar_type (promotion_decision now m v env ph by verdict why)
     = (if ph = ''Approved'' then event_model_promoted else event_promotion_refused)"
  "ar_actor (promotion_decision now m v env ph by verdict why) = (if by = [] then ''system'' else by)"
  "sm_get (ar_detail (promotion_decision now m v env ph by verdict why)) ''verdict'' = verdict"
  by (simp_all add: promotion_decision_def sm_get_def)

end
