(* ===== verification/Webhook_Sign.thy ===== *)
theory Webhook_Sign
  imports Cupel_Types Audit_Events
begin

text \<open>
  The two signing webhooks (\<open>internal/webhook/exception.go\<close>, \<open>promotion.go\<close>).  They see every create
  and update of an exception or a promotion request before it is stored, refuse some, and replace the
  identity fields by the authenticated ones.  The API server stores the object of the patch they
  answer with, so a handler returns that object.  An object of the request is the outcome of decoding
  it: the error, if any, and the value, which a failed decode may have filled in part.  The step
  relations say what the stored spec can become through the webhooks.
\<close>

section \<open>Requests and answers\<close>

record 'o sign_request =
  sq_operation :: string
  sq_username :: string
  sq_groups :: "string list"
  sq_object :: "string option \<times> 'o"
  sq_old :: "(string option \<times> 'o) option"

datatype 'o sign_response =
    Passes
  | Denies string
  | Fails int string
  | Signs 'o string

record ('s, 'e) signer =
  sg_now :: "'s \<Rightarrow> go_time \<times> 's"
  sg_append :: "(audit_record \<Rightarrow> 's \<Rightarrow> ('e + audit_record) \<times> 's) option"

definition go_subset :: "string list \<Rightarrow> string list \<Rightarrow> bool" where
  "go_subset a b \<longleftrightarrow> (\<forall>x \<in> set a. x \<in> set b)"

section \<open>Exceptions\<close>

text \<open>The guards of the handler in its order: \<open>None\<close> passes, \<open>Some\<close> is the message of the refusal.\<close>

definition incomplete_exception :: "exception_spec \<Rightarrow> string option" where
  "incomplete_exception ex =
     (if trim_space (ex_reason ex) = []
      then Some ''spec.reason is required: an accepted risk has to say why it was accepted''
      else if ex_model ex = [] \<or> ex_version ex = []
      then Some ''spec.modelName and spec.modelVersion are required''
      else if ex_rules ex = [] \<and> ex_findings ex = []
      then Some ''an exception must waive something: set spec.rules or spec.findingIDs''
      else None)"

definition breaks_signature :: "exception_spec \<Rightarrow> exception_spec \<Rightarrow> string option" where
  "breaks_signature old ex =
     (if ex_approved_by ex \<noteq> ex_approved_by old
      then Some (''spec.approvedBy is the signature of '' @ quote (ex_approved_by old) @
             '' and cannot be reassigned; create a new exception instead'')
      else if \<not> go_subset (ex_rules ex) (ex_rules old) \<or> \<not> go_subset (ex_findings ex) (ex_findings old)
      then Some ''a signed exception cannot be widened; create a new exception so the approval is attributable''
      else if trim_space (ex_reason ex) \<noteq> trim_space (ex_reason old)
      then Some (''the reason on a signed exception cannot be rewritten; create a new exception so the '' @
             ''justification stays attributable to the approval that carries it'')
      else None)"

definition exception_refusal :: "exception_spec sign_request \<Rightarrow> string option" where
  "exception_refusal req =
     (let ex = snd (sq_object req) in
      case incomplete_exception ex of
        Some why \<Rightarrow> Some why
      | None \<Rightarrow>
          (case sq_old req of
             Some (None, old) \<Rightarrow>
               (if sq_operation req = ''UPDATE'' \<and> ex_approved_by old \<noteq> [] then breaks_signature old ex else None)
           | _ \<Rightarrow> None))"

definition sign_exception :: "go_time \<Rightarrow> exception_spec sign_request \<Rightarrow> exception_spec" where
  "sign_exception now req =
     (let ex = snd (sq_object req) in
      ex\<lparr>ex_approved_by := sq_username req, ex_approved_groups := sq_groups req,
         ex_approved_at := (if ex_approved_at ex = None \<or> sq_operation req = ''CREATE'' then Some now
                            else ex_approved_at ex)\<rparr>)"

definition record_exception ::
    "('s, 'e) signer \<Rightarrow> exception_spec sign_request \<Rightarrow> exception_spec \<Rightarrow> 's \<Rightarrow> 's" where
  "record_exception S req ex s =
     (case sg_append S of
        None \<Rightarrow> s
      | Some append_to \<Rightarrow>
          if sq_operation req \<noteq> ''CREATE'' then s
          else (case sg_now S s of (now, s1) \<Rightarrow>
                  snd (append_to (risk_accepted now (ex_model ex) (ex_version ex) (ex_approved_by ex)
                    (ex_reason ex) (ex_findings ex @ ex_rules ex) (ex_digest ex)) s1)))"

definition exception_handle ::
    "('s, 'e) signer \<Rightarrow> exception_spec sign_request \<Rightarrow> 's \<Rightarrow> exception_spec sign_response \<times> 's" where
  "exception_handle S req s =
     (if sq_operation req = ''DELETE'' then (Passes, s)
      else
        (case fst (sq_object req) of
           Some e \<Rightarrow> (Fails 400 (''decode exception: '' @ e), s)
         | None \<Rightarrow>
             (case exception_refusal req of
                Some why \<Rightarrow> (Denies why, s)
              | None \<Rightarrow>
                  (case sg_now S s of (now, s1) \<Rightarrow>
                     (let ex = snd (sq_object req); signed = sign_exception now req in
                      (Signs signed (''risk accepted for '' @ ex_model ex @ '' '' @ ex_version ex @ '' by '' @
                         sq_username req),
                       record_exception S req signed s1))))))"

section \<open>Promotion requests\<close>

definition no_promotion :: promotion_spec where
  "no_promotion = \<lparr>pq_model = [], pq_version = [], pq_target = [], pq_requestor = [], pq_justification = [],
     pq_decision = [], pq_decision_reason = [], pq_decided_by = [], pq_decided_groups = [], pq_decided_at = None\<rparr>"

definition or_unattributed_reviewer :: "string \<Rightarrow> string" where
  "or_unattributed_reviewer who = (if who = [] then ''an unattributed reviewer'' else who)"

text \<open>\<open>old\<close> as the handler leaves it, and \<open>hasOld\<close>.\<close>

definition old_promotion :: "promotion_spec sign_request \<Rightarrow> promotion_spec" where
  "old_promotion req =
     (case sq_old req of
        Some (err, old) \<Rightarrow> if sq_operation req = ''UPDATE'' then old else no_promotion
      | None \<Rightarrow> no_promotion)"

definition has_old :: "promotion_spec sign_request \<Rightarrow> bool" where
  "has_old req \<longleftrightarrow>
     (case sq_old req of Some (None, old) \<Rightarrow> sq_operation req = ''UPDATE'' | _ \<Rightarrow> False)"

definition promotion_refusal :: "promotion_spec sign_request \<Rightarrow> string option" where
  "promotion_refusal req =
     (let pr = snd (sq_object req); old = old_promotion req in
      if pq_model pr = [] \<or> pq_version pr = []
      then Some ''spec.modelName and spec.modelVersion are required''
      else if pq_target pr = [] then Some ''spec.targetEnvironment is required''
      else if pq_decision pr = decision_reject \<and> trim_space (pq_decision_reason pr) = []
      then Some (''spec.decisionReason is required to reject: a promotion '' @
             ''refused without a reason cannot be told from one nobody got to'')
      else if has_old req \<and> pq_decision old \<noteq> [] \<and> pq_decision pr \<noteq> pq_decision old
      then Some (''spec.decision is the signature of '' @ or_unattributed_reviewer (pq_decided_by old) @
             '' and cannot be changed; '' @ ''create a new promotion request instead'')
      else if has_old req \<and> pq_decision old \<noteq> [] \<and> pq_target pr \<noteq> pq_target old
      then Some (''spec.targetEnvironment cannot change once a decision is signed; '' @
             ''the approval was for a specific environment'')
      else None)"

definition sign_promotion :: "go_time \<Rightarrow> promotion_spec sign_request \<Rightarrow> promotion_spec" where
  "sign_promotion now req =
     (let old = old_promotion req;
          pr = (snd (sq_object req))\<lparr>pq_requestor :=
                  (if sq_operation req = ''CREATE'' then sq_username req else pq_requestor old)\<rparr>
      in if pq_decision pr = []
         then pr\<lparr>pq_decided_by := [], pq_decided_groups := [], pq_decided_at := None\<rparr>
         else if has_old req \<and> pq_decision old \<noteq> []
         then pr\<lparr>pq_decided_by := pq_decided_by old, pq_decided_groups := pq_decided_groups old,
                 pq_decided_at := pq_decided_at old\<rparr>
         else pr\<lparr>pq_decided_by := sq_username req, pq_decided_groups := sq_groups req,
                 pq_decided_at := Some now\<rparr>)"

definition promotion_message :: "promotion_spec \<Rightarrow> string" where
  "promotion_message pr =
     (let what = ''promotion of '' @ pq_model pr @ '' '' @ pq_version pr @ '' to '' @ pq_target pr in
      if pq_decision pr = []
      then what @ '' requested by '' @ or_unattributed_reviewer (pq_requestor pr)
      else what @ '' marked '' @ pq_decision pr @ '' by '' @ or_unattributed_reviewer (pq_decided_by pr))"

definition promotion_handle ::
    "('s, 'e) signer \<Rightarrow> promotion_spec sign_request \<Rightarrow> 's \<Rightarrow> promotion_spec sign_response \<times> 's" where
  "promotion_handle S req s =
     (if sq_operation req = ''DELETE'' then (Passes, s)
      else
        (case fst (sq_object req) of
           Some e \<Rightarrow> (Fails 400 (''decode promotion request: '' @ e), s)
         | None \<Rightarrow>
             (case promotion_refusal req of
                Some why \<Rightarrow> (Denies why, s)
              | None \<Rightarrow>
                  (case sg_now S s of (now, s1) \<Rightarrow>
                     (let signed = sign_promotion now req in (Signs signed (promotion_message signed), s1))))))"

section \<open>What is signed\<close>

lemma exception_signs_iff:
  "exception_handle S req s = (Signs ex msg, s') \<longleftrightarrow>
     sq_operation req \<noteq> ''DELETE'' \<and> fst (sq_object req) = None \<and> exception_refusal req = None \<and>
     ex = sign_exception (fst (sg_now S s)) req \<and>
     msg = ''risk accepted for '' @ ex_model (snd (sq_object req)) @ '' '' @ ex_version (snd (sq_object req)) @
       '' by '' @ sq_username req \<and>
     s' = record_exception S req ex (snd (sg_now S s))"
  by (auto simp: exception_handle_def Let_def split: option.splits prod.splits)

lemma promotion_signs_iff:
  "promotion_handle S req s = (Signs pr msg, s') \<longleftrightarrow>
     sq_operation req \<noteq> ''DELETE'' \<and> fst (sq_object req) = None \<and> promotion_refusal req = None \<and>
     pr = sign_promotion (fst (sg_now S s)) req \<and> msg = promotion_message pr \<and> s' = snd (sg_now S s)"
  by (auto simp: promotion_handle_def Let_def split: option.splits prod.splits)

text \<open>The fields a signature fills in; all others are the submitted ones.\<close>

lemma sign_exception_sel [simp]:
  "ex_approved_by (sign_exception now req) = sq_username req"
  "ex_approved_groups (sign_exception now req) = sq_groups req"
  "ex_model (sign_exception now req) = ex_model (snd (sq_object req))"
  "ex_version (sign_exception now req) = ex_version (snd (sq_object req))"
  "ex_rules (sign_exception now req) = ex_rules (snd (sq_object req))"
  "ex_findings (sign_exception now req) = ex_findings (snd (sq_object req))"
  "ex_reason (sign_exception now req) = ex_reason (snd (sq_object req))"
  "ex_digest (sign_exception now req) = ex_digest (snd (sq_object req))"
  "ex_expires (sign_exception now req) = ex_expires (snd (sq_object req))"
  by (simp_all add: sign_exception_def Let_def)

text \<open>What an update through the webhook can make of a stored exception, and of a promotion request.\<close>

inductive exception_update :: "('s, 'e) signer \<Rightarrow> exception_spec \<Rightarrow> exception_spec \<Rightarrow> bool" for S where
  "exception_handle S req s = (Signs new msg, s') \<Longrightarrow> sq_operation req = ''UPDATE'' \<Longrightarrow>
   sq_old req = Some (None, old) \<Longrightarrow> sq_username req \<noteq> [] \<Longrightarrow> exception_update S old new"

inductive promotion_update :: "('s, 'e) signer \<Rightarrow> promotion_spec \<Rightarrow> promotion_spec \<Rightarrow> bool" for S where
  "promotion_handle S req s = (Signs new msg, s') \<Longrightarrow> sq_operation req = ''UPDATE'' \<Longrightarrow>
   sq_old req = Some (None, old) \<Longrightarrow> promotion_update S old new"

inductive_cases exception_updateE: "exception_update S old new"
inductive_cases promotion_updateE: "promotion_update S old new"

section \<open>Exceptions: the signature and what it covers\<close>

text \<open>
  Claim C27. The identity on an exception is the authenticated one. Whatever was submitted, an
  exception the webhook lets through carries the user and groups of the request, a reason, a model
  and version, and something it waives; a new one carries the time of the signature, is recorded in
  the log exactly once, in the signer's name, and nothing else of what was submitted is changed.
\<close>

theorem exception_identity_is_authenticated:
  assumes "exception_handle S req s = (Signs ex msg, s')"
  shows "ex_approved_by ex = sq_username req \<and> ex_approved_groups ex = sq_groups req \<and>
    trim_space (ex_reason ex) \<noteq> [] \<and> ex_model ex \<noteq> [] \<and> ex_version ex \<noteq> [] \<and>
    (ex_rules ex \<noteq> [] \<or> ex_findings ex \<noteq> []) \<and> ex_approved_at ex \<noteq> None \<and>
    (sq_operation req = ''CREATE'' \<longrightarrow> ex_approved_at ex = Some (fst (sg_now S s)) \<and>
       (\<forall>app now s1. sg_append S = Some app \<longrightarrow> sg_now S (snd (sg_now S s)) = (now, s1) \<longrightarrow>
          (\<exists>ev. ar_actor ev = sq_username req \<and> ar_type ev = event_risk_accepted \<and>
             ar_subject ev = ex_model ex @ ''/'' @ ex_version ex \<and> s' = snd (app ev s1)))) \<and>
    ex\<lparr>ex_approved_by := ex_approved_by (snd (sq_object req)),
       ex_approved_groups := ex_approved_groups (snd (sq_object req)),
       ex_approved_at := ex_approved_at (snd (sq_object req))\<rparr> = snd (sq_object req)"
proof -
  have h: "exception_refusal req = None" "ex = sign_exception (fst (sg_now S s)) req"
    "s' = record_exception S req ex (snd (sg_now S s))"
    using assms by (simp_all add: exception_signs_iff)
  have c: "incomplete_exception (snd (sq_object req)) = None"
    using h(1) by (auto simp: exception_refusal_def Let_def split: option.splits)
  have v: "ex_version (snd (sq_object req)) \<noteq> []" using c by (auto simp: incomplete_exception_def split: if_splits)
  have "ar_actor ev = sq_username req \<and> ar_type ev = event_risk_accepted \<and>
      ar_subject ev = ex_model ex @ ''/'' @ ex_version ex"
    if "ev = risk_accepted now (ex_model ex) (ex_version ex) (ex_approved_by ex) (ex_reason ex)
        (ex_findings ex @ ex_rules ex) (ex_digest ex)" for ev now
    using that v by (simp add: risk_accepted_def Let_def h(2) subject_name_def)
  moreover have "sq_operation req = ''CREATE'' \<Longrightarrow> ex_approved_at ex = Some (fst (sg_now S s))"
    "ex_approved_at ex \<noteq> None"
    "ex\<lparr>ex_approved_by := ex_approved_by (snd (sq_object req)),
       ex_approved_groups := ex_approved_groups (snd (sq_object req)),
       ex_approved_at := ex_approved_at (snd (sq_object req))\<rparr> = snd (sq_object req)"
    by (simp_all add: h(2) sign_exception_def Let_def)
  ultimately show ?thesis
    using c by (auto simp: h(2,3) record_exception_def incomplete_exception_def split: if_splits)
qed

text \<open>What any number of updates keeps of a signed exception.\<close>

lemma exception_update_step:
  assumes "exception_update S old new" and "ex_approved_by old \<noteq> []"
  shows "ex_approved_by new \<noteq> [] \<and> set (ex_rules new) \<subseteq> set (ex_rules old) \<and>
    set (ex_findings new) \<subseteq> set (ex_findings old) \<and> trim_space (ex_reason new) = trim_space (ex_reason old)"
proof -
  obtain req s msg s' where 1: "exception_handle S req s = (Signs new msg, s')" "sq_operation req = ''UPDATE''"
    "sq_old req = Some (None, old)" "sq_username req \<noteq> []"
    using assms(1) by (blast elim: exception_updateE)
  then have "breaks_signature old (snd (sq_object req)) = None" and n: "new = sign_exception (fst (sg_now S s)) req"
    using assms(2) by (auto simp: exception_signs_iff exception_refusal_def Let_def split: option.splits)
  then show ?thesis using 1 by (auto simp: breaks_signature_def go_subset_def split: if_splits)
qed

text \<open>
  Claim C28. A signed exception never widens. However many updates the webhook lets through, by
  whatever users, a signed exception stays signed, waives only rules and findings it waived when it
  was signed, and keeps its reason up to surrounding white space.
\<close>

theorem signed_exception_never_widens:
  assumes "(exception_update S)\<^sup>*\<^sup>* old new" and "ex_approved_by old \<noteq> []"
  shows "ex_approved_by new \<noteq> [] \<and> set (ex_rules new) \<subseteq> set (ex_rules old) \<and>
    set (ex_findings new) \<subseteq> set (ex_findings old) \<and> trim_space (ex_reason new) = trim_space (ex_reason old)"
  using assms(1)
proof (induction rule: rtranclp_induct)
  case base
  then show ?case using assms(2) by simp
next
  case (step mid new)
  then show ?case using exception_update_step [OF step.hyps(2)] by auto
qed

text \<open>
  A signed exception can be moved. Any user may update a signed exception to cover another
  model, another version, another digest or another expiry: the webhook signs the result in that
  user's name, without touching the log, so the stored waiver names a model, and a signer, no record
  of the log accepted the risk for.
\<close>

theorem signed_exception_can_be_moved:
  assumes "ex_approved_by old \<noteq> []" and "incomplete_exception old = None"
    and "model \<noteq> []" and "version \<noteq> []"
  shows "exception_handle S
      \<lparr>sq_operation = ''UPDATE'', sq_username = user, sq_groups = groups,
       sq_object = (None, old\<lparr>ex_model := model, ex_version := version, ex_digest := digest, ex_expires := expiry\<rparr>),
       sq_old = Some (None, old)\<rparr> s =
    (Signs (old\<lparr>ex_model := model, ex_version := version, ex_digest := digest, ex_expires := expiry,
         ex_approved_by := user, ex_approved_groups := groups,
         ex_approved_at := (if ex_approved_at old = None then Some (fst (sg_now S s)) else ex_approved_at old)\<rparr>)
       (''risk accepted for '' @ model @ '' '' @ version @ '' by '' @ user),
     snd (sg_now S s))"
proof -
  have "record_exception S \<lparr>sq_operation = ''UPDATE'', sq_username = user, sq_groups = groups,
       sq_object = x, sq_old = y\<rparr> ex s1 = s1" for x y ex s1
    by (simp add: record_exception_def split: option.split)
  then show ?thesis
    using assms
    by (auto simp: exception_signs_iff exception_refusal_def incomplete_exception_def breaks_signature_def
        go_subset_def sign_exception_def Let_def split: if_splits)
qed

section \<open>Promotion requests: who asked and who decided\<close>

lemma sign_promotion_facts:
  "pq_model (sign_promotion now req) = pq_model (snd (sq_object req))"
  "pq_version (sign_promotion now req) = pq_version (snd (sq_object req))"
  "pq_target (sign_promotion now req) = pq_target (snd (sq_object req))"
  "pq_decision (sign_promotion now req) = pq_decision (snd (sq_object req))"
  "pq_decision_reason (sign_promotion now req) = pq_decision_reason (snd (sq_object req))"
  "pq_requestor (sign_promotion now req) =
     (if sq_operation req = ''CREATE'' then sq_username req else pq_requestor (old_promotion req))"
  by (simp_all add: sign_promotion_def Let_def)

text \<open>The signature block of a request: who decided, in which groups, when, what, and for where.\<close>

definition promotion_signature :: "promotion_spec \<Rightarrow> string \<times> string \<times> string \<times> string list \<times> go_time option" where
  "promotion_signature p =
     (pq_decision p, pq_target p, pq_decided_by p, pq_decided_groups p, pq_decided_at p)"

definition promotion_wf :: "promotion_spec \<Rightarrow> bool" where
  "promotion_wf p \<longleftrightarrow>
     pq_model p \<noteq> [] \<and> pq_version p \<noteq> [] \<and> pq_target p \<noteq> [] \<and>
     (pq_decision p = [] \<longrightarrow> pq_decided_by p = [] \<and> pq_decided_groups p = [] \<and> pq_decided_at p = None) \<and>
     (pq_decision p \<noteq> [] \<longrightarrow> pq_decided_at p \<noteq> None) \<and>
     (pq_decision p = decision_reject \<longrightarrow> trim_space (pq_decision_reason p) \<noteq> [])"

lemma promotion_update_step:
  assumes "promotion_update S old new" and "promotion_wf old"
  shows "promotion_wf new \<and> pq_requestor new = pq_requestor old \<and>
    (pq_decision old \<noteq> [] \<longrightarrow> promotion_signature new = promotion_signature old)"
proof -
  obtain req s msg s' where 1: "promotion_handle S req s = (Signs new msg, s')" "sq_operation req = ''UPDATE''"
    "sq_old req = Some (None, old)"
    using assms(1) by (blast elim: promotion_updateE)
  let ?pr = "snd (sq_object req)"
  have r: "promotion_refusal req = None" and n: "new = sign_promotion (fst (sg_now S s)) req"
    using 1(1) by (auto simp: promotion_signs_iff)
  have old: "old_promotion req = old" "has_old req" using 1 by (simp_all add: old_promotion_def has_old_def)
  have g: "pq_model ?pr \<noteq> []" "pq_version ?pr \<noteq> []" "pq_target ?pr \<noteq> []"
    "pq_decision ?pr = decision_reject \<Longrightarrow> trim_space (pq_decision_reason ?pr) \<noteq> []"
    "pq_decision old \<noteq> [] \<Longrightarrow> pq_decision ?pr = pq_decision old \<and> pq_target ?pr = pq_target old"
    using r old by (auto simp: promotion_refusal_def Let_def split: if_splits)
  show ?thesis
    using g assms(2) 1(2) unfolding n
    by (auto simp: promotion_wf_def promotion_signature_def sign_promotion_def old Let_def)
qed

text \<open>
  A promotion decision is a signature that stands. A request that was created through the
  webhook names its creator and is well formed: undecided requests carry no reviewer, decided ones a
  time, rejections a reason. Whatever updates follow, the requestor never changes, and once a decision
  is signed neither it, nor the target environment, nor who decided it, in which groups and when,
  ever changes.
\<close>

theorem promotion_signature_stands:
  assumes created: "promotion_handle S req s = (Signs p0 msg, s')" "sq_operation req = ''CREATE''"
    and updates: "(promotion_update S)\<^sup>*\<^sup>* p0 p" "(promotion_update S)\<^sup>*\<^sup>* p q"
  shows "promotion_wf q \<and> pq_requestor q = sq_username req \<and>
    (pq_decision p \<noteq> [] \<longrightarrow> promotion_signature q = promotion_signature p)"
proof -
  have n: "p0 = sign_promotion (fst (sg_now S s)) req" and r: "promotion_refusal req = None"
    using created(1) by (auto simp: promotion_signs_iff)
  have no: "\<not> has_old req" using created(2) by (auto simp: has_old_def split: option.splits)
  have p0: "promotion_wf p0" "pq_requestor p0 = sq_username req"
    using r created(2) no unfolding n
    by (auto simp: promotion_wf_def sign_promotion_def promotion_refusal_def Let_def split: if_splits)
  have run: "promotion_wf b \<and> pq_requestor b = pq_requestor a \<and>
      (pq_decision a \<noteq> [] \<longrightarrow> promotion_signature b = promotion_signature a)"
    if "(promotion_update S)\<^sup>*\<^sup>* a b" "promotion_wf a" for a b
    using that(1)
  proof (induction rule: rtranclp_induct)
    case base
    then show ?case using that(2) by simp
  next
    case (step b c)
    then show ?case using promotion_update_step [OF step.hyps(2)] by (auto simp: promotion_signature_def)
  qed
  show ?thesis using run [OF updates(1) p0(1)] run [OF updates(2)] p0(2) by auto
qed

text \<open>
  A signed decision can be moved to another model. An update may change the model and
  version of a decided request: the webhook keeps the decision and the reviewer's signature on it, so
  the request then states an approval of a version the reviewer never decided about.
\<close>

theorem signed_decision_can_be_moved:
  assumes "promotion_wf old" and "pq_decision old \<noteq> []" and "model \<noteq> []" and "version \<noteq> []"
  shows "promotion_update S old (old\<lparr>pq_model := model, pq_version := version\<rparr>)"
proof -
  define req where "req = \<lparr>sq_operation = ''UPDATE'', sq_username = [], sq_groups = [],
     sq_object = (None :: string option, old\<lparr>pq_model := model, pq_version := version\<rparr>),
     sq_old = Some (None :: string option, old)\<rparr>"
  have "promotion_refusal req = None"
    using assms by (auto simp: req_def promotion_refusal_def old_promotion_def has_old_def promotion_wf_def Let_def)
  moreover have "sign_promotion now req = old\<lparr>pq_model := model, pq_version := version\<rparr>" for now
    using assms(2) by (simp add: req_def sign_promotion_def old_promotion_def has_old_def Let_def)
  ultimately have "promotion_handle S req s = (Signs (old\<lparr>pq_model := model, pq_version := version\<rparr>)
      (promotion_message (old\<lparr>pq_model := model, pq_version := version\<rparr>)), snd (sg_now S s))" for s
    by (simp add: promotion_signs_iff req_def)
  then show ?thesis by (rule promotion_update.intros) (simp_all add: req_def)
qed

section \<open>Concrete requests\<close>

definition demo_signer :: "(audit_record list, unit) signer" where
  "demo_signer = \<lparr>sg_now = (\<lambda>s. (7, s)), sg_append = Some (\<lambda>ev s. (Inr ev, s @ [ev]))\<rparr>"

definition demo_exception :: exception_spec where
  "demo_exception = \<lparr>ex_model = ''fraud'', ex_version = ''1'', ex_findings = [''CVE-1'', ''CVE-2''], ex_rules = [],
     ex_reason = ''vendor fix pending'', ex_digest = [], ex_approved_by = ''ann'', ex_approved_groups = [],
     ex_approved_at = Some 3, ex_expires = None\<rparr>"

definition demo_sign :: "string \<Rightarrow> string \<Rightarrow> 'o \<Rightarrow> 'o option \<Rightarrow> 'o sign_request" where
  "demo_sign oper user x old =
     \<lparr>sq_operation = oper, sq_username = user, sq_groups = [''sec''], sq_object = (None, x),
      sq_old = map_option (Pair None) old\<rparr>"

definition demo_promotion :: promotion_spec where
  "demo_promotion = no_promotion\<lparr>pq_model := ''fraud'', pq_version := ''1'', pq_target := ''prod'',
     pq_requestor := ''mallory''\<rparr>"

lemma demo_exception_ok: "incomplete_exception demo_exception = None"
  by code_simp

lemma demo_exception_handled:
  "exception_handle demo_signer (demo_sign ''CREATE'' ''bob'' demo_exception None) [] =
     (Signs (demo_exception\<lparr>ex_approved_by := ''bob'', ex_approved_groups := [''sec''], ex_approved_at := Some 7\<rparr>)
        ''risk accepted for fraud 1 by bob'',
      [risk_accepted 7 ''fraud'' ''1'' ''bob'' ''vendor fix pending'' [''CVE-1'', ''CVE-2''] []])"
  "exception_handle demo_signer (demo_sign ''UPDATE'' ''bob'' (demo_exception\<lparr>ex_findings := [''CVE-2'']\<rparr>) (Some demo_exception)) [] =
     (Signs (demo_exception\<lparr>ex_findings := [''CVE-2''], ex_approved_by := ''bob'', ex_approved_groups := [''sec'']\<rparr>)
        ''risk accepted for fraud 1 by bob'', [])"
proof -
  have "incomplete_exception (demo_exception\<lparr>ex_findings := [''CVE-2'']\<rparr>) = None" by code_simp
  note ok = this demo_exception_ok
  show "exception_handle demo_signer (demo_sign ''CREATE'' ''bob'' demo_exception None) [] =
     (Signs (demo_exception\<lparr>ex_approved_by := ''bob'', ex_approved_groups := [''sec''], ex_approved_at := Some 7\<rparr>)
        ''risk accepted for fraud 1 by bob'',
      [risk_accepted 7 ''fraud'' ''1'' ''bob'' ''vendor fix pending'' [''CVE-1'', ''CVE-2''] []])"
    using ok(2) by (simp add: exception_signs_iff exception_refusal_def demo_sign_def sign_exception_def
        record_exception_def Let_def) (simp add: demo_signer_def demo_exception_def)
  show "exception_handle demo_signer (demo_sign ''UPDATE'' ''bob'' (demo_exception\<lparr>ex_findings := [''CVE-2'']\<rparr>) (Some demo_exception)) [] =
     (Signs (demo_exception\<lparr>ex_findings := [''CVE-2''], ex_approved_by := ''bob'', ex_approved_groups := [''sec'']\<rparr>)
        ''risk accepted for fraud 1 by bob'', [])"
    using ok(1) by (simp add: exception_signs_iff exception_refusal_def demo_sign_def sign_exception_def
        record_exception_def breaks_signature_def Let_def go_subset_def)
      (simp add: demo_signer_def demo_exception_def)
qed

theorem exception_identity_is_authenticated_witness:
  "\<exists>ex msg s'. exception_handle demo_signer (demo_sign ''CREATE'' ''bob'' demo_exception None) [] = (Signs ex msg, s') \<and>
     ex_approved_by ex = ''bob'' \<and> ex_approved_at ex = Some 7"
  using exception_identity_is_authenticated [OF demo_exception_handled(1)] demo_exception_handled(1)
  by (simp add: demo_sign_def)

lemma demo_narrowed:
  "(exception_update demo_signer)\<^sup>*\<^sup>* demo_exception
     (demo_exception\<lparr>ex_findings := [''CVE-2''], ex_approved_by := ''bob'', ex_approved_groups := [''sec'']\<rparr>)"
  by (rule r_into_rtranclp, rule exception_update.intros [OF demo_exception_handled(2)]) (simp_all add: demo_sign_def)

theorem signed_exception_never_widens_witness:
  "set (ex_findings (demo_exception\<lparr>ex_findings := [''CVE-2''], ex_approved_by := ''bob'', ex_approved_groups := [''sec'']\<rparr>))
     \<subseteq> set (ex_findings demo_exception)"
proof -
  have "ex_approved_by demo_exception \<noteq> []" by (simp add: demo_exception_def)
  from signed_exception_never_widens [OF demo_narrowed this] show ?thesis by blast
qed

theorem signed_exception_can_be_moved_witness:
  "\<exists>ex msg. exception_handle demo_signer
      (demo_sign ''UPDATE'' ''mallory''
        (demo_exception\<lparr>ex_model := ''other'', ex_version := ''9'', ex_digest := [], ex_expires := None\<rparr>)
        (Some demo_exception)) [] = (Signs ex msg, []) \<and>
     ex_model ex = ''other'' \<and> ex_approved_by ex = ''mallory''"
proof -
  have "ex_approved_by demo_exception \<noteq> []" by (simp add: demo_exception_def)
  from signed_exception_can_be_moved [OF this demo_exception_ok, of "''other''" "''9''" demo_signer "''mallory''" "[''sec'']"]
  show ?thesis by (simp add: demo_sign_def) (simp add: demo_signer_def)
qed

lemma demo_promotion_handled:
  "promotion_handle demo_signer (demo_sign ''CREATE'' ''ann'' demo_promotion None) [] =
     (Signs (demo_promotion\<lparr>pq_requestor := ''ann''\<rparr>) ''promotion of fraud 1 to prod requested by ann'', [])"
  "promotion_handle demo_signer (demo_sign ''UPDATE'' ''bob'' (demo_promotion\<lparr>pq_decision := decision_approve\<rparr>)
       (Some (demo_promotion\<lparr>pq_requestor := ''ann''\<rparr>))) [] =
     (Signs (demo_promotion\<lparr>pq_requestor := ''ann'', pq_decision := decision_approve, pq_decided_by := ''bob'',
        pq_decided_groups := [''sec''], pq_decided_at := Some 7\<rparr>) ''promotion of fraud 1 to prod marked Approve by bob'', [])"
  unfolding promotion_signs_iff by code_simp+

theorem promotion_signature_stands_witness:
  "promotion_wf (demo_promotion\<lparr>pq_requestor := ''ann'', pq_decision := decision_approve, pq_decided_by := ''bob'',
     pq_decided_groups := [''sec''], pq_decided_at := Some 7\<rparr>)"
proof -
  have "promotion_update demo_signer (demo_promotion\<lparr>pq_requestor := ''ann''\<rparr>)
     (demo_promotion\<lparr>pq_requestor := ''ann'', pq_decision := decision_approve, pq_decided_by := ''bob'',
     pq_decided_groups := [''sec''], pq_decided_at := Some 7\<rparr>)"
    by (rule promotion_update.intros [OF demo_promotion_handled(2)]) (simp_all add: demo_sign_def)
  then show ?thesis
    using promotion_signature_stands [OF demo_promotion_handled(1) _ rtranclp.rtrancl_refl r_into_rtranclp]
    by (simp add: demo_sign_def)
qed

theorem signed_decision_can_be_moved_witness:
  "promotion_update demo_signer (demo_promotion\<lparr>pq_decision := ''Approve'', pq_decided_at := Some 7\<rparr>)
     (demo_promotion\<lparr>pq_decision := ''Approve'', pq_decided_at := Some 7, pq_model := ''other'', pq_version := ''9''\<rparr>)"
proof -
  have "promotion_wf (demo_promotion\<lparr>pq_decision := ''Approve'', pq_decided_at := Some 7\<rparr>)"
    by (simp add: promotion_wf_def demo_promotion_def no_promotion_def decision_reject_def)
  from signed_decision_can_be_moved [OF this, of "''other''" "''9''"] show ?thesis by simp
qed

end
