(* ===== verification/Naming.thy ===== *)
theory Naming
  imports Cupel_Prelude
begin

text \<open>
  Object names from registry identifiers (\<open>internal/naming\<close>).  SHA-256 with hexadecimal output is the
  parameter \<open>D\<close>; the theorems take from it that it gives 64 lower-case hexadecimal digits and, for
  distinctness, that the inputs compared do not collide in the ten digits kept.
\<close>

type_synonym hex_digest = "string \<Rightarrow> string"

definition max_name_length :: nat where "max_name_length = 63"
definition hash_length :: nat where "hash_length = 10"

definition name_char :: "char \<Rightarrow> bool" where
  "name_char c \<longleftrightarrow> is_lower c \<or> is_digit c \<or> c = CHR ''-''"

section \<open>Sanitizing\<close>

text \<open>\<open>invalidChars.ReplaceAllString(s, "-")\<close>: every maximal run of other characters becomes one dash.\<close>

fun replace_invalid :: "bool \<Rightarrow> string \<Rightarrow> string" where
  "replace_invalid run [] = []"
| "replace_invalid run (c # s) =
     (if name_char c then c # replace_invalid False s
      else if run then replace_invalid True s
      else CHR ''-'' # replace_invalid True s)"

text \<open>The loop replaces \<open>--\<close> by \<open>-\<close> until there is none: one dash for every run of them.\<close>

fun replace_pairs :: "string \<Rightarrow> string" where
  "replace_pairs (a # b # s) =
     (if a = CHR ''-'' \<and> b = CHR ''-'' then CHR ''-'' # replace_pairs s else a # replace_pairs (b # s))"
| "replace_pairs s = s"

fun has_pair :: "string \<Rightarrow> bool" where
  "has_pair (a # b # s) \<longleftrightarrow> (a = CHR ''-'' \<and> b = CHR ''-'') \<or> has_pair (b # s)"
| "has_pair s \<longleftrightarrow> False"

lemma length_replace_pairs: "length (replace_pairs s) \<le> length s"
  by (induction s rule: replace_pairs.induct) auto

lemma length_replace_pairs_less: "has_pair s \<Longrightarrow> length (replace_pairs s) < length s"
proof (induction s rule: replace_pairs.induct)
  case (1 a b s)
  then show ?case using length_replace_pairs [of s] by (cases "a = CHR ''-'' \<and> b = CHR ''-''") auto
qed auto

function collapse :: "string \<Rightarrow> string" where
  "collapse s = (if has_pair s then collapse (replace_pairs s) else s)"
  by auto
termination
  by (relation "measure length") (auto simp: length_replace_pairs_less)

declare collapse.simps [simp del]

definition sanitize :: "string \<Rightarrow> string" where
  "sanitize value =
     (let cleaned = trim_if (\<lambda>c. c = CHR ''-'') (collapse (replace_invalid False (to_lower value)))
      in if cleaned = [] then ''unnamed'' else cleaned)"

definition truncate :: "string \<Rightarrow> string" where
  "truncate value =
     (if length value \<le> max_name_length then value
      else trim_if (\<lambda>c. c = CHR ''-'') (take max_name_length value))"

definition sanitize_label :: "string \<Rightarrow> string" where
  "sanitize_label value = truncate (sanitize value)"

section \<open>Names\<close>

definition fingerprint :: "hex_digest \<Rightarrow> string list \<Rightarrow> string" where
  "fingerprint D parts = take hash_length (D (str_join [CHR 0x00] parts))"

definition stable :: "hex_digest \<Rightarrow> string \<Rightarrow> string list \<Rightarrow> string" where
  "stable D pre parts =
     (let suffix = fingerprint D parts;
          readable = sanitize (pre @ ''-'' @ str_join ''-'' parts);
          budget = max_name_length - hash_length - 1;
          cut = trim_right_if (\<lambda>c. c = CHR ''-'') (if budget < length readable then take budget readable else readable)
      in if cut = [] then suffix else cut @ ''-'' @ suffix)"

definition legacy_stable :: "hex_digest \<Rightarrow> string \<Rightarrow> string list \<Rightarrow> string" where
  "legacy_stable D pre parts =
     (let readable = sanitize (pre @ ''-'' @ str_join ''-'' parts)
      in if length readable \<le> max_name_length then readable
         else
           (let suffix = fingerprint D parts; budget = max_name_length - hash_length - 1
            in if budget < 1 then suffix
               else trim_right_if (\<lambda>c. c = CHR ''-'')
                      (if budget < length readable then take budget readable else readable)
                    @ ''-'' @ suffix))"

definition model_report_name :: "hex_digest \<Rightarrow> string \<Rightarrow> string \<Rightarrow> string" where
  "model_report_name D model version = stable D ''msr'' [model, version]"

definition legacy_model_report :: "hex_digest \<Rightarrow> string \<Rightarrow> string \<Rightarrow> string" where
  "legacy_model_report D model version = legacy_stable D ''msr'' [model, version]"

definition scan_name :: "hex_digest \<Rightarrow> string \<Rightarrow> string \<Rightarrow> string \<Rightarrow> string" where
  "scan_name D model version artifact = stable D ''scan'' [model, version, artifact]"

definition scan_job :: "hex_digest \<Rightarrow> string \<Rightarrow> string \<Rightarrow> string" where
  "scan_job D scan scanner = stable D [] [scan, scanner]"

definition scan_report :: "hex_digest \<Rightarrow> string \<Rightarrow> string \<Rightarrow> string" where
  "scan_report D scan scanner = stable D [] [scan, scanner]"

section \<open>Names are DNS labels\<close>

definition edge_char :: "char \<Rightarrow> bool" where
  "edge_char c \<longleftrightarrow> is_lower c \<or> is_digit c"

definition dns_label :: "string \<Rightarrow> bool" where
  "dns_label s \<longleftrightarrow> s \<noteq> [] \<and> length s \<le> 63 \<and> (\<forall>c \<in> set s. name_char c) \<and>
     edge_char (hd s) \<and> edge_char (last s)"

lemma replace_invalid_chars: "c \<in> set (replace_invalid b s) \<Longrightarrow> name_char c"
  by (induction b s rule: replace_invalid.induct) (auto simp: name_char_def split: if_splits)

lemma replace_pairs_set: "set (replace_pairs s) \<subseteq> set s"
  by (induction s rule: replace_pairs.induct) auto

lemma collapse_set: "set (collapse s) \<subseteq> set s"
proof (induction s rule: collapse.induct)
  case (1 s)
  then show ?case using replace_pairs_set [of s] by (subst collapse.simps) auto
qed

lemma collapse_no_pair: "\<not> has_pair (collapse s)"
  by (induction s rule: collapse.induct) (subst collapse.simps, simp)

lemma trim_right_set: "set (trim_right_if p s) \<subseteq> set s"
  unfolding trim_right_if_def by (metis set_dropWhileD set_rev subsetI)

lemma trim_set: "set (trim_if p s) \<subseteq> set s"
  unfolding trim_if_def using trim_right_set by (metis set_dropWhileD subset_iff)

lemma trim_right_last: "trim_right_if p s \<noteq> [] \<Longrightarrow> \<not> p (last (trim_right_if p s))"
  unfolding trim_right_if_def by (metis hd_dropWhile last_rev rev.simps(1) rev_rev_ident)

lemma trim_right_prefix: "\<exists>t. s = trim_right_if p s @ t"
  unfolding trim_right_if_def by (metis rev_append rev_rev_ident takeWhile_dropWhile_id)

lemma trim_right_hd: "trim_right_if p s \<noteq> [] \<Longrightarrow> hd (trim_right_if p s) = hd s"
  using trim_right_prefix [of s p] by (metis hd_append2)

lemma trim_hd: "trim_if p s \<noteq> [] \<Longrightarrow> \<not> p (hd (trim_if p s))"
  unfolding trim_if_def using trim_right_hd trim_right_set
  by (metis hd_dropWhile list.set(1) subset_empty set_empty)

lemma trim_last: "trim_if p s \<noteq> [] \<Longrightarrow> \<not> p (last (trim_if p s))"
  unfolding trim_if_def by (rule trim_right_last)

lemma edge_name: "name_char c \<Longrightarrow> c \<noteq> CHR ''-'' \<Longrightarrow> edge_char c"
  by (simp add: name_char_def edge_char_def)

lemma unnamed_chars: "set ''unnamed'' \<subseteq> Collect name_char" "edge_char CHR ''u''" "edge_char CHR ''d''"
  by (simp_all add: name_char_def edge_char_def is_lower_def)

lemma sanitize_ok:
  "sanitize s \<noteq> []" "\<forall>c \<in> set (sanitize s). name_char c" "edge_char (hd (sanitize s))"
  "edge_char (last (sanitize s))"
proof -
  define x where "x = collapse (replace_invalid False (to_lower s))"
  have n: "\<forall>c \<in> set x. name_char c"
    using collapse_set replace_invalid_chars unfolding x_def by blast
  have s: "sanitize s = (if trim_if (\<lambda>c. c = CHR ''-'') x = [] then ''unnamed'' else trim_if (\<lambda>c. c = CHR ''-'') x)"
    by (simp add: sanitize_def x_def Let_def)
  have t: "\<forall>c \<in> set (trim_if (\<lambda>c. c = CHR ''-'') x). name_char c" using n trim_set by blast
  show "sanitize s \<noteq> []" unfolding s by simp
  show "\<forall>c \<in> set (sanitize s). name_char c" unfolding s using t unnamed_chars by auto
  show "edge_char (hd (sanitize s))" "edge_char (last (sanitize s))"
    unfolding s using t unnamed_chars trim_hd [of "\<lambda>c. c = CHR ''-''" x] trim_last [of "\<lambda>c. c = CHR ''-''" x]
    by (auto intro!: edge_name)
qed

definition hex_char :: "char \<Rightarrow> bool" where
  "hex_char c \<longleftrightarrow> is_digit c \<or> c \<in> set ''abcdef''"

definition hex_digest_ok :: "hex_digest \<Rightarrow> bool" where
  "hex_digest_ok D \<longleftrightarrow> (\<forall>x. length (D x) = 64 \<and> (\<forall>c \<in> set (D x). hex_char c))"

lemma hex_edge: "hex_char c \<Longrightarrow> edge_char c" "edge_char c \<Longrightarrow> name_char c"
  by (auto simp: hex_char_def edge_char_def name_char_def is_lower_def)

definition hex10 :: "string \<Rightarrow> bool" where
  "hex10 s \<longleftrightarrow> length s = 10 \<and> (\<forall>c \<in> set s. hex_char c)"

lemma fingerprint_hex10: "hex_digest_ok D \<Longrightarrow> hex10 (fingerprint D ps)"
  unfolding hex_digest_ok_def hex10_def fingerprint_def hash_length_def
  by (auto dest: in_set_takeD)

lemma stable_shape:
  "\<exists>cut. stable D pre ps = (if cut = [] then fingerprint D ps else cut @ ''-'' @ fingerprint D ps) \<and>
     length cut \<le> 52 \<and> (cut \<noteq> [] \<longrightarrow> (\<forall>c \<in> set cut. name_char c) \<and> edge_char (hd cut))"
proof -
  define r where "r = sanitize (pre @ ''-'' @ str_join ''-'' ps)"
  define t where "t = (if 52 < length r then take 52 r else r)"
  define cut where "cut = trim_right_if (\<lambda>c. c = CHR ''-'') t"
  have "stable D pre ps = (if cut = [] then fingerprint D ps else cut @ ''-'' @ fingerprint D ps)"
    by (simp add: stable_def Let_def cut_def t_def r_def max_name_length_def hash_length_def)
  moreover have "length cut \<le> length t" using trim_right_prefix [of t "\<lambda>c. c = CHR ''-''"]
    unfolding cut_def by (metis length_append le_add1)
  then have "length cut \<le> 52" by (simp add: t_def split: if_splits)
  moreover have "\<forall>c \<in> set cut. name_char c"
  proof -
    have "set cut \<subseteq> set t" unfolding cut_def by (rule trim_right_set)
    moreover have "set t \<subseteq> set r" by (auto simp: t_def dest: in_set_takeD)
    ultimately show ?thesis using sanitize_ok(2) unfolding r_def by blast
  qed
  moreover have "edge_char (hd cut)" if "cut \<noteq> []"
  proof -
    have "hd cut = hd t" using trim_right_hd that unfolding cut_def by blast
    also have "hd t = hd r" by (simp add: t_def hd_take)
    finally show ?thesis using sanitize_ok(3) by (simp add: r_def)
  qed
  ultimately show ?thesis by blast
qed

lemma stable_dns:
  assumes "hex10 (fingerprint D parts)"
  shows "dns_label (stable D pre parts)"
proof -
  have f: "length (fingerprint D parts) = 10" "\<forall>c \<in> set (fingerprint D parts). edge_char c"
    using assms hex_edge by (auto simp: hex10_def)
  then have ne: "fingerprint D parts \<noteq> []" by auto
  have ends: "edge_char (hd (fingerprint D parts))" "edge_char (last (fingerprint D parts))"
    "\<forall>c \<in> set (fingerprint D parts). name_char c"
    using f(2) ne hex_edge by auto
  obtain cut where cut: "stable D pre parts =
        (if cut = [] then fingerprint D parts else cut @ ''-'' @ fingerprint D parts)"
    "length cut \<le> 52" "cut \<noteq> [] \<longrightarrow> (\<forall>c \<in> set cut. name_char c) \<and> edge_char (hd cut)"
    using stable_shape by blast
  have "name_char CHR ''-''" by (simp add: name_char_def)
  then show ?thesis using cut f(1) ne ends by (cases "cut = []") (auto simp: dns_label_def)
qed

text \<open>
  Claim C40. Every derived name is accepted by Kubernetes. Whatever the registry's model, version or
  artifact is called, however long and with any characters, the name derived from it is a DNS-1123
  label: not empty, at most 63 characters of lower-case letters, digits and dashes, with a letter
  or digit at both ends.
\<close>

theorem stable_is_dns_label:
  assumes "hex_digest_ok D"
  shows "dns_label (stable D pre parts)"
  by (rule stable_dns [OF fingerprint_hex10 [OF assms]])

text \<open>A digest that tells one input from all others.\<close>

definition one_digest :: "string \<Rightarrow> hex_digest" where
  "one_digest a x = replicate 64 (if x = a then CHR ''0'' else CHR ''f'')"

lemma one_digest_ok: "hex_digest_ok (one_digest a)"
  by (auto simp: hex_digest_ok_def one_digest_def hex_char_def is_digit_def)

theorem stable_is_dns_label_witness:
  "dns_label (model_report_name (one_digest []) ''Acme/Fraud Model'' ''v1.0'')"
  unfolding model_report_name_def by (rule stable_is_dns_label [OF one_digest_ok])

section \<open>Names tell their inputs apart\<close>

lemma stable_suffix:
  assumes "length (fingerprint D ps) = 10"
  shows "drop (length (stable D pre ps) - 10) (stable D pre ps) = fingerprint D ps"
proof -
  obtain cut where "stable D pre ps = (if cut = [] then fingerprint D ps else cut @ ''-'' @ fingerprint D ps)"
    using stable_shape by blast
  then show ?thesis using assms by auto
qed

lemma join_inject:
  assumes "str_join [x] ps = str_join [x] qs" and "ps \<noteq> []" and "qs \<noteq> []"
    and "\<forall>p \<in> set ps. x \<notin> set p" and "\<forall>q \<in> set qs. x \<notin> set q"
  shows "ps = qs"
  using split_join_char [of ps x] split_join_char [of qs x] assms by metis

definition told_apart :: "hex_digest \<Rightarrow> string list \<Rightarrow> string list \<Rightarrow> bool" where
  "told_apart D ps qs \<longleftrightarrow>
     hex10 (fingerprint D ps) \<and> hex10 (fingerprint D qs) \<and>
     (\<forall>p \<in> set ps \<union> set qs. CHR 0x00 \<notin> set p) \<and>
     (str_join [CHR 0x00] ps \<noteq> str_join [CHR 0x00] qs \<longrightarrow> fingerprint D ps \<noteq> fingerprint D qs)"

lemma stable_inject:
  assumes "told_apart D ps qs" and "ps \<noteq> []" and "qs \<noteq> []" and "stable D pre ps = stable D pre' qs"
  shows "ps = qs"
proof -
  have l: "length (fingerprint D ps) = 10" "length (fingerprint D qs) = 10"
    using assms(1) by (simp_all add: told_apart_def hex10_def)
  have "fingerprint D ps = fingerprint D qs"
    using stable_suffix [OF l(1)] stable_suffix [OF l(2)] assms(4) by metis
  then have "str_join [CHR 0x00] ps = str_join [CHR 0x00] qs"
    using assms(1) by (auto simp: told_apart_def)
  then show ?thesis using join_inject assms(1-3) unfolding told_apart_def by blast
qed

text \<open>
  Two inputs never share a name, unless ten hexadecimal digits of their hashes collide. The
  prefix does not matter, and neither does how the readable part was flattened or cut: equal names
  come from equal parts, if the parts hold no NUL byte, the separator the fingerprint joins with.
\<close>

theorem stable_distinct:
  assumes "hex_digest_ok D"
    and "stable D pre ps = stable D pre' qs"
    and "ps \<noteq> []" and "qs \<noteq> []"
    and "\<forall>p \<in> set ps \<union> set qs. CHR 0x00 \<notin> set p"
    and "inj_on (\<lambda>x. take hash_length (D x)) {str_join [CHR 0x00] ps, str_join [CHR 0x00] qs}"
  shows "ps = qs"
proof (rule stable_inject [OF _ assms(3,4,2)])
  show "told_apart D ps qs"
    using assms(5,6) fingerprint_hex10 [OF assms(1)]
    by (auto simp: told_apart_def fingerprint_def inj_on_def)
qed

text \<open>Two models that flatten to the same readable name have different reports.\<close>

theorem stable_distinct_witness:
  "let D = one_digest (str_join [CHR 0x00] [''acme/fraud'', ''1''])
   in model_report_name D ''acme/fraud'' ''1'' \<noteq> model_report_name D ''acme.fraud'' ''1''
      \<and> sanitize ''acme/fraud'' = sanitize ''acme.fraud''"
proof -
  define D where "D = one_digest (str_join [CHR 0x00] [''acme/fraud'', ''1''])"
  have d: "inj_on (\<lambda>x. take hash_length (D x))
      {str_join [CHR 0x00] [''acme/fraud'', ''1''], str_join [CHR 0x00] [''acme.fraud'', ''1'']}"
    by (simp add: D_def one_digest_def hash_length_def)
  have "sanitize ''acme/fraud'' = sanitize ''acme.fraud''" by code_simp
  moreover have "stable D ''msr'' [''acme/fraud'', ''1''] \<noteq> stable D ''msr'' [''acme.fraud'', ''1'']"
  proof
    assume e: "stable D ''msr'' [''acme/fraud'', ''1''] = stable D ''msr'' [''acme.fraud'', ''1'']"
    have "hex_digest_ok D" unfolding D_def by (rule one_digest_ok)
    from stable_distinct [OF this e _ _ _ d] show False by simp
  qed
  ultimately show ?thesis unfolding Let_def D_def [symmetric] model_report_name_def by blast
qed

text \<open>
  Names from before the fingerprint did collide: two inputs that sanitize alike have the
  same legacy name whenever it fits in a label, which is why a reader that finds an object by its
  legacy name has to compare the model and version the object itself states.
\<close>

theorem legacy_names_collide:
  assumes "sanitize (pre @ ''-'' @ str_join ''-'' ps) = sanitize (pre @ ''-'' @ str_join ''-'' qs)"
    and "length (sanitize (pre @ ''-'' @ str_join ''-'' ps)) \<le> 63"
  shows "legacy_stable D pre ps = legacy_stable D pre qs"
  using assms by (simp add: legacy_stable_def Let_def max_name_length_def)

theorem legacy_names_collide_witness:
  "legacy_model_report (one_digest []) ''acme/fraud'' ''1'' = legacy_model_report (one_digest []) ''acme'' ''fraud-1''"
  unfolding legacy_model_report_def by (rule legacy_names_collide) code_simp+

section \<open>The interface the readers of reports use\<close>

text \<open>
  What the operator, the runner and the gate share: a name for each model version, which Kubernetes
  accepts when the digest is \<open>sound\<close> on that version, and which tells two versions apart that the
  digest tells \<open>apart\<close>.
\<close>

locale report_naming =
  fixes name :: "string \<Rightarrow> string \<Rightarrow> string"
    and sound :: "string \<Rightarrow> string \<Rightarrow> bool"
    and apart :: "string \<times> string \<Rightarrow> string \<times> string \<Rightarrow> bool"
  assumes name_valid: "sound m v \<Longrightarrow> dns_label (name m v)"
    and name_distinct: "apart (m, v) (m', v') \<Longrightarrow> name m v = name m' v' \<Longrightarrow> m = m' \<and> v = v'"
begin

lemma name_length: "sound m v \<Longrightarrow> length (name m v) \<le> 63"
  using name_valid by (simp add: dns_label_def)

text \<open>A report stored under its name is the one found under the name.\<close>

lemma lookup_by_name:
  assumes "\<forall>k \<in> set keys. apart k (m, v)" and "(m, v) \<in> set keys"
  shows "map_of (map (\<lambda>(m, v). (name m v, f m v)) keys) (name m v) = Some (f m v)"
  using assms
proof (induction keys)
  case (Cons k keys)
  obtain a b where k: "k = (a, b)" by (cases k)
  show ?case
  proof (cases "name a b = name m v")
    case True
    then show ?thesis using Cons.prems(1) k name_distinct [of a b m v] by auto
  next
    case False
    then have "(m, v) \<in> set keys" using Cons.prems(2) k by auto
    then show ?thesis using Cons False k by simp
  qed
qed simp

end

interpretation msr: report_naming "model_report_name D" "\<lambda>m v. hex10 (fingerprint D [m, v])"
    "\<lambda>(m, v) (m', v'). told_apart D [m, v] [m', v']" for D
proof
  show "hex10 (fingerprint D [m, v]) \<Longrightarrow> dns_label (model_report_name D m v)" for m v
    unfolding model_report_name_def by (rule stable_dns)
  show "(case (m, v) of (m, v) \<Rightarrow> \<lambda>(m', v'). told_apart D [m, v] [m', v']) (m', v') \<Longrightarrow>
      model_report_name D m v = model_report_name D m' v' \<Longrightarrow> m = m' \<and> v = v'" for m v m' v'
    unfolding model_report_name_def using stable_inject [of D "[m, v]" "[m', v']"] by simp
qed

section \<open>Labels\<close>

lemma truncate_ok:
  assumes "s \<noteq> []" "\<forall>c \<in> set s. name_char c" "edge_char (hd s)" "edge_char (last s)"
  shows "dns_label (truncate s)"
proof (cases "length s \<le> 63")
  case True
  then show ?thesis using assms by (simp add: truncate_def max_name_length_def dns_label_def)
next
  case False
  define t where "t = take 63 s"
  define u where "u = trim_if (\<lambda>c. c = CHR ''-'') t"
  have tr: "truncate s = u" using False by (simp add: truncate_def max_name_length_def u_def t_def)
  have t: "t \<noteq> []" "hd t = hd s" "set t \<subseteq> set s" "length t \<le> 63"
    using assms(1) by (auto simp: t_def dest: in_set_takeD)
  have "hd t \<noteq> CHR ''-''" using assms(3) t(2) by (auto simp: edge_char_def is_lower_def is_digit_def)
  then have d: "dropWhile (\<lambda>c. c = CHR ''-'') t = t" using t(1) by (cases t) auto
  have u: "u = trim_right_if (\<lambda>c. c = CHR ''-'') t" by (simp add: u_def trim_if_def d)
  have ne: "u \<noteq> []"
  proof
    assume "u = []"
    then have "\<forall>c \<in> set t. c = CHR ''-''" by (simp add: u trim_right_if_def)
    then show False using \<open>hd t \<noteq> CHR ''-''\<close> t(1) by auto
  qed
  have set_u: "set u \<subseteq> set s" using trim_right_set t(3) unfolding u by blast
  obtain w where "t = u @ w" using trim_right_prefix unfolding u by blast
  then have "length u \<le> 63" using t(4) by auto
  moreover have "edge_char (hd u)" using trim_right_hd ne t(2) assms(3) unfolding u by metis
  moreover have "edge_char (last u)"
  proof (rule edge_name)
    show "name_char (last u)" using last_in_set [OF ne] set_u assms(2) by blast
    show "last u \<noteq> CHR ''-''" using trim_right_last ne unfolding u by blast
  qed
  ultimately show ?thesis unfolding tr dns_label_def using ne set_u assms(2) by blast
qed

text \<open>Every label value made from a registry's string is a valid one.\<close>

theorem sanitize_label_valid: "dns_label (sanitize_label s)"
  unfolding sanitize_label_def by (rule truncate_ok) (rule sanitize_ok)+

end
