(* ===== verification/Controller_Names.thy ===== *)
theory Controller_Names
  imports Naming Go_Time Kube
begin

text \<open>
  The names the controllers look objects up under (\<open>internal/controller/names.go\<close>, \<open>bom.go\<close>), shared with the
  admission gate: the current name first, then the name from before names carried a fingerprint.
\<close>

section \<open>What a reconcile returns\<close>

text \<open>\<open>ctrl.Result\<close> and the error: nothing to do, come back, come back later, or an error.\<close>

datatype 'e reconciled = Done | Requeue | RequeueAfter duration | Failing 'e

definition ignore_not_found :: "kerr \<Rightarrow> kerr reconciled" where
  "ignore_not_found e = (if e = NotFound then Done else Failing e)"

section \<open>Names\<close>

definition model_report_names :: "hex_digest \<Rightarrow> string \<Rightarrow> string \<Rightarrow> string list" where
  "model_report_names D model version =
     (let current = model_report_name D model version; legacy = legacy_model_report D model version
      in if legacy = current then [current] else [current, legacy])"

definition scan_job_names :: "hex_digest \<Rightarrow> string \<Rightarrow> string \<Rightarrow> string list" where
  "scan_job_names D scan scanner =
     (let current = scan_job D scan scanner; legacy = legacy_stable D [] [scan, scanner]
      in if legacy = current then [current] else [current, legacy])"

text \<open>\<open>BOMConfigMapName\<close>: one name for the documents of all scanners of a scan.\<close>

definition bom_config_name :: "hex_digest \<Rightarrow> string \<Rightarrow> string" where
  "bom_config_name D scan = stable D ''bom'' [scan]"

lemma model_report_names_Cons: "\<exists>ns. model_report_names D m v = model_report_name D m v # ns"
  by (simp add: model_report_names_def Let_def)

end
