(* ===== verification/Promotion.thy ===== *)
theory Promotion
  imports Controller_Names Cupel_Types Audit_Events Kube
begin

text \<open>
  The promotion controller (\<open>internal/controller/promotion_controller.go\<close>): it derives the status of
  a promotion request from the stored verdict and the signed decision, adds the target environment to
  the report of an approved model, and records what was decided.  A status update replaces the status
  of the object that was read; it fails if the object changed since.  Logging is not modelled.
\<close>

section \<open>The controller\<close>

record ('s, 'e) promoter =
  pt_requests :: "('s, promotion_request) kclient"
  pt_reports :: "('s, model_report) kclient"
  pt_append :: "(audit_record \<Rightarrow> 's \<Rightarrow> ('e + audit_record) \<times> 's) option"
  pt_now :: "'s \<Rightarrow> go_time \<times> 's"
  pt_digest :: hex_digest

section \<open>The security report\<close>

definition about_request :: "promotion_spec \<Rightarrow> model_report \<Rightarrow> bool" where
  "about_request p report \<longleftrightarrow>
     \<not> (rs_model (mr_spec report) \<noteq> [] \<and> rs_model (mr_spec report) \<noteq> pq_model p) \<and>
     \<not> (rs_version (mr_spec report) \<noteq> [] \<and> pq_version p \<noteq> [] \<and> rs_version (mr_spec report) \<noteq> pq_version p)"

text \<open>A found report comes with the key and the version it was read under, for the update.\<close>

fun find_security_report ::
    "('s, model_report) kclient \<Rightarrow> okey list \<Rightarrow> promotion_spec \<Rightarrow> 's
       \<Rightarrow> (kerr + (okey \<times> model_report \<times> nat) option) \<times> 's"
where
  "find_security_report c [] p s = (Inr None, s)"
| "find_security_report c (k # ks) p s =
     (case k_get c k s of
        (Inl e, s1) \<Rightarrow> (if e = NotFound then find_security_report c ks p s1 else (Inl e, s1))
      | (Inr x, s1) \<Rightarrow>
          (if about_request p (fst x) then (Inr (Some (k, x)), s1) else find_security_report c ks p s1))"

definition security_report ::
    "('s, 'e) promoter \<Rightarrow> string \<Rightarrow> promotion_spec \<Rightarrow> 's \<Rightarrow> (kerr + (okey \<times> model_report \<times> nat) option) \<times> 's" where
  "security_report P ns p s =
     find_security_report (pt_reports P)
       (map (Pair ns) (model_report_names (pt_digest P) (pq_model p) (pq_version p))) p s"

section \<open>The next status\<close>

definition is_terminal :: "string \<Rightarrow> bool" where
  "is_terminal phase \<longleftrightarrow> phase = promotion_approved \<or> phase = promotion_rejected"

definition or_unattributed :: "string \<Rightarrow> string" where
  "or_unattributed who = (if who = [] then ''an unattributed reviewer'' else who)"

definition or_unknown_verdict :: "string \<Rightarrow> string" where
  "or_unknown_verdict v = (if v = [] then ''not yet decided'' else v)"

definition decline_message :: "promotion_spec \<Rightarrow> string" where
  "decline_message p =
     (if pq_decision_reason p \<noteq> []
      then ''declined by '' @ or_unattributed (pq_decided_by p) @ '': '' @ pq_decision_reason p
      else ''declined by '' @ or_unattributed (pq_decided_by p))"

definition verdict_of :: "model_report option \<Rightarrow> string" where
  "verdict_of r = (case r of None \<Rightarrow> [] | Some report \<Rightarrow> rt_verdict (mr_status report))"

definition verdict_time_of :: "model_report option \<Rightarrow> go_time option" where
  "verdict_time_of r = (case r of None \<Rightarrow> None | Some report \<Rightarrow> rt_last_scan (mr_status report))"

definition next_status :: "promotion_spec \<Rightarrow> model_report option \<Rightarrow> promotion_status \<Rightarrow> promotion_status" where
  "next_status p r st =
     (let next = st\<lparr>ps_verdict := verdict_of r, ps_observed := verdict_time_of r\<rparr> in
      if r = None
      then next\<lparr>ps_phase := promotion_blocked,
             ps_message := ''model '' @ quote (pq_model p) @ '' version '' @ quote (pq_version p) @
               '' has no security report; nothing has scanned it, '' @
               ''so there is no verdict to promote against''\<rparr>
      else if verdict_of r \<noteq> verdict_approved
      then next\<lparr>ps_phase := promotion_blocked,
             ps_message := ''the security verdict for '' @ pq_model p @ '' '' @ pq_version p @ '' is '' @
               quote (or_unknown_verdict (verdict_of r)) @ ''; a promotion cannot override a verdict''\<rparr>
      else if pq_decision p = decision_reject
      then next\<lparr>ps_phase := promotion_rejected, ps_reviewed_by := pq_decided_by p,
             ps_review_time := pq_decided_at p, ps_message := decline_message p\<rparr>
      else if pq_decision p = decision_approve
      then next\<lparr>ps_phase := promotion_approved, ps_reviewed_by := pq_decided_by p,
             ps_review_time := pq_decided_at p,
             ps_message := ''promoted to '' @ pq_target p @ '' by '' @ or_unattributed (pq_decided_by p)\<rparr>
      else next\<lparr>ps_phase := promotion_pending,
             ps_message := ''the security verdict is Approved; set spec.decision to Approve or Reject to promote '' @
               pq_version p @ '' to '' @ pq_target p\<rparr>)"

definition status_unchanged :: "promotion_status \<Rightarrow> promotion_status \<Rightarrow> bool" where
  "status_unchanged a b \<longleftrightarrow>
     ps_phase a = ps_phase b \<and> ps_message a = ps_message b \<and> ps_verdict a = ps_verdict b \<and>
     ps_reviewed_by a = ps_reviewed_by b \<and> ps_review_time a = ps_review_time b \<and>
     ps_observed a = ps_observed b"

section \<open>The environment and the record\<close>

definition add_environment :: "string \<Rightarrow> model_report \<Rightarrow> model_report" where
  "add_environment env report =
     report\<lparr>mr_status := (mr_status report)\<lparr>rt_environments := sort (rt_environments (mr_status report) @ [env])\<rparr>\<rparr>"

definition apply_environment ::
    "('s, 'e) promoter \<Rightarrow> okey \<times> model_report \<times> nat \<Rightarrow> string \<Rightarrow> 's \<Rightarrow> kerr option \<times> 's" where
  "apply_environment P found env s =
     (case found of (k, report, rv) \<Rightarrow>
        if env \<in> set (rt_environments (mr_status report)) then (None, s)
        else k_update (pt_reports P) k (add_environment env report, rv) s)"

definition promotion_event :: "go_time \<Rightarrow> promotion_request \<Rightarrow> audit_record" where
  "promotion_event now pr =
     (let p = pm_spec pr; st = pm_status pr;
          rec = promotion_decision now (pq_model p) (pq_version p) (pq_target p) (ps_phase st)
                  (pq_decided_by p) (ps_verdict st) (ps_message st);
          d = ar_detail rec;
          d = (if pq_requestor p \<noteq> [] then sm_put ''requestor'' (pq_requestor p) d else d);
          d = (if pq_justification p \<noteq> [] then sm_put ''justification'' (pq_justification p) d else d)
      in rec\<lparr>ar_detail := d\<rparr>)"

definition record_promotion :: "('s, 'e) promoter \<Rightarrow> promotion_request \<Rightarrow> 's \<Rightarrow> 's" where
  "record_promotion P pr s =
     (case pt_append P of
        None \<Rightarrow> s
      | Some append_to \<Rightarrow> (case pt_now P s of (now, s1) \<Rightarrow> snd (append_to (promotion_event now pr) s1)))"

section \<open>Reconciling\<close>

definition store_status ::
    "('s, 'e) promoter \<Rightarrow> okey \<Rightarrow> promotion_request \<Rightarrow> nat \<Rightarrow> promotion_status \<Rightarrow> 's \<Rightarrow> kerr reconciled \<times> 's" where
  "store_status P key pr rv next s =
     (if status_unchanged (pm_status pr) next then (Done, s)
      else
        (let pr' = pr\<lparr>pm_status := next\<rparr> in
         case k_update (pt_requests P) key (pr', rv) s of
           (Some e, s1) \<Rightarrow> (Failing e, s1)
         | (None, s1) \<Rightarrow>
             (Done, if is_terminal (ps_phase next) \<and> \<not> is_terminal (ps_phase (pm_status pr))
                    then record_promotion P pr' s1 else s1)))"

text \<open>The part of a reconcile that may write a report: from the found report to the state after it.\<close>

definition apply_stage ::
    "('s, 'e) promoter \<Rightarrow> promotion_spec \<Rightarrow> promotion_status \<Rightarrow> (okey \<times> model_report \<times> nat) option \<Rightarrow> 's
       \<Rightarrow> kerr option \<times> 's"
where
  "apply_stage P p st found s =
     (case found of
        Some x \<Rightarrow> if ps_phase (next_status p (map_option (\<lambda>x. fst (snd x)) found) st) = promotion_approved
                  then apply_environment P x (pq_target p) s else (None, s)
      | None \<Rightarrow> (None, s))"

definition promotion_reconcile :: "('s, 'e) promoter \<Rightarrow> okey \<Rightarrow> 's \<Rightarrow> kerr reconciled \<times> 's" where
  "promotion_reconcile P key s =
     (case k_get (pt_requests P) key s of
        (Inl e, s1) \<Rightarrow> (ignore_not_found e, s1)
      | (Inr (pr, rv), s1) \<Rightarrow>
          (if is_terminal (ps_phase (pm_status pr)) then (Done, s1)
           else
             (case security_report P (fst key) (pm_spec pr) s1 of
                (Inl e, s2) \<Rightarrow> (Failing e, s2)
              | (Inr found, s2) \<Rightarrow>
                  (case apply_stage P (pm_spec pr) (pm_status pr) found s2 of
                     (Some e, s3) \<Rightarrow> (Failing e, s3)
                   | (None, s3) \<Rightarrow> store_status P key pr rv
                       (next_status (pm_spec pr) (map_option (\<lambda>x. fst (snd x)) found) (pm_status pr)) s3))))"

section \<open>The phase\<close>

lemma next_status_phase:
  "ps_phase (next_status p r st) =
     (if r = None \<or> verdict_of r \<noteq> verdict_approved then promotion_blocked
      else if pq_decision p = decision_reject then promotion_rejected
      else if pq_decision p = decision_approve then promotion_approved
      else promotion_pending)"
  by (simp add: next_status_def Let_def)

lemma next_status_terminal:
  "is_terminal (ps_phase (next_status p r st)) \<longleftrightarrow>
     verdict_of r = verdict_approved \<and> pq_decision p \<in> {decision_approve, decision_reject}"
  by (auto simp: next_status_phase is_terminal_def promotion_defs verdict_of_def verdict_defs split: option.splits)

lemma next_status_approved:
  "ps_phase (next_status p r st) = promotion_approved \<longleftrightarrow>
     verdict_of r = verdict_approved \<and> pq_decision p = decision_approve"
  by (auto simp: next_status_phase promotion_defs verdict_of_def verdict_defs split: option.splits)

lemma next_status_again:
  "\<not> is_terminal (ps_phase (next_status p r st)) \<Longrightarrow>
     status_unchanged (next_status p r st) (next_status p r (next_status p r st))"
  by (auto simp: next_status_def status_unchanged_def Let_def is_terminal_def promotion_defs)

section \<open>What the controller may do to the cluster\<close>

text \<open>
  The two writes: an environment added to the stored report of an approved model, on the strength of
  a signed approval, and a status set on a request that was not decided yet, by the rule.
\<close>

definition adds_environment ::
    "('s \<Rightarrow> model_report view) \<Rightarrow> ('s \<Rightarrow> promotion_request view) \<Rightarrow> promotion_spec \<Rightarrow> 's \<Rightarrow> 's \<Rightarrow> bool" where
  "adds_environment vr vp p t t' \<longleftrightarrow>
     (\<exists>k report rv rv'. vr t k = Some (report, rv) \<and> rt_verdict (mr_status report) = verdict_approved \<and>
        about_request p report \<and> pq_decision p = decision_approve \<and>
        vr t' = (vr t)(k \<mapsto> (add_environment (pq_target p) report, rv')) \<and> vp t' = vp t)"

definition sets_status ::
    "('s \<Rightarrow> model_report view) \<Rightarrow> ('s \<Rightarrow> promotion_request view) \<Rightarrow> okey \<Rightarrow> promotion_request \<Rightarrow> 's \<Rightarrow> 's \<Rightarrow> bool"
where
  "sets_status vr vp key pr t t' \<longleftrightarrow>
     (\<exists>rv rv' r. vp t key = Some (pr, rv) \<and> \<not> is_terminal (ps_phase (pm_status pr)) \<and>
        (\<forall>report. r = Some report \<longrightarrow> about_request (pm_spec pr) report) \<and>
        vp t' = (vp t)(key \<mapsto> (pr\<lparr>pm_status := next_status (pm_spec pr) r (pm_status pr)\<rparr>, rv')) \<and> vr t' = vr t)"

text \<open>
  The cluster: \<open>env\<close> is what others do between two calls, \<open>fr\<close> and \<open>fp\<close> what else a write to a report
  and to a request may change, \<open>hist\<close> everything that can happen, over which a resource version
  names one state of an object.
\<close>

definition promotion_world ::
    "('s \<Rightarrow> model_report view) \<Rightarrow> ('s \<Rightarrow> promotion_request view) \<Rightarrow> ('s \<Rightarrow> 's \<Rightarrow> bool) \<Rightarrow> ('s \<Rightarrow> 's \<Rightarrow> bool)
       \<Rightarrow> ('s \<Rightarrow> 's \<Rightarrow> bool) \<Rightarrow> ('s \<Rightarrow> 's \<Rightarrow> bool) \<Rightarrow> ('s, 'e) promoter \<Rightarrow> bool"
where
  "promotion_world vr vp env hist fr fp P \<longleftrightarrow>
     kclient_ok vr fr env (pt_reports P) \<and> kclient_ok vp fp env (pt_requests P) \<and>
     version_law vr hist \<and> version_law vp hist \<and> env \<le> hist \<and> fr \<le> hist \<and> fp \<le> hist \<and> transp hist \<and> reflp hist \<and>
     (\<forall>t t'. fr t t' \<longrightarrow> vp t' = vp t) \<and> (\<forall>t t'. fp t t' \<longrightarrow> vr t' = vr t) \<and>
     (\<forall>s. env s (snd (pt_now P s))) \<and>
     (\<forall>append_to ev s. pt_append P = Some append_to \<longrightarrow> env s (snd (append_to ev s)))"

lemma promotion_worldD:
  assumes "promotion_world vr vp env hist fr fp P"
  shows "kclient_ok vr fr env (pt_reports P)" "kclient_ok vp fp env (pt_requests P)"
    "version_law vr hist" "version_law vp hist" "env \<le> hist" "fr \<le> hist" "fp \<le> hist" "transp hist" "reflp hist"
    "\<And>t t'. fr t t' \<Longrightarrow> vp t' = vp t" "\<And>t t'. fp t t' \<Longrightarrow> vr t' = vr t"
    "\<And>s. env s (snd (pt_now P s))"
    "\<And>append_to ev s. pt_append P = Some append_to \<Longrightarrow> env s (snd (append_to ev s))"
  using assms unfolding promotion_world_def by blast+

lemma find_security_report_found:
  assumes ok: "kclient_ok vr fr env c"
    and "find_security_report c ks p s = (r, s')"
  shows "env\<^sup>*\<^sup>* s s' \<and> (\<forall>k x. r = Inr (Some (k, x)) \<longrightarrow> about_request p (fst x) \<and>
           (\<exists>t. env\<^sup>*\<^sup>* s t \<and> vr t k = Some x \<and> env\<^sup>*\<^sup>* t s'))"
  using assms(2)
proof (induction ks arbitrary: s)
  case Nil
  then show ?case by auto
next
  case (Cons k ks)
  obtain g s1 where g: "k_get c k s = (g, s1)" by force
  have e: "env s s1" using get_cases(1) [OF ok g] .
  show ?case
  proof (cases "\<exists>x. g = Inr x \<and> about_request p (fst x)")
    case True
    then obtain x where x: "g = Inr x" "about_request p (fst x)" by blast
    have "vr s1 k = Some x" using get_cases(2) [OF ok g x(1)] .
    then show ?thesis using Cons.prems g x e by auto
  next
    case False
    show ?thesis
    proof (cases "\<exists>err. g = Inl err \<and> err \<noteq> NotFound")
      case True
      then show ?thesis using Cons.prems g e by auto
    next
      case False': False
      have "find_security_report c ks p s1 = (r, s')"
        using Cons.prems g False False' by (auto split: sum.splits if_splits)
      from Cons.IH [OF this] e show ?thesis by (blast intro: converse_rtranclp_into_rtranclp)
    qed
  qed
qed

text \<open>One step of the cluster while the controller runs: others act, nothing happens, or one of the writes.\<close>

definition promotion_step ::
    "('s \<Rightarrow> model_report view) \<Rightarrow> ('s \<Rightarrow> promotion_request view) \<Rightarrow> ('s \<Rightarrow> 's \<Rightarrow> bool) \<Rightarrow> okey \<Rightarrow> promotion_request
       \<Rightarrow> 's \<Rightarrow> 's \<Rightarrow> bool"
where
  "promotion_step vr vp env key pr a b \<longleftrightarrow>
     env a b \<or> vr b = vr a \<and> vp b = vp a \<or> adds_environment vr vp (pm_spec pr) a b \<or> sets_status vr vp key pr a b"

lemma env_steps: "env\<^sup>*\<^sup>* a b \<Longrightarrow> (promotion_step vr vp env key pr)\<^sup>*\<^sup>* a b"
  by (erule rtranclp_mono [THEN predicate2D, rotated]) (auto simp: promotion_step_def)

lemma record_promotion_env:
  assumes "promotion_world vr vp env hist fr fp P"
  shows "env\<^sup>*\<^sup>* s (record_promotion P pr s)"
proof (cases "pt_append P")
  case None
  then show ?thesis by (simp add: record_promotion_def)
next
  case (Some append_to)
  obtain now s1 where n: "pt_now P s = (now, s1)" by force
  then have "env s s1" using promotion_worldD(12) [OF assms, of s] by simp
  moreover have "env s1 (snd (append_to (promotion_event now pr) s1))"
    using promotion_worldD(13) [OF assms Some] .
  ultimately show ?thesis by (simp add: record_promotion_def Some n)
qed

lemma apply_environment_steps:
  assumes w: "promotion_world vr vp env hist fr fp P"
    and a: "apply_environment P (k, report, rv) (pq_target p) s = (r, s')"
    and found: "about_request p report" "hist t0 s" "vr t0 k = Some (report, rv)"
    and approved: "rt_verdict (mr_status report) = verdict_approved" "pq_decision p = decision_approve"
    and pr: "p = pm_spec pr"
  shows "(promotion_step vr vp env key pr)\<^sup>*\<^sup>* s s'"
proof (cases "pq_target p \<in> set (rt_environments (mr_status report))")
  case True
  then show ?thesis using a by (simp add: apply_environment_def)
next
  case False
  note d = promotion_worldD [OF w]
  have u: "k_update (pt_reports P) k (add_environment (pq_target p) report, rv) s = (r, s')"
    using a False by (simp add: apply_environment_def)
  obtain t where t: "env s t" "fr t s'"
    and c: "vr s' = vr t \<or> vr t k = Some (report, rv) \<and>
      (\<exists>rv'. vr s' = (vr t)(k \<mapsto> (add_environment (pq_target p) report, rv')))"
    using update_writes [OF d(1) u d(3,5,8) found(2,3)] by blast
  have "promotion_step vr vp env key pr t s'"
    using c d(10) [OF t(2)] found(1) approved
    unfolding promotion_step_def adds_environment_def pr by blast
  moreover have "promotion_step vr vp env key pr s t" using t(1) by (simp add: promotion_step_def)
  ultimately show ?thesis by simp
qed

lemma store_status_steps:
  assumes w: "promotion_world vr vp env hist fr fp P"
    and a: "store_status P key pr rv (next_status (pm_spec pr) r (pm_status pr)) s = (res, s')"
    and read: "hist t0 s" "vp t0 key = Some (pr, rv)" "\<not> is_terminal (ps_phase (pm_status pr))"
    and r: "\<forall>report. r = Some report \<longrightarrow> about_request (pm_spec pr) report"
  shows "(promotion_step vr vp env key pr)\<^sup>*\<^sup>* s s'"
proof (cases "status_unchanged (pm_status pr) (next_status (pm_spec pr) r (pm_status pr))")
  case True
  then show ?thesis using a by (simp add: store_status_def)
next
  case False
  let ?pr' = "pr\<lparr>pm_status := next_status (pm_spec pr) r (pm_status pr)\<rparr>"
  note d = promotion_worldD [OF w]
  obtain e s1 where u: "k_update (pt_requests P) key (?pr', rv) s = (e, s1)" by force
  obtain t where t: "env s t" "fp t s1"
    and c: "vp s1 = vp t \<or> vp t key = Some (pr, rv) \<and> (\<exists>rv'. vp s1 = (vp t)(key \<mapsto> (?pr', rv')))"
    using update_writes [OF d(2) u d(4,5,8) read(1,2)] by blast
  have "promotion_step vr vp env key pr t s1"
    using c d(11) [OF t(2)] read(3) r unfolding promotion_step_def sets_status_def by blast
  moreover have "promotion_step vr vp env key pr s t" using t(1) by (simp add: promotion_step_def)
  ultimately have s1: "(promotion_step vr vp env key pr)\<^sup>*\<^sup>* s s1" by simp
  have "s' = s1 \<or> s' = record_promotion P ?pr' s1"
    using a False u by (auto simp: store_status_def Let_def split: option.splits if_splits)
  moreover have "(promotion_step vr vp env key pr)\<^sup>*\<^sup>* s1 (record_promotion P ?pr' s1)"
    by (rule env_steps [OF record_promotion_env [OF w]])
  ultimately show ?thesis using s1 by (metis rtranclp_trans)
qed

lemma apply_stage_steps:
  assumes w: "promotion_world vr vp env hist fr fp P"
    and a: "apply_stage P (pm_spec pr) (pm_status pr) found s = (ae, s')"
    and found: "\<And>k report v. found = Some (k, report, v) \<Longrightarrow> about_request (pm_spec pr) report \<and>
        (\<exists>t. hist t s \<and> vr t k = Some (report, v))"
  shows "(promotion_step vr vp env key pr)\<^sup>*\<^sup>* s s' \<and> hist s s'"
proof (cases "s' = s")
  case True
  then show ?thesis using promotion_worldD(9) [OF w] by (simp add: reflpD)
next
  case False
  note d = promotion_worldD [OF w]
  obtain k report v where k: "found = Some (k, report, v)"
    and ph: "ps_phase (next_status (pm_spec pr) (Some report) (pm_status pr)) = promotion_approved"
    and ap: "apply_environment P (k, report, v) (pq_target (pm_spec pr)) s = (ae, s')"
    using a False by (auto simp: apply_stage_def split: option.splits prod.splits if_splits)
  have ok: "rt_verdict (mr_status report) = verdict_approved" "pq_decision (pm_spec pr) = decision_approve"
    using ph by (auto simp: next_status_approved verdict_of_def)
  have "k_update (pt_reports P) k (add_environment (pq_target (pm_spec pr)) report, v) s = (ae, s')"
    using ap False by (auto simp: apply_environment_def split: if_splits)
  then obtain u where u: "env s u" "fr u s'" by (rule update_cases [OF d(1)]) blast+
  then have "hist s u" "hist u s'" using d(5,6) by blast+
  then have "hist s s'" using d(8) by (blast dest: transpD)
  moreover obtain t where "hist t s" "vr t k = Some (report, v)" "about_request (pm_spec pr) report"
    using found [OF k] by blast
  ultimately show ?thesis using apply_environment_steps [OF w ap _ _ _ ok refl] by blast
qed

lemma promotion_reconcile_open:
  assumes "k_get (pt_requests P) key s = (Inr (pr, rv), s1)" and "\<not> is_terminal (ps_phase (pm_status pr))"
  shows "promotion_reconcile P key s =
    (case security_report P (fst key) (pm_spec pr) s1 of
       (Inl e, s2) \<Rightarrow> (Failing e, s2)
     | (Inr found, s2) \<Rightarrow>
         (case apply_stage P (pm_spec pr) (pm_status pr) found s2 of
            (Some e, s3) \<Rightarrow> (Failing e, s3)
          | (None, s3) \<Rightarrow> store_status P key pr rv
              (next_status (pm_spec pr) (map_option (\<lambda>x. fst (snd x)) found) (pm_status pr)) s3))"
  using assms by (simp add: promotion_reconcile_def)

lemma promotion_open_steps:
  assumes w: "promotion_world vr vp env hist fr fp P"
    and g: "k_get (pt_requests P) key s = (Inr (pr, rv), s1)" and nt: "\<not> is_terminal (ps_phase (pm_status pr))"
    and run: "promotion_reconcile P key s = (res, s')"
  shows "(promotion_step vr vp env key pr)\<^sup>*\<^sup>* s1 s'"
proof -
  note d = promotion_worldD [OF w]
  note run' = run [unfolded promotion_reconcile_open [OF g nt]]
  have read: "vp s1 key = Some (pr, rv)" using get_cases(2) [OF d(2) g] by blast
  have hist_env: "hist a b" if "env\<^sup>*\<^sup>* a b" for a b using rtranclp_le [OF that d(5,8,9)] .
  obtain f s2 where f: "security_report P (fst key) (pm_spec pr) s1 = (f, s2)" by force
  note found = find_security_report_found [OF d(1) f [unfolded security_report_def]]
  note f2 = found [THEN conjunct1]
  have s2: "(promotion_step vr vp env key pr)\<^sup>*\<^sup>* s1 s2" "hist s1 s2"
    by (rule env_steps [OF f2], rule hist_env [OF f2])
  show ?thesis
  proof (cases f)
    case (Inl e)
    then show ?thesis using run' f s2 by simp
  next
    case (Inr o_found)
    obtain ae s3 where ae: "apply_stage P (pm_spec pr) (pm_status pr) o_found s2 = (ae, s3)" by force
    have o_found: "about_request (pm_spec pr) report \<and> (\<exists>t. hist t s2 \<and> vr t k = Some (report, v))"
      if "o_found = Some (k, report, v)" for k report v
      using found Inr that hist_env by fastforce
    note s3 = apply_stage_steps [OF w ae o_found, of key, THEN conjunct1]
      apply_stage_steps [OF w ae o_found, of key, THEN conjunct2]
    have h: "hist s1 s3" by (rule transpD [OF d(8) s2(2) s3(2)])
    have about: "\<forall>report. map_option (\<lambda>x. fst (snd x)) o_found = Some report \<longrightarrow> about_request (pm_spec pr) report"
      using o_found by auto
    have "(promotion_step vr vp env key pr)\<^sup>*\<^sup>* s3 s'"
    proof (cases ae)
      case (Some e)
      then show ?thesis using run' f Inr ae by simp
    next
      case None
      then have st: "store_status P key pr rv
          (next_status (pm_spec pr) (map_option (\<lambda>x. fst (snd x)) o_found) (pm_status pr)) s3 = (res, s')"
        using run' f Inr ae by simp
      show ?thesis by (rule store_status_steps [OF w st h read nt about])
    qed
    then show ?thesis using s2(1) s3(1) by (meson rtranclp_trans)
  qed
qed


section \<open>Settling\<close>

text \<open>A cluster where nobody else touches reports or requests, and the report a lookup in it finds.\<close>

definition quiet :: "('s \<Rightarrow> model_report view) \<Rightarrow> ('s \<Rightarrow> promotion_request view) \<Rightarrow> 's \<Rightarrow> 's \<Rightarrow> bool" where
  "quiet vr vp a b \<longleftrightarrow> vr b = vr a \<and> vp b = vp a"

fun view_find :: "model_report view \<Rightarrow> okey list \<Rightarrow> promotion_spec \<Rightarrow> (okey \<times> model_report \<times> nat) option" where
  "view_find vw [] p = None"
| "view_find vw (k # ks) p =
     (case vw k of
        Some x \<Rightarrow> if about_request p (fst x) then Some (k, x) else view_find vw ks p
      | None \<Rightarrow> view_find vw ks p)"

definition stored_report :: "('s, 'e) promoter \<Rightarrow> model_report view \<Rightarrow> string \<Rightarrow> promotion_spec \<Rightarrow> model_report option" where
  "stored_report P vw ns p =
     map_option (\<lambda>x. fst (snd x))
       (view_find vw (map (Pair ns) (model_report_names (pt_digest P) (pq_model p) (pq_version p))) p)"

lemma find_security_report_view:
  assumes ok: "kclient_ok vr fr env c" and calm: "env \<le> quiet vr vp"
    and "find_security_report c ks p s = (Inr found, s')"
  shows "found = view_find (vr s) ks p \<and> quiet vr vp s s'"
  using assms(3)
proof (induction ks arbitrary: s)
  case Nil
  then show ?case by (simp add: quiet_def)
next
  case (Cons k ks)
  obtain g s1 where g: "k_get c k s = (g, s1)" by force
  have q: "vr s1 = vr s" "vp s1 = vp s" using get_cases(1) [OF ok g] calm by (auto simp: quiet_def)
  show ?case
  proof (cases g)
    case (Inl e)
    then have "e = NotFound" and r: "find_security_report c ks p s1 = (Inr found, s')"
      using Cons.prems g by (auto split: if_splits)
    then have "vr s k = None" using get_cases(3) [OF ok g] Inl q by simp
    then show ?thesis using Cons.IH [OF r] q by (simp add: quiet_def)
  next
    case (Inr x)
    then have "vr s k = Some x" using get_cases(2) [OF ok g Inr] q by simp
    moreover have "about_request p (fst x) \<or> find_security_report c ks p s1 = (Inr found, s')"
      using Cons.prems g Inr by (auto split: if_splits)
    ultimately show ?thesis using Cons.IH [of s1] Cons.prems g Inr q by (auto simp: quiet_def)
  qed
qed

lemma calm_steps: "env\<^sup>*\<^sup>* a b \<Longrightarrow> env \<le> quiet vr vp \<Longrightarrow> quiet vr vp a b"
  by (induction rule: rtranclp_induct) (auto simp: quiet_def dest: predicate2D)

lemma quiet_record:
  assumes w: "promotion_world vr vp env hist fr fp P" and calm: "env \<le> quiet vr vp"
  shows "quiet vr vp s (record_promotion P pr s)"
proof -
  show ?thesis using calm_steps [OF record_promotion_env [OF w] calm] .
qed

text \<open>What a request that is read while still open becomes, when every call succeeds.\<close>

lemma promotion_open_done:
  assumes w: "promotion_world vr vp env hist fr fp P" and calm: "env \<le> quiet vr vp"
    and open1: "vp s key = Some (pr, rv)" "\<not> is_terminal (ps_phase (pm_status pr))"
    and run: "promotion_reconcile P key s = (Done, s')"
  shows "let nxt = next_status (pm_spec pr) (stored_report P (vr s) (fst key) (pm_spec pr)) (pm_status pr) in
    (if status_unchanged (pm_status pr) nxt then quiet vr vp s s'
     else (\<exists>rv'. vp s' = (vp s)(key \<mapsto> (pr\<lparr>pm_status := nxt\<rparr>, rv'))) \<and>
       (ps_phase nxt \<noteq> promotion_approved \<longrightarrow> vr s' = vr s))"
proof -
  note d = promotion_worldD [OF w]
  obtain g s1 where g: "k_get (pt_requests P) key s = (g, s1)" by force
  have q1: "vr s1 = vr s" "vp s1 = vp s" using get_cases(1) [OF d(2) g] calm by (auto simp: quiet_def)
  have gx: "g = Inr (pr, rv)"
  proof (cases g)
    case (Inl e)
    then have "e = NotFound" using run g by (auto simp: promotion_reconcile_def ignore_not_found_def split: if_splits)
    then show ?thesis using get_cases(3) [OF d(2) g] Inl q1 open1 by simp
  next
    case (Inr x)
    then show ?thesis using get_cases(2) [OF d(2) g Inr] q1 open1 by simp
  qed
  note run' = run [unfolded promotion_reconcile_open [OF g [unfolded gx] open1(2)]]
  obtain f0 s2 where f0: "security_report P (fst key) (pm_spec pr) s1 = (f0, s2)" by force
  obtain found where f: "security_report P (fst key) (pm_spec pr) s1 = (Inr found, s2)"
    using run' f0 by (cases f0) auto
  note fv = find_security_report_view [OF d(1) calm f [unfolded security_report_def]]
  have q2: "vr s2 = vr s" "vp s2 = vp s" using fv q1 by (simp_all add: quiet_def)
  have rep: "map_option (\<lambda>x. fst (snd x)) found = stored_report P (vr s) (fst key) (pm_spec pr)"
    using fv q1 by (simp add: stored_report_def)
  define nxt where "nxt = next_status (pm_spec pr) (stored_report P (vr s) (fst key) (pm_spec pr)) (pm_status pr)"
  obtain s3 where a: "apply_stage P (pm_spec pr) (pm_status pr) found s2 = (None, s3)"
    and st: "store_status P key pr rv nxt s3 = (Done, s')"
    using run' f rep by (auto simp: nxt_def split: option.splits prod.splits)
  have q3: "vp s3 = vp s" "ps_phase nxt \<noteq> promotion_approved \<Longrightarrow> s3 = s2"
  proof -
    show "ps_phase nxt \<noteq> promotion_approved \<Longrightarrow> s3 = s2"
      using a rep by (auto simp: apply_stage_def nxt_def split: option.splits prod.splits if_splits)
    have "vp s3 = vp s2"
    proof (cases "s3 = s2")
      case False
      then obtain k x where "k_update (pt_reports P) k x s2 = (None, s3)"
        using a by (auto simp: apply_stage_def apply_environment_def split: option.splits prod.splits if_splits)
      then obtain t where "env s2 t" "fr t s3" by (cases x) (blast elim: update_cases [OF d(1)])
      then show ?thesis using d(10) calm by (auto simp: quiet_def)
    qed simp
    then show "vp s3 = vp s" using q2 by simp
  qed
  show ?thesis
  proof (cases "status_unchanged (pm_status pr) nxt")
    case True
    then have "ps_phase nxt \<noteq> promotion_approved" using open1(2) by (auto simp: status_unchanged_def is_terminal_def)
    then show ?thesis using True st q2 q3 by (simp add: nxt_def [symmetric] store_status_def quiet_def Let_def)
  next
    case False
    obtain s4 where u: "k_update (pt_requests P) key (pr\<lparr>pm_status := nxt\<rparr>, rv) s3 = (None, s4)"
      and s': "s' = s4 \<or> s' = record_promotion P (pr\<lparr>pm_status := nxt\<rparr>) s4"
      using st False by (auto simp: store_status_def Let_def split: option.splits prod.splits if_splits)
    have s'4: "vr s' = vr s4" "vp s' = vp s4" using s' quiet_record [OF w calm] by (auto simp: quiet_def)
    obtain t rv' where "env s3 t" "fp t s4" "vp s4 = (vp t)(key \<mapsto> (pr\<lparr>pm_status := nxt\<rparr>, rv'))"
      using u by (rule update_cases [OF d(2)]) auto
    then have "vp s4 = (vp s)(key \<mapsto> (pr\<lparr>pm_status := nxt\<rparr>, rv'))" "vr s4 = vr s3"
      using d(11) q3(1) calm by (auto simp: quiet_def)
    then show ?thesis using False s'4 q2 q3 by (auto simp: nxt_def [symmetric] Let_def)
  qed
qed

lemma promotion_read_quiet:
  assumes w: "promotion_world vr vp env hist fr fp P" and calm: "env \<le> quiet vr vp"
    and "\<forall>pr rv. vp s key = Some (pr, rv) \<longrightarrow> is_terminal (ps_phase (pm_status pr))"
  shows "quiet vr vp s (snd (promotion_reconcile P key s))"
proof -
  note d = promotion_worldD [OF w]
  obtain g s1 where g: "k_get (pt_requests P) key s = (g, s1)" by force
  have q: "quiet vr vp s s1" using get_cases(1) [OF d(2) g] calm by blast
  then have "\<forall>pr rv. g = Inr (pr, rv) \<longrightarrow> is_terminal (ps_phase (pm_status pr))"
    using get_cases(2) [OF d(2) g] assms(3) by (simp add: quiet_def)
  then show ?thesis using q g by (auto simp: promotion_reconcile_def split: sum.splits)
qed

lemma promotion_settled_quiet:
  assumes w: "promotion_world vr vp env hist fr fp P" and calm: "env \<le> quiet vr vp"
    and open1: "vp s key = Some (pr, rv)" "\<not> is_terminal (ps_phase (pm_status pr))"
    and same: "status_unchanged (pm_status pr)
      (next_status (pm_spec pr) (stored_report P (vr s) (fst key) (pm_spec pr)) (pm_status pr))"
  shows "quiet vr vp s (snd (promotion_reconcile P key s))"
proof -
  note d = promotion_worldD [OF w]
  obtain g s1 where g: "k_get (pt_requests P) key s = (g, s1)" by force
  have q1: "quiet vr vp s s1" using get_cases(1) [OF d(2) g] calm by blast
  show ?thesis
  proof (cases g)
    case (Inl e)
    then show ?thesis using g q1 by (simp add: promotion_reconcile_def)
  next
    case (Inr x)
    then have x: "x = (pr, rv)" using get_cases(2) [OF d(2) g Inr] q1 open1 by (simp add: quiet_def)
    note run = promotion_reconcile_open [OF g [unfolded Inr x] open1(2)]
    obtain f s2 where f: "security_report P (fst key) (pm_spec pr) s1 = (f, s2)" by force
    have q2: "quiet vr vp s1 s2"
      using calm_steps [OF find_security_report_found [OF d(1) f [unfolded security_report_def], THEN conjunct1] calm] .
    show ?thesis
    proof (cases f)
      case (Inl e)
      then show ?thesis using run f q1 q2 by (simp add: quiet_def)
    next
      case (Inr found)
      have rep: "map_option (\<lambda>x. fst (snd x)) found = stored_report P (vr s) (fst key) (pm_spec pr)"
        using find_security_report_view [OF d(1) calm f [unfolded security_report_def Inr]] q1
        by (simp add: stored_report_def quiet_def)
      have "ps_phase (next_status (pm_spec pr) (map_option (\<lambda>x. fst (snd x)) found) (pm_status pr)) \<noteq> promotion_approved"
        using same open1(2) unfolding rep by (auto simp: status_unchanged_def is_terminal_def)
      then have "apply_stage P (pm_spec pr) (pm_status pr) found s2 = (None, s2)"
        by (auto simp: apply_stage_def split: option.split)
      then show ?thesis using run f Inr same rep q1 q2 by (simp add: store_status_def quiet_def)
    qed
  qed
qed


section \<open>A cluster in memory\<close>

record promotion_store =
  pw_reports :: "model_report rev_store"
  pw_requests :: "promotion_request rev_store"
  pw_log :: "audit_record list"

definition demo_promoter :: "(promotion_store, unit) promoter" where
  "demo_promoter =
     \<lparr>pt_requests = rev_client pw_requests (\<lambda>m. pw_requests_update (\<lambda>_. m)),
      pt_reports = rev_client pw_reports (\<lambda>m. pw_reports_update (\<lambda>_. m)),
      pt_append = Some (\<lambda>ev w. (Inr ev, w\<lparr>pw_log := pw_log w @ [ev]\<rparr>)), pt_now = (\<lambda>w. (9, w)),
      pt_digest = one_digest []\<rparr>"

definition log_only :: "promotion_store \<Rightarrow> promotion_store \<Rightarrow> bool" where
  "log_only a b \<longleftrightarrow> pw_reports b = pw_reports a \<and> pw_requests b = pw_requests a"

definition store_history :: "promotion_store \<Rightarrow> promotion_store \<Rightarrow> bool" where
  "store_history a b \<longleftrightarrow> vs_le (pw_reports a) (pw_reports b) \<and> vs_le (pw_requests a) (pw_requests b)"

abbreviation demo_vr :: "promotion_store \<Rightarrow> model_report view" where
  "demo_vr \<equiv> (\<lambda>w. vs_view (pw_reports w))"

abbreviation demo_vp :: "promotion_store \<Rightarrow> promotion_request view" where
  "demo_vp \<equiv> (\<lambda>w. vs_view (pw_requests w))"

abbreviation demo_fr :: "promotion_store \<Rightarrow> promotion_store \<Rightarrow> bool" where
  "demo_fr \<equiv> (\<lambda>a b. vs_le (pw_reports a) (pw_reports b) \<and> pw_requests b = pw_requests a)"

abbreviation demo_fp :: "promotion_store \<Rightarrow> promotion_store \<Rightarrow> bool" where
  "demo_fp \<equiv> (\<lambda>a b. vs_le (pw_requests a) (pw_requests b) \<and> pw_reports b = pw_reports a)"

lemma demo_promotion_world:
  "promotion_world demo_vr demo_vp log_only store_history demo_fr demo_fp demo_promoter"
proof -
  have r: "reflp log_only" by (simp add: reflp_def log_only_def)
  have v: "version_law demo_vr log_only" "version_law demo_vp log_only"
    by (auto simp: version_law_def log_only_def)
  have k: "kclient_ok demo_vr demo_fr log_only (pt_reports demo_promoter)"
    unfolding demo_promoter_def promoter.simps by (rule rev_client_ok) (use r v in auto)
  have k': "kclient_ok demo_vp demo_fp log_only (pt_requests demo_promoter)"
    unfolding demo_promoter_def promoter.simps by (rule rev_client_ok) (use r v in auto)
  have h: "version_law demo_vr store_history" "version_law demo_vp store_history"
    by (auto simp: version_law_def store_history_def dest: vs_le_version)
  have t: "transp store_history" by (auto intro!: transpI simp: store_history_def intro: vs_le_trans)
  show ?thesis
    unfolding promotion_world_def
    by (intro conjI k k' h t allI impI predicate2I)
      (auto simp: store_history_def log_only_def demo_promoter_def reflp_def)
qed

lemma demo_calm: "log_only \<le> quiet demo_vr demo_vp"
  by (auto simp: log_only_def quiet_def)

definition demo_meta :: "string \<Rightarrow> object_meta" where
  "demo_meta n = \<lparr>om_name = n, om_namespace = ''team'', om_uid = [], om_labels = [],
        om_annotations = [], om_owner = None, om_created = 0, om_deleted = None\<rparr>"

definition demo_report :: model_report where
  "demo_report =
     \<lparr>mr_meta = demo_meta ''r'',
      mr_spec = \<lparr>rs_model = ''fraud'', rs_version = ''1'',
        rs_artifact = \<lparr>ar_uri = [], ar_digest = [], ar_media_type = [], ar_format = [], ar_size = None\<rparr>,
        rs_scan_ref = ''scan''\<rparr>,
      mr_status = \<lparr>rt_verdict = verdict_approved, rt_risk = 0, rt_malware = [], rt_secrets = [],
        rt_cves = no_counts, rt_unexamined = no_counts, rt_sbom_ref = [], rt_aibom_ref = [],
        rt_signature_verified = False, rt_scanners = [], rt_last_scan = Some 5, rt_environments = [''stage'']\<rparr>\<rparr>"

definition demo_asked :: promotion_request where
  "demo_asked =
     \<lparr>pm_meta = demo_meta ''p'',
      pm_spec = \<lparr>pq_model = ''fraud'', pq_version = ''1'', pq_target = ''prod'', pq_requestor = ''ann'',
        pq_justification = [], pq_decision = decision_approve, pq_decision_reason = [], pq_decided_by = ''bob'',
        pq_decided_groups = [], pq_decided_at = Some 3\<rparr>,
      pm_status = \<lparr>ps_phase = promotion_pending, ps_verdict = [], ps_observed = None, ps_reviewed_by = [],
        ps_review_time = None, ps_message = []\<rparr>\<rparr>"

definition demo_key :: okey where "demo_key = (''team'', ''p'')"
definition demo_report_key :: okey where
  "demo_report_key = (''team'', model_report_name (one_digest []) ''fraud'' ''1'')"

definition demo_cluster :: promotion_store where
  "demo_cluster =
     \<lparr>pw_reports = \<lparr>vs_rev = 1, vs_objs = [(demo_report_key, (demo_report, 1))]\<rparr>,
      pw_requests = \<lparr>vs_rev = 1, vs_objs = [(demo_key, (demo_asked, 1))]\<rparr>, pw_log = []\<rparr>"

lemma demo_views:
  "demo_vp demo_cluster demo_key = Some (demo_asked, 1)"
  "demo_vr demo_cluster demo_report_key = Some (demo_report, 1)"
  by (simp_all add: demo_cluster_def vs_view_def vs_visible_def)

lemma demo_run:
  "fst (promotion_reconcile demo_promoter demo_key demo_cluster) = Done"
  "demo_vr (snd (promotion_reconcile demo_promoter demo_key demo_cluster)) demo_report_key
     = Some (add_environment ''prod'' demo_report, 2)"
proof -
  obtain ns where ns: "model_report_names (one_digest []) ''fraud'' ''1'' = snd demo_report_key # ns"
    using model_report_names_Cons by (fastforce simp: demo_report_key_def)
  have fk: "fst demo_key = fst demo_report_key" by (simp add: demo_key_def demo_report_key_def)
  have spec: "pq_model (pm_spec demo_asked) = ''fraud''" "pq_version (pm_spec demo_asked) = ''1''"
    "pq_target (pm_spec demo_asked) = ''prod''" "\<not> is_terminal (ps_phase (pm_status demo_asked))"
    by (simp_all add: demo_asked_def is_terminal_def promotion_defs)
  have about: "about_request (pm_spec demo_asked) demo_report"
    by (simp add: about_request_def demo_asked_def demo_report_def)
  have get: "k_get (pt_requests demo_promoter) demo_key demo_cluster = (Inr (demo_asked, 1), demo_cluster)"
    "k_get (pt_reports demo_promoter) demo_report_key demo_cluster = (Inr (demo_report, 1), demo_cluster)"
    using demo_views by (simp_all add: demo_promoter_def rev_client_def)
  have found: "security_report demo_promoter (fst demo_key) (pm_spec demo_asked) demo_cluster
      = (Inr (Some (demo_report_key, demo_report, 1)), demo_cluster)"
    using get(2) about by (simp add: security_report_def spec fk) (simp add: demo_promoter_def ns)
  define w1 where "w1 = demo_cluster\<lparr>pw_reports := vs_put demo_report_key (add_environment ''prod'' demo_report) (pw_reports demo_cluster)\<rparr>"
  have "''prod'' \<notin> set (rt_environments (mr_status demo_report))" by (simp add: demo_report_def)
  then have app: "apply_environment demo_promoter (demo_report_key, demo_report, 1) ''prod'' demo_cluster = (None, w1)"
    using demo_views by (simp add: apply_environment_def demo_promoter_def rev_client_def w1_def)
  have ph: "ps_phase (next_status (pm_spec demo_asked) (Some demo_report) (pm_status demo_asked)) = promotion_approved"
    by (simp add: next_status_approved verdict_of_def demo_asked_def demo_report_def)
  then have stage: "apply_stage demo_promoter (pm_spec demo_asked) (pm_status demo_asked)
      (Some (demo_report_key, demo_report, 1)) demo_cluster = (None, w1)"
    using app by (simp add: apply_stage_def spec)
  have vw1: "demo_vp w1 demo_key = Some (demo_asked, 1)" using demo_views by (simp add: w1_def)
  have un: "\<not> status_unchanged (pm_status demo_asked) (next_status (pm_spec demo_asked) (Some demo_report) (pm_status demo_asked))"
    using ph spec(4) by (auto simp: status_unchanged_def is_terminal_def)
  obtain w2 where st: "store_status demo_promoter demo_key demo_asked 1
      (next_status (pm_spec demo_asked) (Some demo_report) (pm_status demo_asked)) w1 = (Done, w2)"
    and w2: "pw_reports w2 = pw_reports w1"
    using un vw1 by (simp add: store_status_def Let_def demo_promoter_def rev_client_def record_promotion_def)
  have run: "promotion_reconcile demo_promoter demo_key demo_cluster = (Done, w2)"
    unfolding promotion_reconcile_open [OF get(1) spec(4)] by (simp only: found stage st prod.case sum.case option.case option.map fst_conv snd_conv)
  show "fst (promotion_reconcile demo_promoter demo_key demo_cluster) = Done"
    "demo_vr (snd (promotion_reconcile demo_promoter demo_key demo_cluster)) demo_report_key
     = Some (add_environment ''prod'' demo_report, 2)"
    by (simp_all add: run w2) (simp add: w1_def demo_cluster_def)
qed



end
