(* ===== verification/Trust_Policy.thy ===== *)
theory Trust_Policy
  imports Cupel_Types Controller_Names Kube
begin

text \<open>
  Rendering the trusted publishers into the file scan pods verify signatures against
  (\<open>internal/controller/trust_policy.go\<close>).  The policy's type, its notion of a keyless publisher and
  its JSON text belong to a library: the last two are parameters.  The publishers of a namespace
  have distinct names, so the order of equal names that Go's unstable sort leaves open never arises.
\<close>

record publisher =
  pb_name :: string
  pb_display :: string
  pb_key :: string
  pb_issuer :: string
  pb_subject :: string
  pb_prefixes :: "string list"

record trust_policy =
  tr_root :: string
  tr_require_log :: bool
  tr_publishers :: "publisher list"

record config_map =
  cm_labels :: str_map
  cm_data :: str_map

definition label_managed_by :: string where "label_managed_by = ''app.kubernetes.io/managed-by''"
definition manager_name :: string where "manager_name = ''cupel-operator''"
definition trust_policy_map :: string where "trust_policy_map = ''cupel-trust-policy''"
definition trust_policy_key :: string where "trust_policy_key = ''trust-policy.json''"

definition render_publisher :: "trusted_publisher \<Rightarrow> publisher" where
  "render_publisher tp =
     \<lparr>pb_name = om_name (tp_meta tp), pb_display = tp_display tp, pb_key = tp_cosign_key tp,
      pb_issuer = (case tp_keyless tp of None \<Rightarrow> [] | Some k \<Rightarrow> ki_issuer k),
      pb_subject = (case tp_keyless tp of None \<Rightarrow> [] | Some k \<Rightarrow> ki_subject k),
      pb_prefixes = tp_prefixes tp\<rparr>"

definition render_trust_policy ::
    "(publisher \<Rightarrow> bool) \<Rightarrow> trusted_publisher list \<Rightarrow> string \<Rightarrow> bool \<Rightarrow> trust_policy" where
  "render_trust_policy keyless publishers root require_log =
     \<lparr>tr_root = root, tr_require_log = require_log,
      tr_publishers = sort_key pb_name
        (filter (\<lambda>p. \<not> (pb_key p = [] \<and> \<not> keyless p)) (map render_publisher publishers))\<rparr>"

record 's trust_sync =
  ts_publishers :: "('s, trusted_publisher) kclient"
  ts_maps :: "('s, config_map) kclient"
  ts_keyless :: "publisher \<Rightarrow> bool"
  ts_encode :: "trust_policy \<Rightarrow> string + string"
  ts_root :: string
  ts_require_log :: bool

datatype trust_error = ListPublishers kerr | EncodePolicy string | MapError kerr

definition map_result :: "kerr option \<Rightarrow> trust_error option" where
  "map_result r = map_option MapError r"

definition sync_trust_policy :: "'s trust_sync \<Rightarrow> string \<Rightarrow> 's \<Rightarrow> trust_error option \<times> 's" where
  "sync_trust_policy T ns s =
     (case list_plain (ts_publishers T) ns s of
        (Inl e, s1) \<Rightarrow> (Some (ListPublishers e), s1)
      | (Inr xs, s1) \<Rightarrow>
          (case ts_encode T (render_trust_policy (ts_keyless T) (map snd xs) (ts_root T) (ts_require_log T)) of
             Inl e \<Rightarrow> (Some (EncodePolicy e), s1)
           | Inr encoded \<Rightarrow>
               (let cm = \<lparr>cm_labels = [(label_managed_by, manager_name)], cm_data = [(trust_policy_key, encoded)]\<rparr>;
                    key = (ns, trust_policy_map) in
                case k_get (ts_maps T) key s1 of
                  (Inl e, s2) \<Rightarrow>
                    (if e = NotFound
                     then (case k_create (ts_maps T) key cm s2 of (r, s3) \<Rightarrow> (map_result r, s3))
                     else (Some (MapError e), s2))
                | (Inr (old, rv), s2) \<Rightarrow>
                    (if sm_get (cm_data old) trust_policy_key = encoded then (None, s2)
                     else (case k_update (ts_maps T) key (old\<lparr>cm_data := cm_data cm\<rparr>, rv) s2 of
                             (r, s3) \<Rightarrow> (map_result r, s3))))))"

section \<open>What the file says\<close>

lemma render_only_listed:
  "p \<in> set (tr_publishers (render_trust_policy keyless ps root log)) \<longleftrightarrow>
     (\<exists>tp \<in> set ps. p = render_publisher tp \<and> (pb_key p \<noteq> [] \<or> keyless p))"
  by (auto simp: render_trust_policy_def)

text \<open>
  The trust file follows the publishers. Whatever others do to other objects, when
  rendering reports success the file scan pods mount holds the policy rendered from the publishers
  that were stored when they were listed: a publisher that was revoked before is not in it, and one
  with neither a key nor an identity never is.
\<close>

theorem trust_policy_synced:
  assumes pubs: "kclient_ok vt ft env (ts_publishers T)" and maps: "kclient_ok vm fm env' (ts_maps T)"
    and run: "sync_trust_policy T ns s = (None, s')"
  shows "\<exists>ps t encoded cm rv. env s t \<and>
    set ps = {tp. \<exists>n v. vt t (ns, n) = Some (tp, v)} \<and>
    ts_encode T (render_trust_policy (ts_keyless T) ps (ts_root T) (ts_require_log T)) = Inr encoded \<and>
    vm s' (ns, trust_policy_map) = Some (cm, rv) \<and> sm_get (cm_data cm) trust_policy_key = encoded"
proof -
  obtain r s1 where l: "list_plain (ts_publishers T) ns s = (r, s1)" by force
  obtain xs where xs: "r = Inr xs" using run l by (cases r) (auto simp: sync_trust_policy_def)
  note lc = list_cases [OF pubs l]
  have set_xs: "set (map snd xs) = {tp. \<exists>n v. vt s1 (ns, n) = Some (tp, v)}"
  proof (intro set_eqI iffI)
    fix tp assume "tp \<in> set (map snd xs)"
    then obtain n where "map_of xs n = Some tp" using lc(2) [OF xs] by auto
    then show "tp \<in> {tp. \<exists>n v. vt s1 (ns, n) = Some (tp, v)}" using lc(3) [OF xs, of n] by auto
  next
    fix tp assume "tp \<in> {tp. \<exists>n v. vt s1 (ns, n) = Some (tp, v)}"
    then obtain n where "map_of xs n = Some tp" using lc(3) [OF xs] by auto
    then show "tp \<in> set (map snd xs)" by (force dest: map_of_SomeD)
  qed
  let ?p = "render_trust_policy (ts_keyless T) (map snd xs) (ts_root T) (ts_require_log T)"
  obtain encoded where enc: "ts_encode T ?p = Inr encoded"
    using run l xs by (cases "ts_encode T ?p") (auto simp: sync_trust_policy_def)
  let ?cm = "\<lparr>cm_labels = [(label_managed_by, manager_name)], cm_data = [(trust_policy_key, encoded)]\<rparr>"
  obtain g s2 where g: "k_get (ts_maps T) (ns, trust_policy_map) s1 = (g, s2)" by force
  have "\<exists>cm rv. vm s' (ns, trust_policy_map) = Some (cm, rv) \<and> sm_get (cm_data cm) trust_policy_key = encoded"
  proof (cases g)
    case (Inl e)
    then have "k_create (ts_maps T) (ns, trust_policy_map) ?cm s2 = (None, s')"
      using run l xs enc g by (auto simp: sync_trust_policy_def Let_def map_result_def split: if_splits prod.splits)
    from reply_version(1) [OF maps this] show ?thesis by (simp add: sm_get_def)
  next
    case (Inr x)
    obtain old rv where x: "x = (old, rv)" by force
    show ?thesis
    proof (cases "sm_get (cm_data old) trust_policy_key = encoded")
      case True
      then have "s' = s2" using run l xs enc g Inr x by (auto simp: sync_trust_policy_def Let_def)
      then show ?thesis using get_cases(2) [OF maps g Inr] x True by blast
    next
      case False
      then have "k_update (ts_maps T) (ns, trust_policy_map) (old\<lparr>cm_data := cm_data ?cm\<rparr>, rv) s2 = (None, s')"
        using run l xs enc g Inr x
        by (auto simp: sync_trust_policy_def Let_def map_result_def split: prod.splits)
      from reply_version(2) [OF maps this] show ?thesis by (simp add: sm_get_def)
    qed
  qed
  then show ?thesis using lc(1) set_xs enc by blast
qed

section \<open>Witness\<close>

record trust_world =
  tw_publishers :: "trusted_publisher mem_store"
  tw_maps :: "config_map mem_store"

definition demo_trust :: "trust_world trust_sync" where
  "demo_trust =
     \<lparr>ts_publishers = mem_client tw_publishers (\<lambda>m. tw_publishers_update (\<lambda>_. m)),
      ts_maps = mem_client tw_maps (\<lambda>m. tw_maps_update (\<lambda>_. m)), ts_keyless = (\<lambda>p. pb_issuer p \<noteq> []),
      ts_encode = (\<lambda>p. Inr (concat (map pb_name (tr_publishers p)))), ts_root = [], ts_require_log = False\<rparr>"

definition demo_publisher :: "string \<Rightarrow> string \<Rightarrow> okey \<times> trusted_publisher \<times> nat" where
  "demo_publisher n key =
     ((''ns'', n),
      \<lparr>tp_meta = \<lparr>om_name = n, om_namespace = ''ns'', om_uid = [], om_labels = [], om_annotations = [],
        om_owner = None, om_created = 0, om_deleted = None\<rparr>,
       tp_display = n, tp_cosign_key = key, tp_keyless = None, tp_prefixes = []\<rparr>, 1)"

definition demo_trust_world :: trust_world where
  "demo_trust_world = \<lparr>tw_publishers = [demo_publisher ''b'' ''k'', demo_publisher ''a'' ''k'', demo_publisher ''c'' []],
     tw_maps = []\<rparr>"

lemma demo_trust_run:
  "fst (sync_trust_policy demo_trust ''ns'' demo_trust_world) = None"
  "sm_get (cm_data (fst (the (map_of (tw_maps (snd (sync_trust_policy demo_trust ''ns'' demo_trust_world)))
     (''ns'', trust_policy_map))))) trust_policy_key = ''ab''"
  by code_simp+

theorem trust_policy_synced_witness:
  "\<exists>ps cm rv. set ps = {tp. \<exists>n v. map_of (tw_publishers demo_trust_world) (''ns'', n) = Some (tp, v)} \<and>
     ts_encode demo_trust (render_trust_policy (ts_keyless demo_trust) ps [] False) = Inr ''ab'' \<and>
     map_of (tw_maps (snd (sync_trust_policy demo_trust ''ns'' demo_trust_world))) (''ns'', trust_policy_map) = Some (cm, rv)"
proof -
  have pubs: "kclient_ok (\<lambda>w. map_of (tw_publishers w)) (\<lambda>_ _. True) (=) (ts_publishers demo_trust)"
    and maps: "kclient_ok (\<lambda>w. map_of (tw_maps w)) (\<lambda>_ _. True) (=) (ts_maps demo_trust)"
    unfolding demo_trust_def trust_sync.simps by (rule mem_client_ok; simp)+
  have c: "ts_root demo_trust = []" "\<not> ts_require_log demo_trust" by (simp_all add: demo_trust_def)
  have r: "sync_trust_policy demo_trust ''ns'' demo_trust_world
      = (None, snd (sync_trust_policy demo_trust ''ns'' demo_trust_world))"
    using demo_trust_run(1) by (simp add: prod_eq_iff)
  from trust_policy_synced [OF pubs maps r] obtain ps t encoded cm rv where
    "demo_trust_world = t" "set ps = {tp. \<exists>n v. map_of (tw_publishers t) (''ns'', n) = Some (tp, v)}"
    "ts_encode demo_trust (render_trust_policy (ts_keyless demo_trust) ps (ts_root demo_trust) (ts_require_log demo_trust)) = Inr encoded"
    "map_of (tw_maps (snd (sync_trust_policy demo_trust ''ns'' demo_trust_world))) (''ns'', trust_policy_map) = Some (cm, rv)"
    "sm_get (cm_data cm) trust_policy_key = encoded" by blast
  then show ?thesis using demo_trust_run(2) by (intro exI [of _ ps] exI [of _ cm] exI [of _ rv]) (simp add: c)
qed

end
