(* ===== verification/Policy.thy ===== *)
theory Policy
  imports Cupel_Types
begin

text \<open>
  The adapter over Tessera's gate (\<open>internal/policy\<close>): converting the resources to the gate's plain
  types, and narrowing a namespace's exceptions to one model version.  The gate itself is a library
  outside the repository, so \<open>evaluate\<close> takes it as an argument; its argument types are the fields
  the source fills in.
\<close>

section \<open>The gate's types\<close>

record gate_result_in =
  gi_scanner :: string
  gi_status :: string
  gi_findings :: int32
  gi_severities :: severity_counts
  gi_drift :: severity_counts
  gi_unexamined :: severity_counts
  gi_produced :: "bool option"
  gi_message :: string

record gate_rules =
  gr_max_critical :: "int32 option"
  gr_max_high :: "int32 option"
  gr_block_malware :: "bool option"
  gr_block_secrets :: "bool option"
  gr_block_unsafe :: "bool option"
  gr_block_drift :: "bool option"
  gr_block_unexamined :: "bool option"
  gr_max_high_model :: "int32 option"
  gr_require_signature :: bool
  gr_require_provenance :: bool
  gr_require_sbom :: bool
  gr_require_aibom :: bool
  gr_allowed_formats :: "string list"
  gr_blocked_formats :: "string list"

record gate_exception =
  ge_findings :: "string list"
  ge_rules :: "string list"
  ge_reason :: string
  ge_digest :: string
  ge_expires :: "go_time option"

record gate_violation =
  gv_rule :: string
  gv_message :: string

record evaluation =
  ev_verdict :: string
  ev_risk :: int32
  ev_violations :: "gate_violation list"
  ev_waived :: "gate_violation list"
  ev_malware :: string
  ev_secrets :: string
  ev_cves :: severity_counts
  ev_unexamined :: severity_counts
  ev_drift :: severity_counts
  ev_signature_verified :: bool
  ev_sbom_generated :: bool
  ev_aibom_generated :: bool

type_synonym gate_fn =
  "gate_result_in list \<Rightarrow> artifact_ref \<Rightarrow> gate_rules option \<Rightarrow> gate_exception list \<Rightarrow> go_time
     \<Rightarrow> evaluation"

section \<open>Conversions\<close>

definition to_counts :: "severity_counts \<Rightarrow> severity_counts" where
  "to_counts c = \<lparr>n_critical = n_critical c, n_high = n_high c, n_medium = n_medium c,
     n_low = n_low c, n_unknown = n_unknown c\<rparr>"

definition from_counts :: "severity_counts \<Rightarrow> severity_counts" where
  "from_counts c = \<lparr>n_critical = n_critical c, n_high = n_high c, n_medium = n_medium c,
     n_low = n_low c, n_unknown = n_unknown c\<rparr>"

definition to_result :: "scanner_result \<Rightarrow> gate_result_in" where
  "to_result r =
     \<lparr>gi_scanner = sr_scanner r, gi_status = sr_status r, gi_findings = sr_findings r,
      gi_severities = to_counts (sr_severities r), gi_drift = to_counts (sr_drift r),
      gi_unexamined = to_counts (sr_unexamined r), gi_produced = sr_produced r,
      gi_message = sr_message r\<rparr>"

definition to_results :: "scanner_result list \<Rightarrow> gate_result_in list" where
  "to_results rs = map to_result rs"

definition to_rules :: "scan_policy option \<Rightarrow> gate_rules option" where
  "to_rules pol =
     (case pol of
        None \<Rightarrow> None
      | Some p \<Rightarrow>
          (let r = po_rules p in
           Some \<lparr>gr_max_critical = pr_max_critical r, gr_max_high = pr_max_high r,
             gr_block_malware = pr_block_malware r, gr_block_secrets = pr_block_secrets r,
             gr_block_unsafe = pr_block_unsafe r, gr_block_drift = pr_block_drift r,
             gr_block_unexamined = pr_block_unexamined r, gr_max_high_model = pr_max_high_model r,
             gr_require_signature = pr_require_signature r,
             gr_require_provenance = pr_require_provenance r, gr_require_sbom = pr_require_sbom r,
             gr_require_aibom = pr_require_aibom r, gr_allowed_formats = pr_allowed_formats r,
             gr_blocked_formats = pr_blocked_formats r\<rparr>))"

definition to_exception :: "artifact_exception \<Rightarrow> gate_exception" where
  "to_exception e =
     \<lparr>ge_findings = ex_findings (ae_spec e), ge_rules = ex_rules (ae_spec e),
      ge_reason = ex_reason (ae_spec e), ge_digest = ex_digest (ae_spec e),
      ge_expires = ex_expires (ae_spec e)\<rparr>"

definition to_exceptions :: "artifact_exception list \<Rightarrow> gate_exception list" where
  "to_exceptions es = map to_exception es"

definition evaluate ::
    "gate_fn \<Rightarrow> scanner_result list \<Rightarrow> artifact_ref \<Rightarrow> scan_policy option \<Rightarrow> artifact_exception list
       \<Rightarrow> go_time \<Rightarrow> evaluation" where
  "evaluate gate results artifact pol exceptions now =
     gate (to_results results) artifact (to_rules pol) (to_exceptions exceptions) now"

section \<open>Which exceptions apply\<close>

definition exceptions_for :: "artifact_exception list \<Rightarrow> string \<Rightarrow> string \<Rightarrow> artifact_exception list" where
  "exceptions_for all_exs model version =
     (if model = [] \<or> version = [] then []
      else filter (\<lambda>ex. ex_model (ae_spec ex) = model \<and> ex_version (ae_spec ex) = version) all_exs)"

lemma counts_id [simp]: "to_counts c = c" "from_counts c = c"
  by (simp_all add: to_counts_def from_counts_def)

lemma set_exceptions_for:
  "set (exceptions_for es m v) =
     (if m = [] \<or> v = [] then {}
      else {e \<in> set es. ex_model (ae_spec e) = m \<and> ex_version (ae_spec e) = v})"
  by (auto simp: exceptions_for_def)

text \<open>
  One team's waiver never reaches another team's model. The verdict of a model version
  does not depend on any exception written for another model or version: removing all of these from
  the namespace, or adding any number of them anywhere, gives the same evaluation.
\<close>

theorem waivers_are_scoped:
  assumes "\<forall>e \<in> set other. ex_model (ae_spec e) \<noteq> m \<or> ex_version (ae_spec e) \<noteq> v"
  shows "evaluate gate rs art pol (exceptions_for (before @ other @ after) m v) now
       = evaluate gate rs art pol (exceptions_for (before @ after) m v) now"
proof -
  have "filter (\<lambda>ex. ex_model (ae_spec ex) = m \<and> ex_version (ae_spec ex) = v) other = []"
    using assms by (simp add: filter_empty_conv)
  then show ?thesis by (simp add: exceptions_for_def)
qed

definition waiver :: "string \<Rightarrow> string \<Rightarrow> artifact_exception" where
  "waiver m v =
     \<lparr>ae_meta = \<lparr>om_name = ''w'', om_namespace = ''ns'', om_uid = [], om_labels = [],
        om_annotations = [], om_owner = None, om_created = 0, om_deleted = None\<rparr>,
      ae_spec = \<lparr>ex_model = m, ex_version = v, ex_findings = [], ex_rules = [''maxCriticalCVEs''],
        ex_reason = ''accepted'', ex_digest = [], ex_approved_by = ''eve'', ex_approved_groups = [],
        ex_approved_at = None, ex_expires = None\<rparr>,
      ae_phase = []\<rparr>"

definition waiving_gate :: gate_fn where
  "waiving_gate rs a rules exs now =
     \<lparr>ev_verdict = (if exs = [] then verdict_quarantined else verdict_approved), ev_risk = 0,
      ev_violations = [], ev_waived = [], ev_malware = [], ev_secrets = [], ev_cves = no_counts,
      ev_unexamined = no_counts, ev_drift = no_counts, ev_signature_verified = False,
      ev_sbom_generated = False, ev_aibom_generated = False\<rparr>"

definition some_artifact :: artifact_ref where
  "some_artifact = \<lparr>ar_uri = ''s3://m'', ar_digest = [], ar_media_type = [], ar_format = [], ar_size = None\<rparr>"

theorem waivers_are_scoped_witness:
  "ev_verdict (evaluate waiving_gate [] some_artifact None
     (exceptions_for ([] @ [waiver ''fraud'' ''2''] @ []) ''fraud'' ''1'') 0) = verdict_quarantined"
  by (subst waivers_are_scoped) (simp_all add: waiver_def evaluate_def waiving_gate_def
      exceptions_for_def to_exceptions_def)

text \<open>
  A missing policy is not an empty one. The gate is given no rules exactly when there is
  no policy, so its conservative defaults apply then and only then; a policy with rules reaches it
  field by field, and two policies that reach it alike have the same rules.
\<close>

theorem rules_reach_the_gate:
  "(to_rules pol = None \<longleftrightarrow> pol = None) \<and>
   (to_rules (Some p) = to_rules (Some q) \<longleftrightarrow> po_rules p = po_rules q)"
  by (auto simp: to_rules_def Let_def split: option.splits intro!: policy_rules.equality)

end
