(* ===== verification/Scanners.thy ===== *)
theory Scanners
  imports Cupel_Prelude
begin

text \<open>
  The scanner catalog (\<open>internal/scanners/catalog.go\<close>): what each scanner is, which of them run by
  default, and the image each one runs in.  The catalog is the source's map as a list of entries;
  nothing depends on its order, because every reader sorts.
\<close>

datatype category =
  Malware | CVE | SBOM | Secret | License | Model | Provenance | AIBOM

definition category_str :: "category \<Rightarrow> string" where
  "category_str c =
     (case c of Malware \<Rightarrow> ''malware'' | CVE \<Rightarrow> ''cve'' | SBOM \<Rightarrow> ''sbom'' | Secret \<Rightarrow> ''secret''
      | License \<Rightarrow> ''license'' | Model \<Rightarrow> ''model'' | Provenance \<Rightarrow> ''provenance'' | AIBOM \<Rightarrow> ''aibom'')"

record scanner_def =
  sd_name :: string
  sd_category :: category
  sd_image :: string
  sd_command :: "string list"
  sd_args :: "string list"
  sd_output :: string
  sd_format :: string
  sd_network :: bool
  sd_default :: bool
  sd_unbuilt :: bool

definition default_registry :: string where "default_registry = ''docker.io/davanolab''"
definition image_tag :: string where "image_tag = ''0.9.0''"
definition ws_placeholder :: string where "ws_placeholder = ''$(WORKSPACE)''"
definition res_placeholder :: string where "res_placeholder = ''$(RESULTS)''"
definition trust_placeholder :: string where "trust_placeholder = ''$(TRUST_POLICY)''"

text \<open>An external scanner: its image takes the workspace and the output file.\<close>

definition external :: "string \<Rightarrow> category \<Rightarrow> string \<Rightarrow> string \<Rightarrow> bool \<Rightarrow> scanner_def" where
  "external name cat out fmt dflt =
     \<lparr>sd_name = name, sd_category = cat, sd_image = ''scanner-'' @ name, sd_command = [],
      sd_args = [ws_placeholder, res_placeholder @ ''/'' @ out], sd_output = out, sd_format = fmt,
      sd_network = False, sd_default = dflt, sd_unbuilt = False\<rparr>"

text \<open>A scanner of the runner binary, which runs in the operator's image.\<close>

definition internal :: "string \<Rightarrow> category \<Rightarrow> string list \<Rightarrow> string \<Rightarrow> scanner_def" where
  "internal name cat args out =
     \<lparr>sd_name = name, sd_category = cat, sd_image = [], sd_command = [''/cupel-runner''],
      sd_args = args, sd_output = out, sd_format = ''tessera'', sd_network = False,
      sd_default = True, sd_unbuilt = False\<rparr>"

definition catalog :: "(string \<times> scanner_def) list" where
  "catalog = map (\<lambda>d. (sd_name d, d))
     [external ''clamav'' Malware ''clamav.txt'' ''clamav'' True,
      external ''trivy'' CVE ''trivy.json'' ''trivy-json'' True,
      external ''grype'' CVE ''grype.json'' ''grype-json'' False,
      external ''syft'' SBOM ''sbom.spdx.json'' ''syft-spdx'' True,
      external ''trufflehog'' Secret ''trufflehog.json'' ''trufflehog-json'' True,
      internal ''model-inspector'' Model
        [''inspect'', ''--workspace'', ws_placeholder, ''--out'', res_placeholder @ ''/model-inspector.json'']
        ''model-inspector.json'',
      internal ''provenance'' Provenance
        [''verify-provenance'', ''--workspace'', ws_placeholder, ''--out'',
         res_placeholder @ ''/provenance.json'', ''--trust-policy'', trust_placeholder,
         ''--metadata'', res_placeholder @ ''/artifact.json'']
        ''provenance.json'',
      internal ''tessera'' AIBOM
        [''aibom'', ''--workspace'', ws_placeholder, ''--out'', res_placeholder @ ''/tessera.json'',
         ''--bom-dir'', res_placeholder]
        ''tessera.json'']"

definition uses_operator_image :: "scanner_def \<Rightarrow> bool" where
  "uses_operator_image d \<longleftrightarrow> sd_image d = []"

definition resolve_image :: "scanner_def \<Rightarrow> string \<Rightarrow> string \<Rightarrow> string" where
  "resolve_image d registry operator_image =
     (if uses_operator_image d then operator_image
      else (let reg = (if registry = [] then default_registry else registry)
            in trim_suffix reg ''/'' @ ''/'' @ sd_image d @ '':'' @ image_tag))"

definition scanner_names :: "(string \<times> scanner_def) list \<Rightarrow> string list" where
  "scanner_names cat = sort (map fst cat)"

definition available :: "(string \<times> scanner_def) list \<Rightarrow> string list" where
  "available cat = sort (map fst (filter (\<lambda>(n, d). \<not> sd_unbuilt d) cat))"

definition default_scanners :: "(string \<times> scanner_def) list \<Rightarrow> string list" where
  "default_scanners cat = sort (map fst (filter (\<lambda>(n, d). sd_default d) cat))"

text \<open>\<open>%v\<close> of a list of strings.\<close>

definition list_str :: "string list \<Rightarrow> string" where
  "list_str xs = ''['' @ str_join '' '' xs @ '']''"

definition get_scanner :: "(string \<times> scanner_def) list \<Rightarrow> string \<Rightarrow> string + scanner_def" where
  "get_scanner cat name =
     (case map_of cat name of
        None \<Rightarrow> Inl (''unknown scanner '' @ quote name @ ''; known scanners: '' @ list_str (scanner_names cat))
      | Some d \<Rightarrow>
          if sd_unbuilt d
          then Inl (''scanner '' @ quote name @ '' is declared in the catalog but has no image built yet; '' @
                    ''remove it from the policy (available: '' @ list_str (available cat) @ '')'')
          else Inr d)"

section \<open>Properties\<close>

lemma catalog_names [simp]: "distinct (map fst catalog)"
  by (simp add: catalog_def external_def internal_def)

lemma catalog_keys: "(n, d) \<in> set catalog \<Longrightarrow> sd_name d = n"
  by (auto simp: catalog_def)

text \<open>
  A policy may name exactly the available scanners: looking a name up succeeds if and only if
  the list of available scanners holds it, and it then gives the entry of that name. Every default
  scanner is available, so a policy that names none still runs scanners that exist.
\<close>

theorem get_iff_available:
  "((\<exists>d. get_scanner catalog name = Inr d \<and> sd_name d = name) \<longleftrightarrow> name \<in> set (available catalog)) \<and>
   set (default_scanners catalog) \<subseteq> set (available catalog)"
proof
  show "set (default_scanners catalog) \<subseteq> set (available catalog)"
    by (auto simp: default_scanners_def available_def catalog_def external_def internal_def)
  have built: "\<not> sd_unbuilt d" if "(n, d) \<in> set catalog" for n d
    using that by (auto simp: catalog_def external_def internal_def)
  have a: "name \<in> set (available catalog) \<longleftrightarrow> (\<exists>d. (name, d) \<in> set catalog)"
    using built unfolding available_def by force
  show "(\<exists>d. get_scanner catalog name = Inr d \<and> sd_name d = name) \<longleftrightarrow> name \<in> set (available catalog)"
  proof (cases "map_of catalog name")
    case None
    then have "name \<notin> fst ` set catalog" by (simp add: map_of_eq_None_iff)
    then show ?thesis unfolding a using None by (force simp: get_scanner_def)
  next
    case (Some d)
    then have "(name, d) \<in> set catalog" by (rule map_of_SomeD)
    then show ?thesis unfolding a using Some built [of name d] catalog_keys [of name d]
      by (auto simp: get_scanner_def)
  qed
qed

end
