(* ===== verification/Artifact_Scan.thy ===== *)
theory Artifact_Scan
  imports Trust_Policy Policy Scanners Audit_Events
begin

text \<open>
  The scan controller (\<open>internal/controller/artifactscan_controller.go\<close>): it drives one scan from
  pending through its scanner jobs to a verdict, keeps finished scans up to date with the exceptions
  and the policy in force, and writes the model's security report.  Building a Job (\<open>jobs.go\<close>, owner
  reference included), the counters of a Job's status and the text of a violation are parameters;
  metrics, logging and the display conditions of the status are not modelled.  \<open>now\<close> is read where
  the source reads it.
\<close>

section \<open>The controller\<close>

record job_counts =
  jc_failed :: int32
  jc_active :: int32
  jc_succeeded :: int32

record ('s, 'j, 'e) scan_ctl =
  sc_scans :: "('s, artifact_scan) kclient"
  sc_policies :: "('s, scan_policy) kclient"
  sc_exceptions :: "('s, artifact_exception) kclient"
  sc_scan_reports :: "('s, artifact_scan_report) kclient"
  sc_models :: "('s, model_report) kclient"
  sc_jobs :: "('s, 'j) kclient"
  sc_job_status :: "'j \<Rightarrow> job_counts"
  sc_build_job :: "artifact_scan \<Rightarrow> scanner_def \<Rightarrow> scanner_spec option \<Rightarrow> string + 'j"
  sc_trust :: "'s trust_sync"
  sc_append :: "(audit_record \<Rightarrow> 's \<Rightarrow> ('e + audit_record) \<times> 's) option"
  sc_now :: "'s \<Rightarrow> go_time \<times> 's"
  sc_digest :: hex_digest
  sc_gate :: gate_fn
  sc_violation_str :: "gate_violation \<Rightarrow> string"
  sc_deadline :: duration

datatype scan_error =
    ScanClient kerr | LoadPolicy kerr | ListExceptions kerr | CheckJob string kerr | BuildJob string string
  | CreateJob string kerr | ListScanReports kerr | AdoptReport string kerr | GetJob string kerr
  | UpsertReport kerr | ReportStatus kerr | UnknownScanner string

definition label_scan :: string where "label_scan = ''security.davano.io/scan''"
definition label_model :: string where "label_model = ''security.davano.io/model''"
definition annotation_artifact_digest :: string where
  "annotation_artifact_digest = ''security.davano.io/artifact-digest''"

definition scan_key :: "artifact_scan \<Rightarrow> okey" where
  "scan_key scan = (om_namespace (as_meta scan), om_name (as_meta scan))"

section \<open>What a scan runs\<close>

fun first_unknown :: "string list \<Rightarrow> string option" where
  "first_unknown [] = None"
| "first_unknown (n # ns) =
     (case get_scanner catalog n of Inl e \<Rightarrow> Some e | Inr d \<Rightarrow> first_unknown ns)"

definition resolve_scanners :: "artifact_scan \<Rightarrow> scan_policy option \<Rightarrow> string + string list" where
  "resolve_scanners scan pol =
     (let names =
            (if ss_scanners (as_spec scan) \<noteq> [] then ss_scanners (as_spec scan)
             else (case pol of
                     Some p \<Rightarrow>
                       if po_scanners p \<noteq> []
                       then map sn_name (filter (\<lambda>x. sn_enabled x \<noteq> Some False) (po_scanners p))
                       else default_scanners catalog
                   | None \<Rightarrow> default_scanners catalog))
      in case first_unknown names of Some e \<Rightarrow> Inl e | None \<Rightarrow> Inr names)"

definition find_scanner_spec :: "scan_policy option \<Rightarrow> string \<Rightarrow> scanner_spec option" where
  "find_scanner_spec pol name =
     (case pol of None \<Rightarrow> None | Some p \<Rightarrow> find (\<lambda>x. sn_name x = name) (po_scanners p))"

definition load_policy :: "('s, 'j, 'e) scan_ctl \<Rightarrow> artifact_scan \<Rightarrow> 's \<Rightarrow> (scan_error + scan_policy option) \<times> 's" where
  "load_policy C scan s =
     (if ss_policy_ref (as_spec scan) = [] then (Inr None, s)
      else (case k_get (sc_policies C) (om_namespace (as_meta scan), ss_policy_ref (as_spec scan)) s of
              (Inl e, s1) \<Rightarrow> (if e = NotFound then Inr None else Inl (LoadPolicy e), s1)
            | (Inr x, s1) \<Rightarrow> (Inr (Some (fst x)), s1)))"

definition load_exceptions ::
    "('s, 'j, 'e) scan_ctl \<Rightarrow> artifact_scan \<Rightarrow> 's \<Rightarrow> (scan_error + artifact_exception list) \<times> 's" where
  "load_exceptions C scan s =
     (case list_plain (sc_exceptions C) (om_namespace (as_meta scan)) s of
        (Inl e, s1) \<Rightarrow> (Inl (ListExceptions e), s1)
      | (Inr xs, s1) \<Rightarrow> (Inr (exceptions_for (map snd xs) (ss_model (as_spec scan)) (ss_version (as_spec scan))), s1))"

section \<open>Jobs\<close>

fun find_job :: "('s, 'j) kclient \<Rightarrow> okey list \<Rightarrow> 's \<Rightarrow> (kerr + 'j option) \<times> 's" where
  "find_job c [] s = (Inr None, s)"
| "find_job c (k # ks) s =
     (case k_get c k s of
        (Inl e, s1) \<Rightarrow> (if e = NotFound then find_job c ks s1 else (Inl e, s1))
      | (Inr x, s1) \<Rightarrow> (Inr (Some (fst x)), s1))"

definition find_scan_job :: "('s, 'j, 'e) scan_ctl \<Rightarrow> string \<Rightarrow> string \<Rightarrow> string \<Rightarrow> 's \<Rightarrow> (kerr + 'j option) \<times> 's" where
  "find_scan_job C ns scan scanner s =
     find_job (sc_jobs C) (map (Pair ns) (scan_job_names (sc_digest C) scan scanner)) s"

definition ensure_scan_job ::
    "('s, 'j, 'e) scan_ctl \<Rightarrow> artifact_scan \<Rightarrow> scan_policy option \<Rightarrow> string \<Rightarrow> 's \<Rightarrow> scan_error option \<times> 's" where
  "ensure_scan_job C scan pol name s =
     (case get_scanner catalog name of
        Inl e \<Rightarrow> (Some (UnknownScanner e), s)
      | Inr d \<Rightarrow>
          (case find_scan_job C (om_namespace (as_meta scan)) (om_name (as_meta scan)) name s of
             (Inl e, s1) \<Rightarrow> (Some (CheckJob name e), s1)
           | (Inr (Some j), s1) \<Rightarrow> (None, s1)
           | (Inr None, s1) \<Rightarrow>
               (case sc_build_job C scan d (find_scanner_spec pol name) of
                  Inl e \<Rightarrow> (Some (BuildJob name e), s1)
                | Inr job \<Rightarrow>
                    (let jname = scan_job (sc_digest C) (om_name (as_meta scan)) (sd_name d) in
                     case k_create (sc_jobs C) (om_namespace (as_meta scan), jname) job s1 of
                       (Some e, s2) \<Rightarrow> (if e = AlreadyExists then None else Some (CreateJob jname e), s2)
                     | (None, s2) \<Rightarrow> (None, s2)))))"

fun ensure_jobs ::
    "('s, 'j, 'e) scan_ctl \<Rightarrow> artifact_scan \<Rightarrow> scan_policy option \<Rightarrow> string list \<Rightarrow> 's \<Rightarrow> scan_error option \<times> 's" where
  "ensure_jobs C scan pol [] s = (None, s)"
| "ensure_jobs C scan pol (n # ns) s =
     (case ensure_scan_job C scan pol n s of
        (Some e, s1) \<Rightarrow> (Some e, s1)
      | (None, s1) \<Rightarrow> ensure_jobs C scan pol ns s1)"

section \<open>Results\<close>

text \<open>\<open>adoptReport\<close>: a report owned by something else is left alone, and a racing writer is no error.\<close>

definition adopt_report ::
    "('s, 'j, 'e) scan_ctl \<Rightarrow> artifact_scan \<Rightarrow> string \<times> artifact_scan_report \<times> nat \<Rightarrow> 's \<Rightarrow> scan_error option \<times> 's" where
  "adopt_report C scan x s =
     (case x of (name, report, rv) \<Rightarrow>
        if om_owner (sp_meta report) \<noteq> None then (None, s)
        else
          (case k_update (sc_scan_reports C) (om_namespace (as_meta scan), name)
                  (report\<lparr>sp_meta := (sp_meta report)\<lparr>om_owner := Some (om_uid (as_meta scan))\<rparr>\<rparr>, rv) s of
             (None, s1) \<Rightarrow> (None, s1)
           | (Some e, s1) \<Rightarrow> (if e = Conflict \<or> e = NotFound then None else Some (AdoptReport name e), s1)))"

definition report_result :: "string \<Rightarrow> artifact_scan_report \<Rightarrow> scanner_result" where
  "report_result name report =
     (sp_summary report)\<lparr>sr_scanner := sp_scanner report, sr_report_ref := name\<rparr>"

fun read_reports ::
    "('s, 'j, 'e) scan_ctl \<Rightarrow> artifact_scan \<Rightarrow> (string \<times> artifact_scan_report \<times> nat) list
       \<Rightarrow> (string \<Rightarrow> scanner_result option) \<times> string \<Rightarrow> 's
       \<Rightarrow> (scan_error + (string \<Rightarrow> scanner_result option) \<times> string) \<times> 's"
where
  "read_reports C scan [] acc s = (Inr acc, s)"
| "read_reports C scan (x # xs) acc s =
     (case adopt_report C scan x s of
        (Some e, s1) \<Rightarrow> (Inl e, s1)
      | (None, s1) \<Rightarrow>
          (let name = fst x; report = fst (snd x); (by, digest) = acc;
               measured = sm_get (om_annotations (sp_meta report)) annotation_artifact_digest
           in read_reports C scan xs
                (by(sp_scanner report \<mapsto> report_result name report),
                 if measured \<noteq> [] then measured else digest) s1))"

definition no_result :: "string \<Rightarrow> string \<Rightarrow> string \<Rightarrow> scanner_result" where
  "no_result name status msg =
     \<lparr>sr_scanner = name, sr_status = status, sr_findings = 0, sr_severities = no_counts, sr_drift = no_counts,
      sr_unexamined = no_counts, sr_produced = None, sr_message = msg, sr_report_ref = [], sr_completed = None\<rparr>"

definition interim_result :: "('s, 'j, 'e) scan_ctl \<Rightarrow> string \<Rightarrow> 'j option \<Rightarrow> scanner_result" where
  "interim_result C name j =
     (case j of
        None \<Rightarrow> no_result name ''Pending'' []
      | Some job \<Rightarrow>
          (let c = sc_job_status C job in
           if 0 <s jc_failed c then no_result name ''Error'' ''scan job failed; see job logs''
           else if 0 <s jc_active c then no_result name ''Running'' []
           else if 0 <s jc_succeeded c then no_result name ''Running'' ''waiting for scan report''
           else no_result name ''Pending'' []))"

fun read_wanted ::
    "('s, 'j, 'e) scan_ctl \<Rightarrow> artifact_scan \<Rightarrow> (string \<Rightarrow> scanner_result option) \<Rightarrow> string list \<Rightarrow> 's
       \<Rightarrow> (scan_error + scanner_result list \<times> nat) \<times> 's"
where
  "read_wanted C scan by [] s = (Inr ([], 0), s)"
| "read_wanted C scan by (n # ns) s =
     (case by n of
        Some r \<Rightarrow>
          (case read_wanted C scan by ns s of
             (Inl e, s1) \<Rightarrow> (Inl e, s1)
           | (Inr (rs, pending), s1) \<Rightarrow> (Inr (r # rs, pending), s1))
      | None \<Rightarrow>
          (case find_scan_job C (om_namespace (as_meta scan)) (om_name (as_meta scan)) n s of
             (Inl e, s1) \<Rightarrow> (Inl (GetJob n e), s1)
           | (Inr j, s1) \<Rightarrow>
               (let r = interim_result C n j in
                case read_wanted C scan by ns s1 of
                  (Inl e, s2) \<Rightarrow> (Inl e, s2)
                | (Inr (rs, pending), s2) \<Rightarrow>
                    (Inr (r # rs, if sr_status r \<noteq> ''Error'' then Suc pending else pending), s2))))"

definition collect_results ::
    "('s, 'j, 'e) scan_ctl \<Rightarrow> artifact_scan \<Rightarrow> string list \<Rightarrow> 's
       \<Rightarrow> (scan_error + scanner_result list \<times> nat \<times> string) \<times> 's"
where
  "collect_results C scan wanted s =
     (case k_list (sc_scan_reports C) (om_namespace (as_meta scan)) s of
        (Inl e, s1) \<Rightarrow> (Inl (ListScanReports e), s1)
      | (Inr xs, s1) \<Rightarrow>
          (let mine = filter (\<lambda>x. map_of (om_labels (sp_meta (fst (snd x)))) label_scan = Some (om_name (as_meta scan))) xs in
           case read_reports C scan mine (Map.empty, st_digest (as_status scan)) s1 of
             (Inl e, s2) \<Rightarrow> (Inl e, s2)
           | (Inr (by, digest), s2) \<Rightarrow>
               (case read_wanted C scan by wanted s2 of
                  (Inl e, s3) \<Rightarrow> (Inl e, s3)
                | (Inr (rs, pending), s3) \<Rightarrow> (Inr (rs, pending, digest), s3))))"

section \<open>The model's security report\<close>

definition summarize :: "(gate_violation \<Rightarrow> string) \<Rightarrow> evaluation \<Rightarrow> string" where
  "summarize vs ev =
     (case ev_violations ev of
        [] \<Rightarrow>
          (if ev_waived ev \<noteq> []
           then ''passed policy with '' @ nat_str (length (ev_waived ev)) @ '' waived violation(s)''
           else ''passed all policy rules'')
      | v # rest \<Rightarrow> nat_str (length (ev_violations ev)) @ '' policy violation(s): '' @ vs v)"

fun ref_for_category :: "scanner_result list \<Rightarrow> category \<Rightarrow> string" where
  "ref_for_category [] cat = []"
| "ref_for_category (r # rs) cat =
     (case get_scanner catalog (sr_scanner r) of
        Inr d \<Rightarrow> if sd_category d = cat then sr_report_ref r else ref_for_category rs cat
      | Inl e \<Rightarrow> ref_for_category rs cat)"

definition sbom_ref :: "scanner_result list \<Rightarrow> string" where
  "sbom_ref rs = ref_for_category rs SBOM"

definition add_counts :: "severity_counts \<Rightarrow> severity_counts \<Rightarrow> severity_counts" where
  "add_counts a b =
     \<lparr>n_critical = n_critical a + n_critical b, n_high = n_high a + n_high b, n_medium = n_medium a + n_medium b,
      n_low = n_low a + n_low b, n_unknown = n_unknown a + n_unknown b\<rparr>"

definition total_unexamined :: "scanner_result list \<Rightarrow> severity_counts" where
  "total_unexamined rs = foldl (\<lambda>t r. add_counts t (sr_unexamined r)) no_counts rs"

text \<open>\<open>controllerutil.CreateOrUpdate\<close>: the object as stored, and the version it was stored under.\<close>

definition create_or_update ::
    "('s, 'o) kclient \<Rightarrow> okey \<Rightarrow> 'o \<Rightarrow> ('o \<Rightarrow> 'o) \<Rightarrow> 's \<Rightarrow> (kerr + 'o \<times> nat) \<times> 's" where
  "create_or_update c k fresh f s =
     (case k_get c k s of
        (Inl e, s1) \<Rightarrow>
          (if e = NotFound
           then (case k_create c k (f fresh) s1 of
                   (None, s2) \<Rightarrow> (Inr (f fresh, k_version c k s2), s2)
                 | (Some e', s2) \<Rightarrow> (Inl e', s2))
           else (Inl e, s1))
      | (Inr (x, v), s1) \<Rightarrow>
          (if f x = x then (Inr (x, v), s1)
           else (case k_update c k (f x, v) s1 of
                   (None, s2) \<Rightarrow> (Inr (f x, k_version c k s2), s2)
                 | (Some e, s2) \<Rightarrow> (Inl e, s2))))"

definition fresh_report :: "okey \<Rightarrow> model_report" where
  "fresh_report k =
     \<lparr>mr_meta = \<lparr>om_name = snd k, om_namespace = fst k, om_uid = [], om_labels = [], om_annotations = [],
        om_owner = None, om_created = 0, om_deleted = None\<rparr>,
      mr_spec = \<lparr>rs_model = [], rs_version = [],
        rs_artifact = \<lparr>ar_uri = [], ar_digest = [], ar_media_type = [], ar_format = [], ar_size = None\<rparr>,
        rs_scan_ref = []\<rparr>,
      mr_status = \<lparr>rt_verdict = [], rt_risk = 0, rt_malware = [], rt_secrets = [], rt_cves = no_counts,
        rt_unexamined = no_counts, rt_sbom_ref = [], rt_aibom_ref = [], rt_signature_verified = False,
        rt_scanners = [], rt_last_scan = None, rt_environments = []\<rparr>\<rparr>"

definition scanned_artifact :: "artifact_scan \<Rightarrow> artifact_ref" where
  "scanned_artifact scan =
     (let artifact = ss_artifact (as_spec scan); digest = st_digest (as_status scan)
      in if digest \<noteq> [] then artifact\<lparr>ar_digest := digest\<rparr> else artifact)"

definition describe_scan :: "artifact_scan \<Rightarrow> model_report \<Rightarrow> model_report" where
  "describe_scan scan report =
     report\<lparr>mr_spec := \<lparr>rs_model = ss_model (as_spec scan), rs_version = ss_version (as_spec scan),
         rs_artifact = scanned_artifact scan, rs_scan_ref = om_name (as_meta scan)\<rparr>,
       mr_meta := (mr_meta report)\<lparr>om_labels :=
         sm_put label_model (sanitize_label (ss_model (as_spec scan)))
           (sm_put label_managed_by manager_name (om_labels (mr_meta report)))\<rparr>\<rparr>"

definition report_verdict :: "go_time \<Rightarrow> artifact_scan \<Rightarrow> evaluation \<Rightarrow> model_report \<Rightarrow> model_report" where
  "report_verdict now scan ev report =
     (let results = st_results (as_status scan) in
      report\<lparr>mr_status := (mr_status report)\<lparr>
        rt_verdict := ev_verdict ev, rt_risk := ev_risk ev, rt_malware := ev_malware ev,
        rt_secrets := ev_secrets ev, rt_cves := from_counts (ev_cves ev),
        rt_unexamined := total_unexamined results, rt_signature_verified := ev_signature_verified ev,
        rt_scanners := results, rt_last_scan := Some now, rt_sbom_ref := sbom_ref results,
        rt_aibom_ref := ref_for_category results AIBOM\<rparr>\<rparr>)"

definition upsert_model_report ::
    "('s, 'j, 'e) scan_ctl \<Rightarrow> artifact_scan \<Rightarrow> evaluation \<Rightarrow> 's \<Rightarrow> scan_error option \<times> 's" where
  "upsert_model_report C scan ev s =
     (if ss_model (as_spec scan) = [] \<or> ss_version (as_spec scan) = [] then (None, s)
      else
        (let k = (om_namespace (as_meta scan),
                  model_report_name (sc_digest C) (ss_model (as_spec scan)) (ss_version (as_spec scan)))
         in case create_or_update (sc_models C) k (fresh_report k) (describe_scan scan) s of
              (Inl e, s1) \<Rightarrow> (Some (UpsertReport e), s1)
            | (Inr (report, v), s1) \<Rightarrow>
                (case sc_now C s1 of (now, s2) \<Rightarrow>
                 case k_update (sc_models C) k (report_verdict now scan ev report, v) s2 of
                   (None, s3) \<Rightarrow> (None, s3)
                 | (Some e, s3) \<Rightarrow> (Some (ReportStatus e), s3))))"

section \<open>Recording a verdict\<close>

definition verdict_event :: "go_time \<Rightarrow> artifact_scan \<Rightarrow> evaluation \<Rightarrow> audit_record" where
  "verdict_event now scan ev =
     (let sp = as_spec scan;
          digest = (if st_digest (as_status scan) = [] then ar_digest (ss_artifact sp) else st_digest (as_status scan));
          rec = verdict_issued now (ss_model sp) (ss_version sp) (ev_verdict ev) (ev_risk ev) digest;
          d = ar_detail rec;
          d = (if ss_trigger sp \<noteq> [] then sm_put ''trigger'' (ss_trigger sp) d else d);
          d = (if ss_triggered_by sp \<noteq> [] then sm_put ''triggeredBy'' (ss_triggered_by sp) d else d)
      in rec\<lparr>ar_detail := d\<rparr>)"

definition record_verdict :: "('s, 'j, 'e) scan_ctl \<Rightarrow> artifact_scan \<Rightarrow> evaluation \<Rightarrow> 's \<Rightarrow> 's" where
  "record_verdict C scan ev s =
     (case sc_append C of
        None \<Rightarrow> s
      | Some append_to \<Rightarrow> (case sc_now C s of (now, s1) \<Rightarrow> snd (append_to (verdict_event now scan ev) s1)))"

section \<open>Reconciling\<close>

type_synonym scan_result = "scan_error reconciled"

definition fail_scan :: "('s, 'j, 'e) scan_ctl \<Rightarrow> artifact_scan \<Rightarrow> nat \<Rightarrow> string \<Rightarrow> 's \<Rightarrow> scan_result \<times> 's" where
  "fail_scan C scan rv msg s =
     (case sc_now C s of (now, s1) \<Rightarrow>
      case k_update (sc_scans C) (scan_key scan)
             (scan\<lparr>as_status := (as_status scan)\<lparr>st_phase := ''Failed'', st_message := msg,
                st_completed := Some now, st_verdict := verdict_review_required\<rparr>\<rparr>, rv) s1 of
        (None, s2) \<Rightarrow> (Done, s2)
      | (Some e, s2) \<Rightarrow> (Failing (ScanClient e), s2))"

definition reevaluate :: "('s, 'j, 'e) scan_ctl \<Rightarrow> artifact_scan \<Rightarrow> nat \<Rightarrow> 's \<Rightarrow> scan_result \<times> 's" where
  "reevaluate C scan rv s =
     (let st = as_status scan in
      if st_results st = [] then (Done, s)
      else
        (case load_policy C scan s of
           (Inl e, s1) \<Rightarrow> (Failing e, s1)
         | (Inr pol, s1) \<Rightarrow>
             (case load_exceptions C scan s1 of
                (Inl e, s2) \<Rightarrow> (Failing e, s2)
              | (Inr exs, s2) \<Rightarrow>
                  (case sc_now C s2 of (now, s3) \<Rightarrow>
                   let ev = evaluate (sc_gate C) (st_results st) (ss_artifact (as_spec scan)) pol exs now;
                       msg = summarize (sc_violation_str C) ev;
                       msg' = (if ev_waived ev \<noteq> []
                               then msg @ '' ('' @ nat_str (length (ev_waived ev)) @ '' violation(s) waived by exception)''
                               else msg);
                       scan' = scan\<lparr>as_status := st\<lparr>st_verdict := ev_verdict ev, st_risk := Some (ev_risk ev),
                                  st_message := msg'\<rparr>\<rparr>
                   in if ev_verdict ev = st_verdict st \<and> st_risk st = Some (ev_risk ev) then (Done, s3)
                      else
                        (case k_update (sc_scans C) (scan_key scan) (scan', rv) s3 of
                           (Some e, s4) \<Rightarrow> (Failing (ScanClient e), s4)
                         | (None, s4) \<Rightarrow>
                             (case upsert_model_report C scan' ev s4 of
                                (Some e, s5) \<Rightarrow> (Failing e, s5)
                              | (None, s5) \<Rightarrow> (Done, s5)))))))"

text \<open>The part of a reconcile after every scanner has finished.\<close>

definition complete_scan :: "('s, 'j, 'e) scan_ctl \<Rightarrow> artifact_scan \<Rightarrow> nat \<Rightarrow> scan_policy option \<Rightarrow> 's \<Rightarrow> scan_result \<times> 's" where
  "complete_scan C scan rv pol s =
     (case load_exceptions C scan s of
        (Inl e, s1) \<Rightarrow> (Failing e, s1)
      | (Inr exs, s1) \<Rightarrow>
          (case sc_now C s1 of (t, s2) \<Rightarrow>
           case sc_now C s2 of (now, s3) \<Rightarrow>
           let ev = evaluate (sc_gate C) (st_results (as_status scan)) (ss_artifact (as_spec scan)) pol exs t;
               scan' = scan\<lparr>as_status := (as_status scan)\<lparr>st_phase := ''Completed'', st_completed := Some now,
                          st_risk := Some (ev_risk ev), st_verdict := ev_verdict ev,
                          st_message := summarize (sc_violation_str C) ev\<rparr>\<rparr>
           in case k_update (sc_scans C) (scan_key scan) (scan', rv) s3 of
                (Some e, s4) \<Rightarrow> (Failing (ScanClient e), s4)
              | (None, s4) \<Rightarrow>
                  (case upsert_model_report C scan' ev (record_verdict C scan' ev s4) of
                     (Some e, s5) \<Rightarrow> (Failing e, s5)
                   | (None, s5) \<Rightarrow> (Done, s5))))"

definition default_scan_deadline :: duration where "default_scan_deadline = 2 * hour"

definition scan_deadline :: "('s, 'j, 'e) scan_ctl \<Rightarrow> duration" where
  "scan_deadline C = (if sc_deadline C > 0 then sc_deadline C else default_scan_deadline)"

definition wait_scan :: "('s, 'j, 'e) scan_ctl \<Rightarrow> artifact_scan \<Rightarrow> nat \<Rightarrow> 's \<Rightarrow> scan_result \<times> 's" where
  "wait_scan C scan rv s =
     (case k_update (sc_scans C) (scan_key scan) (scan, rv) s of
        (Some e, s1) \<Rightarrow> (Failing (ScanClient e), s1)
      | (None, s1) \<Rightarrow> (RequeueAfter (15 * second), s1))"

definition overdue_message :: "duration \<Rightarrow> nat \<Rightarrow> string" where
  "overdue_message deadline pending =
     ''scan did not complete within '' @ duration_str deadline @ '' ('' @
     nat_str pending @ '' scanner(s) still pending); '' @ ''check the scan job logs and the publish step's RBAC''"

definition still_pending :: "('s, 'j, 'e) scan_ctl \<Rightarrow> artifact_scan \<Rightarrow> nat \<Rightarrow> nat \<Rightarrow> 's \<Rightarrow> scan_result \<times> 's" where
  "still_pending C scan rv pending s =
     (case st_started (as_status scan) of
        None \<Rightarrow> wait_scan C scan rv s
      | Some started \<Rightarrow>
          (case sc_now C s of (now, s1) \<Rightarrow>
             if time_sub now started > scan_deadline C
             then fail_scan C scan rv (overdue_message (scan_deadline C) pending) s1
             else wait_scan C scan rv s1))"

definition await_results ::
    "('s, 'j, 'e) scan_ctl \<Rightarrow> artifact_scan \<Rightarrow> nat \<Rightarrow> scan_policy option \<Rightarrow> string list \<Rightarrow> 's \<Rightarrow> scan_result \<times> 's" where
  "await_results C scan rv pol wanted s =
     (case collect_results C scan wanted s of
        (Inl e, s1) \<Rightarrow> (Failing e, s1)
      | (Inr (results, pending, digest), s1) \<Rightarrow>
          (let scan' = scan\<lparr>as_status := (as_status scan)\<lparr>st_results := results, st_digest := digest\<rparr>\<rparr>
           in if pending > 0 then still_pending C scan' rv pending s1 else complete_scan C scan' rv pol s1))"

definition run_scan :: "('s, 'j, 'e) scan_ctl \<Rightarrow> artifact_scan \<Rightarrow> nat \<Rightarrow> 's \<Rightarrow> scan_result \<times> 's" where
  "run_scan C scan rv s =
     (case load_policy C scan s of
        (Inl e, s1) \<Rightarrow> (Failing e, s1)
      | (Inr pol, s1) \<Rightarrow>
          (case resolve_scanners scan pol of
             Inl e \<Rightarrow> fail_scan C scan rv (''cannot resolve scanner set: '' @ e) s1
           | Inr wanted \<Rightarrow>
               (if wanted = [] then fail_scan C scan rv ''policy selected no scanners'' s1
                else
                  (let s2 = (if ''provenance'' \<in> set wanted
                             then snd (sync_trust_policy (sc_trust C) (om_namespace (as_meta scan)) s1) else s1)
                   in case ensure_jobs C scan pol wanted s2 of
                        (Some e, s3) \<Rightarrow> (Failing e, s3)
                      | (None, s3) \<Rightarrow>
                          (if st_phase (as_status scan) = ''Pending''
                           then (let scan' = scan\<lparr>as_status := (as_status scan)\<lparr>st_phase := ''Scanning''\<rparr>\<rparr>
                                 in case k_update (sc_scans C) (scan_key scan) (scan', rv) s3 of
                                      (Some e, s4) \<Rightarrow> (Failing (ScanClient e), s4)
                                    | (None, s4) \<Rightarrow>
                                        await_results C scan' (k_version (sc_scans C) (scan_key scan) s4) pol wanted s4)
                           else await_results C scan rv pol wanted s3)))))"

definition start_scan :: "('s, 'j, 'e) scan_ctl \<Rightarrow> artifact_scan \<Rightarrow> nat \<Rightarrow> 's \<Rightarrow> scan_result \<times> 's" where
  "start_scan C scan rv s =
     (case sc_now C s of (now, s1) \<Rightarrow>
      case k_update (sc_scans C) (scan_key scan)
             (scan\<lparr>as_status := (as_status scan)\<lparr>st_phase := ''Pending'', st_started := Some now\<rparr>\<rparr>, rv) s1 of
        (Some e, s2) \<Rightarrow> (Failing (ScanClient e), s2)
      | (None, s2) \<Rightarrow> (Requeue, s2))"

definition scan_reconcile :: "('s, 'j, 'e) scan_ctl \<Rightarrow> okey \<Rightarrow> 's \<Rightarrow> scan_result \<times> 's" where
  "scan_reconcile C key s =
     (case k_get (sc_scans C) key s of
        (Inl e, s1) \<Rightarrow> (if e = NotFound then Done else Failing (ScanClient e), s1)
      | (Inr (scan, rv), s1) \<Rightarrow>
          (if om_deleted (as_meta scan) \<noteq> None then (Done, s1)
           else if st_phase (as_status scan) = [] then start_scan C scan rv s1
           else if st_phase (as_status scan) = ''Completed'' \<or> st_phase (as_status scan) = ''Failed''
           then reevaluate C scan rv s1
           else run_scan C scan rv s1))"

section \<open>What wakes a scan\<close>

definition map_exception_to_scans ::
    "('s, 'j, 'e) scan_ctl \<Rightarrow> artifact_exception \<Rightarrow> 's \<Rightarrow> okey list \<times> 's" where
  "map_exception_to_scans C ex s =
     (let ns = om_namespace (ae_meta ex) in
      case list_plain (sc_scans C) ns s of
        (Inl e, s1) \<Rightarrow> ([], s1)
      | (Inr xs, s1) \<Rightarrow>
          (map (\<lambda>x. (om_namespace (as_meta (snd x)), om_name (as_meta (snd x))))
             (filter (\<lambda>x. ss_model (as_spec (snd x)) = ex_model (ae_spec ex) \<and>
                ss_version (as_spec (snd x)) = ex_version (ae_spec ex)) xs), s1))"

definition map_report_to_scan :: "artifact_scan_report \<Rightarrow> okey list" where
  "map_report_to_scan report =
     (if sp_scan_ref report = [] then [] else [(om_namespace (sp_meta report), sp_scan_ref report)])"

end
