(* ===== verification/Scan_Safety.thy ===== *)
theory Scan_Safety
  imports Artifact_Scan
begin

text \<open>
  What the scan controller guarantees: which moves it makes on a stored scan, that a verdict rests on
  finished scanners only, and what the model's report says after it was written.
\<close>

section \<open>Calls that leave the scans alone\<close>

text \<open>Every call on another kind of object is, for the scans, one step of the environment.\<close>

definition client_within :: "('s \<Rightarrow> 's \<Rightarrow> bool) \<Rightarrow> ('s, 'o) kclient \<Rightarrow> bool" where
  "client_within env c \<longleftrightarrow>
     (\<forall>k s. env s (snd (k_get c k s))) \<and> (\<forall>k x s. env s (snd (k_create c k x s))) \<and>
     (\<forall>k x s. env s (snd (k_update c k x s))) \<and> (\<forall>ns s. env s (snd (k_list c ns s)))"

definition scan_world ::
    "('s \<Rightarrow> artifact_scan view) \<Rightarrow> ('s \<Rightarrow> 's \<Rightarrow> bool) \<Rightarrow> ('s \<Rightarrow> 's \<Rightarrow> bool) \<Rightarrow> ('s \<Rightarrow> 's \<Rightarrow> bool)
       \<Rightarrow> ('s, 'j, 'e) scan_ctl \<Rightarrow> bool"
where
  "scan_world vs env hist fs C \<longleftrightarrow>
     kclient_ok vs fs env (sc_scans C) \<and> version_law vs hist \<and> env \<le> hist \<and> fs \<le> hist \<and>
     transp hist \<and> reflp hist \<and>
     client_within env (sc_policies C) \<and> client_within env (sc_exceptions C) \<and>
     client_within env (sc_scan_reports C) \<and> client_within env (sc_models C) \<and> client_within env (sc_jobs C) \<and>
     client_within env (ts_publishers (sc_trust C)) \<and> client_within env (ts_maps (sc_trust C)) \<and>
     (\<forall>s. env s (snd (sc_now C s))) \<and>
     (\<forall>append_to ev s. sc_append C = Some append_to \<longrightarrow> env s (snd (append_to ev s)))"

lemma client_withinD:
  assumes "client_within env c"
  shows "k_get c k s = (g, s') \<Longrightarrow> env s s'" "k_create c k x s = (r, s') \<Longrightarrow> env s s'"
    "k_update c k y s = (r, s') \<Longrightarrow> env s s'" "k_list c ns s = (l, s') \<Longrightarrow> env s s'"
proof -
  have a: "env s (snd (k_get c k s))" "env s (snd (k_create c k x s))" "env s (snd (k_update c k y s))"
    "env s (snd (k_list c ns s))" using assms unfolding client_within_def by blast+
  show "k_get c k s = (g, s') \<Longrightarrow> env s s'" using a(1) by simp
  show "k_create c k x s = (r, s') \<Longrightarrow> env s s'" using a(2) by simp
  show "k_update c k y s = (r, s') \<Longrightarrow> env s s'" using a(3) by simp
  show "k_list c ns s = (l, s') \<Longrightarrow> env s s'" using a(4) by simp
qed

lemma list_plain_within: "client_within env c \<Longrightarrow> list_plain c ns s = (q, s') \<Longrightarrow> env s s'"
  by (auto simp: list_plain_def split: prod.splits sum.splits dest: client_withinD(4))

lemma scan_worldD:
  assumes "scan_world vs env hist fs C"
  shows "kclient_ok vs fs env (sc_scans C)" "version_law vs hist" "env \<le> hist" "fs \<le> hist" "transp hist" "reflp hist"
    and "client_within env (sc_policies C)" "client_within env (sc_exceptions C)"
      "client_within env (sc_scan_reports C)" "client_within env (sc_models C)" "client_within env (sc_jobs C)"
      "client_within env (ts_publishers (sc_trust C))" "client_within env (ts_maps (sc_trust C))"
    and "sc_now C s = (now, s') \<Longrightarrow> env s s'"
    and "sc_append C = Some append_to \<Longrightarrow> append_to ev s = (q, s') \<Longrightarrow> env s s'"
proof -
  show "kclient_ok vs fs env (sc_scans C)" "version_law vs hist" "env \<le> hist" "fs \<le> hist" "transp hist" "reflp hist"
    "client_within env (sc_policies C)" "client_within env (sc_exceptions C)"
    "client_within env (sc_scan_reports C)" "client_within env (sc_models C)" "client_within env (sc_jobs C)"
    "client_within env (ts_publishers (sc_trust C))" "client_within env (ts_maps (sc_trust C))"
    using assms unfolding scan_world_def by blast+
  have a: "env s (snd (sc_now C s))" "\<And>append_to. sc_append C = Some append_to \<Longrightarrow> env s (snd (append_to ev s))"
    using assms unfolding scan_world_def by blast+
  show "sc_now C s = (now, s') \<Longrightarrow> env s s'" using a(1) by simp
  show "sc_append C = Some append_to \<Longrightarrow> append_to ev s = (q, s') \<Longrightarrow> env s s'" using a(2) [of append_to] by simp
qed

lemma env_step [intro]: "env a b \<Longrightarrow> env\<^sup>*\<^sup>* a b"
  by (rule r_into_rtranclp)

lemma load_policy_env:
  "scan_world vs env hist fs C \<Longrightarrow> load_policy C scan s = (r, s') \<Longrightarrow> env\<^sup>*\<^sup>* s s'"
  by (auto simp: load_policy_def split: if_splits prod.splits sum.splits dest!: client_withinD(1) [OF scan_worldD(7)])

lemma load_exceptions_env:
  "scan_world vs env hist fs C \<Longrightarrow> load_exceptions C scan s = (r, s') \<Longrightarrow> env\<^sup>*\<^sup>* s s'"
  by (auto simp: load_exceptions_def split: prod.splits sum.splits dest!: list_plain_within [OF scan_worldD(8)])

lemma find_job_env: "client_within env c \<Longrightarrow> find_job c ks s = (r, s') \<Longrightarrow> env\<^sup>*\<^sup>* s s'"
proof (induction ks arbitrary: s)
  case Nil
  then show ?case by simp
next
  case (Cons k ks)
  obtain g s1 where g: "k_get c k s = (g, s1)" by force
  have "env s s1" by (rule client_withinD(1) [OF Cons.prems(1) g])
  moreover have "s1 = s' \<or> find_job c ks s1 = (r, s')"
    using Cons.prems(2) g by (auto split: sum.splits if_splits)
  ultimately show ?case using Cons.IH [OF Cons.prems(1)] by (auto intro: converse_rtranclp_into_rtranclp)
qed

lemma find_scan_job_env:
  "scan_world vs env hist fs C \<Longrightarrow> find_scan_job C ns scan n s = (r, s') \<Longrightarrow> env\<^sup>*\<^sup>* s s'"
  unfolding find_scan_job_def by (rule find_job_env [OF scan_worldD(11)])

lemma ensure_scan_job_env:
  assumes w: "scan_world vs env hist fs C" and r: "ensure_scan_job C scan pol n s = (r, s')"
  shows "env\<^sup>*\<^sup>* s s'"
proof (cases "get_scanner catalog n")
  case (Inl e)
  then show ?thesis using r by (simp add: ensure_scan_job_def)
next
  case (Inr d)
  obtain f s1 where f: "find_scan_job C (om_namespace (as_meta scan)) (om_name (as_meta scan)) n s = (f, s1)" by force
  have "env\<^sup>*\<^sup>* s s1" by (rule find_scan_job_env [OF w f])
  moreover have "s' = s1 \<or> (\<exists>k j q. k_create (sc_jobs C) k j s1 = (q, s'))"
    using r f Inr by (auto simp: ensure_scan_job_def Let_def split: sum.splits option.splits prod.splits)
  ultimately show ?thesis
    using client_withinD(2) [OF scan_worldD(11) [OF w]] by (metis rtranclp.rtrancl_into_rtrancl)
qed

lemma ensure_jobs_env:
  assumes w: "scan_world vs env hist fs C"
  shows "ensure_jobs C scan pol ns s = (r, s') \<Longrightarrow> env\<^sup>*\<^sup>* s s'"
proof (induction ns arbitrary: s)
  case Nil
  then show ?case by simp
next
  case (Cons n ns)
  obtain f s1 where f: "ensure_scan_job C scan pol n s = (f, s1)" by force
  have "s1 = s' \<or> ensure_jobs C scan pol ns s1 = (r, s')" using Cons.prems f by (auto split: option.splits)
  then show ?case using ensure_scan_job_env [OF w f] Cons.IH by (metis rtranclp_trans)
qed

lemma read_reports_env:
  assumes w: "scan_world vs env hist fs C"
  shows "read_reports C scan xs acc s = (r, s') \<Longrightarrow> env\<^sup>*\<^sup>* s s'"
proof (induction xs arbitrary: acc s)
  case Nil
  then show ?case by simp
next
  case (Cons x xs)
  obtain f s1 where f: "adopt_report C scan x s = (f, s1)" by force
  have "env\<^sup>*\<^sup>* s s1"
    using f by (auto simp: adopt_report_def split: prod.splits option.splits if_splits
        dest!: client_withinD(3) [OF scan_worldD(9) [OF w]])
  moreover have "s1 = s' \<or> (\<exists>acc'. read_reports C scan xs acc' s1 = (r, s'))"
    using Cons.prems f by (auto simp: Let_def split: option.splits prod.splits)
  ultimately show ?case using Cons.IH by (metis rtranclp_trans)
qed

lemma read_wanted_env:
  assumes w: "scan_world vs env hist fs C"
  shows "read_wanted C scan by ns s = (r, s') \<Longrightarrow> env\<^sup>*\<^sup>* s s'"
proof (induction ns arbitrary: s r)
  case Nil
  then show ?case by simp
next
  case (Cons n ns)
  show ?case
  proof (cases "by n")
    case (Some x)
    then have "\<exists>r'. read_wanted C scan by ns s = (r', s')" using Cons.prems by (auto split: prod.splits sum.splits)
    then show ?thesis using Cons.IH by blast
  next
    case None
    obtain f s1 where f: "find_scan_job C (om_namespace (as_meta scan)) (om_name (as_meta scan)) n s = (f, s1)" by force
    have "s1 = s' \<or> (\<exists>r'. read_wanted C scan by ns s1 = (r', s'))"
      using Cons.prems f None by (auto simp: Let_def split: prod.splits sum.splits)
    then show ?thesis using find_scan_job_env [OF w f] Cons.IH by (metis rtranclp_trans)
  qed
qed

lemma collect_results_env:
  assumes w: "scan_world vs env hist fs C" and r: "collect_results C scan wanted s = (r, s')"
  shows "env\<^sup>*\<^sup>* s s'"
proof -
  obtain l s1 where l: "k_list (sc_scan_reports C) (om_namespace (as_meta scan)) s = (l, s1)" by force
  have e: "env s s1" by (rule client_withinD(4) [OF scan_worldD(9) [OF w] l])
  show ?thesis
  proof (cases l)
    case (Inl err)
    then show ?thesis using r l e by (auto simp: collect_results_def)
  next
    case (Inr xs)
    define mine where "mine = filter (\<lambda>x. map_of (om_labels (sp_meta (fst (snd x)))) label_scan
      = Some (om_name (as_meta scan))) xs"
    obtain f s2 where f: "read_reports C scan mine (Map.empty, st_digest (as_status scan)) s1 = (f, s2)" by force
    have "s' = s2 \<or> (\<exists>by r'. read_wanted C scan by wanted s2 = (r', s'))"
      using r l f Inr by (auto simp: collect_results_def Let_def mine_def split: sum.splits prod.splits)
    then show ?thesis
      using e read_reports_env [OF w f] read_wanted_env [OF w]
      by (metis converse_rtranclp_into_rtranclp rtranclp_trans)
  qed
qed

lemma create_or_update_env:
  assumes c: "client_within env c" and r: "create_or_update c k x f s = (r, s')"
  shows "env\<^sup>*\<^sup>* s s'"
proof -
  obtain g s1 where g: "k_get c k s = (g, s1)" by force
  have "s' = s1 \<or> (\<exists>q. k_create c k (f x) s1 = (q, s')) \<or> (\<exists>y q. k_update c k y s1 = (q, s'))"
    using r g by (auto simp: create_or_update_def split: sum.splits prod.splits option.splits if_splits)
  then show ?thesis
    using client_withinD(1) [OF c g] client_withinD(2,3) [OF c] by (metis r_into_rtranclp rtranclp.rtrancl_into_rtrancl)
qed

lemma upsert_env:
  assumes w: "scan_world vs env hist fs C" and r: "upsert_model_report C scan ev s = (r, s')"
  shows "env\<^sup>*\<^sup>* s s'"
proof (cases "ss_model (as_spec scan) = [] \<or> ss_version (as_spec scan) = []")
  case True
  then show ?thesis using r by (simp add: upsert_model_report_def)
next
  case False
  define k where "k = (om_namespace (as_meta scan),
    model_report_name (sc_digest C) (ss_model (as_spec scan)) (ss_version (as_spec scan)))"
  obtain g s1 where g: "create_or_update (sc_models C) k (fresh_report k) (describe_scan scan) s = (g, s1)" by force
  have e1: "env\<^sup>*\<^sup>* s s1" by (rule create_or_update_env [OF scan_worldD(10) [OF w] g])
  obtain now s2 where n: "sc_now C s1 = (now, s2)" by force
  have e2: "env\<^sup>*\<^sup>* s s2" using e1 scan_worldD(14) [OF w n] by (rule rtranclp.rtrancl_into_rtrancl)
  have "s' = s1 \<or> (\<exists>y q. k_update (sc_models C) k y s2 = (q, s'))"
    using r False g n by (auto simp: upsert_model_report_def Let_def k_def split: sum.splits prod.splits option.splits)
  then show ?thesis
    using e1 e2 client_withinD(3) [OF scan_worldD(10) [OF w]] by (metis rtranclp.rtrancl_into_rtrancl)
qed

lemma record_verdict_env:
  assumes w: "scan_world vs env hist fs C"
  shows "env\<^sup>*\<^sup>* s (record_verdict C scan ev s)"
proof (cases "sc_append C")
  case None
  then show ?thesis by (simp add: record_verdict_def)
next
  case (Some append_to)
  obtain now s1 where n: "sc_now C s = (now, s1)" by force
  obtain q s2 where a: "append_to (verdict_event now scan ev) s1 = (q, s2)" by force
  have "env s s1" by (rule scan_worldD(14) [OF w n])
  moreover have "env s1 s2" by (rule scan_worldD(15) [OF w Some a])
  ultimately show ?thesis by (simp add: record_verdict_def Some n a)
qed

lemma sync_trust_env:
  assumes w: "scan_world vs env hist fs C"
  shows "env\<^sup>*\<^sup>* s (snd (sync_trust_policy (sc_trust C) ns s))"
proof -
  let ?T = "sc_trust C"
  obtain l s1 where l: "list_plain (ts_publishers ?T) ns s = (l, s1)" by force
  obtain g s2 where g: "k_get (ts_maps ?T) (ns, trust_policy_map) s1 = (g, s2)" by force
  have e1: "env s s1" by (rule list_plain_within [OF scan_worldD(12) [OF w] l])
  have e2: "env s1 s2" by (rule client_withinD(1) [OF scan_worldD(13) [OF w] g])
  define s' where "s' = snd (sync_trust_policy ?T ns s)"
  have "s' = s1 \<or> s' = s2 \<or> (\<exists>k x q. k_create (ts_maps ?T) k x s2 = (q, s')) \<or> (\<exists>k x q. k_update (ts_maps ?T) k x s2 = (q, s'))"
    unfolding s'_def using l g
    by (auto simp: sync_trust_policy_def Let_def split: sum.splits prod.splits if_splits)
  then show ?thesis unfolding s'_def [symmetric]
    using e1 e2 client_withinD(2,3) [OF scan_worldD(13) [OF w]]
    by (metis r_into_rtranclp rtranclp.rtrancl_into_rtrancl)
qed

section \<open>The moves of a scan\<close>

definition open_phase :: "string \<Rightarrow> bool" where
  "open_phase ph \<longleftrightarrow> ph \<notin> {[], ''Completed'', ''Failed''}"

text \<open>The state machine of a scan, one rule for each kind of move.\<close>

inductive scan_move :: "('s, 'j, 'e) scan_ctl \<Rightarrow> artifact_scan \<Rightarrow> artifact_scan \<Rightarrow> bool" for C where
  Start: "st_phase (as_status scan) = [] \<Longrightarrow>
    scan_move C scan (scan\<lparr>as_status := (as_status scan)\<lparr>st_phase := ''Pending'', st_started := Some now\<rparr>\<rparr>)"
| Launch: "st_phase (as_status scan) = ''Pending'' \<Longrightarrow>
    scan_move C scan (scan\<lparr>as_status := (as_status scan)\<lparr>st_phase := ''Scanning''\<rparr>\<rparr>)"
| Wait: "open_phase (st_phase (as_status scan)) \<Longrightarrow>
    scan_move C scan (scan\<lparr>as_status := (as_status scan)\<lparr>st_results := rs, st_digest := d\<rparr>\<rparr>)"
| Fail: "open_phase (st_phase (as_status scan)) \<Longrightarrow>
    scan_move C scan (scan\<lparr>as_status := (as_status scan)\<lparr>st_results := rs, st_digest := d, st_phase := ''Failed'',
      st_message := msg, st_completed := Some now, st_verdict := verdict_review_required\<rparr>\<rparr>)"
| Complete: "open_phase (st_phase (as_status scan)) \<Longrightarrow>
    ev = evaluate (sc_gate C) rs (ss_artifact (as_spec scan)) pol exs t \<Longrightarrow>
    scan_move C scan (scan\<lparr>as_status := (as_status scan)\<lparr>st_results := rs, st_digest := d, st_phase := ''Completed'',
      st_completed := Some now, st_risk := Some (ev_risk ev), st_verdict := ev_verdict ev,
      st_message := summarize (sc_violation_str C) ev\<rparr>\<rparr>)"
| Revise: "st_phase (as_status scan) \<in> {''Completed'', ''Failed''} \<Longrightarrow> st_results (as_status scan) \<noteq> [] \<Longrightarrow>
    ev = evaluate (sc_gate C) (st_results (as_status scan)) (ss_artifact (as_spec scan)) pol exs t \<Longrightarrow>
    scan_move C scan (scan\<lparr>as_status := (as_status scan)\<lparr>st_verdict := ev_verdict ev, st_risk := Some (ev_risk ev),
      st_message := msg\<rparr>\<rparr>)"

lemma scan_move_key: "scan_move C a b \<Longrightarrow> scan_key b = scan_key a"
  by (induction rule: scan_move.induct) (simp_all add: scan_key_def)

text \<open>A stored scan, under its own name.\<close>

definition scan_at :: "('s \<Rightarrow> artifact_scan view) \<Rightarrow> 's \<Rightarrow> okey \<Rightarrow> artifact_scan \<Rightarrow> nat \<Rightarrow> bool" where
  "scan_at vs s key scan rv \<longleftrightarrow> vs s key = Some (scan, rv) \<and> scan_key scan = key"

text \<open>One step of the cluster while the controller runs.\<close>

definition scan_step ::
    "('s \<Rightarrow> artifact_scan view) \<Rightarrow> ('s \<Rightarrow> 's \<Rightarrow> bool) \<Rightarrow> ('s, 'j, 'e) scan_ctl \<Rightarrow> okey \<Rightarrow> 's \<Rightarrow> 's \<Rightarrow> bool" where
  "scan_step vs env C key a b \<longleftrightarrow>
     env a b \<or> vs b = vs a \<or>
     (\<exists>scan scan' rv rv'. vs a key = Some (scan, rv) \<and> scan_move C scan scan' \<and> vs b = (vs a)(key \<mapsto> (scan', rv')))"

lemma env_scan_steps: "env\<^sup>*\<^sup>* a b \<Longrightarrow> (scan_step vs env C key)\<^sup>*\<^sup>* a b"
  by (erule rtranclp_mono [THEN predicate2D, rotated]) (auto simp: scan_step_def)

lemma scan_update_steps:
  assumes w: "scan_world vs env hist fs C"
    and u: "k_update (sc_scans C) (scan_key scan) (scan', rv) s = (r, s')"
    and read: "hist t0 s" "scan_at vs t0 key scan rv" and move: "scan_move C scan scan'"
  shows "(scan_step vs env C key)\<^sup>*\<^sup>* s s'" and "hist t0 s'"
    and "r = None \<Longrightarrow> scan_at vs s' key scan' (k_version (sc_scans C) key s')"
proof -
  note d = scan_worldD [OF w]
  have k: "scan_key scan = key" and stored: "vs t0 key = Some (scan, rv)" using read(2) by (simp_all add: scan_at_def)
  have k': "scan_key scan' = key" using scan_move_key [OF move] k by simp
  note u' = u [unfolded k]
  obtain t where t: "env s t" "fs t s'"
    and c: "vs s' = vs t \<and> r \<noteq> None \<or> vs t key = Some (scan, rv) \<and> (\<exists>rv'. vs s' = (vs t)(key \<mapsto> (scan', rv')))"
    using update_writes [OF d(1) u' d(2,3,5) read(1) stored] by blast
  have "scan_step vs env C key t s'" using c move unfolding scan_step_def by blast
  moreover have "scan_step vs env C key s t" using t(1) by (simp add: scan_step_def)
  ultimately show "(scan_step vs env C key)\<^sup>*\<^sup>* s s'" by simp
  have "hist s t" "hist t s'" using t d(3,4) by blast+
  then show "hist t0 s'" using read(1) d(5) by (blast dest: transpD)
  show "r = None \<Longrightarrow> scan_at vs s' key scan' (k_version (sc_scans C) key s')"
    using reply_version(2) [OF d(1)] u' k' unfolding scan_at_def by blast
qed

text \<open>A call of the clock before the write changes nothing of this.\<close>

lemma scan_update_after_env:
  assumes w: "scan_world vs env hist fs C" and e: "env\<^sup>*\<^sup>* s0 s"
    and u: "k_update (sc_scans C) (scan_key scan) (scan', rv) s = (r, s')"
    and read: "hist t0 s0" "scan_at vs t0 key scan rv" and move: "scan_move C scan scan'"
  shows "(scan_step vs env C key)\<^sup>*\<^sup>* s0 s'" and "hist t0 s'"
    and "r = None \<Longrightarrow> scan_at vs s' key scan' (k_version (sc_scans C) key s')"
proof -
  note d = scan_worldD [OF w]
  have "hist s0 s" by (rule rtranclp_le [OF e d(3,5,6)])
  then have h: "hist t0 s" using read(1) d(5) by (blast dest: transpD)
  note st = scan_update_steps [OF w u h read(2) move]
  show "(scan_step vs env C key)\<^sup>*\<^sup>* s0 s'" by (rule rtranclp_trans [OF env_scan_steps [OF e] st(1)])
  show "hist t0 s'" by (rule st(2))
  show "r = None \<Longrightarrow> scan_at vs s' key scan' (k_version (sc_scans C) key s')" by (rule st(3))
qed

definition failed :: "string \<Rightarrow> go_time \<Rightarrow> artifact_scan \<Rightarrow> artifact_scan" where
  "failed msg now scan = scan\<lparr>as_status := (as_status scan)\<lparr>st_phase := ''Failed'', st_message := msg,
     st_completed := Some now, st_verdict := verdict_review_required\<rparr>\<rparr>"

lemma fail_scan_steps:
  assumes w: "scan_world vs env hist fs C" and r: "fail_scan C scan0 rv msg s = (res, s')"
    and k: "scan_key scan0 = scan_key scan"
    and read: "hist t0 s" "scan_at vs t0 key scan rv" and move: "\<And>now. scan_move C scan (failed msg now scan0)"
  shows "(scan_step vs env C key)\<^sup>*\<^sup>* s s'"
proof -
  obtain now s1 where n: "sc_now C s = (now, s1)" by force
  have e: "env\<^sup>*\<^sup>* s s1" using scan_worldD(14) [OF w n] by (rule r_into_rtranclp)
  obtain q s2 where u: "k_update (sc_scans C) (scan_key scan) (failed msg now scan0, rv) s1 = (q, s2)" by force
  have "fail_scan C scan0 rv msg s = (case q of None \<Rightarrow> Done | Some x \<Rightarrow> Failing (ScanClient x), s2)"
    unfolding fail_scan_def n prod.case k failed_def [symmetric] u by (simp split: option.split)
  then have "s2 = s'" using r by simp
  then show ?thesis using scan_update_after_env(1) [OF w e u read move] by simp
qed

lemma start_scan_steps:
  assumes w: "scan_world vs env hist fs C" and r: "start_scan C scan rv s = (res, s')"
    and read: "hist t0 s" "scan_at vs t0 key scan rv" and ph: "st_phase (as_status scan) = []"
  shows "(scan_step vs env C key)\<^sup>*\<^sup>* s s'"
proof -
  obtain now s1 where n: "sc_now C s = (now, s1)" by force
  have e: "env\<^sup>*\<^sup>* s s1" using scan_worldD(14) [OF w n] by (rule r_into_rtranclp)
  define scan' where "scan' = scan\<lparr>as_status := (as_status scan)\<lparr>st_phase := ''Pending'', st_started := Some now\<rparr>\<rparr>"
  obtain q s2 where u: "k_update (sc_scans C) (scan_key scan) (scan', rv) s1 = (q, s2)" by force
  have "start_scan C scan rv s = (case q of None \<Rightarrow> Requeue | Some x \<Rightarrow> Failing (ScanClient x), s2)"
    unfolding start_scan_def n prod.case scan'_def [symmetric] u by (simp split: option.split)
  then have "s2 = s'" using r by simp
  moreover have "scan_move C scan scan'" unfolding scan'_def by (rule scan_move.Start [OF ph])
  ultimately show ?thesis using scan_update_after_env(1) [OF w e u read] by simp
qed

text \<open>Writing a verdict and then the report and the record.\<close>

lemma verdict_write_steps:
  assumes w: "scan_world vs env hist fs C"
    and u: "k_update (sc_scans C) (scan_key scan) (scan', rv) s = (q, s1)"
    and e0: "env\<^sup>*\<^sup>* s0 s" and read: "hist t0 s0" "scan_at vs t0 key scan rv" and move: "scan_move C scan scan'"
    and rest: "env\<^sup>*\<^sup>* s1 s'"
  shows "(scan_step vs env C key)\<^sup>*\<^sup>* s0 s'"
  by (rule rtranclp_trans [OF scan_update_after_env(1) [OF w e0 u read move] env_scan_steps [OF rest]])

lemma complete_scan_steps:
  assumes w: "scan_world vs env hist fs C"
    and r: "complete_scan C (scan\<lparr>as_status := (as_status scan)\<lparr>st_results := rs, st_digest := d\<rparr>\<rparr>) rv pol s = (res, s')"
    and read: "hist t0 s" "scan_at vs t0 key scan rv" and o: "open_phase (st_phase (as_status scan))"
  shows "(scan_step vs env C key)\<^sup>*\<^sup>* s s'"
proof -
  define scan0 where "scan0 = scan\<lparr>as_status := (as_status scan)\<lparr>st_results := rs, st_digest := d\<rparr>\<rparr>"
  obtain x s1 where x: "load_exceptions C scan0 s = (x, s1)" by force
  have e1: "env\<^sup>*\<^sup>* s s1" by (rule load_exceptions_env [OF w x])
  obtain t s2 where t: "sc_now C s1 = (t, s2)" by force
  obtain now s3 where n: "sc_now C s2 = (now, s3)" by force
  have e3: "env\<^sup>*\<^sup>* s s3"
    using e1 scan_worldD(14) [OF w t] scan_worldD(14) [OF w n] by (meson rtranclp.rtrancl_into_rtrancl)
  show ?thesis
  proof (cases x)
    case (Inl e)
    then have "s' = s1" using r x by (simp add: complete_scan_def scan0_def [symmetric])
    then show ?thesis using env_scan_steps [OF e1] by simp
  next
    case (Inr exs)
    define ev where "ev = evaluate (sc_gate C) rs (ss_artifact (as_spec scan)) pol exs t"
    define scan' where "scan' = scan\<lparr>as_status := (as_status scan)\<lparr>st_results := rs, st_digest := d,
      st_phase := ''Completed'', st_completed := Some now, st_risk := Some (ev_risk ev), st_verdict := ev_verdict ev,
      st_message := summarize (sc_violation_str C) ev\<rparr>\<rparr>"
    have move: "scan_move C scan scan'" unfolding scan'_def by (rule scan_move.Complete [OF o ev_def])
    obtain q s4 where u: "k_update (sc_scans C) (scan_key scan) (scan', rv) s3 = (q, s4)" by force
    obtain ue s5 where up: "upsert_model_report C scan' ev (record_verdict C scan' ev s4) = (ue, s5)" by force
    have sel: "st_results (as_status scan0) = rs" "ss_artifact (as_spec scan0) = ss_artifact (as_spec scan)"
      "scan_key scan0 = scan_key scan"
      "scan0\<lparr>as_status := (as_status scan0)\<lparr>st_phase := ''Completed'', st_completed := Some now,
         st_risk := Some (ev_risk ev), st_verdict := ev_verdict ev,
         st_message := summarize (sc_violation_str C) ev\<rparr>\<rparr> = scan'"
      by (simp_all add: scan0_def scan'_def scan_key_def)
    have c: "complete_scan C scan0 rv pol s =
      (case q of Some e \<Rightarrow> (Failing (ScanClient e), s4)
       | None \<Rightarrow> (case ue of Some e \<Rightarrow> Failing e | None \<Rightarrow> Done, s5))"
      unfolding complete_scan_def x Inr t n prod.case sum.case Let_def sel ev_def [symmetric] u up
      by (simp split: option.split)
    have "env\<^sup>*\<^sup>* s4 s5" using record_verdict_env [OF w] upsert_env [OF w up] by (rule rtranclp_trans)
    moreover have "s' = s4 \<or> s' = s5" using r c by (auto simp: scan0_def [symmetric] split: option.splits)
    ultimately have "env\<^sup>*\<^sup>* s4 s'" by auto
    then show ?thesis by (rule verdict_write_steps [OF w u e3 read move])
  qed
qed

lemma reevaluate_steps:
  assumes w: "scan_world vs env hist fs C" and r: "reevaluate C scan rv s = (res, s')"
    and read: "hist t0 s" "scan_at vs t0 key scan rv" and ph: "st_phase (as_status scan) \<in> {''Completed'', ''Failed''}"
  shows "(scan_step vs env C key)\<^sup>*\<^sup>* s s'"
proof (cases "st_results (as_status scan) = []")
  case True
  then show ?thesis using r by (simp add: reevaluate_def Let_def)
next
  case False
  obtain p s1 where p: "load_policy C scan s = (p, s1)" by force
  obtain x s2 where x: "load_exceptions C scan s1 = (x, s2)" by force
  obtain t s3 where t: "sc_now C s2 = (t, s3)" by force
  have e1: "env\<^sup>*\<^sup>* s s1" by (rule load_policy_env [OF w p])
  have e2: "env\<^sup>*\<^sup>* s s2" by (rule rtranclp_trans [OF e1 load_exceptions_env [OF w x]])
  have e3: "env\<^sup>*\<^sup>* s s3" using e2 scan_worldD(14) [OF w t] by (rule rtranclp.rtrancl_into_rtrancl)
  show ?thesis
  proof (cases "isl p \<or> isl x")
    case True
    then have "s' = s1 \<or> s' = s2" using r False p x by (auto simp: reevaluate_def Let_def split: sum.splits)
    then have "env\<^sup>*\<^sup>* s s'" using e1 e2 by (elim disjE) simp_all
    then show ?thesis by (rule env_scan_steps)
  next
    case not_err: False
    then obtain pol exs where px: "p = Inr pol" "x = Inr exs" by (metis isl_def sum.exhaust)
    define ev where "ev = evaluate (sc_gate C) (st_results (as_status scan)) (ss_artifact (as_spec scan)) pol exs t"
    define msg where "msg = (if ev_waived ev \<noteq> []
       then summarize (sc_violation_str C) ev @ '' ('' @ nat_str (length (ev_waived ev)) @ '' violation(s) waived by exception)''
       else summarize (sc_violation_str C) ev)"
    define scan' where "scan' = scan\<lparr>as_status := (as_status scan)\<lparr>st_verdict := ev_verdict ev,
      st_risk := Some (ev_risk ev), st_message := msg\<rparr>\<rparr>"
    have move: "scan_move C scan scan'" unfolding scan'_def by (rule scan_move.Revise [OF ph False ev_def])
    obtain q s4 where u: "k_update (sc_scans C) (scan_key scan) (scan', rv) s3 = (q, s4)" by force
    obtain ue s5 where up: "upsert_model_report C scan' ev s4 = (ue, s5)" by force
    have c: "reevaluate C scan rv s =
      (if ev_verdict ev = st_verdict (as_status scan) \<and> st_risk (as_status scan) = Some (ev_risk ev) then (Done, s3)
       else (case q of Some e \<Rightarrow> (Failing (ScanClient e), s4)
             | None \<Rightarrow> (case ue of Some e \<Rightarrow> Failing e | None \<Rightarrow> Done, s5)))"
      unfolding reevaluate_def Let_def p x px t prod.case sum.case ev_def [symmetric] msg_def [symmetric]
        scan'_def [symmetric] u up
      using False by (simp split: option.split)
    have "s' = s3 \<or> s' = s4 \<or> s' = s5" using r c by (auto split: option.splits if_splits)
    moreover have "(scan_step vs env C key)\<^sup>*\<^sup>* s x" if "x = s4 \<or> x = s5" for x
    proof -
      have "env\<^sup>*\<^sup>* s4 x" using that upsert_env [OF w up] by auto
      then show ?thesis by (rule verdict_write_steps [OF w u e3 read move])
    qed
    moreover have "(scan_step vs env C key)\<^sup>*\<^sup>* s s3" by (rule env_scan_steps [OF e3])
    ultimately show ?thesis by (elim disjE) simp_all
  qed
qed

definition with_results :: "scanner_result list \<Rightarrow> string \<Rightarrow> artifact_scan \<Rightarrow> artifact_scan" where
  "with_results rs d scan = scan\<lparr>as_status := (as_status scan)\<lparr>st_results := rs, st_digest := d\<rparr>\<rparr>"

lemma with_results_key [simp]: "scan_key (with_results rs d scan) = scan_key scan"
  by (simp add: with_results_def scan_key_def)

lemma wait_scan_steps:
  assumes w: "scan_world vs env hist fs C" and r: "wait_scan C (with_results rs d scan) rv s = (res, s')"
    and e: "env\<^sup>*\<^sup>* s0 s" and read: "hist t0 s0" "scan_at vs t0 key scan rv" and o: "open_phase (st_phase (as_status scan))"
  shows "(scan_step vs env C key)\<^sup>*\<^sup>* s0 s'"
proof -
  obtain q s1 where u: "k_update (sc_scans C) (scan_key scan) (with_results rs d scan, rv) s = (q, s1)" by force
  have "s' = s1" using r u by (auto simp: wait_scan_def split: option.splits)
  moreover have "scan_move C scan (with_results rs d scan)" unfolding with_results_def by (rule scan_move.Wait [OF o])
  ultimately show ?thesis using scan_update_after_env(1) [OF w e u read] by simp
qed

lemma still_pending_steps:
  assumes w: "scan_world vs env hist fs C" and r: "still_pending C (with_results rs d scan) rv pending s = (res, s')"
    and read: "hist t0 s" "scan_at vs t0 key scan rv" and o: "open_phase (st_phase (as_status scan))"
  shows "(scan_step vs env C key)\<^sup>*\<^sup>* s s'"
proof (cases "st_started (as_status (with_results rs d scan))")
  case None
  then have "wait_scan C (with_results rs d scan) rv s = (res, s')" using r by (simp add: still_pending_def)
  then show ?thesis by (rule wait_scan_steps [OF w _ rtranclp.rtrancl_refl read o])
next
  case (Some started)
  obtain now s1 where n: "sc_now C s = (now, s1)" by force
  have e: "env\<^sup>*\<^sup>* s s1" using scan_worldD(14) [OF w n] by (rule r_into_rtranclp)
  have h: "hist t0 s1" using read(1) scan_worldD(14) [OF w n] scan_worldD(3,5) [OF w] by (blast dest: transpD)
  show ?thesis
  proof (cases "time_sub now started > scan_deadline C")
    case True
    then have f: "fail_scan C (with_results rs d scan) rv (overdue_message (scan_deadline C) pending) s1 = (res, s')"
      using r Some n by (simp add: still_pending_def)
    have "(scan_step vs env C key)\<^sup>*\<^sup>* s1 s'"
    proof (rule fail_scan_steps [OF w f with_results_key h read(2)])
      show "scan_move C scan (failed (overdue_message (scan_deadline C) pending) now (with_results rs d scan))" for now
        using scan_move.Fail [OF o, where rs = rs and d = d and now = now and C = C
            and msg = "overdue_message (scan_deadline C) pending"]
        by (simp add: failed_def with_results_def)
    qed
    then show ?thesis by (rule rtranclp_trans [OF env_scan_steps [OF e]])
  next
    case False
    then have "wait_scan C (with_results rs d scan) rv s1 = (res, s')" using r Some n by (simp add: still_pending_def)
    then show ?thesis by (rule wait_scan_steps [OF w _ e read o])
  qed
qed

lemma await_results_steps:
  assumes w: "scan_world vs env hist fs C" and r: "await_results C scan rv pol wanted s = (res, s')"
    and read: "hist t0 s" "scan_at vs t0 key scan rv" and o: "open_phase (st_phase (as_status scan))"
  shows "(scan_step vs env C key)\<^sup>*\<^sup>* s s'"
proof -
  obtain c s1 where c: "collect_results C scan wanted s = (c, s1)" by force
  have e1: "env\<^sup>*\<^sup>* s s1" by (rule collect_results_env [OF w c])
  have h1: "hist t0 s1"
    using read(1) rtranclp_le [OF e1 scan_worldD(3,5,6) [OF w]] scan_worldD(5) [OF w] by (blast dest: transpD)
  show ?thesis
  proof (cases c)
    case (Inl e)
    then have "s' = s1" using r c by (simp add: await_results_def)
    then show ?thesis using env_scan_steps [OF e1] by simp
  next
    case (Inr y)
    obtain rs pending d where y: "y = (rs, pending, d)" by (cases y)
    have "still_pending C (with_results rs d scan) rv pending s1 = (res, s') \<or>
        complete_scan C (with_results rs d scan) rv pol s1 = (res, s')"
      using r c Inr y by (simp add: await_results_def with_results_def Let_def split: if_splits)
    then have "(scan_step vs env C key)\<^sup>*\<^sup>* s1 s'"
      using still_pending_steps [OF w _ h1 read(2) o] complete_scan_steps [OF w _ h1 read(2) o]
      by (auto simp: with_results_def)
    then show ?thesis by (rule rtranclp_trans [OF env_scan_steps [OF e1]])
  qed
qed

text \<open>From the launch on: the update to \<open>Scanning\<close>, where it is due, and then the results.\<close>

lemma launch_steps:
  assumes w: "scan_world vs env hist fs C"
    and read: "hist t0 s" "scan_at vs t0 key scan rv" and o: "open_phase (st_phase (as_status scan))"
    and r: "(if st_phase (as_status scan) = ''Pending''
       then (let scan' = scan\<lparr>as_status := (as_status scan)\<lparr>st_phase := ''Scanning''\<rparr>\<rparr>
             in case k_update (sc_scans C) (scan_key scan) (scan', rv) s of
                  (Some e, s4) \<Rightarrow> (Failing (ScanClient e), s4)
                | (None, s4) \<Rightarrow> await_results C scan' (k_version (sc_scans C) (scan_key scan) s4) pol wanted s4)
       else await_results C scan rv pol wanted s) = (res, s')"
  shows "(scan_step vs env C key)\<^sup>*\<^sup>* s s'"
proof (cases "st_phase (as_status scan) = ''Pending''")
  case False
  then have "await_results C scan rv pol wanted s = (res, s')" using r by simp
  then show ?thesis by (rule await_results_steps [OF w _ read o])
next
  case True
  define scan' where "scan' = scan\<lparr>as_status := (as_status scan)\<lparr>st_phase := ''Scanning''\<rparr>\<rparr>"
  have move: "scan_move C scan scan'" unfolding scan'_def by (rule scan_move.Launch [OF True])
  have k: "scan_key scan = key" using read(2) by (simp add: scan_at_def)
  obtain q s4 where u: "k_update (sc_scans C) (scan_key scan) (scan', rv) s = (q, s4)" by force
  note st = scan_update_steps [OF w u read move]
  show ?thesis
  proof (cases q)
    case (Some e)
    then have "s' = s4" using r True u by (simp add: scan'_def [symmetric])
    then show ?thesis using st(1) by simp
  next
    case None
    then have a: "await_results C scan' (k_version (sc_scans C) key s4) pol wanted s4 = (res, s')"
      using r True u k by (simp add: scan'_def [symmetric])
    have o': "open_phase (st_phase (as_status scan'))" by (simp add: scan'_def open_phase_def)
    have "hist s4 s4" using scan_worldD(6) [OF w] by (rule reflpD)
    from await_results_steps [OF w a this st(3) [OF None] o']
    show ?thesis by (rule rtranclp_trans [OF st(1)])
  qed
qed

lemma run_scan_steps:
  assumes w: "scan_world vs env hist fs C" and r: "run_scan C scan rv s = (res, s')"
    and read: "hist t0 s" "scan_at vs t0 key scan rv" and o: "open_phase (st_phase (as_status scan))"
  shows "(scan_step vs env C key)\<^sup>*\<^sup>* s s'"
proof -
  obtain p s1 where p: "load_policy C scan s = (p, s1)" by force
  have e1: "env\<^sup>*\<^sup>* s s1" by (rule load_policy_env [OF w p])
  have later: "hist t0 b" if "env\<^sup>*\<^sup>* s b" for b
    using read(1) rtranclp_le [OF that scan_worldD(3,5,6) [OF w]] scan_worldD(5) [OF w] by (blast dest: transpD)
  have fail: "(scan_step vs env C key)\<^sup>*\<^sup>* s s'" if f: "fail_scan C scan rv msg s1 = (res, s')" for msg
  proof (rule rtranclp_trans [OF env_scan_steps [OF e1]], rule fail_scan_steps [OF w f refl later [OF e1] read(2)])
    show "scan_move C scan (failed msg now scan)" for now
      using scan_move.Fail [OF o, where rs = "st_results (as_status scan)" and d = "st_digest (as_status scan)"
          and now = now and C = C and msg = msg] by (simp add: failed_def)
  qed
  show ?thesis
  proof (cases p)
    case (Inl e)
    then show ?thesis using r p env_scan_steps [OF e1] by (simp add: run_scan_def)
  next
    case (Inr pol)
    show ?thesis
    proof (cases "resolve_scanners scan pol")
      case (Inl e)
      then show ?thesis using r p Inr by (intro fail) (simp add: run_scan_def)
    next
      case wanted: (Inr wanted)
      show ?thesis
      proof (cases "wanted = []")
        case True
        then show ?thesis using r p Inr wanted by (intro fail) (simp add: run_scan_def)
      next
        case False
        define s2 where "s2 = (if ''provenance'' \<in> set wanted
          then snd (sync_trust_policy (sc_trust C) (om_namespace (as_meta scan)) s1) else s1)"
        have "env\<^sup>*\<^sup>* s1 s2" using sync_trust_env [OF w] by (simp add: s2_def)
        with e1 have e2: "env\<^sup>*\<^sup>* s s2" by (rule rtranclp_trans)
        obtain j s3 where j: "ensure_jobs C scan pol wanted s2 = (j, s3)" by force
        have e3: "env\<^sup>*\<^sup>* s s3" by (rule rtranclp_trans [OF e2 ensure_jobs_env [OF w j]])
        show ?thesis
        proof (cases j)
          case (Some e)
          then have "s' = s3" using r p Inr wanted False j by (simp add: run_scan_def s2_def [symmetric] Let_def)
          then show ?thesis using env_scan_steps [OF e3] by simp
        next
          case None
          have "(scan_step vs env C key)\<^sup>*\<^sup>* s3 s'"
            by (rule launch_steps [OF w later [OF e3] read(2) o, of pol wanted res])
              (use r p Inr wanted False j None in \<open>simp add: run_scan_def s2_def [symmetric] Let_def\<close>)
          then show ?thesis by (rule rtranclp_trans [OF env_scan_steps [OF e3]])
        qed
      qed
    qed
  qed
qed

lemma scan_reconcile_steps:
  assumes w: "scan_world vs env hist fs C" and r: "scan_reconcile C key s = (res, s')"
    and named: "\<forall>scan rv t. k_get (sc_scans C) key s = (Inr (scan, rv), t) \<longrightarrow> scan_key scan = key"
  shows "(scan_step vs env C key)\<^sup>*\<^sup>* s s'"
proof -
  obtain g s1 where g: "k_get (sc_scans C) key s = (g, s1)" by force
  have e: "env\<^sup>*\<^sup>* s s1" using get_cases(1) [OF scan_worldD(1) [OF w] g] by (rule r_into_rtranclp)
  have "(scan_step vs env C key)\<^sup>*\<^sup>* s1 s'"
  proof (cases g)
    case (Inl err)
    then show ?thesis using r g by (simp add: scan_reconcile_def)
  next
    case (Inr x)
    obtain scan rv where x: "x = (scan, rv)" by force
    have read: "scan_at vs s1 key scan rv"
      using get_cases(2) [OF scan_worldD(1) [OF w] g Inr] named g Inr x by (simp add: scan_at_def)
    have h: "hist s1 s1" using scan_worldD(6) [OF w] by (rule reflpD)
    let ?ph = "st_phase (as_status scan)"
    have "s' = s1 \<or> start_scan C scan rv s1 = (res, s') \<and> ?ph = [] \<or>
        reevaluate C scan rv s1 = (res, s') \<and> ?ph \<in> {''Completed'', ''Failed''} \<or>
        run_scan C scan rv s1 = (res, s') \<and> open_phase ?ph"
      using r g Inr x by (auto simp: scan_reconcile_def open_phase_def split: if_splits)
    then show ?thesis
      using start_scan_steps [OF w _ h read] reevaluate_steps [OF w _ h read] run_scan_steps [OF w _ h read]
      by (elim disjE conjE) simp_all
  qed
  then show ?thesis by (rule rtranclp_trans [OF env_scan_steps [OF e]])
qed

text \<open>
  Claim C4. The scan controller implements the state machine of a scan. Whatever others do between
  its calls, and whichever calls fail, with or without their effect, everything a reconcile does to the
  stored scans is made of the machine's moves on the scan it was called for: start, launch, wait, fail,
  complete with the gate's verdict, or revise the verdict of a finished scan by the gate's verdict on the
  results it finished with. A scan that changed since it was read is never overwritten.
\<close>

theorem scan_controller_refines:
  assumes w: "scan_world vs env hist fs C" and r: "scan_reconcile C key s = (res, s')"
    and named: "\<forall>scan rv t. k_get (sc_scans C) key s = (Inr (scan, rv), t) \<longrightarrow> scan_key scan = key"
  shows "(scan_step vs env C key)\<^sup>*\<^sup>* s s'"
  by (rule scan_reconcile_steps [OF w r named])

text \<open>The verdict and the risk on a scan are the gate's, on the results and the artifact the scan holds.\<close>

definition judged :: "('s, 'j, 'e) scan_ctl \<Rightarrow> artifact_scan \<Rightarrow> bool" where
  "judged C scan \<longleftrightarrow>
     (\<exists>pol exs t.
        st_verdict (as_status scan) =
          ev_verdict (evaluate (sc_gate C) (st_results (as_status scan)) (ss_artifact (as_spec scan)) pol exs t) \<and>
        st_risk (as_status scan) =
          Some (ev_risk (evaluate (sc_gate C) (st_results (as_status scan)) (ss_artifact (as_spec scan)) pol exs t)))"

definition scan_sound :: "('s, 'j, 'e) scan_ctl \<Rightarrow> artifact_scan \<Rightarrow> bool" where
  "scan_sound C scan \<longleftrightarrow>
     (st_phase (as_status scan) \<notin> {''Completed'', ''Failed''} \<longrightarrow> st_verdict (as_status scan) = []) \<and>
     (st_phase (as_status scan) = ''Completed'' \<or> st_verdict (as_status scan) = verdict_approved \<longrightarrow> judged C scan)"

definition scans_sound :: "('s \<Rightarrow> artifact_scan view) \<Rightarrow> ('s, 'j, 'e) scan_ctl \<Rightarrow> 's \<Rightarrow> bool" where
  "scans_sound vs C s \<longleftrightarrow> (\<forall>k scan rv. vs s k = Some (scan, rv) \<longrightarrow> scan_sound C scan)"

lemma scan_move_sound: "scan_move C a b \<Longrightarrow> scan_sound C a \<Longrightarrow> scan_sound C b"
proof (induction rule: scan_move.induct)
  case (Complete scan ev rs pol exs t d now)
  then show ?case unfolding scan_sound_def judged_def by auto
next
  case (Revise scan ev pol exs t msg)
  then have "judged C (scan\<lparr>as_status := (as_status scan)\<lparr>st_verdict := ev_verdict ev, st_risk := Some (ev_risk ev),
      st_message := msg\<rparr>\<rparr>)" unfolding judged_def by auto
  then show ?case using Revise.hyps(1) unfolding scan_sound_def by auto
qed (auto simp: scan_sound_def open_phase_def verdict_defs)

lemma scan_move_stored:
  assumes "scan_step vs env C key a b" and "scans_sound vs C a"
    and "\<forall>a b. env a b \<longrightarrow> scans_sound vs C a \<longrightarrow> scans_sound vs C b"
  shows "scans_sound vs C b"
proof -
  consider "env a b" | "vs b = vs a"
    | scan scan' rv rv' where "vs a key = Some (scan, rv)" "scan_move C scan scan'" "vs b = (vs a)(key \<mapsto> (scan', rv'))"
    using assms(1) unfolding scan_step_def by blast
  then show ?thesis
  proof cases
    case 3
    have "scan_sound C scan" using assms(2) 3(1) unfolding scans_sound_def by blast
    then have "scan_sound C scan'" by (rule scan_move_sound [OF 3(2)])
    then show ?thesis using assms(2) 3(3) by (auto simp: scans_sound_def)
  qed (use assms in \<open>auto simp: scans_sound_def\<close>)
qed

text \<open>A history of the cluster: reconciles of any scans in any order, and what others do in between.\<close>

inductive scan_run :: "('s \<Rightarrow> 's \<Rightarrow> bool) \<Rightarrow> ('s, 'j, 'e) scan_ctl \<Rightarrow> 's \<Rightarrow> 's \<Rightarrow> bool" for env C s where
  Begin: "scan_run env C s s"
| Others: "scan_run env C s t \<Longrightarrow> env t u \<Longrightarrow> scan_run env C s u"
| Reconciles: "scan_run env C s t \<Longrightarrow>
    \<forall>scan rv t'. k_get (sc_scans C) key t = (Inr (scan, rv), t') \<longrightarrow> scan_key scan = key \<Longrightarrow>
    scan_reconcile C key t = (res, u) \<Longrightarrow> scan_run env C s u"

text \<open>
  Claim C5. Verdicts are judged. Start from scans without a status and let the controller
  reconcile any scans in any order, with calls that fail and with others creating and deleting scans
  and writing anything but a status that is not sound: then every stored scan that is not finished
  carries no verdict, and every completed one, and every approved one, carries the verdict and the risk
  the gate computed from exactly the results and the artifact the scan holds, under some policy and
  some exceptions.
\<close>

theorem approvals_were_judged:
  assumes w: "scan_world vs env hist fs C"
    and others: "\<forall>a b. env a b \<longrightarrow> scans_sound vs C a \<longrightarrow> scans_sound vs C b"
    and new: "\<forall>k scan rv. vs s0 k = Some (scan, rv) \<longrightarrow> st_phase (as_status scan) = [] \<and> st_verdict (as_status scan) = []"
    and run: "scan_run env C s0 s" and stored: "vs s k = Some (scan, rv)"
  shows "(st_phase (as_status scan) \<notin> {''Completed'', ''Failed''} \<longrightarrow> st_verdict (as_status scan) = []) \<and>
    (st_phase (as_status scan) = ''Completed'' \<or> st_verdict (as_status scan) = verdict_approved \<longrightarrow> judged C scan)"
proof -
  have "scans_sound vs C s"
    using run
  proof (induction rule: scan_run.induct)
    case Begin
    then show ?case using new by (auto simp: scans_sound_def scan_sound_def verdict_approved_def)
  next
    case (Others t u)
    then show ?case using others by blast
  next
    case (Reconciles t key res u)
    have "(scan_step vs env C key)\<^sup>*\<^sup>* t u" by (rule scan_reconcile_steps [OF w Reconciles.hyps(3,2)])
    then show ?case using Reconciles.IH
      by (induction rule: rtranclp_induct) (blast dest: scan_move_stored [OF _ _ others])+
  qed
  then have "scan_sound C scan" using stored unfolding scans_sound_def by blast
  then show ?thesis by (simp add: scan_sound_def)
qed

section \<open>What a verdict waits for\<close>

definition own_report :: "artifact_scan \<Rightarrow> artifact_scan_report \<Rightarrow> bool" where
  "own_report scan report \<longleftrightarrow> map_of (om_labels (sp_meta report)) label_scan = Some (om_name (as_meta scan))"

definition measured_digest :: "artifact_scan_report \<Rightarrow> string" where
  "measured_digest report = sm_get (om_annotations (sp_meta report)) annotation_artifact_digest"

lemma read_reports_from:
  assumes "read_reports C scan xs (by0, d0) s = (Inr (by, d), s')"
  shows "(\<forall>n r. by n = Some r \<longrightarrow> by0 n = Some r \<or>
       (\<exists>x \<in> set xs. sp_scanner (fst (snd x)) = n \<and> r = report_result (fst x) (fst (snd x)))) \<and>
    (d = d0 \<or> (\<exists>x \<in> set xs. d = measured_digest (fst (snd x)) \<and> d \<noteq> []))"
  using assms
proof (induction xs arbitrary: by0 d0 s)
  case Nil
  then show ?case by simp
next
  case (Cons x xs)
  define by1 where "by1 = by0(sp_scanner (fst (snd x)) \<mapsto> report_result (fst x) (fst (snd x)))"
  define d1 where "d1 = (if measured_digest (fst (snd x)) \<noteq> [] then measured_digest (fst (snd x)) else d0)"
  obtain q s1 where q: "adopt_report C scan x s = (q, s1)" by force
  then have "q = None" using Cons.prems by (cases q) simp_all
  then have "read_reports C scan xs (by1, d1) s1 = (Inr (by, d), s')"
    using Cons.prems q
    by (cases "measured_digest (fst (snd x)) = []") (simp_all add: Let_def by1_def d1_def measured_digest_def)
  note ih = Cons.IH [OF this]
  have "by0 n = Some r \<or> (\<exists>x \<in> set (x # xs). sp_scanner (fst (snd x)) = n \<and> r = report_result (fst x) (fst (snd x)))"
    if "by n = Some r" for n r
    using ih that by (auto simp: by1_def split: if_splits)
  moreover have "d = d0 \<or> (\<exists>x \<in> set (x # xs). d = measured_digest (fst (snd x)) \<and> d \<noteq> [])"
    using ih by (auto simp: d1_def split: if_splits)
  ultimately show ?case by blast
qed

lemma read_wanted_done:
  assumes "read_wanted C scan by wanted s = (Inr (rs, pending), s')"
  shows "length rs = length wanted \<and>
    (pending = 0 \<longrightarrow> (\<forall>i < length wanted. by (wanted ! i) = Some (rs ! i) \<or>
       by (wanted ! i) = None \<and> rs ! i = no_result (wanted ! i) ''Error'' ''scan job failed; see job logs''))"
  using assms
proof (induction wanted arbitrary: s rs pending)
  case Nil
  then show ?case by simp
next
  case (Cons n ns)
  show ?case
  proof (cases "by n")
    case (Some r)
    then obtain rs' where rs: "rs = r # rs'" "read_wanted C scan by ns s = (Inr (rs', pending), s')"
      using Cons.prems by (auto split: prod.splits sum.splits)
    then show ?thesis using Cons.IH [OF rs(2)] Some by (auto simp: less_Suc_eq_0_disj)
  next
    case None
    obtain j s1 where j: "find_scan_job C (om_namespace (as_meta scan)) (om_name (as_meta scan)) n s = (Inr j, s1)"
      using Cons.prems None by (auto split: prod.splits sum.splits)
    obtain rs' k where rs: "rs = interim_result C n j # rs'" "read_wanted C scan by ns s1 = (Inr (rs', k), s')"
      "pending = (if sr_status (interim_result C n j) \<noteq> ''Error'' then Suc k else k)"
      using Cons.prems None j by (auto simp: Let_def split: prod.splits sum.splits)
    have "sr_status (interim_result C n j) = ''Error'' \<Longrightarrow>
        interim_result C n j = no_result n ''Error'' ''scan job failed; see job logs''"
      by (auto simp: interim_result_def no_result_def Let_def split: option.splits if_splits)
    then show ?thesis using Cons.IH [OF rs(2)] rs(1,3) None by (auto simp: less_Suc_eq_0_disj)
  qed
qed


section \<open>A cluster in memory\<close>

record scan_cluster =
  kc_scans :: "artifact_scan rev_store"
  kc_policies :: "scan_policy mem_store"
  kc_exceptions :: "artifact_exception mem_store"
  kc_reports :: "artifact_scan_report mem_store"
  kc_models :: "model_report rev_store"
  kc_jobs :: "string mem_store"
  kc_trust :: trust_world
  kc_log :: "audit_record list"

definition approving_gate :: gate_fn where
  "approving_gate rs a rules exs now =
     \<lparr>ev_verdict = (if \<forall>r \<in> set rs. gi_status r = ''Passed'' then verdict_approved else verdict_quarantined),
      ev_risk = 4, ev_violations = [], ev_waived = [], ev_malware = ''Clean'', ev_secrets = ''Clean'',
      ev_cves = no_counts, ev_unexamined = no_counts, ev_drift = no_counts, ev_signature_verified = False,
      ev_sbom_generated = False, ev_aibom_generated = False\<rparr>"

definition demo_scan_ctl :: "(scan_cluster, string, unit) scan_ctl" where
  "demo_scan_ctl =
     \<lparr>sc_scans = rev_client kc_scans (\<lambda>m. kc_scans_update (\<lambda>_. m)),
      sc_policies = mem_client kc_policies (\<lambda>m. kc_policies_update (\<lambda>_. m)),
      sc_exceptions = mem_client kc_exceptions (\<lambda>m. kc_exceptions_update (\<lambda>_. m)),
      sc_scan_reports = mem_client kc_reports (\<lambda>m. kc_reports_update (\<lambda>_. m)),
      sc_models = rev_client kc_models (\<lambda>m. kc_models_update (\<lambda>_. m)),
      sc_jobs = mem_client kc_jobs (\<lambda>m. kc_jobs_update (\<lambda>_. m)),
      sc_job_status = (\<lambda>j. \<lparr>jc_failed = 0, jc_active = 1, jc_succeeded = 0\<rparr>),
      sc_build_job = (\<lambda>scan d sp. Inr (sd_name d)),
      sc_trust = \<lparr>ts_publishers = mem_client (tw_publishers \<circ> kc_trust) (\<lambda>m. kc_trust_update (tw_publishers_update (\<lambda>_. m))),
        ts_maps = mem_client (tw_maps \<circ> kc_trust) (\<lambda>m. kc_trust_update (tw_maps_update (\<lambda>_. m))),
        ts_keyless = (\<lambda>p. True), ts_encode = (\<lambda>p. Inr []), ts_root = [], ts_require_log = False\<rparr>,
      sc_append = Some (\<lambda>ev w. (Inr ev, w\<lparr>kc_log := kc_log w @ [ev]\<rparr>)), sc_now = (\<lambda>w. (9, w)),
      sc_digest = one_digest [], sc_gate = approving_gate, sc_violation_str = (\<lambda>v. []), sc_deadline = 0\<rparr>"

definition demo_scan_meta :: "string \<Rightarrow> str_map \<Rightarrow> str_map \<Rightarrow> object_meta" where
  "demo_scan_meta n labels anns = \<lparr>om_name = n, om_namespace = ''team'', om_uid = ''u'', om_labels = labels,
     om_annotations = anns, om_owner = None, om_created = 0, om_deleted = None\<rparr>"

definition demo_scan :: artifact_scan where
  "demo_scan =
     \<lparr>as_meta = demo_scan_meta ''s'' [] [],
      as_spec = \<lparr>ss_model = ''fraud'', ss_version = ''1'', ss_registry_model = [], ss_registry_version = [],
        ss_connector = [], ss_artifact = some_artifact, ss_policy_ref = [], ss_scanners = [''clamav''],
        ss_trigger = [], ss_triggered_by = []\<rparr>,
      as_status = \<lparr>st_phase = ''Scanning'', st_started = Some 1, st_completed = None, st_results = [],
        st_risk = None, st_verdict = [], st_message = [], st_digest = []\<rparr>\<rparr>"

definition demo_scan_report :: artifact_scan_report where
  "demo_scan_report =
     \<lparr>sp_meta = demo_scan_meta ''rep'' [(label_scan, ''s'')] [(annotation_artifact_digest, ''sha256:ab'')],
      sp_scanner = ''clamav'', sp_scan_ref = ''s'', sp_summary = (no_result ''clamav'' ''Passed'' []), sp_findings = []\<rparr>"

definition demo_scan_key :: okey where "demo_scan_key = (''team'', ''s'')"

definition demo_scan_cluster :: scan_cluster where
  "demo_scan_cluster =
     \<lparr>kc_scans = \<lparr>vs_rev = 1, vs_objs = [(demo_scan_key, (demo_scan, 1))]\<rparr>, kc_policies = [], kc_exceptions = [],
      kc_reports = [((''team'', ''rep''), (demo_scan_report, 1))], kc_models = \<lparr>vs_rev = 0, vs_objs = []\<rparr>,
      kc_jobs = [], kc_trust = \<lparr>tw_publishers = [], tw_maps = []\<rparr>, kc_log = []\<rparr>"

abbreviation demo_vs :: "scan_cluster \<Rightarrow> artifact_scan view" where
  "demo_vs \<equiv> (\<lambda>w. vs_view (kc_scans w))"

definition same_scans :: "scan_cluster \<Rightarrow> scan_cluster \<Rightarrow> bool" where
  "same_scans a b \<longleftrightarrow> kc_scans b = kc_scans a"

definition scan_history :: "scan_cluster \<Rightarrow> scan_cluster \<Rightarrow> bool" where
  "scan_history a b \<longleftrightarrow> vs_le (kc_scans a) (kc_scans b)"

lemma mem_client_within:
  assumes "\<And>m s. env s (set_store m s)" and "\<And>s. env s s"
  shows "client_within env (mem_client store_of set_store)"
  unfolding client_within_def mem_client_def using assms by (auto split: option.split)

lemma rev_client_within:
  assumes "\<And>m s. env s (set_store m s)" and "\<And>s. env s s"
  shows "client_within env (rev_client store_of set_store)"
  unfolding client_within_def rev_client_def using assms by (auto split: option.split)

lemma demo_scan_world: "scan_world demo_vs same_scans scan_history scan_history demo_scan_ctl"
proof -
  have r: "reflp same_scans" by (simp add: reflp_def same_scans_def)
  have v: "version_law demo_vs same_scans" by (auto simp: version_law_def same_scans_def)
  have k: "kclient_ok demo_vs scan_history same_scans (sc_scans demo_scan_ctl)"
    unfolding demo_scan_ctl_def scan_ctl.simps by (rule rev_client_ok) (use r v in \<open>auto simp: scan_history_def\<close>)
  have h: "version_law demo_vs scan_history" by (auto simp: version_law_def scan_history_def dest: vs_le_version)
  have t: "transp scan_history" by (auto intro!: transpI simp: scan_history_def intro: vs_le_trans)
  have c: "client_within same_scans (sc_policies demo_scan_ctl)" "client_within same_scans (sc_exceptions demo_scan_ctl)"
    "client_within same_scans (sc_scan_reports demo_scan_ctl)" "client_within same_scans (sc_models demo_scan_ctl)"
    "client_within same_scans (sc_jobs demo_scan_ctl)" "client_within same_scans (ts_publishers (sc_trust demo_scan_ctl))"
    "client_within same_scans (ts_maps (sc_trust demo_scan_ctl))"
    unfolding demo_scan_ctl_def scan_ctl.simps trust_sync.simps
    by ((rule mem_client_within | rule rev_client_within); simp add: same_scans_def)+
  show ?thesis
    unfolding scan_world_def
    by (intro conjI k h t c allI impI predicate2I)
      (auto simp: same_scans_def scan_history_def demo_scan_ctl_def reflp_def)
qed

lemma demo_scan_run:
  "map_option (\<lambda>p. st_verdict (as_status (fst p)))
     (demo_vs (snd (scan_reconcile demo_scan_ctl demo_scan_key demo_scan_cluster)) demo_scan_key) = Some verdict_approved"
  "map ar_type (kc_log (snd (scan_reconcile demo_scan_ctl demo_scan_key demo_scan_cluster))) = [event_verdict_issued]"
proof -
  have "(let w = snd (scan_reconcile demo_scan_ctl demo_scan_key demo_scan_cluster)
      in map_option (\<lambda>p. st_verdict (as_status (fst p))) (demo_vs w demo_scan_key) = Some verdict_approved \<and>
        map ar_type (kc_log w) = [event_verdict_issued])"
    by code_simp
  then show "map_option (\<lambda>p. st_verdict (as_status (fst p)))
     (demo_vs (snd (scan_reconcile demo_scan_ctl demo_scan_key demo_scan_cluster)) demo_scan_key) = Some verdict_approved"
    "map ar_type (kc_log (snd (scan_reconcile demo_scan_ctl demo_scan_key demo_scan_cluster))) = [event_verdict_issued]"
    unfolding Let_def by (rule conjunct1, rule conjunct2)
qed

lemma demo_scan_read:
  "k_get (sc_scans demo_scan_ctl) demo_scan_key demo_scan_cluster = (Inr (demo_scan, 1), demo_scan_cluster)"
  "scan_key demo_scan = demo_scan_key"
  by (simp_all add: demo_scan_ctl_def rev_client_def demo_scan_cluster_def vs_view_def vs_visible_def scan_key_def
      demo_scan_def demo_scan_meta_def demo_scan_key_def)

theorem scan_controller_refines_witness:
  "(scan_step demo_vs same_scans demo_scan_ctl demo_scan_key)\<^sup>*\<^sup>* demo_scan_cluster
     (snd (scan_reconcile demo_scan_ctl demo_scan_key demo_scan_cluster)) \<and>
   map_option (\<lambda>p. st_verdict (as_status (fst p)))
     (demo_vs (snd (scan_reconcile demo_scan_ctl demo_scan_key demo_scan_cluster)) demo_scan_key) = Some verdict_approved"
proof
  have r: "scan_reconcile demo_scan_ctl demo_scan_key demo_scan_cluster =
    (fst (scan_reconcile demo_scan_ctl demo_scan_key demo_scan_cluster),
     snd (scan_reconcile demo_scan_ctl demo_scan_key demo_scan_cluster))" by simp
  show "(scan_step demo_vs same_scans demo_scan_ctl demo_scan_key)\<^sup>*\<^sup>* demo_scan_cluster
     (snd (scan_reconcile demo_scan_ctl demo_scan_key demo_scan_cluster))"
    by (rule scan_controller_refines [OF demo_scan_world r]) (simp add: demo_scan_read)
qed (rule demo_scan_run(1))

definition passed_results :: "scanner_result list" where
  "passed_results = [report_result ''rep'' demo_scan_report]"

text \<open>From a new scan to an approval: the first reconcile starts it, the second finds the report.\<close>

definition new_scan :: artifact_scan where
  "new_scan = demo_scan\<lparr>as_status := (as_status demo_scan)\<lparr>st_phase := [], st_started := None\<rparr>\<rparr>"

definition new_cluster :: scan_cluster where
  "new_cluster = demo_scan_cluster\<lparr>kc_scans := \<lparr>vs_rev = 1, vs_objs = [(demo_scan_key, (new_scan, 1))]\<rparr>\<rparr>"

definition approved_cluster :: scan_cluster where
  "approved_cluster =
     snd (scan_reconcile demo_scan_ctl demo_scan_key (snd (scan_reconcile demo_scan_ctl demo_scan_key new_cluster)))"

definition approved_scan :: artifact_scan where
  "approved_scan = fst (the (demo_vs approved_cluster demo_scan_key))"

lemma demo_named:
  "map_option (scan_key \<circ> fst) (demo_vs w demo_scan_key) = Some demo_scan_key \<Longrightarrow>
    \<forall>scan rv t'. k_get (sc_scans demo_scan_ctl) demo_scan_key w = (Inr (scan, rv), t') \<longrightarrow> scan_key scan = demo_scan_key"
  by (auto simp: demo_scan_ctl_def rev_client_def split: option.splits)

lemma new_cluster_run:
  "map_option (scan_key \<circ> fst) (demo_vs new_cluster demo_scan_key) = Some demo_scan_key"
  "map_option (scan_key \<circ> fst) (demo_vs (snd (scan_reconcile demo_scan_ctl demo_scan_key new_cluster)) demo_scan_key)
     = Some demo_scan_key"
  "demo_vs approved_cluster demo_scan_key \<noteq> None"
  "st_verdict (as_status approved_scan) = verdict_approved"
proof -
  have "(map_option (scan_key \<circ> fst) (demo_vs new_cluster demo_scan_key) = Some demo_scan_key) \<and>
    (map_option (scan_key \<circ> fst) (demo_vs (snd (scan_reconcile demo_scan_ctl demo_scan_key new_cluster)) demo_scan_key)
     = Some demo_scan_key) \<and>
    (demo_vs approved_cluster demo_scan_key \<noteq> None) \<and>
    (st_verdict (as_status approved_scan) = verdict_approved)"
    by code_simp
  then show "map_option (scan_key \<circ> fst) (demo_vs new_cluster demo_scan_key) = Some demo_scan_key" "map_option (scan_key \<circ> fst) (demo_vs (snd (scan_reconcile demo_scan_ctl demo_scan_key new_cluster)) demo_scan_key)
     = Some demo_scan_key" "demo_vs approved_cluster demo_scan_key \<noteq> None" "st_verdict (as_status approved_scan) = verdict_approved"
    by simp_all
qed

theorem approvals_were_judged_witness:
  "st_verdict (as_status approved_scan) = verdict_approved \<and> judged demo_scan_ctl approved_scan"
proof -
  have others: "\<forall>a b. same_scans a b \<longrightarrow> scans_sound demo_vs demo_scan_ctl a \<longrightarrow> scans_sound demo_vs demo_scan_ctl b"
    by (auto simp: same_scans_def scans_sound_def)
  have new: "\<forall>k scan rv. demo_vs new_cluster k = Some (scan, rv) \<longrightarrow>
      st_phase (as_status scan) = [] \<and> st_verdict (as_status scan) = []"
    by (auto simp: new_cluster_def vs_view_def vs_visible_def new_scan_def demo_scan_def split: if_splits)
  have run: "scan_run same_scans demo_scan_ctl new_cluster approved_cluster"
    unfolding approved_cluster_def
    by (rule scan_run.Reconciles [OF scan_run.Reconciles [OF scan_run.Begin demo_named [OF new_cluster_run(1)] prod.collapse [symmetric]]
          demo_named [OF new_cluster_run(2)] prod.collapse [symmetric]])
  obtain rv where "demo_vs approved_cluster demo_scan_key = Some (approved_scan, rv)"
    using new_cluster_run(3) by (auto simp: approved_scan_def)
  from approvals_were_judged [OF demo_scan_world others new run this] show ?thesis using new_cluster_run(4) by simp
qed

text \<open>The one scanner's report is there, and its job is still active.\<close>

lemma demo_collected:
  "fst (collect_results demo_scan_ctl demo_scan [''clamav''] demo_scan_cluster)
     = Inr (passed_results, 0, ''sha256:ab'')"
  "sr_status (passed_results ! 0) = ''Passed''"
  by code_simp+


end
