(* ===== verification/Webhook_Ref.thy ===== *)
theory Webhook_Ref
  imports Cupel_Types
begin

text \<open>
  Which model a workload serves (\<open>internal/webhook/modelref.go\<close>, \<open>discover.go\<close>).  The admitted object is
  untyped: a tree of maps, slices and strings (\<open>any\<close>), read through the accessors of
  \<open>k8s.io/apimachinery/.../unstructured\<close>, which are outside the repository and so are the fields of
  \<open>accessors\<close>.  A map is an association list in the order in which the code happens to range over it.
\<close>

section \<open>Untyped objects\<close>

datatype any = AStr string | AMap "(string \<times> any) list" | ASlice "any list" | AOther

type_synonym amap = "(string \<times> any) list"

text \<open>A nested read gives an error, or the value if it was found.\<close>

record accessors =
  u_string :: "amap \<Rightarrow> string list \<Rightarrow> string + string option"
  u_map :: "amap \<Rightarrow> string list \<Rightarrow> string + amap option"
  u_slice :: "amap \<Rightarrow> string list \<Rightarrow> string + any list option"
  u_string_slice :: "amap \<Rightarrow> string list \<Rightarrow> string + string list option"
  u_annotations :: "amap \<Rightarrow> str_map"
  u_labels :: "amap \<Rightarrow> str_map"
  u_kind :: "amap \<Rightarrow> string"
  u_name :: "amap \<Rightarrow> string"
  u_generate_name :: "amap \<Rightarrow> string"

definition found :: "string + 'a option \<Rightarrow> 'a option" where
  "found r = (case r of Inl e \<Rightarrow> None | Inr x \<Rightarrow> x)"

definition slice_or_nil :: "string + 'a list option \<Rightarrow> 'a list" where
  "slice_or_nil r = (case found r of None \<Rightarrow> [] | Some xs \<Rightarrow> xs)"

text \<open>\<open>m[k].(string)\<close>, the empty string when there is none.\<close>

definition str_field :: "amap \<Rightarrow> string \<Rightarrow> string" where
  "str_field m k = (case map_of m k of Some (AStr s) \<Rightarrow> s | _ \<Rightarrow> [])"

definition map_of_any :: "any \<Rightarrow> amap option" where
  "map_of_any x = (case x of AMap m \<Rightarrow> Some m | _ \<Rightarrow> None)"

section \<open>References\<close>

definition ann_model :: string where "ann_model = ''security.davano.io/model''"
definition ann_version :: string where "ann_version = ''security.davano.io/model-version''"
definition ann_environment :: string where "ann_environment = ''security.davano.io/environment''"
definition ann_policy :: string where "ann_policy = ''security.davano.io/policy''"
definition ann_skip :: string where "ann_skip = ''security.davano.io/skip-validation''"

record model_ref =
  ref_model :: string
  ref_version :: string
  ref_digest :: string
  ref_uri :: string
  ref_environment :: string

definition no_ref :: model_ref where
  "no_ref = \<lparr>ref_model = [], ref_version = [], ref_digest = [], ref_uri = [], ref_environment = []\<rparr>"

definition digest_from_uri :: "string \<Rightarrow> string" where
  "digest_from_uri uri = (case last_index_char uri CHR ''@'' of None \<Rightarrow> [] | Some i \<Rightarrow> drop (i + 1) uri)"

definition model_from_storage_uri :: "string \<Rightarrow> string \<times> string" where
  "model_from_storage_uri uri =
     (let trimmed = (case str_index uri ''://'' of Some i \<Rightarrow> drop (i + 3) uri | None \<Rightarrow> uri);
          trimmed = hd (split_char CHR ''@'' trimmed);
          trimmed = trim_suffix trimmed ''/'';
          parts = split_char CHR ''/'' trimmed
      in if length parts \<ge> 2 then (parts ! (length parts - 2), parts ! (length parts - 1))
         else if length parts = 1 then (parts ! 0, []) else ([], []))"

fun first_storage_uri :: "amap \<Rightarrow> string" where
  "first_storage_uri [] = []"
| "first_storage_uri ((k, x) # m) =
     (case map_of_any x of
        Some framework \<Rightarrow>
          if str_field framework ''storageUri'' \<noteq> [] then str_field framework ''storageUri''
          else first_storage_uri m
      | None \<Rightarrow> first_storage_uri m)"

definition inference_service_uri :: "accessors \<Rightarrow> amap \<Rightarrow> string" where
  "inference_service_uri U obj =
     (case found (u_string U obj [''spec'', ''predictor'', ''model'', ''storageUri'']) of
        Some uri \<Rightarrow> uri
      | None \<Rightarrow>
          (case found (u_map U obj [''spec'', ''predictor'']) of
             None \<Rightarrow> []
           | Some predictor \<Rightarrow> first_storage_uri predictor))"

definition extract_model_ref :: "accessors \<Rightarrow> amap \<Rightarrow> model_ref" where
  "extract_model_ref U obj =
     (let annotations = u_annotations U obj;
          ref = no_ref\<lparr>ref_model := sm_get annotations ann_model,
                       ref_version := sm_get annotations ann_version,
                       ref_environment := sm_get annotations ann_environment\<rparr>;
          uri = inference_service_uri U obj;
          ref = (if u_kind U obj = ''InferenceService'' \<and> uri \<noteq> []
                 then (let r1 = ref\<lparr>ref_uri := uri, ref_digest := digest_from_uri uri\<rparr>
                       in if ref_model r1 = []
                          then r1\<lparr>ref_model := fst (model_from_storage_uri uri),
                                  ref_version := snd (model_from_storage_uri uri)\<rparr>
                          else r1)
                 else ref)
      in if ref_environment ref = []
         then ref\<lparr>ref_environment := sm_get (u_labels U obj) ann_environment\<rparr> else ref)"

lemma last_index_append:
  "x \<notin> set b \<Longrightarrow> last_index_char (a @ x # b) x = Some (length a)"
proof (induction a)
  case Nil
  have "x \<notin> set b \<Longrightarrow> last_index_char b x = None" by (induction b) auto
  then show ?case using Nil by simp
qed simp

lemma scheme_index:
  assumes "CHR '':'' \<notin> set s"
  shows "str_index (s @ ''://'' @ t) ''://'' = Some (length s)"
  using assms by (induction s) auto

text \<open>
  A pinned storage location names its model. From
  \<open>scheme://prefix/model/version@digest\<close> the gate reads back exactly the model, the version and the
  digest, so a workload found by its location and one that declares the model look up the same report.
\<close>

theorem storage_uri_roundtrip:
  assumes "CHR '':'' \<notin> set scheme" and "CHR ''@'' \<notin> set (prefix_path @ model @ version @ digest)"
    and "CHR ''/'' \<notin> set model" and "CHR ''/'' \<notin> set version" and "version \<noteq> []"
  shows "let uri = scheme @ ''://'' @ prefix_path @ ''/'' @ model @ ''/'' @ version @ ''@'' @ digest
         in model_from_storage_uri uri = (model, version) \<and> digest_from_uri uri = digest"
proof -
  define path where "path = prefix_path @ ''/'' @ model @ ''/'' @ version"
  define uri where "uri = scheme @ ''://'' @ path @ ''@'' @ digest"
  have u: "uri = scheme @ ''://'' @ prefix_path @ ''/'' @ model @ ''/'' @ version @ ''@'' @ digest"
    by (simp add: uri_def path_def)
  have at: "CHR ''@'' \<notin> set path" "CHR ''@'' \<notin> set digest" using assms(2) by (auto simp: path_def)
  have "digest_from_uri uri = digest"
  proof -
    define front where "front = scheme @ ''://'' @ path"
    have "uri = front @ CHR ''@'' # digest" by (simp add: uri_def front_def)
    then show ?thesis using last_index_append [OF at(2), of front] by (simp add: digest_from_uri_def)
  qed
  moreover have "model_from_storage_uri uri = (model, version)"
  proof -
    have "drop (length scheme + 3) uri = path @ ''@'' @ digest" by (simp add: uri_def)
    moreover have "hd (split_char CHR ''@'' (path @ ''@'' @ digest)) = path"
      using split_char_append_sep [OF at(1), of digest] by simp
    moreover have "trim_suffix path ''/'' = path"
    proof -
      have "last path = last version" "path \<noteq> []" using assms(5) by (auto simp: path_def)
      moreover have "last version \<noteq> CHR ''/''" using assms(4,5) last_in_set by fastforce
      ultimately have "\<not> suffix ''/'' path" by (auto simp: suffix_def)
      then show ?thesis by (simp add: trim_suffix_def)
    qed
    moreover have "split_char CHR ''/'' path = split_char CHR ''/'' prefix_path @ [model, version]"
    proof -
      have "split_char CHR ''/'' (a @ CHR ''/'' # b) = split_char CHR ''/'' a @ split_char CHR ''/'' b" for a b
        by (induction a) (auto split: list.splits)
      then show ?thesis using assms(3,4) by (simp add: path_def split_char_no_sep)
    qed
    ultimately show ?thesis
      using scheme_index [OF assms(1), of "path @ ''@'' @ digest"]
      by (simp add: model_from_storage_uri_def Let_def uri_def nth_append)
  qed
  ultimately show ?thesis unfolding Let_def u by simp
qed

theorem storage_uri_roundtrip_witness:
  "model_from_storage_uri ''oci://reg.local/models/fraud/v1@sha256:ab'' = (''fraud'', ''v1'')"
  using storage_uri_roundtrip [of "''oci''" "''reg.local/models''" "''fraud''" "''v1''" "''sha256:ab''"]
  by (simp add: Let_def)

end
