(* ===== verification/Webhook_Discover.thy ===== *)
theory Webhook_Discover
  imports Webhook_Ref
begin

text \<open>
  Signs that a workload serves a model it does not declare (\<open>internal/webhook/discover.go\<close>): serving
  images, model environment variables and flags, volumes mounted at model paths.
\<close>

record evidence =
  e_kind :: string
  e_detail :: string
  e_uri :: string

definition evidence_str :: "evidence \<Rightarrow> string" where
  "evidence_str e = e_kind e @ '' '' @ e_detail e"

definition serving_images :: "string list" where
  "serving_images =
     [''vllm'', ''tritonserver'', ''triton-inference'', ''text-generation-inference'',
      ''tgi'', ''mlserver'', ''torchserve'', ''kserve'', ''seldon'', ''ollama'',
      ''sglang'', ''lorax'', ''ray-llm'', ''openvino_model_server'', ''ovms'',
      ''huggingface-text-generation'', ''text-embeddings-inference'']"

definition model_env_vars :: "string list" where
  "model_env_vars =
     [''STORAGE_URI'', ''MODEL_URI'', ''MODEL_PATH'', ''MODEL_DIR'', ''MODEL_REPOSITORY'',
      ''MODEL_ID'', ''MODEL_NAME'', ''HF_MODEL_ID'', ''HUGGING_FACE_HUB_MODEL_ID'',
      ''MODEL_STORE'', ''SERVED_MODEL_NAME'', ''OLLAMA_MODELS'']"

definition model_args :: "string list" where
  "model_args =
     [''--model'', ''--model-id'', ''--model-path'', ''--model-repository'',
      ''--model-store'', ''--model-name'', ''--served-model-name'']"

definition model_mount_hints :: "string list" where
  "model_mount_hints = [''/model'', ''/models'', ''/mnt/model'', ''/opt/ml/model'', ''/weights'']"

definition storage_schemes :: "string list" where
  "storage_schemes =
     [''s3://'', ''gs://'', ''oci://'', ''http://'', ''https://'', ''pvc://'',
      ''hdfs://'', ''abfss://'', ''azure://'', ''mlflow-artifacts:/'', ''models:/'']"

section \<open>Helpers\<close>

definition is_storage_uri :: "string \<Rightarrow> bool" where
  "is_storage_uri uri \<longleftrightarrow> (\<exists>scheme \<in> set storage_schemes. prefix scheme (to_lower uri))"

definition looks_like_model_path :: "string \<Rightarrow> bool" where
  "looks_like_model_path path \<longleftrightarrow> (\<exists>hint \<in> set model_mount_hints. str_contains (to_lower path) hint)"

definition split_flag :: "string \<Rightarrow> string \<times> string" where
  "split_flag arg =
     (case str_index arg ''='' of
        Some i \<Rightarrow> if i > 0 then (take i arg, drop (i + 1) arg) else (arg, [])
      | None \<Rightarrow> (arg, []))"

definition contains_fold :: "string list \<Rightarrow> string \<Rightarrow> bool" where
  "contains_fold xs v \<longleftrightarrow> (\<exists>x \<in> set xs. equal_fold x v)"

definition env_detail :: "string \<Rightarrow> string \<Rightarrow> amap \<Rightarrow> string" where
  "env_detail name value entry =
     (if value \<noteq> [] then name @ ''='' @ value
      else if map_of entry ''valueFrom'' \<noteq> None
      then name @ '' is set from a reference Cupel cannot read at admission time''
      else name)"

text \<open>\<open>podSpecOf\<close>: the first of the three places that holds containers.\<close>

definition spec_paths :: "string list list" where
  "spec_paths =
     [[''spec'', ''template'', ''spec''],
      [''spec'', ''jobTemplate'', ''spec'', ''template'', ''spec''],
      [''spec'']]"

fun first_pod_spec :: "accessors \<Rightarrow> amap \<Rightarrow> string list list \<Rightarrow> amap option" where
  "first_pod_spec U obj [] = None"
| "first_pod_spec U obj (p # ps) =
     (case found (u_map U obj p) of
        Some spec \<Rightarrow> if map_of spec ''containers'' \<noteq> None then Some spec else first_pod_spec U obj ps
      | None \<Rightarrow> first_pod_spec U obj ps)"

definition pod_spec_of :: "accessors \<Rightarrow> amap \<Rightarrow> amap option" where
  "pod_spec_of U obj = first_pod_spec U obj spec_paths"

section \<open>Evidence in a container\<close>

definition maps_in :: "any list \<Rightarrow> amap list" where
  "maps_in xs = List.map_filter map_of_any xs"

definition image_evidence :: "amap \<Rightarrow> evidence list" where
  "image_evidence container =
     (let image = str_field container ''image'' in
      if image \<noteq> [] \<and> (\<exists>name \<in> set serving_images. str_contains (to_lower image) name)
      then [\<lparr>e_kind = ''image'', e_detail = quote image @ '' is a model-serving runtime'', e_uri = []\<rparr>]
      else [])"

definition env_evidence :: "accessors \<Rightarrow> amap \<Rightarrow> evidence list" where
  "env_evidence U container =
     map (\<lambda>entry. let name = str_field entry ''name''; value = str_field entry ''value'' in
            \<lparr>e_kind = ''env'', e_detail = env_detail name value entry, e_uri = value\<rparr>)
       (filter (\<lambda>entry. contains_fold model_env_vars (str_field entry ''name''))
          (maps_in (slice_or_nil (u_slice U container [''env'']))))"

fun args_evidence :: "string \<Rightarrow> string list \<Rightarrow> evidence list" where
  "args_evidence field [] = []"
| "args_evidence field (arg # rest) =
     (case split_flag arg of (flag, value) \<Rightarrow>
        if contains_fold model_args flag
        then (let v = (if value = [] \<and> rest \<noteq> [] \<and> \<not> prefix ''-'' (hd rest) then hd rest else value)
              in \<lparr>e_kind = field, e_detail = flag @ '' '' @ v, e_uri = v\<rparr> # args_evidence field rest)
        else args_evidence field rest)"

definition mount_evidence :: "accessors \<Rightarrow> amap \<Rightarrow> evidence list" where
  "mount_evidence U container =
     map (\<lambda>mount. \<lparr>e_kind = ''volume'',
            e_detail = ''volume '' @ quote (str_field mount ''name'') @ '' mounted at '' @ str_field mount ''mountPath'',
            e_uri = []\<rparr>)
       (filter (\<lambda>mount. looks_like_model_path (str_field mount ''mountPath''))
          (maps_in (slice_or_nil (u_slice U container [''volumeMounts'']))))"

definition evidence_from_container :: "accessors \<Rightarrow> amap \<Rightarrow> evidence list" where
  "evidence_from_container U container =
     image_evidence container @ env_evidence U container @
     concat (map (\<lambda>field. args_evidence field (slice_or_nil (u_string_slice U container [field])))
       [''args'', ''command'']) @
     mount_evidence U container"

definition evidence_from_volumes :: "accessors \<Rightarrow> amap \<Rightarrow> evidence list" where
  "evidence_from_volumes U spec =
     concat (map (\<lambda>volume.
         (case found (u_string U volume [''persistentVolumeClaim'', ''claimName'']) of
            None \<Rightarrow> []
          | Some claim \<Rightarrow>
              if claim = [] \<or> \<not> looks_like_model_path claim then []
              else [\<lparr>e_kind = ''volume'', e_detail = ''persistent volume claim '' @ quote claim, e_uri = []\<rparr>]))
       (maps_in (slice_or_nil (u_slice U spec [''volumes'']))))"

text \<open>The stable sort puts the evidence that carries a location first.\<close>

definition located_first :: "evidence list \<Rightarrow> evidence list" where
  "located_first es = sort_key (\<lambda>e. if e_uri e \<noteq> [] then 0 else (1 :: nat)) es"

definition discover_model_evidence :: "accessors \<Rightarrow> amap \<Rightarrow> evidence list" where
  "discover_model_evidence U obj =
     (case pod_spec_of U obj of
        None \<Rightarrow> []
      | Some spec \<Rightarrow>
          located_first
            (concat (map (\<lambda>key. concat (map (evidence_from_container U)
                (maps_in (slice_or_nil (u_slice U spec [key]))))) [''containers'', ''initContainers''])
             @ evidence_from_volumes U spec))"

definition describe_evidence :: "evidence list \<Rightarrow> string" where
  "describe_evidence es =
     str_join ''; '' (map evidence_str (take 3 es) @
       (if length es > 3 then [''and '' @ nat_str (length es - 3) @ '' more''] else []))"

fun ref_from_evidence :: "evidence list \<Rightarrow> model_ref" where
  "ref_from_evidence [] = no_ref"
| "ref_from_evidence (e # es) =
     (if \<not> is_storage_uri (e_uri e) then ref_from_evidence es
      else (case model_from_storage_uri (e_uri e) of (model, version) \<Rightarrow>
        if model = [] then ref_from_evidence es
        else \<lparr>ref_model = model, ref_version = version, ref_digest = digest_from_uri (e_uri e),
              ref_uri = e_uri e, ref_environment = []\<rparr>))"

section \<open>Properties\<close>

lemma located_first_set [simp]: "set (located_first es) = set es"
  by (simp add: located_first_def)

lemma located_first_Nil [simp]: "located_first es = [] \<longleftrightarrow> es = []"
  by (metis located_first_set set_empty)

lemma args_evidence_Nil:
  "args_evidence field args = [] \<longleftrightarrow> (\<forall>a \<in> set args. \<not> contains_fold model_args (fst (split_flag a)))"
  by (induction args) (auto simp: Let_def split: prod.splits)

text \<open>What makes one container, or the volumes of a pod, look like they serve a model.\<close>

definition container_serves :: "accessors \<Rightarrow> amap \<Rightarrow> bool" where
  "container_serves U c \<longleftrightarrow>
     (\<exists>name \<in> set serving_images. str_field c ''image'' \<noteq> [] \<and> str_contains (to_lower (str_field c ''image'')) name) \<or>
     (\<exists>entry \<in> set (maps_in (slice_or_nil (u_slice U c [''env'']))).
        contains_fold model_env_vars (str_field entry ''name'')) \<or>
     (\<exists>field \<in> {''args'', ''command''}. \<exists>a \<in> set (slice_or_nil (u_string_slice U c [field])).
        contains_fold model_args (fst (split_flag a))) \<or>
     (\<exists>mount \<in> set (maps_in (slice_or_nil (u_slice U c [''volumeMounts'']))).
        looks_like_model_path (str_field mount ''mountPath''))"

definition volumes_serve :: "accessors \<Rightarrow> amap \<Rightarrow> bool" where
  "volumes_serve U spec \<longleftrightarrow>
     (\<exists>volume \<in> set (maps_in (slice_or_nil (u_slice U spec [''volumes'']))).
        \<exists>claim. found (u_string U volume [''persistentVolumeClaim'', ''claimName'']) = Some claim \<and>
          claim \<noteq> [] \<and> looks_like_model_path claim)"

lemma container_evidence_Nil: "evidence_from_container U c = [] \<longleftrightarrow> \<not> container_serves U c"
  by (auto simp: evidence_from_container_def container_serves_def image_evidence_def env_evidence_def
      mount_evidence_def args_evidence_Nil Let_def filter_empty_conv)

lemma volume_evidence_Nil: "evidence_from_volumes U spec = [] \<longleftrightarrow> \<not> volumes_serve U spec"
  by (auto simp: evidence_from_volumes_def volumes_serve_def split: option.splits if_splits)

text \<open>
  Nothing that looks like a model is overlooked. Evidence is empty exactly when the object
  has no pod specification, or no container of it, an init container included, has a serving image,
  a model variable (in any case, also when its value comes from a secret), a model flag or a model
  mount, and no volume claims a model path.
\<close>

theorem no_evidence_iff:
  "discover_model_evidence U obj = [] \<longleftrightarrow>
     (\<forall>spec. pod_spec_of U obj = Some spec \<longrightarrow>
        (\<forall>key \<in> {''containers'', ''initContainers''}.
           \<forall>c \<in> set (maps_in (slice_or_nil (u_slice U spec [key]))). \<not> container_serves U c) \<and>
        \<not> volumes_serve U spec)"
  by (auto simp: discover_model_evidence_def container_evidence_Nil volume_evidence_Nil split: option.splits)

text \<open>An accessor for the witness: the object is the pod specification, one level deep.\<close>

definition flat_accessors :: accessors where
  "flat_accessors =
     \<lparr>u_string = (\<lambda>m p. case map_of m (hd p) of Some (AStr s) \<Rightarrow> Inr (Some s) | _ \<Rightarrow> Inr None),
      u_map = (\<lambda>m p. case map_of m (hd p) of Some (AMap x) \<Rightarrow> Inr (Some x) | _ \<Rightarrow> Inr None),
      u_slice = (\<lambda>m p. case map_of m (hd p) of Some (ASlice xs) \<Rightarrow> Inr (Some xs) | _ \<Rightarrow> Inr None),
      u_string_slice = (\<lambda>m p. case map_of m (hd p) of
         Some (ASlice xs) \<Rightarrow> Inr (Some (List.map_filter (\<lambda>x. case x of AStr s \<Rightarrow> Some s | _ \<Rightarrow> None) xs))
       | _ \<Rightarrow> Inr None),
      u_annotations = (\<lambda>m. []), u_labels = (\<lambda>m. []), u_kind = (\<lambda>m. ''Pod''), u_name = (\<lambda>m. ''p''),
      u_generate_name = (\<lambda>m. [])\<rparr>"

definition vllm_pod :: amap where
  "vllm_pod = [(''spec'', AMap [(''containers'', ASlice [AMap [(''image'', AStr ''docker.io/VLLM/vllm-openai:v0.6'')]])])]"

theorem no_evidence_iff_witness: "discover_model_evidence flat_accessors vllm_pod \<noteq> []"
proof -
  have p: "pod_spec_of flat_accessors vllm_pod
      = Some [(''containers'', ASlice [AMap [(''image'', AStr ''docker.io/VLLM/vllm-openai:v0.6'')]])]"
    by code_simp
  have "container_serves flat_accessors [(''image'', AStr ''docker.io/VLLM/vllm-openai:v0.6'')]"
    by code_simp
  moreover have "[(''image'', AStr ''docker.io/VLLM/vllm-openai:v0.6'')]
      \<in> set (maps_in (slice_or_nil (u_slice flat_accessors
            [(''containers'', ASlice [AMap [(''image'', AStr ''docker.io/VLLM/vllm-openai:v0.6'')]])] [''containers''])))"
    by code_simp
  ultimately show ?thesis
    unfolding no_evidence_iff [of flat_accessors vllm_pod] using p by blast
qed

text \<open>
  Only a location names a model. A reference made from evidence has a model only if some piece
  of evidence is a storage location with a scheme the fetch step understands; its model, version and
  digest are the ones a declared location would give, and a bare path or a hub name never becomes one.
\<close>

theorem discovered_ref_has_location:
  assumes "ref_model (ref_from_evidence es) \<noteq> []"
  shows "\<exists>e \<in> set es. is_storage_uri (e_uri e) \<and>
    ref_from_evidence es =
      \<lparr>ref_model = fst (model_from_storage_uri (e_uri e)), ref_version = snd (model_from_storage_uri (e_uri e)),
       ref_digest = digest_from_uri (e_uri e), ref_uri = e_uri e, ref_environment = []\<rparr>"
  using assms
proof (induction es)
  case Nil
  then show ?case by (simp add: no_ref_def)
next
  case (Cons e es)
  show ?case
  proof (cases "is_storage_uri (e_uri e) \<and> fst (model_from_storage_uri (e_uri e)) \<noteq> []")
    case True
    then show ?thesis by (auto split: prod.splits)
  next
    case False
    then have "ref_from_evidence (e # es) = ref_from_evidence es" by (auto split: prod.splits)
    then show ?thesis using Cons by auto
  qed
qed

theorem discovered_ref_has_location_witness:
  "ref_uri (ref_from_evidence [\<lparr>e_kind = ''env'', e_detail = [], e_uri = ''/models/llama3''\<rparr>,
     \<lparr>e_kind = ''env'', e_detail = [], e_uri = ''s3://b/fraud/1''\<rparr>]) = ''s3://b/fraud/1''"
proof -
  define es where "es = [\<lparr>e_kind = ''env'', e_detail = [], e_uri = ''/models/llama3''\<rparr>,
     \<lparr>e_kind = ''env'', e_detail = [], e_uri = ''s3://b/fraud/1''\<rparr>]"
  have "ref_model (ref_from_evidence es) \<noteq> []" unfolding es_def by code_simp
  from discovered_ref_has_location [OF this] obtain e where e: "e \<in> set es" "is_storage_uri (e_uri e)"
    "ref_uri (ref_from_evidence es) = e_uri e" by auto
  have "\<not> is_storage_uri ''/models/llama3''" by code_simp
  then show ?thesis using e unfolding es_def [symmetric] by (auto simp: es_def)
qed

end
