(* ===== verification/Webhook_Gate.thy ===== *)
theory Webhook_Gate
  imports Webhook_Discover Controller_Names Audit_Events Kube
begin

text \<open>
  The admission gate (\<open>internal/webhook/gate.go\<close>, \<open>audit.go\<close>): it admits a workload only if the model it
  serves has an approved report, records every decision that cannot be reconstructed otherwise, and
  fails closed.  The definitions take the gate's configuration with its clients, the accessors of
  untyped objects and the digest of the object names.  The metrics and the deadline of the write to
  the log are not modelled, and the message of a failed lookup leaves out the API server's own text.
\<close>

section \<open>Outcomes and responses\<close>

datatype outcome =
    Admitted | Refused | AdmittedNoScan | AdmittedAudit | AdmittedWarn | AdmittedSkipped
  | AdmittedUnidentified | AdmittedUnexamined | Failed

definition outcome_str :: "outcome \<Rightarrow> string" where
  "outcome_str x =
     (case x of
        Admitted \<Rightarrow> ''allowed'' | Refused \<Rightarrow> ''denied'' | AdmittedNoScan \<Rightarrow> ''allowed_unscanned''
      | AdmittedAudit \<Rightarrow> ''allowed_audit'' | AdmittedWarn \<Rightarrow> ''allowed_warn''
      | AdmittedSkipped \<Rightarrow> ''allowed_skip_annotation''
      | AdmittedUnidentified \<Rightarrow> ''allowed_unidentified_model''
      | AdmittedUnexamined \<Rightarrow> ''allowed_unexamined'' | Failed \<Rightarrow> ''error'')"

datatype response =
    Allowed (message: string) (warnings: "string list")
  | Denied (message: string)
  | Errored (code: int) (message: string)

record request =
  rq_operation :: string
  rq_namespace :: string
  rq_name :: string
  rq_username :: string
  rq_groups :: "string list"
  rq_object :: "string + amap"

record ('s, 'e) model_gate =
  mg_reports :: "('s, model_report) kclient"
  mg_policies :: "('s, scan_policy) kclient"
  mg_append :: "(audit_record \<Rightarrow> 's \<Rightarrow> ('e + audit_record) \<times> 's) option"
  mg_now :: "'s \<Rightarrow> go_time \<times> 's"
  mg_default_policy :: string
  mg_max_age :: duration
  mg_require_report :: bool
  mg_report_namespace :: string
  mg_digest :: hex_digest
  mg_accessors :: accessors

section \<open>Small helpers\<close>

definition or_unknown :: "string \<Rightarrow> string" where
  "or_unknown v = (if v = [] then ''unknown'' else v)"

definition i32_str :: "int32 \<Rightarrow> string" where
  "i32_str w = int_str (sint w)"

definition lookup_namespaces :: "('s, 'e) model_gate \<Rightarrow> string \<Rightarrow> string list" where
  "lookup_namespaces G ns =
     (if mg_report_namespace G = [] \<or> mg_report_namespace G = ns then [ns]
      else [ns, mg_report_namespace G])"

definition report_describes :: "model_report \<Rightarrow> model_ref \<Rightarrow> bool" where
  "report_describes report ref =
     (let sp = mr_spec report in
      if rs_model sp = [] then True
      else if rs_model sp \<noteq> ref_model ref then False
      else if rs_version sp \<noteq> [] \<and> ref_version ref \<noteq> [] then rs_version sp = ref_version ref
      else True)"

definition round_age :: "duration \<Rightarrow> string" where
  "round_age d =
     (if d \<ge> 48 * hour then int_str (d div (24 * hour)) @ '' days''
      else if d \<ge> 2 * hour then int_str (d div hour) @ '' hours''
      else duration_str (round_duration d minute))"

section \<open>Finding the report\<close>

text \<open>\<open>findReport\<close>: the namespaces in order, and in each the names in order.\<close>

fun find_named ::
    "('s, model_report) kclient \<Rightarrow> okey list \<Rightarrow> model_ref \<Rightarrow> 's \<Rightarrow> (kerr + model_report option) \<times> 's"
where
  "find_named c [] ref s = (Inr None, s)"
| "find_named c (k # ks) ref s =
     (case k_get c k s of
        (Inr x, s') \<Rightarrow>
          (if report_describes (fst x) ref then (Inr (Some (fst x)), s') else find_named c ks ref s')
      | (Inl e, s') \<Rightarrow> (if e = NotFound then find_named c ks ref s' else (Inl e, s')))"

definition report_keys :: "('s, 'e) model_gate \<Rightarrow> string \<Rightarrow> model_ref \<Rightarrow> okey list" where
  "report_keys G ns ref =
     concat (map (\<lambda>n. map (\<lambda>name. (n, name)) (model_report_names (mg_digest G) (ref_model ref) (ref_version ref)))
       (lookup_namespaces G ns))"

definition find_report ::
    "('s, 'e) model_gate \<Rightarrow> string \<Rightarrow> model_ref \<Rightarrow> 's \<Rightarrow> (kerr + model_report option) \<times> 's" where
  "find_report G ns ref s = find_named (mg_reports G) (report_keys G ns ref) ref s"

section \<open>Policies\<close>

fun first_policy :: "('s, scan_policy) kclient \<Rightarrow> string \<Rightarrow> string list \<Rightarrow> 's \<Rightarrow> scan_policy option \<times> 's" where
  "first_policy c name [] s = (None, s)"
| "first_policy c name (ns # nss) s =
     (case k_get c (ns, name) s of
        (Inr x, s') \<Rightarrow> (Some (fst x), s')
      | (Inl e, s') \<Rightarrow> first_policy c name nss s')"

definition policy_name :: "('s, 'e) model_gate \<Rightarrow> str_map \<Rightarrow> string" where
  "policy_name G annotations =
     (let name = sm_get annotations ann_policy in if name = [] then mg_default_policy G else name)"

definition enforcement_for :: "('s, 'e) model_gate \<Rightarrow> string \<Rightarrow> str_map \<Rightarrow> 's \<Rightarrow> string \<times> 's" where
  "enforcement_for G ns annotations s =
     (let name = policy_name G annotations in
      if name = [] then (''Enforce'', s)
      else (case first_policy (mg_policies G) name (lookup_namespaces G ns) s of
              (None, s') \<Rightarrow> (''Enforce'', s')
            | (Some pol, s') \<Rightarrow> (if po_enforcement pol = [] then ''Enforce'' else po_enforcement pol, s')))"

definition promotion_require :: string where "promotion_require = ''Require''"
definition promotion_ignore :: string where "promotion_ignore = ''Ignore''"

definition promotion_mode_for :: "('s, 'e) model_gate \<Rightarrow> string \<Rightarrow> str_map \<Rightarrow> 's \<Rightarrow> string \<times> 's" where
  "promotion_mode_for G ns annotations s =
     (let name = policy_name G annotations in
      if name = [] then (promotion_require, s)
      else (case first_policy (mg_policies G) name (lookup_namespaces G ns) s of
              (None, s') \<Rightarrow> (promotion_require, s')
            | (Some pol, s') \<Rightarrow>
                (if po_promotion pol = promotion_ignore then promotion_ignore else promotion_require, s')))"

section \<open>The decision on a report\<close>

definition of_version :: "model_ref \<Rightarrow> string" where
  "of_version ref = ''model '' @ quote (ref_model ref) @ '' version '' @ quote (ref_version ref)"

text \<open>\<open>evaluate\<close>: \<open>None\<close> admits, \<open>Some reason\<close> denies.  \<open>now\<close> is read only if there is an age limit.\<close>

definition verdict_denial :: "model_report \<Rightarrow> model_ref \<Rightarrow> string option" where
  "verdict_denial report ref =
     (let st = mr_status report; v = rt_verdict st in
      if v = verdict_approved then None
      else if v = verdict_quarantined
      then Some (of_version ref @ '' is quarantined (risk score '' @ i32_str (rt_risk st) @ '', malware: '' @
             or_unknown (rt_malware st) @ '')'')
      else if v = verdict_review_required
      then Some (of_version ref @ '' requires security review before deployment (risk score '' @
             i32_str (rt_risk st) @ '')'')
      else Some (of_version ref @ '' has no completed scan verdict''))"

definition age_denial :: "duration \<Rightarrow> go_time \<Rightarrow> model_report \<Rightarrow> model_ref \<Rightarrow> string option" where
  "age_denial max_age now report ref =
     (if max_age > 0
      then (case rt_last_scan (mr_status report) of
              None \<Rightarrow> Some (of_version ref @ '' carries an approval with no scan time, so it cannot be '' @
                ''shown to be within the '' @ duration_str max_age @ '' freshness limit; rescan it'')
            | Some scanned \<Rightarrow>
                (let age = time_sub now scanned in
                 if age > max_age
                 then Some (of_version ref @ '' was last scanned '' @ round_age age @ '' ago, beyond the '' @
                   duration_str max_age @ '' freshness limit; rescan it before deploying'')
                 else None))
      else None)"

definition digest_denial :: "model_report \<Rightarrow> model_ref \<Rightarrow> string option" where
  "digest_denial report ref =
     (let scanned = ar_digest (rs_artifact (mr_spec report)) in
      if ref_digest ref \<noteq> [] \<and> scanned \<noteq> [] \<and> ref_digest ref \<noteq> scanned
      then Some (''artifact digest '' @ ref_digest ref @ '' does not match the scanned digest '' @ scanned)
      else None)"

definition environment_denial :: "string \<Rightarrow> model_report \<Rightarrow> model_ref \<Rightarrow> string option" where
  "environment_denial promotion report ref =
     (let envs = rt_environments (mr_status report); env = ref_environment ref in
      if env = [] then None
      else if envs = []
      then (if promotion \<noteq> promotion_ignore
            then Some (of_version ref @ '' is not promoted to any environment, and this workload '' @
              ''declares '' @ quote env @ ''; approve a PromotionRequest, or set spec.environmentPromotion: '' @
              ''Ignore on the policy if this cluster does not use promotions'')
            else None)
      else if \<not> contains_fold envs env
      then Some (of_version ref @ '' is not promoted to '' @ quote env @ '' (approved for: '' @
        str_join '', '' envs @ '')'')
      else None)"

definition or_else :: "string option \<Rightarrow> string option \<Rightarrow> string option" where
  "or_else a b = (case a of None \<Rightarrow> b | Some x \<Rightarrow> Some x)"

definition evaluate_report ::
    "duration \<Rightarrow> go_time \<Rightarrow> model_report \<Rightarrow> model_ref \<Rightarrow> string \<Rightarrow> string option" where
  "evaluate_report max_age now report ref promotion =
     or_else (verdict_denial report ref)
       (or_else (age_denial max_age now report ref)
          (or_else (digest_denial report ref) (environment_denial promotion report ref)))"

section \<open>The handler\<close>

type_synonym 's ruling = "(response \<times> outcome \<times> model_ref \<times> string) \<times> 's"

text \<open>From the evaluated report to the response: denials by enforcement mode, then approvals.\<close>

definition rule_on_report ::
    "string \<Rightarrow> model_report \<Rightarrow> model_ref \<Rightarrow> string option \<Rightarrow> response \<times> outcome \<times> model_ref \<times> string" where
  "rule_on_report enforcement report ref denial =
     (case denial of
        Some why \<Rightarrow>
          (if enforcement = ''Audit''
           then (Allowed (''cupel: '' @ why @ '' (audit mode)'') [], AdmittedAudit, ref, why)
           else if enforcement = ''Warn''
           then (Allowed ''cupel: admitted with warnings'' [''cupel: '' @ why], AdmittedWarn, ref, why)
           else (Denied (''cupel: '' @ why), Refused, ref, why))
      | None \<Rightarrow>
          (let n = total_counts (rt_unexamined (mr_status report)) in
           if 0 <s n
           then (Allowed (''cupel: '' @ of_version ref @ '' approved (risk score '' @ i32_str (rt_risk (mr_status report)) @
                    '') over a partially read artifact'')
                   [''cupel: '' @ i32_str n @ '' part(s) of '' @ of_version ref @
                    '' were never read, so this approval does not cover the whole artifact; '' @
                    ''set blockUnexamined on the scan policy to refuse these''],
                 AdmittedUnexamined, ref,
                 ''approved over a partially read artifact ('' @ i32_str n @ '' unexamined)'')
           else (Allowed (''cupel: '' @ of_version ref @ '' approved (risk score '' @
                    i32_str (rt_risk (mr_status report)) @ '')'') [],
                 Admitted, ref, [])))"

definition rule_on_ref :: "('s, 'e) model_gate \<Rightarrow> request \<Rightarrow> str_map \<Rightarrow> model_ref \<Rightarrow> 's \<Rightarrow> 's ruling" where
  "rule_on_ref G req annotations ref s =
     (case find_report G (rq_namespace req) ref s of
        (Inl e, s1) \<Rightarrow> ((Errored 500 ''look up security report'', Failed, ref, []), s1)
      | (Inr None, s1) \<Rightarrow>
          (let why = ''no security report for '' @ of_version ref in
           (if mg_require_report G
            then (Denied (of_version ref @ '' has not been scanned by Cupel; register it and wait for the scan to complete''),
                  Refused, ref, why)
            else (Allowed (''no Cupel security report for '' @ of_version ref) [], AdmittedNoScan, ref, why), s1))
      | (Inr (Some report), s1) \<Rightarrow>
          (case enforcement_for G (rq_namespace req) annotations s1 of (enforcement, s2) \<Rightarrow>
           case promotion_mode_for G (rq_namespace req) annotations s2 of (promotion, s3) \<Rightarrow>
           case (if mg_max_age G > 0 then mg_now G s3 else (0, s3)) of (now, s4) \<Rightarrow>
             (rule_on_report enforcement report ref
                (evaluate_report (mg_max_age G) now report ref promotion), s4)))"

definition gate_ruling :: "('s, 'e) model_gate \<Rightarrow> request \<Rightarrow> 's \<Rightarrow> 's ruling" where
  "gate_ruling G req s =
     (if rq_operation req = ''DELETE'' then ((Allowed [] [], Admitted, no_ref, []), s)
      else
        (case rq_object req of
           Inl e \<Rightarrow> ((Errored 400 (''decode object: '' @ e), Failed, no_ref, []), s)
         | Inr obj \<Rightarrow>
             (let U = mg_accessors G; annotations = u_annotations U obj; ref = extract_model_ref U obj in
              if equal_fold (sm_get annotations ann_skip) ''true''
              then ((Allowed ''cupel validation explicitly skipped by annotation'' [], AdmittedSkipped, ref,
                     ''skip-validation annotation set on the workload''), s)
              else if ref_model ref \<noteq> [] then rule_on_ref G req annotations ref s
              else
                (let evidence = discover_model_evidence U obj in
                 if evidence = []
                 then ((Allowed ''no model reference and no sign this workload serves one'' [], Admitted, ref, []), s)
                 else
                   (let found_ref = ref_from_evidence evidence in
                    if ref_model found_ref \<noteq> [] then rule_on_ref G req annotations found_ref s
                    else
                      (let why = ''workload serves a model it does not identify: '' @ describe_evidence evidence in
                       if mg_require_report G
                       then ((Denied (''this workload appears to serve a model ('' @ describe_evidence evidence @
                                '') and does not identify which one; annotate it with '' @ ann_model @ '' and '' @
                                ann_version @ '', or set '' @ ann_skip @ ''=true to accept the risk explicitly''),
                              Refused, found_ref, why), s)
                       else ((Allowed ''cupel: model could not be identified''
                                [''cupel: this workload appears to serve a model ('' @ describe_evidence evidence @
                                 '') but does not identify which one, so no scan verdict was applied''],
                              AdmittedUnidentified, found_ref, why), s)))))))"

section \<open>Recording the decision\<close>

definition auditable :: "outcome \<Rightarrow> bool" where
  "auditable x \<longleftrightarrow> x \<in> {Refused, AdmittedNoScan, AdmittedAudit, AdmittedWarn, AdmittedSkipped,
     AdmittedUnidentified, AdmittedUnexamined}"

definition workload_name :: "accessors \<Rightarrow> request \<Rightarrow> amap \<Rightarrow> string" where
  "workload_name U req obj =
     (if rq_name req \<noteq> [] then rq_name req
      else if u_name U obj \<noteq> [] then u_name U obj
      else if u_generate_name U obj \<noteq> [] then u_generate_name U obj @ ''<generated>''
      else ''<unnamed '' @ u_kind U obj @ ''>'')"

definition decision_record ::
    "accessors \<Rightarrow> go_time \<Rightarrow> request \<Rightarrow> amap \<Rightarrow> model_ref \<Rightarrow> outcome \<Rightarrow> string \<Rightarrow> audit_record" where
  "decision_record U now req obj ref outcome why =
     (let r = deployment_decision now (or_unknown (ref_model ref)) (or_unknown (ref_version ref))
                (rq_namespace req) (workload_name U req obj) (outcome \<noteq> Refused) why;
          d = sm_put ''operation'' (rq_operation req)
                (sm_put ''kind'' (u_kind U obj) (sm_put ''outcome'' (outcome_str outcome) (ar_detail r)));
          d = (if ref_uri ref \<noteq> [] then sm_put ''storageURI'' (ref_uri ref) d else d);
          d = (if ref_digest ref \<noteq> [] then sm_put ''digest'' (ref_digest ref) d else d)
      in r\<lparr>ar_detail := d,
           ar_actor := (if rq_username req \<noteq> [] then rq_username req else ar_actor r)\<rparr>)"

definition record_decision ::
    "('s, 'e) model_gate \<Rightarrow> request \<Rightarrow> amap \<Rightarrow> model_ref \<Rightarrow> outcome \<Rightarrow> string \<Rightarrow> 's \<Rightarrow> 's" where
  "record_decision G req obj ref outcome why s =
     (case mg_append G of
        None \<Rightarrow> s
      | Some append_to \<Rightarrow>
          if \<not> auditable outcome then s
          else (case mg_now G s of (now, s1) \<Rightarrow>
                  snd (append_to (decision_record (mg_accessors G) now req obj ref outcome why) s1)))"

definition gate_handle :: "('s, 'e) model_gate \<Rightarrow> request \<Rightarrow> 's \<Rightarrow> response \<times> 's" where
  "gate_handle G req s =
     (case gate_ruling G req s of
        ((resp, outcome, ref, why), s1) \<Rightarrow>
          (resp, record_decision G req (case rq_object req of Inr obj \<Rightarrow> obj | Inl _ \<Rightarrow> []) ref outcome why s1))"


section \<open>What an approval is\<close>

text \<open>
  The specification: an approved verdict, fresh enough where there is a limit, about the bytes the
  workload pins, and promoted to the environment it declares.
\<close>

definition approval_ok :: "duration \<Rightarrow> go_time \<Rightarrow> model_report \<Rightarrow> model_ref \<Rightarrow> string \<Rightarrow> bool" where
  "approval_ok max_age now report ref promotion \<longleftrightarrow>
     rt_verdict (mr_status report) = verdict_approved \<and>
     (max_age > 0 \<longrightarrow> (case rt_last_scan (mr_status report) of None \<Rightarrow> False | Some t \<Rightarrow> time_sub now t \<le> max_age)) \<and>
     (ref_digest ref = [] \<or> ar_digest (rs_artifact (mr_spec report)) = [] \<or>
        ref_digest ref = ar_digest (rs_artifact (mr_spec report))) \<and>
     (ref_environment ref = [] \<or>
        (if rt_environments (mr_status report) = [] then promotion = promotion_ignore
         else \<exists>e \<in> set (rt_environments (mr_status report)). equal_fold e (ref_environment ref)))"

lemma or_else_None [simp]: "or_else a b = None \<longleftrightarrow> a = None \<and> b = None"
  by (simp add: or_else_def split: option.split)

lemma evaluate_report_None:
  "evaluate_report max_age now report ref promotion = None \<longleftrightarrow> approval_ok max_age now report ref promotion"
proof -
  have "verdict_denial report ref = None \<longleftrightarrow> rt_verdict (mr_status report) = verdict_approved"
    by (simp add: verdict_denial_def Let_def)
  moreover have "age_denial max_age now report ref = None \<longleftrightarrow>
      (max_age > 0 \<longrightarrow> (case rt_last_scan (mr_status report) of None \<Rightarrow> False | Some t \<Rightarrow> time_sub now t \<le> max_age))"
    by (auto simp: age_denial_def Let_def not_less split: option.split)
  moreover have "digest_denial report ref = None \<longleftrightarrow>
      (ref_digest ref = [] \<or> ar_digest (rs_artifact (mr_spec report)) = [] \<or>
        ref_digest ref = ar_digest (rs_artifact (mr_spec report)))"
    by (auto simp: digest_denial_def Let_def)
  moreover have "environment_denial promotion report ref = None \<longleftrightarrow>
      (ref_environment ref = [] \<or>
        (if rt_environments (mr_status report) = [] then promotion = promotion_ignore
         else \<exists>e \<in> set (rt_environments (mr_status report)). equal_fold e (ref_environment ref)))"
    by (auto simp: environment_denial_def Let_def contains_fold_def)
  ultimately show ?thesis unfolding evaluate_report_def approval_ok_def by simp
qed

text \<open>
  An age limit, a digest and an environment only take approvals away. Evaluating a report
  admits exactly the approvals of the specification, and what is admitted under an age limit is
  admitted without one, at any time before and whatever the limit: staleness never rescues a denial.
\<close>

theorem evaluate_report_spec:
  "(evaluate_report max_age now report ref promotion = None \<longleftrightarrow> approval_ok max_age now report ref promotion) \<and>
   (approval_ok max_age now report ref promotion \<longrightarrow> approval_ok 0 now' report ref promotion) \<and>
   (approval_ok max_age now report ref promotion \<longrightarrow> now' \<le> now \<longrightarrow> approval_ok max_age now' report ref promotion)"
proof (intro conjI impI)
  show "evaluate_report max_age now report ref promotion = None \<longleftrightarrow> approval_ok max_age now report ref promotion"
    by (rule evaluate_report_None)
  assume a: "approval_ok max_age now report ref promotion"
  then show "approval_ok 0 now' report ref promotion" by (simp add: approval_ok_def)
  assume "now' \<le> now"
  then have "time_sub now' t \<le> time_sub now t" for t by (simp add: time_sub_def)
  then show "approval_ok max_age now' report ref promotion"
    using a unfolding approval_ok_def by (auto split: option.splits intro: order.trans)
qed

definition some_report :: "string \<Rightarrow> go_time option \<Rightarrow> severity_counts \<Rightarrow> model_report" where
  "some_report verdict scanned unread =
     \<lparr>mr_meta = \<lparr>om_name = ''r'', om_namespace = ''cupel'', om_uid = [], om_labels = [],
        om_annotations = [], om_owner = None, om_created = 0, om_deleted = None\<rparr>,
      mr_spec = \<lparr>rs_model = ''fraud'', rs_version = ''1'',
        rs_artifact = \<lparr>ar_uri = ''s3://m/fraud/1'', ar_digest = ''sha256:ab'', ar_media_type = [],
          ar_format = [], ar_size = None\<rparr>, rs_scan_ref = ''scan''\<rparr>,
      mr_status = \<lparr>rt_verdict = verdict, rt_risk = 7, rt_malware = ''Clean'', rt_secrets = ''Clean'',
        rt_cves = no_counts, rt_unexamined = unread, rt_sbom_ref = [], rt_aibom_ref = [],
        rt_signature_verified = False, rt_scanners = [], rt_last_scan = scanned, rt_environments = []\<rparr>\<rparr>"

definition some_ref :: model_ref where
  "some_ref = no_ref\<lparr>ref_model := ''fraud'', ref_version := ''1''\<rparr>"

theorem evaluate_report_spec_witness:
  "approval_ok 0 99 (some_report verdict_approved (Some 5) no_counts) some_ref promotion_require"
proof -
  have "approval_ok 10 14 (some_report verdict_approved (Some 5) no_counts) some_ref promotion_require"
    by (simp add: approval_ok_def some_report_def some_ref_def no_ref_def time_sub_def max_duration_def min_duration_def)
  then show ?thesis using evaluate_report_spec by blast
qed

section \<open>Whom the gate admits\<close>

text \<open>The reference the gate goes by: the declared one, or the one found by its location.\<close>

definition workload_ref :: "accessors \<Rightarrow> amap \<Rightarrow> model_ref" where
  "workload_ref U obj =
     (if ref_model (extract_model_ref U obj) \<noteq> [] then extract_model_ref U obj
      else ref_from_evidence (discover_model_evidence U obj))"

definition skips :: "accessors \<Rightarrow> amap \<Rightarrow> bool" where
  "skips U obj \<longleftrightarrow> equal_fold (sm_get (u_annotations U obj) ann_skip) ''true''"

definition shows_no_model :: "accessors \<Rightarrow> amap \<Rightarrow> bool" where
  "shows_no_model U obj \<longleftrightarrow>
     ref_model (extract_model_ref U obj) = [] \<and> discover_model_evidence U obj = []"

definition is_allowed :: "response \<Rightarrow> bool" where
  "is_allowed r = (case r of Allowed m ws \<Rightarrow> True | _ \<Rightarrow> False)"

lemma is_allowed_simps [simp]:
  "is_allowed (Allowed m ws)" "\<not> is_allowed (Denied m)" "\<not> is_allowed (Errored c m)"
  by (simp_all add: is_allowed_def)

text \<open>How a found report admits: a policy that only observes, or an approval.\<close>

definition report_admits ::
    "('s, 'e) model_gate \<Rightarrow> request \<Rightarrow> amap \<Rightarrow> model_report \<Rightarrow> 's \<Rightarrow> bool" where
  "report_admits G req obj report s1 \<longleftrightarrow>
     (let ann = u_annotations (mg_accessors G) obj; ref = workload_ref (mg_accessors G) obj;
          (enforcement, s2) = enforcement_for G (rq_namespace req) ann s1;
          (promotion, s3) = promotion_mode_for G (rq_namespace req) ann s2;
          now = (if mg_max_age G > 0 then fst (mg_now G s3) else 0)
      in enforcement \<in> {''Audit'', ''Warn''} \<or> approval_ok (mg_max_age G) now report ref promotion)"

lemma rule_on_report_allowed:
  "is_allowed (fst (rule_on_report enf report ref denial)) \<longleftrightarrow> enf \<in> {''Audit'', ''Warn''} \<or> denial = None"
  by (auto simp: rule_on_report_def Let_def split: option.splits)

lemma rule_on_ref_allowed:
  assumes "ref = workload_ref (mg_accessors G) obj"
  shows "is_allowed (fst (fst (rule_on_ref G req (u_annotations (mg_accessors G) obj) ref s))) \<longleftrightarrow>
    (case find_report G (rq_namespace req) ref s of
       (Inl e, s1) \<Rightarrow> False
     | (Inr None, s1) \<Rightarrow> \<not> mg_require_report G
     | (Inr (Some report), s1) \<Rightarrow> report_admits G req obj report s1)"
  using assms
  by (auto simp: rule_on_ref_def report_admits_def Let_def rule_on_report_allowed evaluate_report_None
      split: prod.splits sum.splits option.splits)

lemma gate_admits_iff':
  "is_allowed (fst (gate_handle G req s)) \<longleftrightarrow>
     rq_operation req = ''DELETE'' \<or>
     (\<exists>obj. rq_object req = Inr obj \<and>
        (let U = mg_accessors G; ref = workload_ref U obj in
         skips U obj \<or> shows_no_model U obj \<or>
         (if ref_model ref = [] then \<not> mg_require_report G
          else (case find_report G (rq_namespace req) ref s of
                  (Inl e, s1) \<Rightarrow> False
                | (Inr None, s1) \<Rightarrow> \<not> mg_require_report G
                | (Inr (Some report), s1) \<Rightarrow> report_admits G req obj report s1))))"
proof -
  have h: "fst (gate_handle G req s) = fst (fst (gate_ruling G req s))"
    by (simp add: gate_handle_def split: prod.splits)
  show ?thesis
  proof (cases "rq_operation req = ''DELETE'' \<or> isl (rq_object req)")
    case True
    then show ?thesis unfolding h
      by (auto simp: gate_ruling_def isl_def split: sum.splits)
  next
    case False
    then obtain obj where obj: "rq_object req = Inr obj" by (metis isl_def sum.exhaust)
    show ?thesis unfolding h using False obj
      by (simp add: gate_ruling_def skips_def shows_no_model_def workload_ref_def Let_def
          rule_on_ref_allowed)
  qed
qed

text \<open>
  Claim C2. The gate admits exactly these workloads: deletions; objects that opted out with the skip
  annotation; objects that neither declare a model nor show any sign of one; and, where reports are
  not required, workloads whose model cannot be identified or has no report. Any other workload is
  admitted only if a report that was read describes its model, and either the policy read for it
  says \<open>Audit\<close> or \<open>Warn\<close>, or the report is an approval of it. A failed lookup never admits.
\<close>

theorem gate_admits_iff:
  "is_allowed (fst (gate_handle G req s)) \<longleftrightarrow>
     rq_operation req = ''DELETE'' \<or>
     (\<exists>obj. rq_object req = Inr obj \<and>
        (let U = mg_accessors G; ref = workload_ref U obj in
         skips U obj \<or> shows_no_model U obj \<or>
         (if ref_model ref = [] then \<not> mg_require_report G
          else (case find_report G (rq_namespace req) ref s of
                  (Inl e, s1) \<Rightarrow> False
                | (Inr None, s1) \<Rightarrow> \<not> mg_require_report G
                | (Inr (Some report), s1) \<Rightarrow> report_admits G req obj report s1))))"
  by (rule gate_admits_iff')

section \<open>A gate in memory\<close>

record gate_world =
  gw_reports :: "model_report mem_store"
  gw_policies :: "scan_policy mem_store"
  gw_log :: "audit_record list"

definition demo_accessors :: accessors where
  "demo_accessors = flat_accessors\<lparr>
     u_annotations := (\<lambda>m. List.map_filter (\<lambda>(k, x). case x of AStr v \<Rightarrow> Some (k, v) | _ \<Rightarrow> None) m)\<rparr>"

definition demo_gate :: "(gate_world, unit) model_gate" where
  "demo_gate =
     \<lparr>mg_reports = mem_client gw_reports (\<lambda>m. gw_reports_update (\<lambda>_. m)),
      mg_policies = mem_client gw_policies (\<lambda>m. gw_policies_update (\<lambda>_. m)),
      mg_append = Some (\<lambda>ev w. (Inr ev, w\<lparr>gw_log := gw_log w @ [ev]\<rparr>)), mg_now = (\<lambda>w. (100, w)),
      mg_default_policy = [], mg_max_age = 0, mg_require_report = True, mg_report_namespace = ''cupel'',
      mg_digest = one_digest [], mg_accessors = demo_accessors\<rparr>"

definition demo_world :: "model_report \<Rightarrow> gate_world" where
  "demo_world r =
     \<lparr>gw_reports = [((''cupel'', model_report_name (one_digest []) ''fraud'' ''1''), (r, 1))],
      gw_policies = [], gw_log = []\<rparr>"

definition demo_object :: amap where
  "demo_object = [(ann_model, AStr ''fraud''), (ann_version, AStr ''1'')]"

definition demo_request :: request where
  "demo_request = \<lparr>rq_operation = ''CREATE'', rq_namespace = ''team'', rq_name = ''w'', rq_username = ''ann'',
     rq_groups = [], rq_object = Inr demo_object\<rparr>"

lemma demo_gate_sel [simp]:
  "mg_reports demo_gate = mem_client gw_reports (\<lambda>m. gw_reports_update (\<lambda>_. m))"
  "mg_policies demo_gate = mem_client gw_policies (\<lambda>m. gw_policies_update (\<lambda>_. m))"
  "mg_append demo_gate = Some (\<lambda>ev w. (Inr ev, w\<lparr>gw_log := gw_log w @ [ev]\<rparr>))"
  "mg_default_policy demo_gate = []" "mg_max_age demo_gate = 0" "mg_require_report demo_gate"
  "mg_report_namespace demo_gate = ''cupel''" "mg_digest demo_gate = one_digest []"
  "mg_accessors demo_gate = demo_accessors"
  by (simp_all add: demo_gate_def)

lemma demo_ref: "workload_ref demo_accessors demo_object = some_ref"
  "extract_model_ref demo_accessors demo_object = some_ref" "\<not> skips demo_accessors demo_object"
  "\<not> shows_no_model demo_accessors demo_object" "ref_model some_ref \<noteq> []"
  by code_simp+

lemma demo_find:
  "mr_spec r = mr_spec (some_report verdict_approved None no_counts) \<Longrightarrow>
     find_report demo_gate ''team'' some_ref (demo_world r) = (Inr (Some r), demo_world r)"
proof -
  assume r: "mr_spec r = mr_spec (some_report verdict_approved None no_counts)"
  define name where "name = model_report_name (one_digest []) ''fraud'' ''1''"
  have "report_describes r some_ref" unfolding report_describes_def r by code_simp
  moreover have "legacy_model_report (one_digest []) ''fraud'' ''1'' \<noteq> name"
    unfolding name_def by code_simp
  ultimately show ?thesis
    by (simp add: find_report_def report_keys_def lookup_namespaces_def model_report_names_def Let_def
        some_ref_def no_ref_def demo_world_def mem_client_def name_def [symmetric])
qed

theorem gate_admits_iff_witness:
  "\<not> is_allowed (fst (gate_handle demo_gate demo_request
        (demo_world (some_report verdict_quarantined None no_counts))))
   \<and> is_allowed (fst (gate_handle demo_gate demo_request
        (demo_world (some_report verdict_approved None no_counts))))"
proof -
  have adm: "report_admits demo_gate demo_request demo_object r w \<longleftrightarrow> approval_ok 0 0 r some_ref promotion_require"
    for r w
    unfolding report_admits_def
    by (simp add: Let_def enforcement_for_def promotion_mode_for_def policy_name_def demo_ref)
      (simp add: demo_accessors_def demo_object_def ann_policy_def sm_get_def List.map_filter_simps
        ann_model_def ann_version_def)
  have ok: "approval_ok 0 0 (some_report verdict_approved None no_counts) some_ref promotion_require"
    "\<not> approval_ok 0 0 (some_report verdict_quarantined None no_counts) some_ref promotion_require"
    by code_simp+
  have f: "find_report demo_gate ''team'' some_ref (demo_world (some_report v None no_counts))
      = (Inr (Some (some_report v None no_counts)), demo_world (some_report v None no_counts))" for v
    by (rule demo_find) (simp add: some_report_def)
  have q: "rq_operation demo_request = ''CREATE''" "rq_object demo_request = Inr demo_object"
    "rq_namespace demo_request = ''team''" by (simp_all add: demo_request_def)
  show ?thesis
    unfolding gate_admits_iff using ok by (simp add: q Let_def demo_ref f adm)
qed

end
