(* ===== verification/Gate_Safety.thy ===== *)
theory Gate_Safety
  imports Webhook_Gate
begin

text \<open>
  What the gate guarantees over the API server it reads from: that an admission under enforcement
  rests on a report that is stored, that the log receives every decision that is not a plain approval,
  that the log cannot change a decision, and how the count of unread parts behaves at its width.
\<close>

section \<open>What was read was stored\<close>

lemma find_named_stored:
  assumes ok: "kclient_ok vr fr env c"
    and "find_named c ks ref s = (Inr (Some report), s')"
  shows "\<exists>k \<in> set ks. \<exists>t rv. env\<^sup>*\<^sup>* s t \<and> vr t k = Some (report, rv) \<and> env\<^sup>*\<^sup>* s s' \<and> report_describes report ref"
  using assms(2)
proof (induction ks arbitrary: s)
  case Nil
  then show ?case by simp
next
  case (Cons k ks)
  obtain r s1 where g: "k_get c k s = (r, s1)" by force
  have e: "env s s1" using get_cases(1) [OF ok g] .
  show ?case
  proof (cases "\<exists>rv. r = Inr (report, rv) \<and> report_describes report ref \<and> s' = s1")
    case True
    then obtain rv where "r = Inr (report, rv)" "report_describes report ref" "s' = s1" by blast
    moreover from this have "vr s1 k = Some (report, rv)" using get_cases(2) [OF ok g] by blast
    ultimately show ?thesis using e by auto
  next
    case False
    then have "find_named c ks ref s1 = (Inr (Some report), s')"
      using Cons.prems g by (auto split: sum.splits if_splits)
    from Cons.IH [OF this] obtain k' t rv where "k' \<in> set ks" "env\<^sup>*\<^sup>* s1 t" "vr t k' = Some (report, rv)"
      "env\<^sup>*\<^sup>* s1 s'" "report_describes report ref" by blast
    then show ?thesis using e by (meson converse_rtranclp_into_rtranclp list.set_intros(2))
  qed
qed

lemma first_policy_stored:
  assumes ok: "kclient_ok vp fr env c"
    and "first_policy c name nss s = (Some pol, s')"
  shows "\<exists>n \<in> set nss. \<exists>t rv. env\<^sup>*\<^sup>* s t \<and> vp t (n, name) = Some (pol, rv)"
  using assms(2)
proof (induction nss arbitrary: s)
  case Nil
  then show ?case by simp
next
  case (Cons n nss)
  obtain r s1 where g: "k_get c (n, name) s = (r, s1)" by force
  have e: "env s s1" using get_cases(1) [OF ok g] .
  show ?case
  proof (cases r)
    case (Inr x)
    then have "x = (pol, snd x)" using Cons.prems g by (auto simp: prod_eq_iff)
    then have "vp s1 (n, name) = Some (pol, snd x)" using get_cases(2) [OF ok g] Inr by metis
    then show ?thesis using e by auto
  next
    case (Inl err)
    then have "first_policy c name nss s1 = (Some pol, s')" using Cons.prems g by simp
    from Cons.IH [OF this] obtain n' t rv where "n' \<in> set nss" "env\<^sup>*\<^sup>* s1 t" "vp t (n', name) = Some (pol, rv)"
      by blast
    then show ?thesis using e by (meson converse_rtranclp_into_rtranclp list.set_intros(2))
  qed
qed

lemma observing_policy_stored:
  assumes ok: "kclient_ok vp fr env (mg_policies G)"
    and "enforcement_for G ns ann s = (enf, s')" and "enf \<noteq> ''Enforce''"
  shows "\<exists>n \<in> set (lookup_namespaces G ns). \<exists>t pol rv. env\<^sup>*\<^sup>* s t \<and>
    vp t (n, policy_name G ann) = Some (pol, rv) \<and> po_enforcement pol = enf"
proof -
  obtain p s1 where f: "first_policy (mg_policies G) (policy_name G ann) (lookup_namespaces G ns) s = (p, s1)"
    by force
  obtain pol where "p = Some pol" "po_enforcement pol = enf"
    using assms(2,3) f by (auto simp: enforcement_for_def Let_def split: if_splits option.splits)
  then show ?thesis using first_policy_stored [OF ok] f by blast
qed

text \<open>
  Claim C1. Under enforcement, admission rests on stored evidence. Where reports are required, a
  workload that shows a model and has not opted out is admitted only if the API server stored, at some
  point while the request was handled, a report under one of the names for the model, in the
  workload's namespace or in the report namespace, that describes the model; and that report's verdict
  is an approval unless the policy stored for the workload says \<open>Audit\<close> or \<open>Warn\<close>. A policy that is
  missing or cannot be read never relaxes this.
\<close>

theorem admission_rests_on_stored_report:
  assumes reports: "kclient_ok vr fr env (mg_reports G)"
    and policies: "kclient_ok vp fr' env (mg_policies G)"
    and strict: "mg_require_report G"
    and obj: "rq_operation req \<noteq> ''DELETE''" "rq_object req = Inr obj"
      "\<not> skips (mg_accessors G) obj" "\<not> shows_no_model (mg_accessors G) obj"
    and admitted: "is_allowed (fst (gate_handle G req s))"
  shows "\<exists>n name t report rv.
     env\<^sup>*\<^sup>* s t \<and> vr t (n, name) = Some (report, rv) \<and>
     n \<in> set (lookup_namespaces G (rq_namespace req)) \<and>
     name \<in> set (model_report_names (mg_digest G) (ref_model (workload_ref (mg_accessors G) obj))
                   (ref_version (workload_ref (mg_accessors G) obj))) \<and>
     report_describes report (workload_ref (mg_accessors G) obj) \<and>
     (rt_verdict (mr_status report) = verdict_approved \<or>
      (\<exists>t' n' pol rv'. env\<^sup>*\<^sup>* s t' \<and> n' \<in> set (lookup_namespaces G (rq_namespace req)) \<and>
         vp t' (n', policy_name G (u_annotations (mg_accessors G) obj)) = Some (pol, rv') \<and>
         po_enforcement pol \<in> {''Audit'', ''Warn''}))"
proof -
  let ?ref = "workload_ref (mg_accessors G) obj"
  let ?ann = "u_annotations (mg_accessors G) obj"
  obtain r s1 where f: "find_report G (rq_namespace req) ?ref s = (r, s1)" by force
  have "ref_model ?ref \<noteq> [] \<and> (\<exists>report. r = Inr (Some report) \<and> report_admits G req obj report s1)"
    using admitted strict obj f unfolding gate_admits_iff'
    by (auto simp: Let_def split: if_splits sum.splits option.splits)
  then obtain report where r: "r = Inr (Some report)" and adm: "report_admits G req obj report s1" by blast
  obtain k t rv where k: "k \<in> set (report_keys G (rq_namespace req) ?ref)" "env\<^sup>*\<^sup>* s t" "vr t k = Some (report, rv)"
    "env\<^sup>*\<^sup>* s s1" "report_describes report ?ref"
    using find_named_stored [OF reports f [unfolded r find_report_def]] by blast
  obtain enf s2 where enf: "enforcement_for G (rq_namespace req) ?ann s1 = (enf, s2)" by force
  have v: "rt_verdict (mr_status report) = verdict_approved \<or> enf \<in> {''Audit'', ''Warn''}"
    using adm by (auto simp: report_admits_def approval_ok_def Let_def enf split: prod.splits)
  have obs: "\<exists>t' n' pol rv'. env\<^sup>*\<^sup>* s t' \<and> n' \<in> set (lookup_namespaces G (rq_namespace req)) \<and>
      vp t' (n', policy_name G ?ann) = Some (pol, rv') \<and> po_enforcement pol \<in> {''Audit'', ''Warn''}"
    if a: "enf \<in> {''Audit'', ''Warn''}"
  proof -
    have "enf \<noteq> ''Enforce''" using a by auto
    then obtain n t' pol rv' where p: "n \<in> set (lookup_namespaces G (rq_namespace req))" "env\<^sup>*\<^sup>* s1 t'"
      "vp t' (n, policy_name G ?ann) = Some (pol, rv')" "po_enforcement pol = enf"
      using observing_policy_stored [OF policies enf] by blast
    have "env\<^sup>*\<^sup>* s t'" by (rule rtranclp_trans [OF k(4) p(2)])
    then show ?thesis using a p(1,3,4) by blast
  qed
  obtain n name where nn: "k = (n, name)" by force
  have names: "n \<in> set (lookup_namespaces G (rq_namespace req))"
      "name \<in> set (model_report_names (mg_digest G) (ref_model ?ref) (ref_version ?ref))"
    using k(1) nn by (auto simp: report_keys_def)
  show ?thesis
    by (intro exI [of _ n] exI [of _ name] exI [of _ t] exI [of _ report] exI [of _ rv] conjI names k(2,5)
        k(3) [unfolded nn] disj_mono [THEN mp, OF _ _ v] impI obs)
qed


lemma demo_admits:
  "report_admits demo_gate demo_request demo_object r w \<longleftrightarrow> approval_ok 0 0 r some_ref promotion_require"
  unfolding report_admits_def
  by (simp add: Let_def enforcement_for_def promotion_mode_for_def policy_name_def demo_ref demo_request_def)
    (simp add: demo_accessors_def demo_object_def ann_policy_def sm_get_def List.map_filter_simps
      ann_model_def ann_version_def)

lemma demo_approved:
  "is_allowed (fst (gate_handle demo_gate demo_request (demo_world (some_report verdict_approved None no_counts))))"
proof -
  have ok: "approval_ok 0 0 (some_report verdict_approved None no_counts) some_ref promotion_require"
    by code_simp
  have f: "find_report demo_gate ''team'' some_ref (demo_world (some_report verdict_approved None no_counts))
      = (Inr (Some (some_report verdict_approved None no_counts)), demo_world (some_report verdict_approved None no_counts))"
    by (rule demo_find) (simp add: some_report_def)
  show ?thesis
    unfolding gate_admits_iff' using ok by (simp add: demo_request_def Let_def demo_ref f demo_admits [unfolded demo_request_def])
qed

lemma demo_clients_ok:
  "kclient_ok (\<lambda>w. map_of (gw_reports w)) (\<lambda>_ _. True) (=) (mg_reports demo_gate)"
  "kclient_ok (\<lambda>w. map_of (gw_policies w)) (\<lambda>_ _. True) (=) (mg_policies demo_gate)"
  by (simp_all add: mem_client_ok)

theorem admission_rests_on_stored_report_witness:
  "\<exists>n name t report rv.
     (=)\<^sup>*\<^sup>* (demo_world (some_report verdict_approved None no_counts)) t \<and>
     map_of (gw_reports t) (n, name) = Some (report, rv) \<and> n \<in> {''team'', ''cupel''} \<and>
     report_describes report some_ref"
proof -
  have q: "rq_operation demo_request \<noteq> ''DELETE''" "rq_object demo_request = Inr demo_object"
    "rq_namespace demo_request = ''team''" by (simp_all add: demo_request_def)
  have n: "set (lookup_namespaces demo_gate ''team'') = {''team'', ''cupel''}"
    by (simp add: lookup_namespaces_def)
  show ?thesis
    using admission_rests_on_stored_report [OF demo_clients_ok demo_gate_sel(6) q(1,2) _ _ demo_approved]
    by (simp only: q n demo_gate_sel demo_ref not_False_eq_True) blast
qed

section \<open>What the log receives\<close>

lemma rule_on_report_outcome:
  "rule_on_report enf report ref denial = (resp, outcome, ref', why) \<Longrightarrow>
     (case resp of Denied m \<Rightarrow> outcome = Refused | Errored c m \<Rightarrow> outcome = Failed
      | Allowed m ws \<Rightarrow> outcome \<noteq> Refused \<and> outcome \<noteq> Failed \<and> (outcome = Admitted \<longrightarrow> ws = [] \<and> denial = None))"
  by (auto simp: rule_on_report_def Let_def split: option.splits if_splits)

lemma rule_on_ref_outcome:
  "rule_on_ref G req ann ref s = ((resp, outcome, ref', why), s') \<Longrightarrow>
     (case resp of Denied m \<Rightarrow> outcome = Refused | Errored c m \<Rightarrow> outcome = Failed
      | Allowed m ws \<Rightarrow> outcome \<noteq> Refused \<and> outcome \<noteq> Failed \<and> (outcome = Admitted \<longrightarrow> ws = []))"
  by (auto simp: rule_on_ref_def Let_def split: prod.splits sum.splits option.splits if_splits response.splits
      dest!: rule_on_report_outcome)

text \<open>The outcome of a ruling says what its response is.\<close>

lemma gate_ruling_outcome:
  assumes "gate_ruling G req s = ((resp, outcome, ref, why), s')"
  shows "case resp of Denied m \<Rightarrow> outcome = Refused | Errored c m \<Rightarrow> outcome = Failed
     | Allowed m ws \<Rightarrow> outcome \<noteq> Refused \<and> outcome \<noteq> Failed \<and> (outcome = Admitted \<longrightarrow> ws = [])"
  using assms
  by (auto simp: gate_ruling_def Let_def split: sum.splits if_splits dest: rule_on_ref_outcome)

lemma decision_record_facts:
  "ar_type (decision_record U now req obj ref outcome why)
     = (if outcome = Refused then event_deployment_blocked else event_deployment_admitted)"
  "sm_get (ar_detail (decision_record U now req obj ref outcome why)) ''reason'' = why"
  "sm_get (ar_detail (decision_record U now req obj ref outcome why)) ''namespace'' = rq_namespace req"
  "sm_get (ar_detail (decision_record U now req obj ref outcome why)) ''outcome'' = outcome_str outcome"
  "rq_username req \<noteq> [] \<Longrightarrow> ar_actor (decision_record U now req obj ref outcome why) = rq_username req"
  by (simp_all add: decision_record_def Let_def)

lemma gate_ruling_ignores_log: "gate_ruling (G\<lparr>mg_append := other\<rparr>) req s = gate_ruling G req s"
proof -
  define H where "H = G\<lparr>mg_append := other\<rparr>"
  have sel: "mg_reports H = mg_reports G" "mg_policies H = mg_policies G" "mg_now H = mg_now G"
    "mg_default_policy H = mg_default_policy G" "mg_max_age H = mg_max_age G"
    "mg_require_report H = mg_require_report G" "mg_report_namespace H = mg_report_namespace G"
    "mg_digest H = mg_digest G" "mg_accessors H = mg_accessors G" by (simp_all add: H_def)
  have nss: "lookup_namespaces H ns = lookup_namespaces G ns" for ns
    unfolding lookup_namespaces_def sel ..
  have find: "find_report H ns ref s = find_report G ns ref s" for ns ref s
    unfolding find_report_def report_keys_def nss sel ..
  have name: "policy_name H ann = policy_name G ann" for ann
    unfolding policy_name_def sel ..
  have pol: "enforcement_for H ns ann s = enforcement_for G ns ann s"
    "promotion_mode_for H ns ann s = promotion_mode_for G ns ann s" for ns ann s
    unfolding enforcement_for_def promotion_mode_for_def nss name sel by (rule refl)+
  have rule: "rule_on_ref H req ann ref s = rule_on_ref G req ann ref s" for ann ref s
    unfolding rule_on_ref_def find pol sel ..
  show ?thesis unfolding H_def [symmetric] gate_ruling_def rule sel ..
qed

text \<open>
  Claim C38. Every denial, and every admission that carries a warning, is sent to the log exactly once
  where there is one, as a blocked or an admitted deployment, with the reason, the namespace, the
  outcome and the authenticated user; the gate touches the state no other way after its ruling. And
  the log cannot turn the decision around: whatever appending does, and whether there is a log at all,
  the response is the same.
\<close>

theorem decisions_are_recorded:
  assumes log: "mg_append G = Some app"
  shows "fst (gate_handle G req s) = fst (gate_handle (G\<lparr>mg_append := other\<rparr>) req s) \<and>
    ((case fst (gate_handle G req s) of
       Denied m \<Rightarrow> True | Allowed m ws \<Rightarrow> ws \<noteq> [] | Errored c m \<Rightarrow> False)
     \<longrightarrow> (\<exists>ev now outcome s1.
       ar_type ev = (if is_allowed (fst (gate_handle G req s)) then event_deployment_admitted else event_deployment_blocked) \<and>
       sm_get (ar_detail ev) ''reason'' = snd (snd (snd (fst (gate_ruling G req s)))) \<and>
       sm_get (ar_detail ev) ''outcome'' = outcome_str outcome \<and> fst (snd (fst (gate_ruling G req s))) = outcome \<and>
       sm_get (ar_detail ev) ''namespace'' = rq_namespace req \<and>
       (rq_username req \<noteq> [] \<longrightarrow> ar_actor ev = rq_username req) \<and>
       mg_now G (snd (gate_ruling G req s)) = (now, s1) \<and>
       snd (gate_handle G req s) = snd (app ev s1)))"
proof (intro conjI impI)
  show "fst (gate_handle G req s) = fst (gate_handle (G\<lparr>mg_append := other\<rparr>) req s)"
    by (simp add: gate_handle_def gate_ruling_ignores_log split: prod.splits)
  assume a: "case fst (gate_handle G req s) of
       Denied m \<Rightarrow> True | Allowed m ws \<Rightarrow> ws \<noteq> [] | Errored c m \<Rightarrow> False"
  obtain resp outcome ref why s1 where g: "gate_ruling G req s = ((resp, outcome, ref, why), s1)"
    by (metis prod.collapse)
  obtain now s2 where n: "mg_now G s1 = (now, s2)" by force
  define ev where "ev = decision_record (mg_accessors G) now req
    (case rq_object req of Inr obj \<Rightarrow> obj | Inl _ \<Rightarrow> []) ref outcome why"
  have r: "fst (gate_handle G req s) = resp" by (simp add: gate_handle_def g)
  note o = gate_ruling_outcome [OF g]
  have aud: "auditable outcome"
    using a o unfolding r by (cases outcome) (auto simp: auditable_def split: response.splits)
  have allowed: "is_allowed resp \<longleftrightarrow> outcome \<noteq> Refused"
    using a o unfolding r by (auto simp: is_allowed_def split: response.splits)
  have "snd (gate_handle G req s) = snd (app ev s2)"
    by (simp add: gate_handle_def g record_decision_def log aud n ev_def)
  then show "\<exists>ev now outcome s1.
       ar_type ev = (if is_allowed (fst (gate_handle G req s)) then event_deployment_admitted else event_deployment_blocked) \<and>
       sm_get (ar_detail ev) ''reason'' = snd (snd (snd (fst (gate_ruling G req s)))) \<and>
       sm_get (ar_detail ev) ''outcome'' = outcome_str outcome \<and> fst (snd (fst (gate_ruling G req s))) = outcome \<and>
       sm_get (ar_detail ev) ''namespace'' = rq_namespace req \<and>
       (rq_username req \<noteq> [] \<longrightarrow> ar_actor ev = rq_username req) \<and>
       mg_now G (snd (gate_ruling G req s)) = (now, s1) \<and>
       snd (gate_handle G req s) = snd (app ev s1)"
    unfolding r allowed g using n
    by (intro exI [of _ ev] exI [of _ now] exI [of _ outcome] exI [of _ s2])
      (simp add: ev_def decision_record_facts)
qed

definition empty_world :: gate_world where
  "empty_world = \<lparr>gw_reports = [], gw_policies = [], gw_log = []\<rparr>"

lemma demo_denied:
  "gate_ruling demo_gate demo_request empty_world =
     ((Denied (of_version some_ref @ '' has not been scanned by Cupel; register it and wait for the scan to complete''),
       Refused, some_ref, ''no security report for '' @ of_version some_ref), empty_world)"
proof -
  have none: "k_get (mg_reports demo_gate) k empty_world = (Inl NotFound, empty_world)" for k
    by (simp add: mem_client_def empty_world_def)
  have "find_named (mg_reports demo_gate) ks ref empty_world = (Inr None, empty_world)" for ks ref
    by (induction ks) (simp_all add: none del: demo_gate_sel)
  then show ?thesis
    using demo_ref(3)
    by (simp add: gate_ruling_def demo_request_def Let_def demo_ref rule_on_ref_def find_report_def skips_def)
qed

theorem decisions_are_recorded_witness:
  "\<exists>ev. ar_type ev = event_deployment_blocked \<and> sm_get (ar_detail ev) ''namespace'' = ''team'' \<and>
     gw_log (snd (gate_handle demo_gate demo_request empty_world)) = [ev]"
proof -
  have r: "fst (gate_handle demo_gate demo_request empty_world) =
    Denied (of_version some_ref @ '' has not been scanned by Cupel; register it and wait for the scan to complete'')"
    by (simp add: gate_handle_def demo_denied)
  have now: "mg_now demo_gate w = (100, w)" for w by (simp add: demo_gate_def)
  have q: "rq_namespace demo_request = ''team''" by (simp add: demo_request_def)
  show ?thesis
    using decisions_are_recorded [OF demo_gate_sel(3), of demo_request empty_world None]
    unfolding r by (simp add: now demo_denied q) (auto simp: empty_world_def)
qed

lemma sint_plus_small:
  fixes x y :: int32
  assumes "0 \<le> sint x" "0 \<le> sint y" "sint x + sint y < 2 ^ 31"
  shows "sint (x + y) = sint x + sint y"
  using assms by (simp add: sint_word_ariths(1) signed_take_bit_int_eq_self)

section \<open>Counting the parts nobody read\<close>

text \<open>
  An approval over a partially read artifact is flagged as long as the counts' sum fits its width;
  beyond \<open>2^31\<close> the 32-bit sum wraps and the approval passes as a plain one.
\<close>

lemma total_counts_sum:
  assumes "0 \<le> sint (n_critical c)" "0 \<le> sint (n_high c)" "0 \<le> sint (n_medium c)" "0 \<le> sint (n_low c)"
    "0 \<le> sint (n_unknown c)"
    and "sint (n_critical c) + sint (n_high c) + sint (n_medium c) + sint (n_low c) + sint (n_unknown c) < 2 ^ 31"
  shows "sint (total_counts c) = sint (n_critical c) + sint (n_high c) + sint (n_medium c) + sint (n_low c) + sint (n_unknown c)"
  using assms by (simp add: total_counts_def sint_plus_small)

lemma unread_parts_flagged:
  "fst (snd (rule_on_report enf report ref None)) = AdmittedUnexamined \<longleftrightarrow>
     0 < sint (total_counts (rt_unexamined (mr_status report)))"
  by (simp add: rule_on_report_def Let_def word_sless_alt)

lemma unread_parts_wrap:
  "fst (snd (rule_on_report enf (some_report verdict_approved None
      (no_counts\<lparr>n_critical := 0x7FFFFFFF, n_low := 1\<rparr>)) ref None)) = Admitted"
proof -
  have "\<not> 0 <s (2147483648 :: int32)" by code_simp
  then show ?thesis by (simp add: rule_on_report_def some_report_def no_counts_def total_counts_def Let_def)
qed

end
