(* ===== verification/Verdict_Path.thy ===== *)
theory Verdict_Path
  imports Scan_Safety Gate_Safety
begin

text \<open>
  The path of a verdict: from the scan controller's evaluation into the model's security report, and
  from the report into the gate's answer.  Both ends use the same names for a model version
  (\<open>Controller_Names\<close>), and here their views of the reports are one.
\<close>

section \<open>The report a verdict leaves\<close>

definition report_key :: "hex_digest \<Rightarrow> artifact_scan \<Rightarrow> okey" where
  "report_key D scan = (om_namespace (as_meta scan), model_report_name D (ss_model (as_spec scan)) (ss_version (as_spec scan)))"

definition stored_environments :: "model_report view \<Rightarrow> okey \<Rightarrow> string list" where
  "stored_environments v k = (case v k of None \<Rightarrow> [] | Some x \<Rightarrow> rt_environments (mr_status (fst x)))"

lemma create_or_update_stored:
  assumes ok: "kclient_ok vm fm env c" and r: "create_or_update c k x f s = (Inr (y, v), s')"
  shows "vm s' k = Some (y, v) \<and>
    (\<exists>t. env s t \<and> (vm t k = None \<and> y = f x \<or> (\<exists>old u. vm t k = Some (old, u) \<and> y = f old)))"
proof -
  obtain g s1 where g: "k_get c k s = (g, s1)" by force
  have e: "env s s1" by (rule get_cases(1) [OF ok g])
  show ?thesis
  proof (cases g)
    case (Inl err)
    then have nf: "err = NotFound" and cr: "k_create c k (f x) s1 = (None, s')" and y: "y = f x" "v = k_version c k s'"
      using r g by (auto simp: create_or_update_def split: if_splits prod.splits option.splits)
    have "vm s1 k = None" using get_cases(3) [OF ok g] Inl nf by simp
    then show ?thesis using e y reply_version(1) [OF ok cr] by blast
  next
    case (Inr z)
    obtain old u where z: "z = (old, u)" by force
    have st: "vm s1 k = Some (old, u)" using get_cases(2) [OF ok g Inr] z by simp
    show ?thesis
    proof (cases "f old = old")
      case True
      then have "y = f old" "v = u" "s' = s1" using r g Inr z by (simp_all add: create_or_update_def)
      then show ?thesis using e st True by auto
    next
      case False
      then have up: "k_update c k (f old, u) s1 = (None, s')" and y: "y = f old" "v = k_version c k s'"
        using r g Inr z by (auto simp: create_or_update_def split: prod.splits option.splits)
      then show ?thesis using e st reply_version(2) [OF ok up] by blast
    qed
  qed
qed

lemma upsert_stored:
  assumes ok: "kclient_ok vm fm env (sc_models C)" and m: "ss_model (as_spec scan) \<noteq> []" "ss_version (as_spec scan) \<noteq> []"
    and up: "upsert_model_report C scan ev s = (None, s')"
  shows "\<exists>t prior now v s1 s2.
    env s t \<and> (vm t (report_key (sc_digest C) scan) = None \<and> prior = fresh_report (report_key (sc_digest C) scan) \<or>
      (\<exists>u. vm t (report_key (sc_digest C) scan) = Some (prior, u))) \<and>
    sc_now C s1 = (now, s2) \<and>
    vm s' (report_key (sc_digest C) scan) = Some (report_verdict now scan ev (describe_scan scan prior), v)"
proof -
  let ?k = "report_key (sc_digest C) scan"
  obtain q s1 where q: "create_or_update (sc_models C) ?k (fresh_report ?k) (describe_scan scan) s = (q, s1)" by force
  obtain now s2 where n: "sc_now C s1 = (now, s2)" by force
  obtain y v where qv: "q = Inr (y, v)" and u: "k_update (sc_models C) ?k (report_verdict now scan ev y, v) s2 = (None, s')"
    using up m q n by (auto simp: upsert_model_report_def Let_def report_key_def split: sum.splits prod.splits option.splits)
  note st = create_or_update_stored [OF ok q [unfolded qv]]
  show ?thesis using st n reply_version(2) [OF ok u] by blast
qed

text \<open>
  A verdict replaces the report's evidence and nothing else. When writing the report
  succeeds, what is stored under the model version's name has the verdict, the risk, the results and the
  unread counts of this evaluation, names this scan and the digest it measured, and is dated now;
  the environments it was promoted to are those of the report it replaces, whatever bytes that one
  was about.
\<close>

theorem report_carries_verdict:
  assumes ok: "kclient_ok vm fm env (sc_models C)" and m: "ss_model (as_spec scan) \<noteq> []" "ss_version (as_spec scan) \<noteq> []"
    and up: "upsert_model_report C scan ev s = (None, s')"
  shows "\<exists>report v t now s1 s2.
    vm s' (report_key (sc_digest C) scan) = Some (report, v) \<and>
    rs_model (mr_spec report) = ss_model (as_spec scan) \<and> rs_version (mr_spec report) = ss_version (as_spec scan) \<and>
    rs_scan_ref (mr_spec report) = om_name (as_meta scan) \<and>
    (st_digest (as_status scan) \<noteq> [] \<longrightarrow> ar_digest (rs_artifact (mr_spec report)) = st_digest (as_status scan)) \<and>
    rt_verdict (mr_status report) = ev_verdict ev \<and> rt_risk (mr_status report) = ev_risk ev \<and>
    rt_scanners (mr_status report) = st_results (as_status scan) \<and>
    rt_unexamined (mr_status report) = total_unexamined (st_results (as_status scan)) \<and>
    sc_now C s1 = (now, s2) \<and> rt_last_scan (mr_status report) = Some now \<and>
    env s t \<and> rt_environments (mr_status report) = stored_environments (vm t) (report_key (sc_digest C) scan)"
proof -
  let ?k = "report_key (sc_digest C) scan"
  from upsert_stored [OF ok m up] obtain t prior now v s1 s2 where
    t: "env s t" "vm t ?k = None \<and> prior = fresh_report ?k \<or> (\<exists>u. vm t ?k = Some (prior, u))"
    and n: "sc_now C s1 = (now, s2)"
    and st: "vm s' ?k = Some (report_verdict now scan ev (describe_scan scan prior), v)" by blast
  let ?r = "report_verdict now scan ev (describe_scan scan prior)"
  have envs: "rt_environments (mr_status prior) = stored_environments (vm t) ?k"
    using t(2) by (auto simp: stored_environments_def fresh_report_def)
  have sel: "mr_spec ?r = \<lparr>rs_model = ss_model (as_spec scan), rs_version = ss_version (as_spec scan),
      rs_artifact = scanned_artifact scan, rs_scan_ref = om_name (as_meta scan)\<rparr>"
    "rt_verdict (mr_status ?r) = ev_verdict ev" "rt_risk (mr_status ?r) = ev_risk ev"
    "rt_scanners (mr_status ?r) = st_results (as_status scan)"
    "rt_unexamined (mr_status ?r) = total_unexamined (st_results (as_status scan))"
    "rt_last_scan (mr_status ?r) = Some now" "rt_environments (mr_status ?r) = rt_environments (mr_status prior)"
    by (simp_all add: report_verdict_def describe_scan_def Let_def)
  have d: "st_digest (as_status scan) \<noteq> [] \<Longrightarrow> ar_digest (scanned_artifact scan) = st_digest (as_status scan)"
    by (simp add: scanned_artifact_def)
  show ?thesis
    by (intro exI [of _ ?r] exI [of _ v] exI [of _ t] exI [of _ now] exI [of _ s1] exI [of _ s2])
      (simp add: st sel d n t(1) envs)
qed

section \<open>What the gate makes of it\<close>

lemma find_named_first:
  assumes ok: "kclient_ok vm fg env c" and keep: "\<forall>a b. env a b \<longrightarrow> vm b k = vm a k"
    and st: "vm s k = Some (report, v)" and d: "report_describes report ref"
  shows "\<exists>s'. find_named c (k # ks) ref s = (Inr (Some report), s') \<or> (\<exists>e. find_named c (k # ks) ref s = (Inl e, s'))"
proof -
  obtain g s1 where g: "k_get c k s = (g, s1)" by force
  have same: "vm s1 k = Some (report, v)" using keep get_cases(1) [OF ok g] st by simp
  show ?thesis
  proof (cases g)
    case (Inl e)
    then have "e \<noteq> NotFound" using get_cases(3) [OF ok g] same by auto
    then show ?thesis using g Inl by auto
  next
    case (Inr x)
    then have "x = (report, v)" using get_cases(2) [OF ok g Inr] same by simp
    then show ?thesis using g Inr d by auto
  qed
qed

lemma report_keys_first: "\<exists>ks. report_keys G ns ref = (ns, model_report_name (mg_digest G) (ref_model ref) (ref_version ref)) # ks"
proof -
  have "\<exists>nss. lookup_namespaces G ns = ns # nss" by (simp add: lookup_namespaces_def)
  moreover obtain rest where "model_report_names (mg_digest G) (ref_model ref) (ref_version ref)
      = model_report_name (mg_digest G) (ref_model ref) (ref_version ref) # rest"
    using model_report_names_Cons by metis
  ultimately show ?thesis by (auto simp: report_keys_def)
qed


section \<open>A report that was lost\<close>

lemma load_models_irrelevant:
  "load_policy (C\<lparr>sc_models := c, sc_append := a\<rparr>) scan s = load_policy C scan s"
  "load_exceptions (C\<lparr>sc_models := c, sc_append := a\<rparr>) scan s = load_exceptions C scan s"
  by (simp_all add: load_policy_def load_exceptions_def)

text \<open>
  A finished scan does not look at its report. As long as the policy and the exceptions
  in force give a finished scan the verdict and the risk it has, reconciling it does the same whatever
  the reports client is, and whatever the audit log is: a report that was not written when the
  scan completed, or that was deleted since, is not written again.
\<close>

theorem finished_scan_ignores_report:
  assumes read: "k_get (sc_scans C) key s = (Inr (scan, rv), s1)"
    and fin: "st_phase (as_status scan) = ''Completed'' \<or> st_phase (as_status scan) = ''Failed''"
    and same: "\<forall>pol exs t s2 s3 s4. load_policy C scan s1 = (Inr pol, s2) \<longrightarrow> load_exceptions C scan s2 = (Inr exs, s3) \<longrightarrow>
      sc_now C s3 = (t, s4) \<longrightarrow>
        ev_verdict (evaluate (sc_gate C) (st_results (as_status scan)) (ss_artifact (as_spec scan)) pol exs t)
          = st_verdict (as_status scan) \<and>
        Some (ev_risk (evaluate (sc_gate C) (st_results (as_status scan)) (ss_artifact (as_spec scan)) pol exs t))
          = st_risk (as_status scan)"
  shows "scan_reconcile (C\<lparr>sc_models := c, sc_append := a\<rparr>) key s = scan_reconcile C key s"
proof -
  have nonempty: "st_phase (as_status scan) \<noteq> []" using fin by auto
  have "reevaluate (C\<lparr>sc_models := c, sc_append := a\<rparr>) scan rv s1 = reevaluate C scan rv s1"
    unfolding reevaluate_def Let_def load_models_irrelevant
    using same by (auto split: sum.split prod.split)
  then show ?thesis using fin nonempty by (simp add: scan_reconcile_def read)
qed

section \<open>An older scan\<close>


section \<open>Witnesses\<close>

definition path_gate :: "(scan_cluster, unit) model_gate" where
  "path_gate =
     \<lparr>mg_reports = sc_models demo_scan_ctl, mg_policies = sc_policies demo_scan_ctl,
      mg_append = sc_append demo_scan_ctl, mg_now = sc_now demo_scan_ctl, mg_default_policy = [], mg_max_age = 0,
      mg_require_report = True, mg_report_namespace = [], mg_digest = one_digest [],
      mg_accessors = demo_accessors\<rparr>"

definition path_evaluation :: evaluation where
  "path_evaluation = evaluate approving_gate passed_results some_artifact None [] 9"

definition path_world :: scan_cluster where
  "path_world = snd (upsert_model_report demo_scan_ctl approved_scan path_evaluation demo_scan_cluster)"

lemma path_upsert:
  "upsert_model_report demo_scan_ctl approved_scan path_evaluation demo_scan_cluster = (None, path_world)"
proof -
  have "fst (upsert_model_report demo_scan_ctl approved_scan path_evaluation demo_scan_cluster) = None" by code_simp
  then show ?thesis by (simp add: path_world_def prod_eq_iff)
qed

lemma path_client: "kclient_ok (\<lambda>w. vs_view (kc_models w)) (\<lambda>_ _. True) (=) (sc_models demo_scan_ctl)"
  unfolding demo_scan_ctl_def scan_ctl.simps by (rule rev_client_ok) (auto simp: reflp_def version_law_def)

lemma path_scan: "ss_model (as_spec approved_scan) = ''fraud''" "ss_version (as_spec approved_scan) = ''1''"
  "om_namespace (as_meta approved_scan) = ''team''" "sc_digest demo_scan_ctl = one_digest []"
proof -
  have "ss_model (as_spec approved_scan) = ''fraud'' \<and> ss_version (as_spec approved_scan) = ''1'' \<and>
      om_namespace (as_meta approved_scan) = ''team''"
    by code_simp
  then show "ss_model (as_spec approved_scan) = ''fraud''" "ss_version (as_spec approved_scan) = ''1''"
    "om_namespace (as_meta approved_scan) = ''team''" by simp_all
qed (simp add: demo_scan_ctl_def)

theorem report_carries_verdict_witness:
  "\<exists>report v. vs_view (kc_models path_world) (report_key (one_digest []) approved_scan) = Some (report, v) \<and>
     rt_verdict (mr_status report) = ev_verdict path_evaluation \<and> rt_environments (mr_status report) = []"
proof -
  have "stored_environments (vs_view (kc_models demo_scan_cluster)) k = []" for k
    by (simp add: stored_environments_def demo_scan_cluster_def vs_view_def vs_visible_def)
  then show ?thesis using report_carries_verdict [OF path_client _ _ path_upsert] path_scan by fastforce
qed

lemma path_admits: "is_allowed (fst (gate_handle path_gate demo_request path_world))"
  by code_simp


text \<open>The reports client is down while the scan completes, and comes back.\<close>

definition down_ctl :: "(scan_cluster, string, unit) scan_ctl" where
  "down_ctl = demo_scan_ctl\<lparr>sc_models := (sc_models demo_scan_ctl)\<lparr>k_create := (\<lambda>k x s. (Some (ApiError ''down''), s))\<rparr>\<rparr>"

definition lost_world :: scan_cluster where
  "lost_world = snd (scan_reconcile down_ctl demo_scan_key demo_scan_cluster)"

definition lost_scan :: artifact_scan where
  "lost_scan = fst (the (vs_view (kc_scans lost_world) demo_scan_key))"

lemma lost_run:
  "st_phase (as_status lost_scan) = ''Completed''" "st_results (as_status lost_scan) = passed_results"
  "st_verdict (as_status lost_scan) = verdict_approved" "st_risk (as_status lost_scan) = Some 4"
  "vs_view (kc_scans lost_world) demo_scan_key \<noteq> None"
  "vs_view (kc_models (snd (scan_reconcile down_ctl demo_scan_key lost_world))) (report_key (one_digest []) demo_scan) = None"
  "\<forall>r \<in> set passed_results. sr_status r = ''Passed''"
proof -
  have "(case vs_view (kc_scans lost_world) demo_scan_key of
        None \<Rightarrow> False
      | Some (scan, rv) \<Rightarrow> st_phase (as_status scan) = ''Completed'' \<and> st_results (as_status scan) = passed_results \<and>
          st_verdict (as_status scan) = verdict_approved \<and> st_risk (as_status scan) = Some 4) \<and>
    vs_view (kc_models (snd (scan_reconcile down_ctl demo_scan_key lost_world))) (report_key (one_digest []) demo_scan) = None \<and>
    (\<forall>r \<in> set passed_results. sr_status r = ''Passed'')"
    by code_simp
  then show "st_phase (as_status lost_scan) = ''Completed''" "st_results (as_status lost_scan) = passed_results"
    "st_verdict (as_status lost_scan) = verdict_approved" "st_risk (as_status lost_scan) = Some 4"
    "vs_view (kc_scans lost_world) demo_scan_key \<noteq> None"
    "vs_view (kc_models (snd (scan_reconcile down_ctl demo_scan_key lost_world))) (report_key (one_digest []) demo_scan) = None"
    "\<forall>r \<in> set passed_results. sr_status r = ''Passed''"
    by (auto simp: lost_scan_def split: option.splits)
qed

theorem finished_scan_ignores_report_witness:
  "st_phase (as_status lost_scan) = ''Completed'' \<and> st_verdict (as_status lost_scan) = verdict_approved \<and>
   vs_view (kc_models (snd (scan_reconcile demo_scan_ctl demo_scan_key lost_world))) (report_key (one_digest []) demo_scan)
     = None"
proof -
  have up: "down_ctl\<lparr>sc_models := sc_models demo_scan_ctl, sc_append := sc_append demo_scan_ctl\<rparr> = demo_scan_ctl"
    by (simp add: down_ctl_def demo_scan_ctl_def)
  obtain rv where "vs_view (kc_scans lost_world) demo_scan_key = Some (lost_scan, rv)"
    using lost_run(5) by (auto simp: lost_scan_def)
  then have read: "k_get (sc_scans down_ctl) demo_scan_key lost_world = (Inr (lost_scan, rv), lost_world)"
    by (simp add: down_ctl_def demo_scan_ctl_def rev_client_def)
  have ev: "ev_verdict (evaluate (sc_gate down_ctl) passed_results art pol exs t) = verdict_approved \<and>
      Some (ev_risk (evaluate (sc_gate down_ctl) passed_results art pol exs t)) = Some 4" for art pol exs t
    using lost_run(7) by (auto simp: down_ctl_def demo_scan_ctl_def evaluate_def approving_gate_def to_results_def to_result_def)
  have "scan_reconcile demo_scan_ctl demo_scan_key lost_world = scan_reconcile down_ctl demo_scan_key lost_world"
    using finished_scan_ignores_report [OF read, where c = "sc_models demo_scan_ctl" and a = "sc_append demo_scan_ctl"]
      lost_run(1-4) ev unfolding up by simp
  then show ?thesis using lost_run by simp
qed

text \<open>
  Two scans of one model version. The newer one, \<open>rescan\<close>, found a critical vulnerability and
  quarantined the model; the older one had been quarantined for its secrets. Somebody accepts the risk
  of the secrets, the older scan is judged again, and the gate admits the model.
\<close>

definition waiver_gate :: gate_fn where
  "waiver_gate rs a rules exs now =
     \<lparr>ev_verdict = (if \<forall>r \<in> set rs. gi_message r = [] \<or> (\<exists>e \<in> set exs. gi_message r \<in> set (ge_rules e))
        then verdict_approved else verdict_quarantined),
      ev_risk = 4, ev_violations = [], ev_waived = [], ev_malware = ''Clean'', ev_secrets = ''Clean'',
      ev_cves = no_counts, ev_unexamined = no_counts, ev_drift = no_counts, ev_signature_verified = False,
      ev_sbom_generated = False, ev_aibom_generated = False\<rparr>"

definition waiver_ctl :: "(scan_cluster, string, unit) scan_ctl" where
  "waiver_ctl = demo_scan_ctl\<lparr>sc_gate := waiver_gate\<rparr>"

definition quarantined_scan :: "string \<Rightarrow> string \<Rightarrow> artifact_scan" where
  "quarantined_scan n why =
     demo_scan\<lparr>as_meta := demo_scan_meta n [] [],
       as_status := (as_status demo_scan)\<lparr>st_phase := ''Completed'', st_verdict := verdict_quarantined,
         st_risk := Some 4, st_results := [no_result ''trivy'' ''Failed'' why]\<rparr>\<rparr>"

definition secrets_waiver :: artifact_exception where
  "secrets_waiver = (waiver ''fraud'' ''1'')\<lparr>ae_spec := (ae_spec (waiver ''fraud'' ''1''))\<lparr>ex_rules := [''secrets'']\<rparr>\<rparr>"

definition older_world :: scan_cluster where
  "older_world =
     (let w = demo_scan_cluster\<lparr>kc_scans := \<lparr>vs_rev = 2, vs_objs =
           [((''team'', ''scan''), (quarantined_scan ''scan'' ''secrets'', 1)),
            ((''team'', ''rescan''), (quarantined_scan ''rescan'' ''maxCriticalCVEs'', 2))]\<rparr>,
           kc_exceptions := [((''team'', ''w''), (secrets_waiver, 1))]\<rparr>
      in snd (upsert_model_report waiver_ctl (quarantined_scan ''rescan'' ''maxCriticalCVEs'')
           (evaluate waiver_gate [no_result ''trivy'' ''Failed'' ''maxCriticalCVEs''] some_artifact None [] 9) w))"

definition rejudged_world :: scan_cluster where
  "rejudged_world = snd (scan_reconcile waiver_ctl (''team'', ''scan'') older_world)"

definition settled_world :: scan_cluster where
  "settled_world = snd (scan_reconcile waiver_ctl (''team'', ''rescan'') rejudged_world)"

lemma older_scan_facts:
  "om_deleted (as_meta (quarantined_scan ''scan'' ''secrets'')) = None"
  "st_phase (as_status (quarantined_scan ''scan'' ''secrets'')) = ''Completed''"
  "st_results (as_status (quarantined_scan ''scan'' ''secrets'')) = [no_result ''trivy'' ''Failed'' ''secrets'']"
  "st_verdict (as_status (quarantined_scan ''scan'' ''secrets'')) = verdict_quarantined"
  "ss_model (as_spec (quarantined_scan ''scan'' ''secrets'')) = ''fraud''"
  "ss_version (as_spec (quarantined_scan ''scan'' ''secrets'')) = ''1''"
  "om_name (as_meta (quarantined_scan ''scan'' ''secrets'')) = ''scan''"
  by (simp_all add: quarantined_scan_def demo_scan_def demo_scan_meta_def artifact_scan_spec.make_def)

lemma older_world_runs:
  "fst (scan_reconcile waiver_ctl (''team'', ''scan'') older_world) = Done"
  "\<not> is_allowed (fst (gate_handle path_gate demo_request older_world))"
  "is_allowed (fst (gate_handle path_gate demo_request settled_world))"
  "map_option fst (vs_view (kc_scans older_world) (''team'', ''scan'')) = Some (quarantined_scan ''scan'' ''secrets'')"
  "fst (load_exceptions waiver_ctl (quarantined_scan ''scan'' ''secrets'') older_world) = Inr [secrets_waiver]"
proof -
  have "fst (scan_reconcile waiver_ctl (''team'', ''scan'') older_world) = Done \<and>
    \<not> is_allowed (fst (gate_handle path_gate demo_request older_world)) \<and>
    is_allowed (fst (gate_handle path_gate demo_request settled_world)) \<and>
    map_option fst (vs_view (kc_scans older_world) (''team'', ''scan'')) = Some (quarantined_scan ''scan'' ''secrets'') \<and>
    fst (load_exceptions waiver_ctl (quarantined_scan ''scan'' ''secrets'') older_world) = Inr [secrets_waiver]"
    by code_simp
  then show "fst (scan_reconcile waiver_ctl (''team'', ''scan'') older_world) = Done"
    "\<not> is_allowed (fst (gate_handle path_gate demo_request older_world))"
    "is_allowed (fst (gate_handle path_gate demo_request settled_world))"
    "map_option fst (vs_view (kc_scans older_world) (''team'', ''scan'')) = Some (quarantined_scan ''scan'' ''secrets'')"
    "fst (load_exceptions waiver_ctl (quarantined_scan ''scan'' ''secrets'') older_world) = Inr [secrets_waiver]"
    by simp_all
qed

lemmas older_world_facts = older_world_runs(1-3) older_scan_facts older_world_runs(4,5)

lemma secrets_waived: "ev_verdict (evaluate waiver_gate [no_result ''trivy'' ''Failed'' ''secrets''] art pol [secrets_waiver] t)
    \<noteq> verdict_quarantined"
  by (simp add: evaluate_def waiver_gate_def to_results_def to_result_def no_result_def to_exceptions_def to_exception_def
      secrets_waiver_def verdict_approved_def verdict_quarantined_def)


end
