(* ===== verification/Maintenance.thy ===== *)
theory Maintenance
  imports Audit_Archive Cupel_Types
begin

text \<open>
  Housekeeping (\<open>internal/maintenance\<close>): the pruner removes finished scans no current report points at,
  and one round of the loop archives the audit log and then prunes.  A list of one namespace or, with
  the empty name, of all of them is an operation of the pruner's client; each item comes with its
  namespace and name.  The ticker, metrics and logging are not modelled.
\<close>

section \<open>The pruner\<close>

record 's pruner =
  pn_list_scans :: "string \<Rightarrow> 's \<Rightarrow> (kerr + (okey \<times> artifact_scan) list) \<times> 's"
  pn_list_reports :: "string \<Rightarrow> 's \<Rightarrow> (kerr + (okey \<times> model_report) list) \<times> 's"
  pn_delete :: "okey \<Rightarrow> 's \<Rightarrow> kerr option \<times> 's"
  pn_namespace :: string
  pn_max_age :: duration
  pn_now :: "'s \<Rightarrow> go_time \<times> 's"

datatype prune_error = ListScans kerr | ListModelReports kerr | DeleteScan okey kerr

definition default_max_age :: duration where "default_max_age = 90 * (24 * hour)"

definition prune_age :: "'s pruner \<Rightarrow> duration" where
  "prune_age P = (if pn_max_age P = 0 then default_max_age else pn_max_age P)"

definition scans_in_use :: "(okey \<times> model_report) list \<Rightarrow> okey set" where
  "scans_in_use rs = set (List.map_filter (\<lambda>x. let ref = rs_scan_ref (mr_spec (snd x)) in
     if ref \<noteq> [] then Some (fst (fst x), ref) else None) rs)"

definition expired :: "go_time \<Rightarrow> artifact_scan \<Rightarrow> bool" where
  "expired cutoff scan \<longleftrightarrow> (case st_completed (as_status scan) of None \<Rightarrow> False | Some t \<Rightarrow> t < cutoff)"

text \<open>The loop over the scans: how many are gone, and the error it stopped with.\<close>

fun prune_each ::
    "'s pruner \<Rightarrow> go_time \<Rightarrow> okey set \<Rightarrow> (okey \<times> artifact_scan) list \<Rightarrow> nat \<Rightarrow> 's \<Rightarrow> (nat \<times> prune_error option) \<times> 's"
where
  "prune_each P cutoff used [] n s = ((n, None), s)"
| "prune_each P cutoff used (x # xs) n s =
     (if \<not> expired cutoff (snd x) \<or> fst x \<in> used then prune_each P cutoff used xs n s
      else (case pn_delete P (fst x) s of
              (None, s1) \<Rightarrow> prune_each P cutoff used xs (Suc n) s1
            | (Some e, s1) \<Rightarrow>
                if e = NotFound then prune_each P cutoff used xs (Suc n) s1
                else ((n, Some (DeleteScan (fst x) e)), s1)))"

definition prune_run :: "'s pruner \<Rightarrow> 's \<Rightarrow> (nat \<times> prune_error option) \<times> 's" where
  "prune_run P s =
     (if prune_age P < 0 then ((0, None), s)
      else
        (case pn_list_reports P (pn_namespace P) s of
           (Inl e, s1) \<Rightarrow> ((0, Some (ListModelReports e)), s1)
         | (Inr rs, s1) \<Rightarrow>
             (case pn_list_scans P (pn_namespace P) s1 of
                (Inl e, s2) \<Rightarrow> ((0, Some (ListScans e)), s2)
              | (Inr xs, s2) \<Rightarrow>
                  (case pn_now P s2 of (now, s3) \<Rightarrow>
                     prune_each P (now - prune_age P) (scans_in_use rs) xs 0 s3))))"

section \<open>One round of the loop\<close>

definition default_interval :: duration where "default_interval = hour"

text \<open>
  The recorder of the archiver, where there is an archiver, and the archiver itself where it also has
  somewhere to put segments: the loop measures the log in the first case and archives only in the second.
\<close>

record 's loop =
  lp_recorder :: "'s recorder option"
  lp_archiver :: "'s archiver option"
  lp_pruner :: "'s pruner option"
  lp_interval :: duration

definition loop_interval :: "'s loop \<Rightarrow> duration" where
  "loop_interval L = (if lp_interval L \<le> 0 then default_interval else lp_interval L)"

definition loop_once :: "'s loop \<Rightarrow> 's \<Rightarrow> 's" where
  "loop_once L s =
     (let s1 = (case lp_archiver L of None \<Rightarrow> s | Some A \<Rightarrow> snd (archive_run A s))
      in case lp_pruner L of None \<Rightarrow> s1 | Some P \<Rightarrow> snd (prune_run P s1))"

definition loop_observe :: "'s loop \<Rightarrow> 's \<Rightarrow> (uint64 \<times> uint64) option \<times> 's" where
  "loop_observe L s =
     (case lp_recorder L of
        None \<Rightarrow> (None, s)
      | Some R \<Rightarrow>
          (case size_of_log R s of
             (Inl e, s1) \<Rightarrow> (None, s1)
           | (Inr n, s1) \<Rightarrow> (Some n, s1)))"

definition loop_round :: "'s loop \<Rightarrow> 's \<Rightarrow> 's" where
  "loop_round L s = loop_once L (snd (loop_observe L s))"

section \<open>What the pruner relies on\<close>

definition in_scope :: "string \<Rightarrow> okey \<Rightarrow> bool" where
  "in_scope ns k \<longleftrightarrow> ns = [] \<or> fst k = ns"

text \<open>A list returns what is stored in its scope, each object once.\<close>

definition lists :: "('s \<Rightarrow> 'o view) \<Rightarrow> ('s \<Rightarrow> 's \<Rightarrow> bool) \<Rightarrow> (string \<Rightarrow> 's \<Rightarrow> (kerr + (okey \<times> 'o) list) \<times> 's) \<Rightarrow> bool" where
  "lists vw env f \<longleftrightarrow>
     (\<forall>ns s r s'. f ns s = (r, s') \<longrightarrow> env s s' \<and>
        (\<forall>xs. r = Inr xs \<longrightarrow> distinct (map fst xs) \<and>
           (\<forall>k x. (k, x) \<in> set xs \<longleftrightarrow> in_scope ns k \<and> map_option fst (vw s' k) = Some x)))"

text \<open>A delete removes the object, finds none, or fails with or without its effect; it touches no report.\<close>

definition deletes ::
    "('s \<Rightarrow> artifact_scan view) \<Rightarrow> ('s \<Rightarrow> model_report view) \<Rightarrow> (okey \<Rightarrow> 's \<Rightarrow> kerr option \<times> 's) \<Rightarrow> bool" where
  "deletes vs vm f \<longleftrightarrow>
     (\<forall>k s r s'. f k s = (r, s') \<longrightarrow> vm s' = vm s \<and>
        (case r of
           None \<Rightarrow> vs s' = (vs s)(k := None)
         | Some e \<Rightarrow> if e = NotFound then vs s k = None \<and> vs s' = vs s
                     else vs s' = (vs s)(k := None) \<or> vs s' = vs s))"

lemma listsD:
  assumes "lists vw env f" and "f ns s = (Inr xs, s')"
  shows "(k, x) \<in> set xs \<longleftrightarrow> in_scope ns k \<and> map_option fst (vw s' k) = Some x"
  using assms unfolding lists_def by blast

lemma deletesD:
  assumes "deletes vs vm f" and "f k s = (r, s')"
  shows "vm s' = vm s \<and> (case r of None \<Rightarrow> vs s' = (vs s)(k := None)
    | Some e \<Rightarrow> if e = NotFound then vs s k = None \<and> vs s' = (vs s)(k := None)
                else vs s' = (vs s)(k := None) \<or> vs s' = vs s)"
proof -
  have law: "vm s' = vm s \<and> (case r of None \<Rightarrow> vs s' = (vs s)(k := None)
    | Some e \<Rightarrow> if e = NotFound then vs s k = None \<and> vs s' = vs s
                else vs s' = (vs s)(k := None) \<or> vs s' = vs s)"
    using assms unfolding deletes_def by blast
  then show ?thesis by (cases r) (auto simp: fun_upd_idem split: if_splits)
qed

definition calm :: "('s \<Rightarrow> artifact_scan view) \<Rightarrow> ('s \<Rightarrow> model_report view) \<Rightarrow> 's \<Rightarrow> 's \<Rightarrow> bool" where
  "calm vs vm a b \<longleftrightarrow> vs b = vs a \<and> vm b = vm a"

definition referenced :: "model_report view \<Rightarrow> okey \<Rightarrow> bool" where
  "referenced v k \<longleftrightarrow> (\<exists>n r u. v (fst k, n) = Some (r, u) \<and> rs_scan_ref (mr_spec r) = snd k \<and> snd k \<noteq> [])"

definition prunable :: "('s \<Rightarrow> artifact_scan view) \<Rightarrow> ('s \<Rightarrow> model_report view) \<Rightarrow> string \<Rightarrow> go_time \<Rightarrow> 's \<Rightarrow> okey \<Rightarrow> bool" where
  "prunable vs vm ns cutoff s k \<longleftrightarrow>
     in_scope ns k \<and> (\<exists>scan u. vs s k = Some (scan, u) \<and> expired cutoff scan) \<and> \<not> referenced (vm s) k"

section \<open>What is pruned\<close>

definition due :: "go_time \<Rightarrow> okey set \<Rightarrow> (okey \<times> artifact_scan) list \<Rightarrow> okey set" where
  "due cutoff used xs = fst ` set (filter (\<lambda>x. expired cutoff (snd x) \<and> fst x \<notin> used) xs)"

lemma due_simps [simp]:
  "due cutoff used [] = {}"
  "due cutoff used (x # xs) =
     (if expired cutoff (snd x) \<and> fst x \<notin> used then insert (fst x) (due cutoff used xs) else due cutoff used xs)"
  by (simp_all add: due_def)

lemma prune_each_views:
  assumes del: "deletes vs vm (pn_delete P)"
    and run: "prune_each P cutoff used xs n s = ((m, r), s')"
  shows "vm s' = vm s \<and>
    (\<exists>gone \<subseteq> due cutoff used xs.
       vs s' = (\<lambda>k. if k \<in> gone then None else vs s k) \<and>
       (r = None \<longrightarrow> gone = due cutoff used xs))"
  using run
proof (induction xs arbitrary: n s)
  case Nil
  then show ?case by (auto intro!: exI [of _ "{}"])
next
  case (Cons x xs)
  show ?case
  proof (cases "\<not> expired cutoff (snd x) \<or> fst x \<in> used")
    case True
    then have "due cutoff used (x # xs) = due cutoff used xs" by auto
    moreover have "prune_each P cutoff used xs n s = ((m, r), s')" using Cons.prems True by simp
    ultimately show ?thesis using Cons.IH by simp
  next
    case False
    then have due: "due cutoff used (x # xs) = insert (fst x) (due cutoff used xs)" by simp
    obtain q s1 where q: "pn_delete P (fst x) s = (q, s1)" by force
    have d: "vm s1 = vm s" "q = None \<or> q = Some NotFound \<Longrightarrow> vs s1 = (vs s)(fst x := None)"
      "vs s1 = (vs s)(fst x := None) \<or> vs s1 = vs s"
      using deletesD [OF del q] by (auto split: option.splits if_splits)
    show ?thesis
    proof (cases "q = None \<or> q = Some NotFound")
      case True
      then have "prune_each P cutoff used xs (Suc n) s1 = ((m, r), s')" using Cons.prems False q by auto
      from Cons.IH [OF this] obtain gone where g: "vm s' = vm s1" "gone \<subseteq> due cutoff used xs"
        "vs s' = (\<lambda>k. if k \<in> gone then None else vs s1 k)" "r = None \<longrightarrow> gone = due cutoff used xs" by blast
      have "vs s' = (\<lambda>k. if k \<in> insert (fst x) gone then None else vs s k)"
        using g(3) d(2) [OF True] by auto
      moreover have "insert (fst x) gone \<subseteq> due cutoff used (x # xs)" "r = None \<longrightarrow> insert (fst x) gone = due cutoff used (x # xs)"
        using g(2,4) due by auto
      ultimately show ?thesis using g(1) d(1) by (intro conjI exI [of _ "insert (fst x) gone"]) simp_all
    next
      case other: False
      then have r: "r \<noteq> None" "s' = s1" using Cons.prems False q by (auto split: option.splits if_splits)
      define gone where "gone = (if vs s1 = vs s then {} else {fst x})"
      have "vs s1 = (\<lambda>k. if k \<in> gone then None else vs s k)"
        using d(3) by (cases "vs s1 = vs s") (simp_all add: gone_def fun_upd_def)
      moreover have "gone \<subseteq> due cutoff used (x # xs)" unfolding due gone_def by simp
      ultimately show ?thesis using r d(1) by blast
    qed
  qed
qed

lemma in_use_listed:
  assumes l: "lists vm env f" and f: "f ns s = (Inr rs, s')" and scope: "in_scope ns k"
  shows "k \<in> scans_in_use rs \<longleftrightarrow> referenced (vm s') k"
proof -
  have mem: "(j, r) \<in> set rs \<longleftrightarrow> in_scope ns j \<and> map_option fst (vm s' j) = Some r" for j r
    using l f unfolding lists_def by blast
  have "k \<in> scans_in_use rs \<longleftrightarrow> (\<exists>j r. (j, r) \<in> set rs \<and> rs_scan_ref (mr_spec r) \<noteq> [] \<and> k = (fst j, rs_scan_ref (mr_spec r)))"
    by (force simp: scans_in_use_def map_filter_def Let_def)
  also have "\<dots> \<longleftrightarrow> referenced (vm s') k"
    using scope unfolding mem referenced_def in_scope_def by (cases k) fastforce
  finally show ?thesis .
qed

text \<open>
  Claim C8. Pruning takes exactly what nothing needs. While nobody else writes scans or reports, a
  run, whatever calls of it fail, changes no report and no scan except by removing scans; every scan it
  removes had finished longer ago than the limit, lies in the pruner's namespace, and was named by no
  current report; and a run that succeeds has removed all of these.
\<close>

theorem prune_is_exact:
  assumes scans: "lists vs env (pn_list_scans P)" and reports: "lists vm env (pn_list_reports P)"
    and del: "deletes vs vm (pn_delete P)" and clock: "\<forall>s. env s (snd (pn_now P s))" and alone: "env \<le> calm vs vm"
    and run: "prune_run P s = ((n, r), s')"
  shows "vm s' = vm s \<and>
    (\<exists>now t gone. fst (pn_now P t) = now \<and>
       gone \<subseteq> {k. prunable vs vm (pn_namespace P) (now - prune_age P) s k} \<and>
       vs s' = (\<lambda>k. if k \<in> gone then None else vs s k) \<and>
       (r = None \<and> 0 \<le> prune_age P \<longrightarrow> gone = {k. prunable vs vm (pn_namespace P) (now - prune_age P) s k}))"
proof (cases "prune_age P < 0")
  case True
  then show ?thesis using run by (auto simp: prune_run_def intro!: exI [of _ "{}"])
next
  case False
  obtain rs s1 where l: "pn_list_reports P (pn_namespace P) s = (rs, s1)" by force
  obtain xs s2 where x: "pn_list_scans P (pn_namespace P) s1 = (xs, s2)" by force
  obtain now s3 where w: "pn_now P s2 = (now, s3)" by force
  have still: "calm vs vm a b" if "env a b" for a b using alone that by blast
  have c1: "calm vs vm s s1" by (rule still) (use reports l in \<open>auto simp: lists_def\<close>)
  have c2: "calm vs vm s1 s2" by (rule still) (use scans x in \<open>auto simp: lists_def\<close>)
  have c3: "calm vs vm s2 s3" by (rule still) (use clock w in \<open>metis snd_conv\<close>)
  have v: "vs s1 = vs s" "vm s1 = vm s" "vs s2 = vs s" "vm s2 = vm s" "vs s3 = vs s" "vm s3 = vm s"
    using c1 c2 c3 by (simp_all add: calm_def)
  show ?thesis
  proof (cases "isl rs \<or> isl xs")
    case True
    then have "r \<noteq> None \<and> (s' = s1 \<or> s' = s2)"
      using run False l x by (auto simp: prune_run_def isl_def split: sum.splits)
    then show ?thesis using v by (auto intro!: exI [of _ "{}"])
  next
    case ok: False
    then obtain reps items where ri: "rs = Inr reps" "xs = Inr items" by (metis isl_def sum.exhaust)
    let ?cut = "now - prune_age P"
    have e: "prune_each P ?cut (scans_in_use reps) items 0 s3 = ((n, r), s')"
      using run False l x w ri by (simp add: prune_run_def)
    have mem: "(k, scan) \<in> set items \<longleftrightarrow> in_scope (pn_namespace P) k \<and> map_option fst (vs s k) = Some scan" for k scan
      using listsD [OF scans x [unfolded ri]] unfolding v(3) by blast
    have used: "k \<in> scans_in_use reps \<longleftrightarrow> referenced (vm s) k" if "in_scope (pn_namespace P) k" for k
      using in_use_listed [OF reports l [unfolded ri] that] v(2) by simp
    have "k \<in> due ?cut (scans_in_use reps) items \<longleftrightarrow> prunable vs vm (pn_namespace P) ?cut s k" for k
    proof -
      have "k \<in> due ?cut (scans_in_use reps) items \<longleftrightarrow>
          (\<exists>scan. (k, scan) \<in> set items \<and> expired ?cut scan \<and> k \<notin> scans_in_use reps)"
        by (force simp: due_def)
      also have "\<dots> \<longleftrightarrow> prunable vs vm (pn_namespace P) ?cut s k"
        unfolding mem prunable_def using used [of k] by auto
      finally show ?thesis .
    qed
    then have "due ?cut (scans_in_use reps) items = {k. prunable vs vm (pn_namespace P) ?cut s k}" by blast
    from prune_each_views [OF del e, unfolded this v] obtain gone where
      "gone \<subseteq> {k. prunable vs vm (pn_namespace P) ?cut s k}" "vm s' = vm s"
      "vs s' = (\<lambda>k. if k \<in> gone then None else vs s k)"
      "r = None \<longrightarrow> gone = {k. prunable vs vm (pn_namespace P) ?cut s k}" by blast
    then show ?thesis using w by (intro conjI exI [of _ now] exI [of _ s2] exI [of _ gone]) auto
  qed
qed

section \<open>A cluster in memory\<close>

record prune_world =
  rw_scans :: "artifact_scan mem_store"
  rw_reports :: "model_report mem_store"

definition mem_all :: "string \<Rightarrow> 'o mem_store \<Rightarrow> (okey \<times> 'o) list" where
  "mem_all ns m = map (\<lambda>k. (k, fst (the (map_of m k)))) (remdups (filter (in_scope ns) (map fst m)))"

lemma mem_all_set: "(k, x) \<in> set (mem_all ns m) \<longleftrightarrow> in_scope ns k \<and> map_option fst (map_of m k) = Some x"
proof -
  have "k \<in> fst ` set m \<longleftrightarrow> map_of m k \<noteq> None" by (simp add: map_of_eq_None_iff)
  then show ?thesis unfolding mem_all_def by (auto simp: image_iff)
qed

lemma mem_all_distinct: "distinct (map fst (mem_all ns m))"
  by (simp add: mem_all_def comp_def)

definition demo_pruner :: "prune_world pruner" where
  "demo_pruner =
     \<lparr>pn_list_scans = (\<lambda>ns w. (Inr (mem_all ns (rw_scans w)), w)),
      pn_list_reports = (\<lambda>ns w. (Inr (mem_all ns (rw_reports w)), w)),
      pn_delete = k_delete (mem_client rw_scans (\<lambda>m. rw_scans_update (\<lambda>_. m))),
      pn_namespace = ''team'', pn_max_age = 10, pn_now = (\<lambda>w. (100, w))\<rparr>"

definition pruned_scan :: "string \<Rightarrow> go_time option \<Rightarrow> okey \<times> artifact_scan \<times> nat" where
  "pruned_scan n completed =
     ((''team'', n),
      \<lparr>as_meta = \<lparr>om_name = n, om_namespace = ''team'', om_uid = [], om_labels = [], om_annotations = [],
         om_owner = None, om_created = 0, om_deleted = None\<rparr>,
       as_spec = \<lparr>ss_model = [], ss_version = [], ss_registry_model = [], ss_registry_version = [], ss_connector = [],
         ss_artifact = \<lparr>ar_uri = [], ar_digest = [], ar_media_type = [], ar_format = [], ar_size = None\<rparr>,
         ss_policy_ref = [], ss_scanners = [], ss_trigger = [], ss_triggered_by = []\<rparr>,
       as_status = \<lparr>st_phase = ''Completed'', st_started = None, st_completed = completed, st_results = [],
         st_risk = None, st_verdict = [], st_message = [], st_digest = []\<rparr>\<rparr>, 1)"

definition pruned_report :: "string \<Rightarrow> okey \<times> model_report \<times> nat" where
  "pruned_report ref =
     ((''team'', ''r''),
      \<lparr>mr_meta = \<lparr>om_name = ''r'', om_namespace = ''team'', om_uid = [], om_labels = [], om_annotations = [],
         om_owner = None, om_created = 0, om_deleted = None\<rparr>,
       mr_spec = \<lparr>rs_model = [], rs_version = [],
         rs_artifact = \<lparr>ar_uri = [], ar_digest = [], ar_media_type = [], ar_format = [], ar_size = None\<rparr>,
         rs_scan_ref = ref\<rparr>,
       mr_status = \<lparr>rt_verdict = [], rt_risk = 0, rt_malware = [], rt_secrets = [], rt_cves = no_counts,
         rt_unexamined = no_counts, rt_sbom_ref = [], rt_aibom_ref = [], rt_signature_verified = False,
         rt_scanners = [], rt_last_scan = None, rt_environments = []\<rparr>\<rparr>, 1)"

text \<open>Finished long ago and free, finished long ago and in use, just finished, and still running.\<close>

definition demo_prune_world :: prune_world where
  "demo_prune_world =
     \<lparr>rw_scans = [pruned_scan ''old'' (Some 1), pruned_scan ''used'' (Some 1), pruned_scan ''new'' (Some 95),
        pruned_scan ''open'' None],
      rw_reports = [pruned_report ''used'']\<rparr>"

lemma demo_pruned:
  "fst (prune_run demo_pruner demo_prune_world) = (1, None)"
  "map (snd \<circ> fst) (rw_scans (snd (prune_run demo_pruner demo_prune_world))) = [''used'', ''new'', ''open'']"
  by code_simp+

theorem prune_is_exact_witness:
  "(\<exists>gone. (\<lambda>k. map_of (rw_scans (snd (prune_run demo_pruner demo_prune_world))) k) =
      (\<lambda>k. if k \<in> gone then None else map_of (rw_scans demo_prune_world) k) \<and>
      gone = {k. prunable (\<lambda>w. map_of (rw_scans w)) (\<lambda>w. map_of (rw_reports w)) ''team'' 90 demo_prune_world k}) \<and>
   map (snd \<circ> fst) (rw_scans (snd (prune_run demo_pruner demo_prune_world))) = [''used'', ''new'', ''open'']"
proof -
  let ?vs = "\<lambda>w. map_of (rw_scans w)" and ?vm = "\<lambda>w. map_of (rw_reports w)"
  have l: "lists ?vs (=) (pn_list_scans demo_pruner)" "lists ?vm (=) (pn_list_reports demo_pruner)"
    unfolding lists_def demo_pruner_def pruner.simps by (auto simp: mem_all_set mem_all_distinct)
  have d: "deletes ?vs ?vm (pn_delete demo_pruner)"
    unfolding deletes_def demo_pruner_def pruner.simps mem_client_def by (auto split: if_splits)
  have c: "\<forall>s. s = snd (pn_now demo_pruner s)" "(=) \<le> calm ?vs ?vm" by (auto simp: demo_pruner_def calm_def)
  have a: "fst (pn_now demo_pruner t) = 100" "pn_namespace demo_pruner = ''team''" "prune_age demo_pruner = 10" for t
    by (simp_all add: demo_pruner_def prune_age_def)
  have r: "prune_run demo_pruner demo_prune_world = ((1, None), snd (prune_run demo_pruner demo_prune_world))"
    using demo_pruned(1) by (simp add: prod_eq_iff)
  from prune_is_exact [OF l d c r] demo_pruned(2) show ?thesis unfolding a by auto
qed

end
