(* ===== verification/Glob.thy ===== *)
theory Glob
  imports Cupel_Prelude
begin

text \<open>
  \<open>path.Match\<close> of Go's library, which include lists and model selectors are read with.  It is given on
  bytes, which is what it does for names and patterns in ASCII.  A malformed pattern matches nothing
  here, because every caller drops the error and goes on.
\<close>

section \<open>Globs\<close>

text \<open>\<open>getEsc\<close>: one character of a class, which must not end the pattern.\<close>

fun get_esc :: "string \<Rightarrow> (char \<times> string) option" where
  "get_esc [] = None"
| "get_esc (c # cs) =
     (if c = CHR ''-'' \<or> c = CHR '']'' then None
      else if c = backslash_char
      then (case cs of d # e # es \<Rightarrow> Some (d, e # es) | _ \<Rightarrow> None)
      else if cs = [] then None else Some (c, cs))"

lemma get_esc_shorter: "get_esc cs = Some (c, cs') \<Longrightarrow> length cs' < length cs \<and> cs' \<noteq> []"
  by (cases cs) (auto split: if_splits list.splits)

text \<open>The ranges of a class after its negation: whether one holds \<open>r\<close>, and the pattern after \<open>]\<close>.\<close>

function class_ranges :: "char \<Rightarrow> bool \<Rightarrow> bool \<Rightarrow> string \<Rightarrow> (bool \<times> string) option" where
  "class_ranges r some hit cs =
     (if some \<and> cs \<noteq> [] \<and> hd cs = CHR '']'' then Some (hit, tl cs)
      else
        (case get_esc cs of
           None \<Rightarrow> None
         | Some (lo, cs1) \<Rightarrow>
             (if hd cs1 = CHR ''-''
              then (case get_esc (tl cs1) of
                      None \<Rightarrow> None
                    | Some (hi, cs2) \<Rightarrow> class_ranges r True (hit \<or> of_char lo \<le> (of_char r :: nat) \<and> of_char r \<le> (of_char hi :: nat)) cs2)
              else class_ranges r True (hit \<or> lo = r) cs1)))"
  by pat_completeness auto
termination
proof (relation "measure (\<lambda>(r, some, hit, cs). length cs)", goal_cases)
  case (2 r some hit cs x lo cs1 y hi cs2)
  then have "length cs1 < length cs" "length cs2 < length (tl cs1)" by (auto dest: get_esc_shorter)
  then show ?case by simp
next
  case (3 r some hit cs x lo cs1)
  then show ?case by (auto dest: get_esc_shorter)
qed simp

declare class_ranges.simps [simp del]

lemma class_ranges_shorter: "class_ranges r some hit cs = Some (h, rest) \<Longrightarrow> length rest < length cs"
proof (induction r some hit cs rule: class_ranges.induct)
  case (1 r some hit cs)
  note c = 1(3) [unfolded class_ranges.simps [of r some hit cs]]
  show ?case
  proof (cases "some \<and> cs \<noteq> [] \<and> hd cs = CHR '']''")
    case True
    then show ?thesis using c by (cases cs) auto
  next
    case False
    with c obtain lo cs1 where g: "get_esc cs = Some (lo, cs1)" by (auto split: option.splits)
    note s = get_esc_shorter [OF g]
    show ?thesis
    proof (cases "hd cs1 = CHR ''-''")
      case True
      with c False g obtain hi cs2 where h: "get_esc (tl cs1) = Some (hi, cs2)" by (auto split: option.splits)
      have "length rest < length cs2" using 1(1) [OF False g refl True h refl] c False g True h by simp
      moreover have "length (tl cs1) \<le> length cs1" by simp
      ultimately show ?thesis using get_esc_shorter [OF h] s by linarith
    next
      case no: False
      have "length rest < length cs1" using 1(2) [OF False g refl no] c False g no by simp
      then show ?thesis using s by simp
    qed
  qed
qed

datatype glob_result = BadPattern | NoMatch | Matched string

text \<open>\<open>matchChunk\<close>: \<open>s\<close> is what is left of the name, \<open>None\<close> once it cannot match any more.\<close>

function match_chunk :: "string \<Rightarrow> string option \<Rightarrow> glob_result" where
  "match_chunk [] s = (case s of None \<Rightarrow> NoMatch | Some t \<Rightarrow> Matched t)"
| "match_chunk (c # cs) s =
     (let s = (if s = Some [] then None else s) in
      if c = CHR ''[''
      then
        (let neg = (cs \<noteq> [] \<and> hd cs = CHR ''^''); cs1 = (if neg then tl cs else cs)
         in case class_ranges (case s of Some (x # xs) \<Rightarrow> x | _ \<Rightarrow> CHR 0x00) False False cs1 of
              None \<Rightarrow> BadPattern
            | Some (hit, rest) \<Rightarrow>
                match_chunk rest (case s of Some (x # xs) \<Rightarrow> if hit = neg then None else Some xs | _ \<Rightarrow> None))
      else if c = CHR ''?''
      then match_chunk cs (case s of Some (x # xs) \<Rightarrow> if x = CHR ''/'' then None else Some xs | _ \<Rightarrow> None)
      else if c = backslash_char
      then (case cs of
              [] \<Rightarrow> BadPattern
            | d # ds \<Rightarrow> match_chunk ds (case s of Some (x # xs) \<Rightarrow> if x \<noteq> d then None else Some xs | _ \<Rightarrow> None))
      else match_chunk cs (case s of Some (x # xs) \<Rightarrow> if x \<noteq> c then None else Some xs | _ \<Rightarrow> None))"
  by pat_completeness auto
termination
proof (relation "measure (\<lambda>(cs, s). length cs)", goal_cases)
  case (2 c cs s x xa xb xc y z)
  then have "class_ranges (case x of Some (u # us) \<Rightarrow> u | _ \<Rightarrow> CHR 0x00) False False xb = Some (y, z)" by simp
  then have "length z < length xb" by (rule class_ranges_shorter)
  moreover have "length xb \<le> length cs" using 2 by simp
  ultimately show ?case by simp
qed simp_all

text \<open>\<open>scanChunk\<close>: the pattern up to the next star that is not in a class.\<close>

fun split_chunk :: "bool \<Rightarrow> string \<Rightarrow> string \<times> string" where
  "split_chunk inside [] = ([], [])"
| "split_chunk inside (c # cs) =
     (if c = backslash_char
      then (case cs of
              [] \<Rightarrow> ([c], [])
            | d # ds \<Rightarrow> (case split_chunk inside ds of (a, b) \<Rightarrow> (c # d # a, b)))
      else if c = CHR ''*'' \<and> \<not> inside then ([], c # cs)
      else (case split_chunk (if c = CHR ''['' then True else if c = CHR '']'' then False else inside) cs of
              (a, b) \<Rightarrow> (c # a, b)))"

lemma split_chunk_append: "split_chunk inside p = (a, b) \<Longrightarrow> p = a @ b"
proof (induction inside p arbitrary: a b rule: split_chunk.induct)
  case (2 inside c cs)
  then show ?case by (auto split: if_splits prod.splits list.splits)
qed simp

lemma split_chunk_progress: "p \<noteq> [] \<Longrightarrow> hd p \<noteq> CHR ''*'' \<Longrightarrow> split_chunk False p = (a, b) \<Longrightarrow> a \<noteq> []"
  by (cases p) (auto split: if_splits prod.splits list.splits)

definition scan_chunk :: "string \<Rightarrow> bool \<times> string \<times> string" where
  "scan_chunk pattern =
     (pattern \<noteq> [] \<and> hd pattern = CHR ''*'', split_chunk False (dropWhile (\<lambda>c. c = CHR ''*'') pattern))"

lemma scan_chunk_shorter:
  assumes p: "pattern \<noteq> []" and c: "scan_chunk pattern = (star, a, b)"
  shows "length b < length pattern"
proof -
  have s: "split_chunk False (dropWhile (\<lambda>c. c = CHR ''*'') pattern) = (a, b)" using c by (simp add: scan_chunk_def)
  show ?thesis
  proof (cases "hd pattern = CHR ''*''")
    case True
    then obtain cs where cs: "pattern = CHR ''*'' # cs" using p by (cases pattern) auto
    then have "a @ b = dropWhile (\<lambda>c. c = CHR ''*'') cs" using split_chunk_append [OF s] by simp
    then have "length (a @ b) \<le> length cs" by (simp add: length_dropWhile_le del: length_append)
    then show ?thesis using cs by simp
  next
    case False
    then have d: "dropWhile (\<lambda>c. c = CHR ''*'') pattern = pattern" using p by (cases pattern) auto
    have "a @ b = pattern" using split_chunk_append [OF s] d by simp
    then show ?thesis using split_chunk_progress [OF p False s [unfolded d]] by auto
  qed
qed

text \<open>The leftmost place after a star where the chunk matches; the last chunk must use up the name.\<close>

fun star_match :: "string \<Rightarrow> bool \<Rightarrow> string \<Rightarrow> glob_result" where
  "star_match chunk final [] = NoMatch"
| "star_match chunk final (x # xs) =
     (if x = CHR ''/'' then NoMatch
      else (case match_chunk chunk (Some xs) of
              BadPattern \<Rightarrow> BadPattern
            | Matched t \<Rightarrow> if final \<and> t \<noteq> [] then star_match chunk final xs else Matched t
            | NoMatch \<Rightarrow> star_match chunk final xs))"

function path_match :: "string \<Rightarrow> string \<Rightarrow> bool" where
  "path_match pattern name =
     (if pattern = [] then name = []
      else
        (case scan_chunk pattern of (star, chunk, rest) \<Rightarrow>
            if star \<and> chunk = [] then CHR ''/'' \<notin> set name
            else
              (case match_chunk chunk (Some name) of
                 BadPattern \<Rightarrow> False
               | Matched t \<Rightarrow>
                   if t = [] \<or> rest \<noteq> [] then path_match rest t
                   else star \<and>
                     (case star_match chunk (rest = []) name of
                        Matched t \<Rightarrow> path_match rest t | _ \<Rightarrow> False)
               | NoMatch \<Rightarrow>
                   star \<and>
                   (case star_match chunk (rest = []) name of
                      Matched t \<Rightarrow> path_match rest t | _ \<Rightarrow> False))))"
  by pat_completeness auto
termination
  by (relation "measure (\<lambda>(p, n). length p)") (auto intro: scan_chunk_shorter [OF _ sym])

declare path_match.simps [simp del]

text \<open>\<open>matchesIncludeList\<close> and the loop of \<open>profileMatches\<close>: an empty list matches everything.\<close>

definition matches_include_list :: "string \<Rightarrow> string list \<Rightarrow> bool" where
  "matches_include_list name patterns \<longleftrightarrow> patterns = [] \<or> (\<exists>p \<in> set patterns. path_match p name)"

section \<open>What patterns mean\<close>

text \<open>A pattern of ordinary characters matches itself; with a star at its end, what starts so with no slash after.\<close>

definition plain_char :: "char \<Rightarrow> bool" where
  "plain_char c \<longleftrightarrow> c \<notin> {CHR ''*'', CHR ''?'', CHR ''['', CHR '']'', backslash_char}"

lemma split_chunk_plain: "list_all plain_char p \<Longrightarrow> split_chunk False p = (p, [])"
  by (induction p) (auto simp: plain_char_def)

lemma split_chunk_star: "list_all plain_char p \<Longrightarrow> split_chunk False (p @ ''*'') = (p, ''*'')"
  by (induction p) (auto simp: plain_char_def)

lemma match_chunk_dead: "list_all plain_char p \<Longrightarrow> match_chunk p None = NoMatch"
  by (induction p) (auto simp: plain_char_def)

lemma match_chunk_plain:
  "list_all plain_char p \<Longrightarrow>
   match_chunk p (Some n) = (if take (length p) n = p then Matched (drop (length p) n) else NoMatch)"
proof (induction p arbitrary: n)
  case Nil
  then show ?case by simp
next
  case (Cons c p)
  then have p: "list_all plain_char p" and "plain_char c" by simp_all
  then have c: "c \<noteq> CHR ''['' \<and> c \<noteq> CHR ''?'' \<and> c \<noteq> backslash_char" by (simp add: plain_char_def)
  show ?case
  proof (cases n)
    case Nil
    then show ?thesis using c match_chunk_dead [OF p] by (simp add: Let_def)
  next
    case (Cons x xs)
    then show ?thesis using c match_chunk_dead [OF p] Cons.IH [OF p] by (simp add: Let_def)
  qed
qed

lemma dropWhile_plain: "list_all plain_char p \<Longrightarrow> dropWhile (\<lambda>c. c = CHR ''*'') (p @ q) = (if p = [] then dropWhile (\<lambda>c. c = CHR ''*'') q else p @ q)"
  by (cases p) (auto simp: plain_char_def)

lemma path_match_literal:
  assumes "list_all plain_char p"
  shows "path_match p n \<longleftrightarrow> n = p"
proof (cases "p = []")
  case True
  then show ?thesis using path_match.simps [of "[]" n] by simp
next
  case False
  then have "hd p \<noteq> CHR ''*''" using assms by (cases p) (auto simp: plain_char_def)
  moreover have "dropWhile (\<lambda>c. c = CHR ''*'') p = p" using dropWhile_plain [OF assms, of "[]"] False by simp
  ultimately have "scan_chunk p = (False, p, [])" by (simp add: scan_chunk_def split_chunk_plain [OF assms])
  then show ?thesis
    using False by (auto simp: path_match.simps [of p] path_match.simps [of "[]"] match_chunk_plain [OF assms] split: if_splits)
qed

lemma path_match_prefix:
  assumes p: "list_all plain_char p" and ne: "p \<noteq> []"
  shows "path_match (p @ ''*'') n \<longleftrightarrow> (\<exists>rest. n = p @ rest \<and> CHR ''/'' \<notin> set rest)"
proof -
  have "hd (p @ ''*'') \<noteq> CHR ''*''" using p ne by (cases p) (auto simp: plain_char_def)
  moreover have "dropWhile (\<lambda>c. c = CHR ''*'') (p @ ''*'') = p @ ''*''" using dropWhile_plain [OF p] ne by simp
  ultimately have s: "scan_chunk (p @ ''*'') = (False, p, ''*'')" by (simp add: scan_chunk_def split_chunk_star [OF p])
  have t: "path_match ''*'' m \<longleftrightarrow> CHR ''/'' \<notin> set m" for m
    by (simp add: path_match.simps [of "''*''"] scan_chunk_def)
  have "path_match (p @ ''*'') n \<longleftrightarrow> take (length p) n = p \<and> CHR ''/'' \<notin> set (drop (length p) n)"
    using ne by (simp add: path_match.simps [of "p @ ''*''"] s match_chunk_plain [OF p] t)
  also have "\<dots> \<longleftrightarrow> (\<exists>rest. n = p @ rest \<and> CHR ''/'' \<notin> set rest)"
    by (metis append_take_drop_id append_eq_conv_conj)
  finally show ?thesis .
qed

end
