(* ===== verification/Model_Source.thy ===== *)
theory Model_Source
  imports Cupel_Types
begin

text \<open>
  Where models are declared and tracked (\<open>internal/modelsource\<close>) and the client of the model registry
  (\<open>internal/registry\<close>): listing the versions of a source page by page, and writing a verdict back.  HTTP
  is a parameter, a function from a request to a status and a payload; so are the JSON decoders, the
  encoder of a request's body and the library's rewriting of an MLflow artifact location.  Staging bytes
  (\<open>Resolve\<close>) belongs to the scan pod and is not modelled.
\<close>

section \<open>Versions and verdicts\<close>

record model_version =
  mv_model :: string
  mv_version :: string
  mv_id :: string
  mv_artifact :: artifact_ref
  mv_labels :: str_map

record source_verdict =
  sv_verdict :: string
  sv_risk :: int32
  sv_malware :: string
  sv_secrets :: string
  sv_time :: go_time
  sv_report :: string

text \<open>The interface \<open>Source\<close>; a listing that goes on for ever is \<open>None\<close>.\<close>

record 's model_source =
  so_name :: string
  so_list :: "'s \<Rightarrow> ((string + model_version list) \<times> 's) option"
  so_write_back :: "model_version \<Rightarrow> source_verdict \<Rightarrow> 's \<Rightarrow> string option \<times> 's"

record declared_model =
  dm_name :: string
  dm_version :: string
  dm_uri :: string
  dm_format :: string

definition declared_version :: "declared_model \<Rightarrow> model_version" where
  "declared_version m =
     \<lparr>mv_model = dm_name m, mv_version = dm_version m, mv_id = [],
      mv_artifact = \<lparr>ar_uri = dm_uri m, ar_digest = [], ar_media_type = [], ar_format = dm_format m, ar_size = None\<rparr>,
      mv_labels = [(''declared'', ''true'')]\<rparr>"

definition declared_source :: "declared_model list \<Rightarrow> 's model_source" where
  "declared_source ms =
     \<lparr>so_name = ''declared'', so_list = (\<lambda>s. Some (Inr (map declared_version ms), s)),
      so_write_back = (\<lambda>v verdict s. (None, s))\<rparr>"

section \<open>URLs and requests\<close>

definition upper_hex :: "nat \<Rightarrow> char" where
  "upper_hex d = (if d < 10 then digit_char d else char_of (55 + d))"

definition unreserved :: "char \<Rightarrow> bool" where
  "unreserved c \<longleftrightarrow> is_upper c \<or> is_lower c \<or> is_digit c \<or> c \<in> {CHR ''-'', CHR ''_'', CHR ''.'', CHR ''~''}"

definition percent :: "char \<Rightarrow> string" where
  "percent c = [CHR ''%'', upper_hex (of_char c div 16), upper_hex (of_char c mod 16)]"

definition query_escape :: "string \<Rightarrow> string" where
  "query_escape s = concat (map (\<lambda>c. if unreserved c then [c] else if c = CHR '' '' then ''+'' else percent c) s)"

definition path_escape :: "string \<Rightarrow> string" where
  "path_escape s =
     concat (map (\<lambda>c. if unreserved c \<or> c \<in> {CHR ''$'', CHR ''&'', CHR ''+'', CHR ''='', CHR '':'', CHR ''@''} then [c]
                      else percent c) s)"

text \<open>\<open>url.Values.Encode\<close>: one value for each key, keys sorted.\<close>

definition encode_query :: "str_map \<Rightarrow> string" where
  "encode_query q = str_join ''&'' (map (\<lambda>p. query_escape (fst p) @ ''='' @ query_escape (snd p)) (sort_key fst q))"

definition with_query :: "string \<Rightarrow> str_map \<Rightarrow> string" where
  "with_query url q = (if q = [] then url else url @ ''?'' @ encode_query q)"

record http_request =
  hq_method :: string
  hq_url :: string
  hq_headers :: str_map
  hq_body :: "string option"

datatype http_failure = Not_Built string | Not_Sent string | Not_Read string

type_synonym 's http = "http_request \<Rightarrow> 's \<Rightarrow> (http_failure + int \<times> string) \<times> 's"

definition success_status :: "int \<Rightarrow> bool" where
  "success_status n \<longleftrightarrow> \<not> (n < 200 \<or> n \<ge> 300)"

text \<open>\<open>io.ReadAll(io.LimitReader(r, n))\<close>.\<close>

definition limit_reader :: "int \<Rightarrow> string \<Rightarrow> string" where
  "limit_reader n r = (case int (length r) \<le> n of True \<Rightarrow> r | False \<Rightarrow> take (nat n) r)"

definition bearer :: "string \<Rightarrow> str_map" where
  "bearer token = (if token = [] then [] else [(''Authorization'', ''Bearer '' @ token)])"

section \<open>The model registry's client\<close>

definition api_path :: string where "api_path = ''/api/model_registry/v1alpha3''"

record registered_model =
  rm_id :: string
  rm_name :: string

record registry_version =
  rv_id :: string
  rv_name :: string

record model_artifact =
  ma_id :: string
  ma_uri :: string
  ma_format :: string
  ma_storage_key :: string
  ma_storage_path :: string

datatype metadata_value = String_Value string | Int_Value string | Bool_Value bool

definition string_property :: "string \<Rightarrow> metadata_value" where "string_property v = String_Value v"

definition int_property :: "int \<Rightarrow> metadata_value" where "int_property v = Int_Value (int_str v)"

definition bool_property :: "bool \<Rightarrow> metadata_value" where "bool_property v = Bool_Value v"

type_synonym properties = "(string \<times> metadata_value) list"

record 's registry_client =
  rc_base :: string
  rc_token :: string
  rc_http :: "'s http"
  rc_encode :: "properties \<Rightarrow> string"
  rc_models :: "string \<Rightarrow> string + registered_model list \<times> string"
  rc_versions :: "string \<Rightarrow> string + registry_version list \<times> string"
  rc_artifacts :: "string \<Rightarrow> string + model_artifact list \<times> string"

text \<open>\<open>New\<close>; time-outs and transport security are the HTTP client's.\<close>

definition new_registry ::
    "string \<Rightarrow> string \<Rightarrow> 's http \<Rightarrow> (properties \<Rightarrow> string) \<Rightarrow> (string \<Rightarrow> string + registered_model list \<times> string) \<Rightarrow>
     (string \<Rightarrow> string + registry_version list \<times> string) \<Rightarrow> (string \<Rightarrow> string + model_artifact list \<times> string) \<Rightarrow>
     's registry_client" where
  "new_registry base token http enc dm dv da =
     \<lparr>rc_base = trim_suffix base ''/'', rc_token = token, rc_http = http, rc_encode = enc, rc_models = dm,
      rc_versions = dv, rc_artifacts = da\<rparr>"

datatype registry_error =
  Build_Request string
| Transport string string string
| Read_Response string
| Status_Error int string string string
| Decode_Response string string
| Within string registry_error

definition truncate_body :: "string \<Rightarrow> string" where
  "truncate_body body = (if length body > 512 then take 512 body @ ''...'' else body)"

fun registry_error_str :: "registry_error \<Rightarrow> string" where
  "registry_error_str (Build_Request e) = ''build request: '' @ e"
| "registry_error_str (Transport m p e) = m @ '' '' @ p @ '': '' @ e"
| "registry_error_str (Read_Response e) = ''read response: '' @ e"
| "registry_error_str (Status_Error n m p b) =
     ''model registry '' @ m @ '' '' @ p @ '': status '' @ int_str n @ '': '' @ truncate_body b"
| "registry_error_str (Decode_Response p e) = ''decode response from '' @ p @ '': '' @ e"
| "registry_error_str (Within what e) = what @ '': '' @ registry_error_str e"

text \<open>\<open>errors.As\<close> looks through what wraps the error.\<close>

fun registry_not_found :: "registry_error \<Rightarrow> bool" where
  "registry_not_found (Status_Error n m p b) \<longleftrightarrow> n = 404"
| "registry_not_found (Within what e) \<longleftrightarrow> registry_not_found e"
| "registry_not_found _ \<longleftrightarrow> False"

definition registry_do ::
    "'s registry_client \<Rightarrow> string \<Rightarrow> string \<Rightarrow> str_map \<Rightarrow> properties option \<Rightarrow> 's \<Rightarrow> (registry_error + string) \<times> 's"
where
  "registry_do R method path query body s =
     (let headers = [(''Accept'', ''application/json'')] @
            (if body = None then [] else [(''Content-Type'', ''application/json'')]) @ bearer (rc_token R);
          request = \<lparr>hq_method = method, hq_url = with_query (rc_base R @ api_path @ path) query,
            hq_headers = headers, hq_body = map_option (rc_encode R) body\<rparr>
      in case rc_http R request s of
           (Inl (Not_Built e), s1) \<Rightarrow> (Inl (Build_Request e), s1)
         | (Inl (Not_Sent e), s1) \<Rightarrow> (Inl (Transport method path e), s1)
         | (Inl (Not_Read e), s1) \<Rightarrow> (Inl (Read_Response e), s1)
         | (Inr (status, reply), s1) \<Rightarrow>
             (let payload = limit_reader 16777216 reply in
              if \<not> success_status status then (Inl (Status_Error status method path payload), s1)
              else (Inr payload, s1)))"

text \<open>One page: its items and the token of the next page.\<close>

definition registry_page ::
    "'s registry_client \<Rightarrow> (string \<Rightarrow> string + 'a list \<times> string) \<Rightarrow> string \<Rightarrow> string \<Rightarrow> 's
       \<Rightarrow> (registry_error + 'a list \<times> string) \<times> 's"
where
  "registry_page R decode path token s =
     (case registry_do R ''GET'' path
             ([(''pageSize'', ''100'')] @ (if token = [] then [] else [(''nextPageToken'', token)])) None s of
        (Inl e, s1) \<Rightarrow> (Inl e, s1)
      | (Inr payload, s1) \<Rightarrow>
          (case decode payload of
             Inl e \<Rightarrow> (Inl (Decode_Response path e), s1)
           | Inr page \<Rightarrow> (Inr page, s1)))"

text \<open>The loop of \<open>paginate\<close>, which the server ends: with no next page, or with an empty one.\<close>

partial_function (option) paginate ::
    "(string \<Rightarrow> 's \<Rightarrow> ('e + 'a list \<times> string) \<times> 's) \<Rightarrow> 'a list \<Rightarrow> string \<Rightarrow> 's \<Rightarrow> (('e + 'a list) \<times> 's) option"
where
  "paginate get all token s =
     (case get token s of
        (Inl e, s1) \<Rightarrow> Some (Inl e, s1)
      | (Inr (items, nxt), s1) \<Rightarrow>
          if nxt = [] \<or> items = [] then Some (Inr (all @ items), s1) else paginate get (all @ items) nxt s1)"

lemma paginate_code [code]:
  "paginate get all token s =
     (case get token s of
        (Inl e, s1) \<Rightarrow> Some (Inl e, s1)
      | (Inr (items, nxt), s1) \<Rightarrow>
          (case nxt = [] \<or> items = [] of
             True \<Rightarrow> Some (Inr (all @ items), s1) | False \<Rightarrow> paginate get (all @ items) nxt s1))"
  by (subst paginate.simps) (auto split: prod.split sum.split bool.split)

definition list_registered_models :: "'s registry_client \<Rightarrow> 's \<Rightarrow> ((registry_error + registered_model list) \<times> 's) option" where
  "list_registered_models R s = paginate (registry_page R (rc_models R) ''/registered_models'') [] [] s"

definition list_model_versions ::
    "'s registry_client \<Rightarrow> string \<Rightarrow> 's \<Rightarrow> ((registry_error + registry_version list) \<times> 's) option" where
  "list_model_versions R i s =
     paginate (registry_page R (rc_versions R) (''/registered_models/'' @ path_escape i @ ''/versions'')) [] [] s"

definition list_artifacts ::
    "'s registry_client \<Rightarrow> string \<Rightarrow> 's \<Rightarrow> ((registry_error + model_artifact list) \<times> 's) option" where
  "list_artifacts R i s =
     paginate (registry_page R (rc_artifacts R) (''/model_versions/'' @ path_escape i @ ''/artifacts'')) [] [] s"

definition registry_ping :: "'s registry_client \<Rightarrow> 's \<Rightarrow> registry_error option \<times> 's" where
  "registry_ping R s =
     (case registry_do R ''GET'' ''/registered_models'' [(''pageSize'', ''1'')] None s of
        (Inl e, s1) \<Rightarrow> (Some e, s1)
      | (Inr payload, s1) \<Rightarrow>
          (case rc_models R payload of
             Inl e \<Rightarrow> (Some (Decode_Response ''/registered_models'' e), s1)
           | Inr page \<Rightarrow> (None, s1)))"

definition patch_properties :: "'s registry_client \<Rightarrow> string \<Rightarrow> properties \<Rightarrow> 's \<Rightarrow> registry_error option \<times> 's" where
  "patch_properties R i props s =
     (case registry_do R ''PATCH'' (''/model_versions/'' @ path_escape i) [] (Some props) s of
        (Inl e, s1) \<Rightarrow> (Some e, s1)
      | (Inr payload, s1) \<Rightarrow> (None, s1))"

section \<open>The model registry as a source\<close>

definition or_unknown :: "string \<Rightarrow> string" where
  "or_unknown v = (if v = [] then verdict_unknown else v)"

definition registry_version_of :: "registered_model \<Rightarrow> registry_version \<Rightarrow> model_artifact \<Rightarrow> model_version" where
  "registry_version_of m v a =
     \<lparr>mv_model = rm_name m, mv_version = rv_name v, mv_id = rv_id v,
      mv_artifact = \<lparr>ar_uri = ma_uri a, ar_digest = [], ar_media_type = [], ar_format = ma_format a, ar_size = None\<rparr>,
      mv_labels = [(''registry.model_id'', rm_id m), (''registry.version_id'', rv_id v),
        (''registry.artifact_id'', ma_id a)]\<rparr>"

text \<open>The three nested loops of \<open>List\<close>; an artifact without a URI is left out.\<close>

fun versions_of ::
    "'s registry_client \<Rightarrow> registered_model \<Rightarrow> registry_version list \<Rightarrow> model_version list \<Rightarrow> 's
       \<Rightarrow> ((registry_error + model_version list) \<times> 's) option"
where
  "versions_of R m [] found s = Some (Inr found, s)"
| "versions_of R m (v # vs) found s =
     (case list_artifacts R (rv_id v) s of
        None \<Rightarrow> None
      | Some (Inl e, s1) \<Rightarrow> Some (Inl (Within (''list artifacts of '' @ rm_name m @ ''/'' @ rv_name v) e), s1)
      | Some (Inr as, s1) \<Rightarrow>
          versions_of R m vs (found @ map (registry_version_of m v) (filter (\<lambda>a. ma_uri a \<noteq> []) as)) s1)"

fun versions_of_models ::
    "'s registry_client \<Rightarrow> registered_model list \<Rightarrow> model_version list \<Rightarrow> 's
       \<Rightarrow> ((registry_error + model_version list) \<times> 's) option"
where
  "versions_of_models R [] found s = Some (Inr found, s)"
| "versions_of_models R (m # ms) found s =
     (case list_model_versions R (rm_id m) s of
        None \<Rightarrow> None
      | Some (Inl e, s1) \<Rightarrow> Some (Inl (Within (''list versions of '' @ quote (rm_name m)) e), s1)
      | Some (Inr vs, s1) \<Rightarrow>
          (case versions_of R m vs found s1 of
             None \<Rightarrow> None
           | Some (Inl e, s2) \<Rightarrow> Some (Inl e, s2)
           | Some (Inr found', s2) \<Rightarrow> versions_of_models R ms found' s2))"

definition registry_list :: "'s registry_client \<Rightarrow> 's \<Rightarrow> ((registry_error + model_version list) \<times> 's) option" where
  "registry_list R s =
     (case list_registered_models R s of
        None \<Rightarrow> None
      | Some (Inl e, s1) \<Rightarrow> Some (Inl (Within ''list registered models'' e), s1)
      | Some (Inr ms, s1) \<Rightarrow> versions_of_models R ms [] s1)"

definition registry_write_back ::
    "'s registry_client \<Rightarrow> model_version \<Rightarrow> source_verdict \<Rightarrow> 's \<Rightarrow> string option \<times> 's" where
  "registry_write_back R v x s =
     (if mv_id v = []
      then (Some (''model version '' @ mv_model v @ ''/'' @ mv_version v @ '' has no registry ID for write-back''), s)
      else
        (let props = [(''cupel.security/verdict'', string_property (or_unknown (sv_verdict x))),
               (''cupel.security/risk-score'', int_property (sint (sv_risk x)))]
             @ (if sv_malware x \<noteq> [] then [(''cupel.security/malware'', string_property (sv_malware x))] else [])
             @ (if sv_secrets x \<noteq> [] then [(''cupel.security/secrets'', string_property (sv_secrets x))] else [])
             @ (if sv_time x \<noteq> zero_time
                then [(''cupel.security/last-scan'', string_property (rfc3339 (unix_sec (sv_time x))))] else [])
             @ (if sv_report x \<noteq> [] then [(''cupel.security/report'', string_property (sv_report x))] else [])
         in case patch_properties R (mv_id v) props s of (e, s1) \<Rightarrow> (map_option registry_error_str e, s1)))"

definition stringly :: "((registry_error + 'a) \<times> 's) option \<Rightarrow> ((string + 'a) \<times> 's) option" where
  "stringly r = map_option (map_prod (map_sum registry_error_str id) id) r"

definition registry_source :: "'s registry_client \<Rightarrow> 's model_source" where
  "registry_source R =
     \<lparr>so_name = ''model-registry'', so_list = (\<lambda>s. stringly (registry_list R s)),
      so_write_back = registry_write_back R\<rparr>"

section \<open>MLflow as a source\<close>

record mlflow_version =
  fv_name :: string
  fv_version :: string
  fv_stage :: string
  fv_source :: string
  fv_run :: string

record 's mlflow_client =
  fc_base :: string
  fc_token :: string
  fc_http :: "'s http"
  fc_encode :: "str_map \<Rightarrow> string"
  fc_models :: "string \<Rightarrow> string + string list \<times> string"
  fc_versions :: "string \<Rightarrow> string + mlflow_version list \<times> string"
  fc_rewrite :: "string \<Rightarrow> string \<Rightarrow> string option"
  fc_order :: "'s \<Rightarrow> str_map \<Rightarrow> str_map"

definition new_mlflow ::
    "string \<Rightarrow> string \<Rightarrow> 's http \<Rightarrow> (str_map \<Rightarrow> string) \<Rightarrow> (string \<Rightarrow> string + string list \<times> string) \<Rightarrow>
     (string \<Rightarrow> string + mlflow_version list \<times> string) \<Rightarrow> (string \<Rightarrow> string \<Rightarrow> string option) \<Rightarrow>
     ('s \<Rightarrow> str_map \<Rightarrow> str_map) \<Rightarrow> 's mlflow_client" where
  "new_mlflow base token http enc dm dv rw ord =
     \<lparr>fc_base = trim_right_if (\<lambda>c. c = CHR ''/'') base, fc_token = token, fc_http = http, fc_encode = enc,
      fc_models = dm, fc_versions = dv, fc_rewrite = rw, fc_order = ord\<rparr>"

definition mlflow_do :: "'s mlflow_client \<Rightarrow> string \<Rightarrow> http_request \<Rightarrow> 's \<Rightarrow> (string + string) \<times> 's" where
  "mlflow_do F path request s =
     (case fc_http F request s of
        (Inl (Not_Built e), s1) \<Rightarrow> (Inl e, s1)
      | (Inl (Not_Sent e), s1) \<Rightarrow> (Inl e, s1)
      | (Inl (Not_Read e), s1) \<Rightarrow> (Inl e, s1)
      | (Inr (status, reply), s1) \<Rightarrow>
          (let payload = limit_reader 33554432 reply in
           if \<not> success_status status
           then (Inl (hq_method request @ '' '' @ path @ '': HTTP '' @ int_str status @ '': '' @ trim_space payload), s1)
           else (Inr payload, s1)))"

definition mlflow_page ::
    "'s mlflow_client \<Rightarrow> (string \<Rightarrow> string + 'a list \<times> string) \<Rightarrow> string \<Rightarrow> str_map \<Rightarrow> string \<Rightarrow> 's
       \<Rightarrow> (string + 'a list \<times> string) \<times> 's"
where
  "mlflow_page F decode path query token s =
     (case mlflow_do F path
             \<lparr>hq_method = ''GET'',
              hq_url = with_query (fc_base F @ path) (query @ (if token = [] then [] else [(''page_token'', token)])),
              hq_headers = [(''Accept'', ''application/json'')] @ bearer (fc_token F), hq_body = None\<rparr> s of
        (Inl e, s1) \<Rightarrow> (Inl e, s1)
      | (Inr payload, s1) \<Rightarrow>
          (case decode payload of
             Inl e \<Rightarrow> (Inl (''decode '' @ path @ '': '' @ e), s1)
           | Inr page \<Rightarrow> (Inr page, s1)))"

text \<open>The loops over pages, which only the server's last token ends.\<close>

partial_function (option) mlflow_pages ::
    "(string \<Rightarrow> 's \<Rightarrow> ('e + 'a list \<times> string) \<times> 's) \<Rightarrow> 'a list \<Rightarrow> string \<Rightarrow> 's \<Rightarrow> (('e + 'a list) \<times> 's) option"
where
  "mlflow_pages get all token s =
     (case get token s of
        (Inl e, s1) \<Rightarrow> Some (Inl e, s1)
      | (Inr (items, nxt), s1) \<Rightarrow>
          if nxt = [] then Some (Inr (all @ items), s1) else mlflow_pages get (all @ items) nxt s1)"

lemma mlflow_pages_code [code]:
  "mlflow_pages get all token s =
     (case get token s of
        (Inl e, s1) \<Rightarrow> Some (Inl e, s1)
      | (Inr (items, nxt), s1) \<Rightarrow>
          (case nxt = [] of
             True \<Rightarrow> Some (Inr (all @ items), s1) | False \<Rightarrow> mlflow_pages get (all @ items) nxt s1))"
  by (subst mlflow_pages.simps) (auto split: prod.split sum.split bool.split)

definition search_registered_models :: "'s mlflow_client \<Rightarrow> 's \<Rightarrow> ((string + string list) \<times> 's) option" where
  "search_registered_models F s =
     (case mlflow_pages (mlflow_page F (fc_models F) ''/api/2.0/mlflow/registered-models/search''
             [(''max_results'', ''200'')]) [] [] s of
        None \<Rightarrow> None
      | Some (Inl e, s1) \<Rightarrow> Some (Inl (''search registered models: '' @ e), s1)
      | Some (Inr ms, s1) \<Rightarrow> Some (Inr ms, s1))"

definition mlflow_filter :: "string \<Rightarrow> string" where
  "mlflow_filter name =
     ''name='' @ [CHR 0x27] @
     concat (map (\<lambda>c. if c = CHR 0x27 then [backslash_char, c] else [c]) name) @ [CHR 0x27]"

definition search_model_versions :: "'s mlflow_client \<Rightarrow> string \<Rightarrow> 's \<Rightarrow> ((string + mlflow_version list) \<times> 's) option" where
  "search_model_versions F name s =
     mlflow_pages (mlflow_page F (fc_versions F) ''/api/2.0/mlflow/model-versions/search''
       [(''filter'', mlflow_filter name), (''max_results'', ''200'')]) [] [] s"

definition resolvable_uri :: "'s mlflow_client \<Rightarrow> string \<Rightarrow> string" where
  "resolvable_uri F source = (case fc_rewrite F source (fc_base F) of Some u \<Rightarrow> u | None \<Rightarrow> source)"

definition mlflow_version_of :: "'s mlflow_client \<Rightarrow> mlflow_version \<Rightarrow> model_version" where
  "mlflow_version_of F v =
     \<lparr>mv_model = fv_name v, mv_version = fv_version v, mv_id = fv_version v,
      mv_artifact = \<lparr>ar_uri = resolvable_uri F (fv_source v), ar_digest = [], ar_media_type = [], ar_format = [],
        ar_size = None\<rparr>,
      mv_labels = [(''mlflow.run_id'', fv_run v), (''mlflow.stage'', fv_stage v)]\<rparr>"

fun mlflow_versions_of ::
    "'s mlflow_client \<Rightarrow> string list \<Rightarrow> model_version list \<Rightarrow> 's \<Rightarrow> ((string + model_version list) \<times> 's) option"
where
  "mlflow_versions_of F [] found s = Some (Inr found, s)"
| "mlflow_versions_of F (m # ms) found s =
     (case search_model_versions F m s of
        None \<Rightarrow> None
      | Some (Inl e, s1) \<Rightarrow> Some (Inl (''list versions of '' @ quote m @ '': '' @ e), s1)
      | Some (Inr vs, s1) \<Rightarrow> mlflow_versions_of F ms (found @ map (mlflow_version_of F) vs) s1)"

definition mlflow_list :: "'s mlflow_client \<Rightarrow> 's \<Rightarrow> ((string + model_version list) \<times> 's) option" where
  "mlflow_list F s =
     (case search_registered_models F s of
        None \<Rightarrow> None
      | Some (Inl e, s1) \<Rightarrow> Some (Inl e, s1)
      | Some (Inr ms, s1) \<Rightarrow> mlflow_versions_of F ms [] s1)"

definition set_model_version_tag ::
    "'s mlflow_client \<Rightarrow> string \<Rightarrow> string \<Rightarrow> string \<Rightarrow> string \<Rightarrow> 's \<Rightarrow> string option \<times> 's" where
  "set_model_version_tag F name version key val s =
     (let path = ''/api/2.0/mlflow/model-versions/set-tag'' in
      case mlflow_do F path
             \<lparr>hq_method = ''POST'', hq_url = fc_base F @ path,
              hq_headers = [(''Content-Type'', ''application/json''), (''Accept'', ''application/json'')] @
                bearer (fc_token F),
              hq_body = Some (fc_encode F [(''name'', name), (''version'', version), (''key'', key), (''value'', val)])\<rparr> s
      of (Inl e, s1) \<Rightarrow> (Some e, s1) | (Inr payload, s1) \<Rightarrow> (None, s1))"

definition verdict_tags :: "source_verdict \<Rightarrow> str_map" where
  "verdict_tags x =
     [(''cupel.verdict'', or_unknown (sv_verdict x)), (''cupel.risk_score'', int_str (sint (sv_risk x)))]
     @ (if sv_malware x \<noteq> [] then [(''cupel.malware'', sv_malware x)] else [])
     @ (if sv_secrets x \<noteq> [] then [(''cupel.secrets'', sv_secrets x)] else [])
     @ (if sv_time x \<noteq> zero_time then [(''cupel.scan_time'', rfc3339 (unix_sec (sv_time x)))] else [])
     @ (if sv_report x \<noteq> [] then [(''cupel.report'', sv_report x)] else [])"

text \<open>Ranging over the map of tags: in the order \<open>fc_order\<close> gives, up to the first failure.\<close>

fun set_tags :: "'s mlflow_client \<Rightarrow> model_version \<Rightarrow> str_map \<Rightarrow> 's \<Rightarrow> string option \<times> 's" where
  "set_tags F v [] s = (None, s)"
| "set_tags F v (t # ts) s =
     (case set_model_version_tag F (mv_model v) (mv_version v) (fst t) (snd t) s of
        (Some e, s1) \<Rightarrow>
          (Some (''set tag '' @ quote (fst t) @ '' on '' @ mv_model v @ ''/'' @ mv_version v @ '': '' @ e), s1)
      | (None, s1) \<Rightarrow> set_tags F v ts s1)"

definition mlflow_write_back :: "'s mlflow_client \<Rightarrow> model_version \<Rightarrow> source_verdict \<Rightarrow> 's \<Rightarrow> string option \<times> 's" where
  "mlflow_write_back F v x s = set_tags F v (fc_order F s (verdict_tags x)) s"

definition mlflow_source :: "'s mlflow_client \<Rightarrow> 's model_source" where
  "mlflow_source F = \<lparr>so_name = ''mlflow'', so_list = mlflow_list F, so_write_back = mlflow_write_back F\<rparr>"

section \<open>When listings end\<close>

text \<open>
  The pages a server shows a client that follows its tokens: all but the last name a next page and hold
  something.
\<close>

inductive shows_pages ::
    "(string \<Rightarrow> 's \<Rightarrow> ('e + 'a list \<times> string) \<times> 's) \<Rightarrow> string \<Rightarrow> 's \<Rightarrow> 'a list list \<Rightarrow> 's \<Rightarrow> bool"
  for get
where
  Last: "get token s = (Inr (items, []), s') \<Longrightarrow> shows_pages get token s [items] s'"
| More: "get token s = (Inr (items, nxt), s1) \<Longrightarrow> nxt \<noteq> [] \<Longrightarrow> items \<noteq> [] \<Longrightarrow> shows_pages get nxt s1 pages s' \<Longrightarrow>
    shows_pages get token s (items # pages) s'"

lemma paginate_pages:
  "shows_pages get token s pages s' \<Longrightarrow> paginate get all token s = Some (Inr (all @ concat pages), s')"
  by (induction arbitrary: all rule: shows_pages.induct) (simp_all add: paginate.simps)

lemma mlflow_pages_pages:
  "shows_pages get token s pages s' \<Longrightarrow> mlflow_pages get all token s = Some (Inr (all @ concat pages), s')"
  by (induction arbitrary: all rule: shows_pages.induct) (simp_all add: mlflow_pages.simps)

lemma mlflow_pages_stuck:
  fixes get :: "string \<Rightarrow> 'b \<Rightarrow> ('a + 'c list \<times> string) \<times> 'b"
  assumes "\<forall>token s. \<exists>items nxt s1. get token s = (Inr (items, nxt), s1) \<and> nxt \<noteq> []"
  shows "mlflow_pages get all token s = None"
proof -
  have "g \<noteq> get" if "mlflow_pages g a t u = Some r" for g a t u r
  proof (rule mlflow_pages.raw_induct [of "\<lambda>g a t u r. g \<noteq> get", OF _ that])
    fix rec :: "(string \<Rightarrow> 'b \<Rightarrow> ('a + 'c list \<times> string) \<times> 'b) \<Rightarrow> 'c list \<Rightarrow> string \<Rightarrow> 'b \<Rightarrow> (('a + 'c list) \<times> 'b) option"
    fix g a t u r
    assume rec: "\<And>g a t u r. rec g a t u = Some r \<Longrightarrow> g \<noteq> get"
      and step: "(case g t u of (Inl e, s1) \<Rightarrow> Some (Inl e, s1)
        | (Inr (items, nxt), s1) \<Rightarrow> if nxt = [] then Some (Inr (a @ items), s1) else rec g (a @ items) nxt s1) = Some r"
    show "g \<noteq> get"
    proof
      assume g: "g = get"
      obtain items nxt s1 where "get t u = (Inr (items, nxt), s1)" "nxt \<noteq> []" using assms by blast
      then have "rec g (a @ items) nxt s1 = Some r" using step g by simp
      then show False using rec g by blast
    qed
  qed
  then have "mlflow_pages get all token s \<noteq> Some r" for r by blast
  then show ?thesis by (metis not_None_eq)
qed

end
