(* ===== verification/Source_Sync.thy ===== *)
theory Source_Sync
  imports Artifact_Scan Glob Model_Source
begin

text \<open>
  The connector controller (\<open>modelregistryconnector_controller.go\<close>, \<open>source_sync.go\<close>): it lists the model
  versions a source holds, makes sure each has a scan, starts a new one when the last is too old, and
  writes verdicts back.  Building the two HTTP clients and setting the owner of a new scan are
  parameters; conditions, metrics and logging are not modelled.
\<close>

section \<open>Connectors\<close>

record connector_spec =
  cs_type :: string
  cs_rescan :: "duration option"
  cs_url :: string
  cs_models :: "declared_model list"
  cs_auth :: "secret_key_ref option"
  cs_insecure :: bool
  cs_poll :: "duration option"
  cs_policy :: string
  cs_include :: "string list"
  cs_write_back :: "bool option"

record connector_status =
  ct_phase :: string
  ct_message :: string
  ct_last_sync :: "go_time option"
  ct_registered :: int32
  ct_versions :: int32
  ct_scans :: int32

record model_connector =
  mc_meta :: object_meta
  mc_spec :: connector_spec
  mc_status :: connector_status

record 's connector_ctl =
  cn_connectors :: "('s, model_connector) kclient"
  cn_scans :: "('s, artifact_scan) kclient"
  cn_reports :: "('s, model_report) kclient"
  cn_secrets :: "('s, str_map) kclient"
  cn_mlflow :: "string \<Rightarrow> string \<Rightarrow> 's model_source"
  cn_registry :: "string \<Rightarrow> string \<Rightarrow> bool \<Rightarrow> 's model_source"
  cn_own :: "model_connector \<Rightarrow> artifact_scan \<Rightarrow> string + artifact_scan"
  cn_now :: "'s \<Rightarrow> go_time \<times> 's"
  cn_digest :: hex_digest
  cn_kerr_str :: "kerr \<Rightarrow> string"

definition trigger_registry :: string where "trigger_registry = ''Registry''"
definition trigger_periodic :: string where "trigger_periodic = ''Periodic''"
definition source_kubeflow :: string where "source_kubeflow = ''KubeflowModelRegistry''"
definition source_mlflow :: string where "source_mlflow = ''MLflow''"
definition source_declared :: string where "source_declared = ''Declared''"
definition label_connector :: string where "label_connector = ''security.davano.io/connector''"
definition label_trigger :: string where "label_trigger = ''security.davano.io/trigger''"

definition or_default :: "string \<Rightarrow> string \<Rightarrow> string" where
  "or_default v fallback = (if v = [] then fallback else v)"

definition source_for :: "'s connector_ctl \<Rightarrow> model_connector \<Rightarrow> string \<Rightarrow> string + 's model_source" where
  "source_for C conn token =
     (let sp = mc_spec conn; ty = cs_type sp in
      if ty \<noteq> source_declared \<and> cs_url sp = []
      then Inl (''connector type '' @ quote (or_default ty source_kubeflow) @ '' requires spec.registryURL'')
      else if ty = source_mlflow then Inr (cn_mlflow C (cs_url sp) token)
      else if ty = source_declared then Inr (declared_source (cs_models sp))
      else if ty = [] \<or> ty = source_kubeflow then Inr (cn_registry C (cs_url sp) token (cs_insecure sp))
      else Inl (''unknown connector type '' @ quote ty @ ''; want '' @ source_kubeflow @ '', '' @ source_mlflow @
             '', or '' @ source_declared))"

definition resolve_token :: "'s connector_ctl \<Rightarrow> model_connector \<Rightarrow> 's \<Rightarrow> (string + string) \<times> 's" where
  "resolve_token C conn s =
     (case cs_auth (mc_spec conn) of
        None \<Rightarrow> (Inr [], s)
      | Some ref \<Rightarrow>
          if skr_name ref = [] then (Inr [], s)
          else
            (case k_get (cn_secrets C) (om_namespace (mc_meta conn), skr_name ref) s of
               (Inl e, s1) \<Rightarrow> (Inl (''read auth secret '' @ skr_name ref @ '': '' @ cn_kerr_str C e), s1)
             | (Inr (secret, rv), s1) \<Rightarrow>
                 (let key = (if skr_key ref = [] then ''token'' else skr_key ref) in
                  case map_of secret key of
                    None \<Rightarrow> (Inl (''auth secret '' @ skr_name ref @ '' has no key '' @ quote key), s1)
                  | Some v \<Rightarrow> (Inr (trim_space v), s1))))"

section \<open>When to scan again\<close>

definition finish_time :: "artifact_scan \<Rightarrow> go_time option" where
  "finish_time scan =
     (case st_completed (as_status scan) of Some t \<Rightarrow> Some t | None \<Rightarrow> st_started (as_status scan))"

definition finished_after :: "artifact_scan \<Rightarrow> artifact_scan \<Rightarrow> bool" where
  "finished_after a b =
     (case finish_time a of
        None \<Rightarrow> False
      | Some ta \<Rightarrow> (case finish_time b of None \<Rightarrow> True | Some tb \<Rightarrow> ta > tb))"

definition is_finished :: "artifact_scan \<Rightarrow> bool" where
  "is_finished scan \<longleftrightarrow> st_phase (as_status scan) = ''Completed'' \<or> st_phase (as_status scan) = ''Failed''"

text \<open>The loop of \<open>latestScanFor\<close>: a scan still open gives none at all.\<close>

fun latest_of :: "string \<Rightarrow> artifact_scan list \<Rightarrow> artifact_scan option \<Rightarrow> artifact_scan option" where
  "latest_of version [] latest = latest"
| "latest_of version (scan # rest) latest =
     (if ss_version (as_spec scan) \<noteq> version then latest_of version rest latest
      else if \<not> is_finished scan then None
      else latest_of version rest
             (case latest of
                None \<Rightarrow> Some scan
              | Some l \<Rightarrow> if finished_after scan l then Some scan else latest))"

definition latest_scan_for ::
    "'s connector_ctl \<Rightarrow> model_connector \<Rightarrow> model_version \<Rightarrow> 's \<Rightarrow> (kerr + artifact_scan option) \<times> 's" where
  "latest_scan_for C conn v s =
     (case list_plain (cn_scans C) (om_namespace (mc_meta conn)) s of
        (Inl e, s1) \<Rightarrow> (Inl e, s1)
      | (Inr xs, s1) \<Rightarrow>
          (let labelled = filter (\<lambda>scan.
                 map_of (om_labels (as_meta scan)) label_connector = Some (om_name (mc_meta conn)) \<and>
                 map_of (om_labels (as_meta scan)) label_model = Some (sanitize_label (mv_model v))) (map snd xs)
           in (Inr (latest_of (mv_version v) labelled None), s1)))"

definition rescan_due :: "'s connector_ctl \<Rightarrow> artifact_scan option \<Rightarrow> duration option \<Rightarrow> 's \<Rightarrow> bool \<times> 's" where
  "rescan_due C scan interval s =
     (case interval of
        None \<Rightarrow> (False, s)
      | Some d \<Rightarrow>
          if d \<le> 0 then (False, s)
          else
            (case scan of
               None \<Rightarrow> (False, s)
             | Some x \<Rightarrow>
                 if \<not> is_finished x then (False, s)
                 else
                   (case finish_time x of
                      None \<Rightarrow> (False, s)
                    | Some last_time \<Rightarrow> (case cn_now C s of (now, s1) \<Rightarrow> (\<not> time_sub now last_time < d, s1)))))"

text \<open>\<open>time.Now().UTC().Format("20060102-1504")\<close>.\<close>

definition minute_stamp :: "go_time \<Rightarrow> string" where
  "minute_stamp t =
     (let s = unix_sec t; sod = s mod 86400 in
      case civil_of_days (s div 86400) of (y, m, d) \<Rightarrow>
        year_str y @ two_digits m @ two_digits d @ ''-'' @ two_digits (sod div 3600) @ two_digits (sod div 60 mod 60))"

section \<open>One pass over a source\<close>

definition new_scan_for ::
    "'s model_source \<Rightarrow> model_connector \<Rightarrow> model_version \<Rightarrow> string \<Rightarrow> string \<Rightarrow> artifact_scan" where
  "new_scan_for src conn v name trigger =
     \<lparr>as_meta = \<lparr>om_name = name, om_namespace = om_namespace (mc_meta conn), om_uid = [],
        om_labels = [(label_connector, om_name (mc_meta conn)), (label_managed_by, manager_name),
          (label_trigger, trigger), (label_model, sanitize_label (mv_model v))],
        om_annotations = [], om_owner = None, om_created = 0, om_deleted = None\<rparr>,
      as_spec = \<lparr>ss_model = mv_model v, ss_version = mv_version v, ss_registry_model = [], ss_registry_version = [],
        ss_connector = om_name (mc_meta conn), ss_artifact = mv_artifact v, ss_policy_ref = cs_policy (mc_spec conn),
        ss_scanners = [], ss_trigger = trigger,
        ss_triggered_by = so_name src @ ''/'' @ om_name (mc_meta conn)\<rparr>,
      as_status = \<lparr>st_phase = [], st_started = None, st_completed = None, st_results = [], st_risk = None,
        st_verdict = [], st_message = [], st_digest = []\<rparr>\<rparr>"

datatype synced = SkippedVersion | CreatedScan | FailedVersion

definition create_scan ::
    "'s connector_ctl \<Rightarrow> model_connector \<Rightarrow> 's model_source \<Rightarrow> model_version \<Rightarrow> string \<Rightarrow> string \<Rightarrow> 's \<Rightarrow> synced \<times> 's" where
  "create_scan C conn src v name trigger s =
     (case cn_own C conn (new_scan_for src conn v name trigger) of
        Inl e \<Rightarrow> (FailedVersion, s)
      | Inr scan \<Rightarrow>
          (case k_create (cn_scans C) (om_namespace (mc_meta conn), name) scan s of
             (Some e, s1) \<Rightarrow> (if e = AlreadyExists then SkippedVersion else FailedVersion, s1)
           | (None, s1) \<Rightarrow> (CreatedScan, s1)))"

definition sync_version ::
    "'s connector_ctl \<Rightarrow> model_connector \<Rightarrow> 's model_source \<Rightarrow> model_version \<Rightarrow> 's \<Rightarrow> synced \<times> 's" where
  "sync_version C conn src v s =
     (let name = scan_name (cn_digest C) (mv_model v) (mv_version v) [] in
      case k_get (cn_scans C) (om_namespace (mc_meta conn), name) s of
        (Inl e, s1) \<Rightarrow>
          (if e = NotFound then create_scan C conn src v name trigger_registry s1 else (FailedVersion, s1))
      | (Inr x, s1) \<Rightarrow>
          (case latest_scan_for C conn v s1 of
             (Inl e, s2) \<Rightarrow> (FailedVersion, s2)
           | (Inr latest, s2) \<Rightarrow>
               (case rescan_due C latest (cs_rescan (mc_spec conn)) s2 of
                  (False, s3) \<Rightarrow> (SkippedVersion, s3)
                | (True, s3) \<Rightarrow>
                    (case cn_now C s3 of (now, s4) \<Rightarrow>
                       create_scan C conn src v
                         (scan_name (cn_digest C) (mv_model v) (mv_version v) (minute_stamp now)) trigger_periodic s4))))"

text \<open>The counters: versions seen, scans created, failures.\<close>

fun sync_versions ::
    "'s connector_ctl \<Rightarrow> model_connector \<Rightarrow> 's model_source \<Rightarrow> model_version list \<Rightarrow> nat \<times> nat \<times> nat \<Rightarrow> 's
       \<Rightarrow> (nat \<times> nat \<times> nat) \<times> 's"
where
  "sync_versions C conn src [] n s = (n, s)"
| "sync_versions C conn src (v # vs) n s =
     (if \<not> matches_include_list (mv_model v) (cs_include (mc_spec conn)) then sync_versions C conn src vs n s
      else
        (case n of (versions, created, failures) \<Rightarrow>
         case sync_version C conn src v s of
           (SkippedVersion, s1) \<Rightarrow> sync_versions C conn src vs (Suc versions, created, failures) s1
         | (CreatedScan, s1) \<Rightarrow> sync_versions C conn src vs (Suc versions, Suc created, failures) s1
         | (FailedVersion, s1) \<Rightarrow> sync_versions C conn src vs (Suc versions, created, Suc failures) s1))"

definition write_verdict_back ::
    "'s connector_ctl \<Rightarrow> model_connector \<Rightarrow> 's model_source \<Rightarrow> model_version \<Rightarrow> 's \<Rightarrow> bool \<times> 's" where
  "write_verdict_back C conn src v s =
     (case k_get (cn_reports C)
             (om_namespace (mc_meta conn), model_report_name (cn_digest C) (mv_model v) (mv_version v)) s of
        (Inl e, s1) \<Rightarrow> (e = NotFound, s1)
      | (Inr (report, rv), s1) \<Rightarrow>
          (case rt_last_scan (mr_status report) of
             None \<Rightarrow> (True, s1)
           | Some t \<Rightarrow>
               (case so_write_back src v
                       \<lparr>sv_verdict = rt_verdict (mr_status report), sv_risk = rt_risk (mr_status report),
                        sv_malware = rt_malware (mr_status report), sv_secrets = rt_secrets (mr_status report),
                        sv_time = t, sv_report = om_namespace (mr_meta report) @ ''/'' @ om_name (mr_meta report)\<rparr> s1 of
                  (err, s2) \<Rightarrow> (err = None, s2))))"

fun write_back_all ::
    "'s connector_ctl \<Rightarrow> model_connector \<Rightarrow> 's model_source \<Rightarrow> model_version list \<Rightarrow> nat \<Rightarrow> 's \<Rightarrow> nat \<times> 's"
where
  "write_back_all C conn src [] failures s = (failures, s)"
| "write_back_all C conn src (v # vs) failures s =
     (if \<not> matches_include_list (mv_model v) (cs_include (mc_spec conn))
      then write_back_all C conn src vs failures s
      else
        (case write_verdict_back C conn src v s of
           (ok, s1) \<Rightarrow> write_back_all C conn src vs (if ok then failures else Suc failures) s1))"

definition sync_source ::
    "'s connector_ctl \<Rightarrow> model_connector \<Rightarrow> 's model_source \<Rightarrow> 's \<Rightarrow> ((string + nat \<times> nat \<times> nat) \<times> 's) option" where
  "sync_source C conn src s =
     (case so_list src s of
        None \<Rightarrow> None
      | Some (Inl e, s1) \<Rightarrow> Some (Inl e, s1)
      | Some (Inr vs, s1) \<Rightarrow>
          (case sync_versions C conn src vs (0, 0, 0) s1 of
             ((versions, created, failures), s2) \<Rightarrow>
               (if cs_write_back (mc_spec conn) = Some False then Some (Inr (versions, created, failures), s2)
                else (case write_back_all C conn src vs failures s2 of
                        (failures', s3) \<Rightarrow> Some (Inr (versions, created, failures'), s3)))))"

section \<open>Reconciling a connector\<close>

definition default_poll_interval :: duration where "default_poll_interval = minute"

definition poll_interval :: "model_connector \<Rightarrow> duration" where
  "poll_interval conn =
     (case cs_poll (mc_spec conn) of Some d \<Rightarrow> if d > 0 then d else default_poll_interval | None \<Rightarrow> default_poll_interval)"

definition put_status ::
    "'s connector_ctl \<Rightarrow> okey \<Rightarrow> model_connector \<Rightarrow> nat \<Rightarrow> 's \<Rightarrow> kerr reconciled \<times> 's" where
  "put_status C key conn rv s =
     (case k_update (cn_connectors C) key (conn, rv) s of
        (Some e, s1) \<Rightarrow> (Failing e, s1)
      | (None, s1) \<Rightarrow> (RequeueAfter (poll_interval conn), s1))"

definition degrade :: "'s connector_ctl \<Rightarrow> okey \<Rightarrow> model_connector \<Rightarrow> nat \<Rightarrow> string \<Rightarrow> 's \<Rightarrow> kerr reconciled \<times> 's" where
  "degrade C key conn rv msg s =
     put_status C key (conn\<lparr>mc_status := (mc_status conn)\<lparr>ct_phase := ''Degraded'', ct_message := msg\<rparr>\<rparr>) rv s"

definition connector_synced :: "go_time \<Rightarrow> nat \<times> nat \<times> nat \<Rightarrow> model_connector \<Rightarrow> model_connector" where
  "connector_synced now n conn =
     (case n of (versions, created, failures) \<Rightarrow>
        conn\<lparr>mc_status := (mc_status conn)\<lparr>
          ct_last_sync := Some now, ct_versions := of_nat versions,
          ct_scans := ct_scans (mc_status conn) + of_nat created,
          ct_phase := (if failures > 0 then ''Degraded'' else ''Connected''),
          ct_message := (if failures > 0 then nat_str failures @ '' model(s) failed to sync; see operator logs''
                         else [])\<rparr>\<rparr>)"

definition connector_reconcile :: "'s connector_ctl \<Rightarrow> okey \<Rightarrow> 's \<Rightarrow> (kerr reconciled \<times> 's) option" where
  "connector_reconcile C key s =
     (case k_get (cn_connectors C) key s of
        (Inl e, s1) \<Rightarrow> Some (ignore_not_found e, s1)
      | (Inr (conn, rv), s1) \<Rightarrow>
          (if om_deleted (mc_meta conn) \<noteq> None then Some (Done, s1)
           else
             (case resolve_token C conn s1 of
                (Inl e, s2) \<Rightarrow> Some (degrade C key conn rv e s2)
              | (Inr token, s2) \<Rightarrow>
                  (case source_for C conn token of
                     Inl e \<Rightarrow> Some (degrade C key conn rv e s2)
                   | Inr src \<Rightarrow>
                       (case sync_source C conn src s2 of
                          None \<Rightarrow> None
                        | Some (Inl e, s3) \<Rightarrow> Some (degrade C key conn rv e s3)
                        | Some (Inr n, s3) \<Rightarrow>
                            (case cn_now C s3 of (now, s4) \<Rightarrow>
                               Some (put_status C key (connector_synced now n conn) rv s4)))))))"

end
