(* ===== verification/Source_Safety.thy ===== *)
theory Source_Safety
  imports Source_Sync
begin

text \<open>
  What the connector controller promises: when it reports a connector as connected, every version its
  source listed has a scan; when a version is scanned again; which versions it leaves out; and when
  a reconcile returns at all.
\<close>

section \<open>What the controller relies on\<close>

definition never_deletes :: "('s \<Rightarrow> 'o view) \<Rightarrow> 's \<Rightarrow> 's \<Rightarrow> bool" where
  "never_deletes vs a b \<longleftrightarrow> (\<forall>k. vs a k \<noteq> None \<longrightarrow> vs b k \<noteq> None)"

definition source_within :: "('s \<Rightarrow> 's \<Rightarrow> bool) \<Rightarrow> 's model_source \<Rightarrow> bool" where
  "source_within env src \<longleftrightarrow>
     (\<forall>s r s'. so_list src s = Some (r, s') \<longrightarrow> env s s') \<and> (\<forall>v x s. env s (snd (so_write_back src v x s)))"

definition connector_world ::
    "('s \<Rightarrow> artifact_scan view) \<Rightarrow> ('s \<Rightarrow> model_connector view) \<Rightarrow> ('s \<Rightarrow> 's \<Rightarrow> bool) \<Rightarrow> 's connector_ctl \<Rightarrow> bool" where
  "connector_world vs vc env C \<longleftrightarrow>
     kclient_ok vs (\<lambda>a b. True) env (cn_scans C) \<and> kclient_ok vc (\<lambda>a b. vs b = vs a) env (cn_connectors C) \<and>
     (\<forall>k s. env s (snd (k_get (cn_reports C) k s))) \<and> (\<forall>k s. env s (snd (k_get (cn_secrets C) k s))) \<and>
     (\<forall>s. env s (snd (cn_now C s))) \<and>
     (\<forall>url token insecure. source_within env (cn_mlflow C url token) \<and> source_within env (cn_registry C url token insecure)) \<and>
     env \<le> never_deletes vs"

lemma kept_refl [simp]: "never_deletes vs s s"
  by (simp add: never_deletes_def)

lemma kept_trans [trans]: "never_deletes vs a b \<Longrightarrow> never_deletes vs b c \<Longrightarrow> never_deletes vs a c"
  by (simp add: never_deletes_def)

lemma kept_stored: "never_deletes vs a b \<Longrightarrow> vs a k \<noteq> None \<Longrightarrow> vs b k \<noteq> None"
  unfolding never_deletes_def by blast

lemma kept_same: "vs b = vs a \<Longrightarrow> never_deletes vs a b"
  by (simp add: never_deletes_def)

lemma connector_worldD:
  assumes "connector_world vs vc env C"
  shows "kclient_ok vs (\<lambda>a b. True) env (cn_scans C)"
    and "kclient_ok vc (\<lambda>a b. vs b = vs a) env (cn_connectors C)"
    and "env a b \<Longrightarrow> never_deletes vs a b"
    and "k_get (cn_reports C) k s = (r, s') \<Longrightarrow> never_deletes vs s s'"
    and "k_get (cn_secrets C) k s = (q, s') \<Longrightarrow> never_deletes vs s s'"
    and "cn_now C s = (now, s') \<Longrightarrow> never_deletes vs s s'"
    and "source_within env (cn_mlflow C url token)" and "source_within env (cn_registry C url token insecure)"
proof -
  note w = assms [unfolded connector_world_def]
  show e: "\<And>a b. env a b \<Longrightarrow> never_deletes vs a b" using w by blast
  show "k_get (cn_reports C) k s = (r, s') \<Longrightarrow> never_deletes vs s s'" using w e by (metis snd_conv)
  show "k_get (cn_secrets C) k s = (q, s') \<Longrightarrow> never_deletes vs s s'" using w e by (metis snd_conv)
  show "cn_now C s = (now, s') \<Longrightarrow> never_deletes vs s s'" using w e by (metis snd_conv)
qed (use assms in \<open>auto simp: connector_world_def\<close>)

lemma source_kept:
  assumes w: "connector_world vs vc env C" and src: "source_for C conn token = Inr src"
  shows "so_list src s = Some (r, s') \<Longrightarrow> never_deletes vs s s'"
    and "so_write_back src v x s = (e, s') \<Longrightarrow> never_deletes vs s s'"
proof -
  have "source_within (never_deletes vs) src"
  proof (cases "src = declared_source (cs_models (mc_spec conn))")
    case True
    then show ?thesis by (auto simp: source_within_def declared_source_def)
  next
    case False
    then have "source_within env src"
      using src connector_worldD(7,8) [OF w] by (auto simp: source_for_def Let_def split: if_splits)
    then show ?thesis unfolding source_within_def using connector_worldD(3) [OF w] by blast
  qed
  then show "so_list src s = Some (r, s') \<Longrightarrow> never_deletes vs s s'"
    "so_write_back src v x s = (e, s') \<Longrightarrow> never_deletes vs s s'"
    unfolding source_within_def by (blast, metis snd_conv)
qed

section \<open>Every listed version has a scan\<close>

definition base_key :: "'s connector_ctl \<Rightarrow> model_connector \<Rightarrow> model_version \<Rightarrow> okey" where
  "base_key C conn v = (om_namespace (mc_meta conn), scan_name (cn_digest C) (mv_model v) (mv_version v) [])"

abbreviation included :: "model_connector \<Rightarrow> model_version \<Rightarrow> bool" where
  "included conn v \<equiv> matches_include_list (mv_model v) (cs_include (mc_spec conn))"

lemma create_scan_kept:
  assumes w: "connector_world vs vc env C" and r: "create_scan C conn src v name trigger s = (r, s')"
  shows "never_deletes vs s s' \<and> (r \<noteq> FailedVersion \<longrightarrow> vs s' (om_namespace (mc_meta conn), name) \<noteq> None)"
proof (cases "cn_own C conn (new_scan_for src conn v name trigger)")
  case (Inl e)
  then show ?thesis using r by (simp add: create_scan_def)
next
  case (Inr scan)
  obtain q s1 where c: "k_create (cn_scans C) (om_namespace (mc_meta conn), name) scan s = (q, s1)" by force
  have s1: "s' = s1" and q: "r \<noteq> FailedVersion \<Longrightarrow> q = None \<or> q = Some AlreadyExists"
    using r Inr c by (auto simp: create_scan_def split: option.splits if_splits)
  note env = connector_worldD(3) [OF w]
  show ?thesis
  proof (rule create_cases [OF connector_worldD(1) [OF w] c])
    fix t rv
    assume "env s t" "vs s1 = (vs t)((om_namespace (mc_meta conn), name) \<mapsto> (scan, rv))"
    then show ?thesis using env [of s t] s1 by (auto simp: never_deletes_def)
  next
    fix t
    assume "env s t" "vs s1 = vs t" "q \<noteq> None" "q = Some AlreadyExists \<Longrightarrow> vs t (om_namespace (mc_meta conn), name) \<noteq> None"
    then show ?thesis using env [of s t] s1 q by (auto simp: never_deletes_def)
  qed
qed

lemma latest_scan_for_kept:
  assumes w: "connector_world vs vc env C" and r: "latest_scan_for C conn v s = (r, s')"
  shows "never_deletes vs s s'"
proof -
  obtain q where "list_plain (cn_scans C) (om_namespace (mc_meta conn)) s = (q, s')"
    using r by (auto simp: latest_scan_for_def Let_def split: prod.splits sum.splits)
  from list_cases(1) [OF connector_worldD(1) [OF w] this] show ?thesis by (rule connector_worldD(3) [OF w])
qed

lemma rescan_due_kept:
  "connector_world vs vc env C \<Longrightarrow> rescan_due C x d s = (r, s') \<Longrightarrow> never_deletes vs s s'"
  by (auto simp: rescan_due_def split: option.splits if_splits prod.splits intro: connector_worldD(6))

lemma sync_version_kept:
  assumes w: "connector_world vs vc env C" and r: "sync_version C conn src v s = (r, s')"
  shows "never_deletes vs s s' \<and> (r \<noteq> FailedVersion \<longrightarrow> vs s' (base_key C conn v) \<noteq> None)"
proof -
  let ?k = "(om_namespace (mc_meta conn), scan_name (cn_digest C) (mv_model v) (mv_version v) [])"
  obtain g s1 where g: "k_get (cn_scans C) ?k s = (g, s1)" by force
  have k1: "never_deletes vs s s1"
    using get_cases(1) [OF connector_worldD(1) [OF w] g] by (rule connector_worldD(3) [OF w])
  show ?thesis
  proof (cases g)
    case (Inl e)
    show ?thesis
    proof (cases "e = NotFound")
      case True
      then have "create_scan C conn src v (snd ?k) trigger_registry s1 = (r, s')"
        using r g Inl by (simp add: sync_version_def Let_def)
      from create_scan_kept [OF w this] show ?thesis using kept_trans [OF k1] by (auto simp: base_key_def)
    next
      case False
      then show ?thesis using r g Inl k1 by (simp add: sync_version_def Let_def)
    qed
  next
    case (Inr x)
    then have base: "vs s1 ?k \<noteq> None" using get_cases(2) [OF connector_worldD(1) [OF w] g] by simp
    obtain l s2 where l: "latest_scan_for C conn v s1 = (l, s2)" by force
    note k2 = latest_scan_for_kept [OF w l]
    have "never_deletes vs s1 s'"
    proof (cases l)
      case (Inl e)
      then show ?thesis using r g Inr l k2 by (simp add: sync_version_def Let_def)
    next
      case latest: (Inr latest)
      obtain due s3 where d: "rescan_due C latest (cs_rescan (mc_spec conn)) s2 = (due, s3)" by force
      note k3 = kept_trans [OF k2 rescan_due_kept [OF w d]]
      show ?thesis
      proof (cases due)
        case False
        then show ?thesis using r g Inr l latest d k3 by (simp add: sync_version_def Let_def)
      next
        case True
        obtain now s4 where n: "cn_now C s3 = (now, s4)" by force
        have "create_scan C conn src v (scan_name (cn_digest C) (mv_model v) (mv_version v) (minute_stamp now))
            trigger_periodic s4 = (r, s')"
          using r g Inr l latest d True n by (simp add: sync_version_def Let_def)
        note k4 = conjunct1 [OF create_scan_kept [OF w this]]
        show ?thesis by (rule kept_trans [OF kept_trans [OF k3 connector_worldD(6) [OF w n]] k4])
      qed
    qed
    note k = this
    have "never_deletes vs s s'" by (rule kept_trans [OF k1 k])
    then show ?thesis using kept_stored [OF k base] by (simp add: base_key_def)
  qed
qed

lemma sync_versions_kept:
  assumes w: "connector_world vs vc env C"
    and r: "sync_versions C conn src vl (a, b, c) s = ((versions, created, failures), s')"
  shows "never_deletes vs s s' \<and> c \<le> failures \<and>
    (failures = c \<longrightarrow> (\<forall>v \<in> set vl. included conn v \<longrightarrow> vs s' (base_key C conn v) \<noteq> None))"
  using r
proof (induction vl arbitrary: a b c s)
  case Nil
  then show ?case by simp
next
  case (Cons v vl)
  show ?case
  proof (cases "included conn v")
    case False
    then have "sync_versions C conn src vl (a, b, c) s = ((versions, created, failures), s')" using Cons.prems by simp
    from Cons.IH [OF this] False show ?thesis by auto
  next
    case True
    obtain q s1 where q: "sync_version C conn src v s = (q, s1)" by force
    define b' c' where "b' = (if q = CreatedScan then Suc b else b)" and "c' = (if q = FailedVersion then Suc c else c)"
    have "sync_versions C conn src vl (Suc a, b', c') s1 = ((versions, created, failures), s')"
      using Cons.prems True q by (cases q) (simp_all add: b'_def c'_def)
    note ih = Cons.IH [OF this]
    note v = sync_version_kept [OF w q]
    have c: "c \<le> c'" "c' = c \<longleftrightarrow> q \<noteq> FailedVersion" by (auto simp: c'_def)
    have le: "c \<le> failures" using c(1) conjunct1 [OF conjunct2 [OF ih]] by simp
    have k: "never_deletes vs s s'" by (rule kept_trans [OF conjunct1 [OF v] conjunct1 [OF ih]])
    have "\<forall>u \<in> set (v # vl). included conn u \<longrightarrow> vs s' (base_key C conn u) \<noteq> None" if f: "failures = c"
    proof -
      have cc: "c' = c" using f c(1) ih by simp
      then have "vs s1 (base_key C conn v) \<noteq> None" using c(2) v by simp
      then have "vs s' (base_key C conn v) \<noteq> None" by (rule kept_stored [OF conjunct1 [OF ih]])
      moreover have "\<forall>u \<in> set vl. included conn u \<longrightarrow> vs s' (base_key C conn u) \<noteq> None"
        using conjunct2 [OF conjunct2 [OF ih]] f cc by simp
      ultimately show ?thesis by simp
    qed
    then show ?thesis using le k by blast
  qed
qed

lemma write_verdict_back_kept:
  assumes w: "connector_world vs vc env C" and src: "source_for C conn token = Inr src"
    and r: "write_verdict_back C conn src v s = (ok, s')"
  shows "never_deletes vs s s'"
proof -
  let ?k = "(om_namespace (mc_meta conn), model_report_name (cn_digest C) (mv_model v) (mv_version v))"
  obtain g s1 where g: "k_get (cn_reports C) ?k s = (g, s1)" by force
  note k1 = connector_worldD(4) [OF w g]
  have "s' = s1 \<or> (\<exists>x e. so_write_back src v x s1 = (e, s'))"
    using r g by (auto simp: write_verdict_back_def split: sum.splits option.splits prod.splits)
  then show ?thesis using k1 kept_trans [OF k1 source_kept(2) [OF w src]] by blast
qed

lemma write_back_all_kept:
  assumes w: "connector_world vs vc env C" and src: "source_for C conn token = Inr src"
    and r: "write_back_all C conn src vl n s = (m, s')"
  shows "never_deletes vs s s' \<and> n \<le> m"
  using r
proof (induction vl arbitrary: n s)
  case Nil
  then show ?case by simp
next
  case (Cons v vl)
  show ?case
  proof (cases "included conn v")
    case False
    then show ?thesis using Cons.IH Cons.prems by simp
  next
    case True
    obtain ok s1 where o: "write_verdict_back C conn src v s = (ok, s1)" by force
    have "write_back_all C conn src vl (if ok then n else Suc n) s1 = (m, s')" using Cons.prems True o by simp
    from Cons.IH [OF this] write_verdict_back_kept [OF w src o] show ?thesis
      using kept_trans by (auto split: if_splits)
  qed
qed

lemma sync_source_covers:
  assumes w: "connector_world vs vc env C" and src: "source_for C conn token = Inr src"
    and r: "sync_source C conn src s = Some (Inr (versions, created, 0), s')"
  shows "\<exists>vl t. so_list src s = Some (Inr vl, t) \<and>
    (\<forall>v \<in> set vl. included conn v \<longrightarrow> vs s' (base_key C conn v) \<noteq> None)"
proof -
  obtain vl t where l: "so_list src s = Some (Inr vl, t)"
    using r by (auto simp: sync_source_def split: option.splits prod.splits sum.splits)
  obtain q s1 where q: "sync_versions C conn src vl (0, 0, 0) t = (q, s1)" by (rule prod.exhaust)
  obtain a b c where "q = (a, b, c)" by (rule prod_cases3)
  note v = q [unfolded this]
  note k = sync_versions_kept [OF w v]
  show ?thesis
  proof (cases "cs_write_back (mc_spec conn) = Some False")
    case True
    then have "c = 0" "s' = s1" using r l v by (simp_all add: sync_source_def)
    then show ?thesis using l k by blast
  next
    case False
    obtain m s2 where b: "write_back_all C conn src vl c s1 = (m, s2)" by force
    have m: "m = 0" "s' = s2" using r l v False b by (simp_all add: sync_source_def)
    then have "c = 0" "never_deletes vs s1 s'" using write_back_all_kept [OF w src b] by auto
    then show ?thesis using l k kept_stored [of vs s1 s'] by blast
  qed
qed

section \<open>Connected means scanned\<close>

lemma put_status_done:
  assumes ok: "kclient_ok vc fr env (cn_connectors C)" and p: "put_status C key conn rv s = (RequeueAfter d, s')"
  shows "\<exists>rv'. vc s' key = Some (conn, rv')"
  using p reply_version(2) [OF ok] by (auto simp: put_status_def split: prod.splits option.splits)

lemma put_status_kept:
  assumes w: "connector_world vs vc env C" and p: "put_status C key conn rv s = (r, s')"
  shows "never_deletes vs s s'"
proof -
  obtain q where u: "k_update (cn_connectors C) key (conn, rv) s = (q, s')"
    using p by (auto simp: put_status_def split: prod.splits option.splits)
  show ?thesis
    by (rule update_cases [OF connector_worldD(2) [OF w] u])
      (metis connector_worldD(3) [OF w] kept_same kept_trans)+
qed

lemma source_for_status [simp]: "source_for C (conn\<lparr>mc_status := x\<rparr>) token = source_for C conn token"
  by (simp add: source_for_def)

text \<open>
  Claim C9. A connector that says it is connected left no version unscanned. Let other clients do
  anything between two calls but delete scans. When a reconcile succeeds and the status it stored says
  \<open>Connected\<close>, the source was listed during it, and for every version of that list whose model is
  included a scan is stored under the name of that model and version.
\<close>

theorem connected_means_scanned:
  assumes w: "connector_world vs vc env C"
    and run: "connector_reconcile C key s = Some (RequeueAfter d, s')"
    and stored: "vc s' key = Some (conn, rv)" and phase: "ct_phase (mc_status conn) = ''Connected''"
  shows "\<exists>token src vl t0 t1. source_for C conn token = Inr src \<and> so_list src t0 = Some (Inr vl, t1) \<and>
    (\<forall>v \<in> set vl. matches_include_list (mv_model v) (cs_include (mc_spec conn)) \<longrightarrow>
       vs s' (om_namespace (mc_meta conn), scan_name (cn_digest C) (mv_model v) (mv_version v) []) \<noteq> None)"
proof -
  note cl = connector_worldD(2) [OF w]
  obtain g s1 where g: "k_get (cn_connectors C) key s = (g, s1)" by (rule prod.exhaust)
  obtain c0 rv0 where c0: "g = Inr (c0, rv0)"
    using run g by (cases g) (auto simp: connector_reconcile_def ignore_not_found_def split: if_splits)
  have live: "om_deleted (mc_meta c0) = None"
    using run g c0 by (auto simp: connector_reconcile_def split: if_splits)
  obtain tk s2 where tk: "resolve_token C c0 s1 = (tk, s2)" by (rule prod.exhaust)
  have no: "degrade C key c0 rv0 e t = (RequeueAfter d, s') \<Longrightarrow> False" for e t
    using put_status_done [OF cl] stored phase by (fastforce simp: degrade_def)
  obtain token where token: "tk = Inr token"
    using run g c0 live tk no by (cases tk) (auto simp: connector_reconcile_def)
  obtain src where src: "source_for C c0 token = Inr src"
    using run g c0 live tk token no by (cases "source_for C c0 token") (auto simp: connector_reconcile_def)
  obtain y s3 where y: "sync_source C c0 src s2 = Some (y, s3)"
    using run g c0 live tk token src by (auto simp: connector_reconcile_def split: option.splits)
  obtain n where n: "y = Inr n"
    using run g c0 live tk token src y no by (cases y) (auto simp: connector_reconcile_def)
  obtain versions created failures where nn: "n = (versions, created, failures)" by (rule prod_cases3)
  obtain now s4 where now: "cn_now C s3 = (now, s4)" by (rule prod.exhaust)
  have put: "put_status C key (connector_synced now n c0) rv0 s4 = (RequeueAfter d, s')"
    using run g c0 live tk token src y n now by (simp add: connector_reconcile_def)
  have conn: "conn = connector_synced now n c0" using put_status_done [OF cl put] stored by simp
  then have same: "failures = 0" "mc_meta conn = mc_meta c0" "mc_spec conn = mc_spec c0"
    "source_for C conn token = Inr src"
    using phase src nn by (auto simp: connector_synced_def split: if_splits)
  obtain vl t where l: "so_list src s2 = Some (Inr vl, t)"
    "\<forall>v \<in> set vl. included c0 v \<longrightarrow> vs s3 (base_key C c0 v) \<noteq> None"
    using sync_source_covers [OF w src] y n nn same(1) by blast
  have k: "never_deletes vs s3 s'"
    by (rule kept_trans [OF connector_worldD(6) [OF w now] put_status_kept [OF w put]])
  have "\<forall>v \<in> set vl. included conn v \<longrightarrow> vs s' (base_key C conn v) \<noteq> None"
    using l(2) kept_stored [OF k] unfolding base_key_def same(2,3) by blast
  then show ?thesis using l(1) same(4) unfolding base_key_def by blast
qed

section \<open>When a version is scanned again\<close>

lemma latest_of_open:
  "x \<in> set xs \<Longrightarrow> ss_version (as_spec x) = ver \<Longrightarrow> \<not> is_finished x \<Longrightarrow> latest_of ver xs l = None"
  by (induction xs arbitrary: l) (auto split: option.splits)

lemma finished_after_simps:
  "finished_after a b \<longleftrightarrow> (\<exists>t. finish_time a = Some t \<and> (\<forall>u. finish_time b = Some u \<longrightarrow> u < t))"
  by (auto simp: finished_after_def split: option.splits)

lemma not_after_trans: "\<not> finished_after a b \<Longrightarrow> \<not> finished_after b c \<Longrightarrow> \<not> finished_after a c"
  by (force simp: finished_after_simps)

text \<open>Of finished scans the loop keeps one that no other finished after.\<close>

lemma latest_of_finished:
  assumes "\<forall>x \<in> set xs. ss_version (as_spec x) = ver \<longrightarrow> is_finished x"
  shows "(latest_of ver xs l = None \<longleftrightarrow> l = None \<and> (\<forall>x \<in> set xs. ss_version (as_spec x) \<noteq> ver)) \<and>
    (\<forall>y. latest_of ver xs l = Some y \<longrightarrow>
       (l = Some y \<or> y \<in> set xs \<and> ss_version (as_spec y) = ver) \<and>
       (\<forall>x. l = Some x \<or> x \<in> set xs \<and> ss_version (as_spec x) = ver \<longrightarrow> \<not> finished_after x y))"
  using assms
proof (induction xs arbitrary: l)
  case Nil
  then show ?case by (auto simp: finished_after_simps)
next
  case (Cons x xs)
  show ?case
  proof (cases "ss_version (as_spec x) = ver")
    case False
    then show ?thesis using Cons by auto
  next
    case True
    define l' where "l' = (case l of None \<Rightarrow> Some x | Some y \<Rightarrow> if finished_after x y then Some x else l)"
    have step: "latest_of ver (x # xs) l = latest_of ver xs l'" using True Cons.prems by (simp add: l'_def)
    have "\<exists>z. l' = Some z \<and> (z = x \<or> l = Some z)" by (cases l) (auto simp: l'_def)
    then obtain z where z: "l' = Some z" "z = x \<or> l = Some z" by blast
    have best: "\<not> finished_after x z" "\<forall>y. l = Some y \<longrightarrow> \<not> finished_after y z"
      using z(1) by (auto simp: l'_def finished_after_simps split: option.splits if_splits)
    note ih = Cons.IH [of l'] Cons.prems
    show ?thesis
    proof (intro conjI allI impI)
      show "latest_of ver (x # xs) l = None \<longleftrightarrow> l = None \<and> (\<forall>x \<in> set (x # xs). ss_version (as_spec x) \<noteq> ver)"
        using ih z(1) True unfolding step by simp
    next
      fix y assume y: "latest_of ver (x # xs) l = Some y"
      then have iy: "l' = Some y \<or> y \<in> set xs \<and> ss_version (as_spec y) = ver"
        "\<forall>x. l' = Some x \<or> x \<in> set xs \<and> ss_version (as_spec x) = ver \<longrightarrow> \<not> finished_after x y"
        using ih unfolding step by simp_all
      show "l = Some y \<or> y \<in> set (x # xs) \<and> ss_version (as_spec y) = ver" using iy(1) z True by auto
      fix w assume "l = Some w \<or> w \<in> set (x # xs) \<and> ss_version (as_spec w) = ver"
      then consider "w = x \<or> l = Some w" | "w \<in> set xs" "ss_version (as_spec w) = ver" by auto
      then show "\<not> finished_after w y"
      proof cases
        case 1
        then have "\<not> finished_after w z" using best by auto
        moreover have "\<not> finished_after z y" using iy(2) z(1) by blast
        ultimately show ?thesis by (rule not_after_trans)
      qed (use iy(2) in blast)
    qed
  qed
qed

lemma time_sub_antimono: "t \<le> u \<Longrightarrow> time_sub now u \<le> time_sub now t"
  by (auto simp: time_sub_def)

text \<open>What the interval means: every scan of the version is over, and the newest ended that long ago.\<close>

definition all_older :: "string \<Rightarrow> duration \<Rightarrow> go_time \<Rightarrow> artifact_scan list \<Rightarrow> bool" where
  "all_older ver d now xs \<longleftrightarrow>
     (\<forall>x \<in> set xs. ss_version (as_spec x) = ver \<longrightarrow> is_finished x) \<and>
     (\<exists>x \<in> set xs. ss_version (as_spec x) = ver \<and> finish_time x \<noteq> None) \<and>
     (\<forall>x \<in> set xs. \<forall>t. ss_version (as_spec x) = ver \<and> finish_time x = Some t \<longrightarrow> d \<le> time_sub now t)"

text \<open>
  Claim C10. A version is scanned again exactly when its interval has passed. Given the scans of a
  model, in whatever order the API server lists them, the controller finds a rescan due if and only if the
  connector has a positive interval, no scan of the version is still open, at least one ended, and each
  that ended did so at least the interval ago by the clock it reads.
\<close>

theorem rescan_due_iff:
  "fst (rescan_due C (latest_of ver xs None) interval s) \<longleftrightarrow>
     (\<exists>d > 0. interval = Some d \<and> all_older ver d (fst (cn_now C s)) xs)"
proof (cases "\<forall>x \<in> set xs. ss_version (as_spec x) = ver \<longrightarrow> is_finished x")
  case False
  then obtain x where "x \<in> set xs" "ss_version (as_spec x) = ver" "\<not> is_finished x" by blast
  then have "latest_of ver xs None = None" by (rule latest_of_open)
  moreover have "\<not> all_older ver d now xs" for d now using False by (simp add: all_older_def)
  ultimately show ?thesis by (simp add: rescan_due_def split: option.splits)
next
  case True
  note f = latest_of_finished [OF True, of None, simplified]
  obtain now s1 where now: "cn_now C s = (now, s1)" by (rule prod.exhaust)
  show ?thesis
  proof (cases "latest_of ver xs None")
    case None
    then show ?thesis using f by (auto simp: rescan_due_def all_older_def split: option.splits)
  next
    case (Some y)
    then have y: "y \<in> set xs" "ss_version (as_spec y) = ver"
      "\<And>x. x \<in> set xs \<Longrightarrow> ss_version (as_spec x) = ver \<Longrightarrow> \<not> finished_after x y" using f by auto
    then have fin: "is_finished y" using True by blast
    show ?thesis
    proof (cases "finish_time y")
      case None
      then have "finish_time x = None" if "x \<in> set xs" "ss_version (as_spec x) = ver" for x
        using y(3) [OF that] by (cases "finish_time x") (auto simp: finished_after_simps)
      then show ?thesis using Some None fin by (auto simp: rescan_due_def all_older_def split: option.splits)
    next
      case t: (Some t)
      have older: "u \<le> t" if "x \<in> set xs" "ss_version (as_spec x) = ver" "finish_time x = Some u" for x u
        using y(3) [OF that(1,2)] that(3) t by (auto simp: finished_after_simps)
      have ended: "\<exists>x \<in> set xs. ss_version (as_spec x) = ver \<and> finish_time x \<noteq> None" using y(1,2) t by blast
      have "(\<forall>x \<in> set xs. \<forall>u. ss_version (as_spec x) = ver \<and> finish_time x = Some u \<longrightarrow> d \<le> time_sub now u)
          \<longleftrightarrow> d \<le> time_sub now t" for d
      proof
        assume "d \<le> time_sub now t"
        then show "\<forall>x \<in> set xs. \<forall>u. ss_version (as_spec x) = ver \<and> finish_time x = Some u \<longrightarrow> d \<le> time_sub now u"
          using order.trans [OF _ time_sub_antimono [OF older]] by blast
      qed (use y(1,2) t in blast)
      note age = this
      have "all_older ver d now xs \<longleftrightarrow> d \<le> time_sub now t" for d
        unfolding all_older_def age by (rule iffI, elim conjE, assumption, intro conjI, rule True, rule ended, assumption)
      then have old: "all_older ver d (fst (cn_now C s)) xs \<longleftrightarrow> \<not> time_sub now t < d" for d
        by (simp only: now fst_conv not_less)
      show ?thesis
      proof (cases interval)
        case None
        then show ?thesis by (simp add: rescan_due_def)
      next
        case i: (Some d)
        show ?thesis using fin t now old [of d] by (simp add: rescan_due_def Some i not_le)
      qed
    qed
  qed
qed

section \<open>Versions left out\<close>

lemma open_scan_skips:
  assumes base: "k_get (cn_scans C) (base_key C conn v) s = (Inr x, s1)"
    and listed: "list_plain (cn_scans C) (om_namespace (mc_meta conn)) s1 = (Inr xs, s2)" "(n, scan) \<in> set xs"
    and labels: "map_of (om_labels (as_meta scan)) label_connector = Some (om_name (mc_meta conn))"
      "map_of (om_labels (as_meta scan)) label_model = Some (sanitize_label (mv_model v))"
    and ver: "ss_version (as_spec scan) = mv_version v" and busy: "\<not> is_finished scan"
  shows "sync_version C conn src v s = (SkippedVersion, s2)"
proof -
  have "scan \<in> set (filter (\<lambda>scan. map_of (om_labels (as_meta scan)) label_connector = Some (om_name (mc_meta conn)) \<and>
      map_of (om_labels (as_meta scan)) label_model = Some (sanitize_label (mv_model v))) (map snd xs))"
    using listed(2) labels by (force simp: image_iff)
  from latest_of_open [OF this ver busy] have "latest_scan_for C conn v s1 = (Inr None, s2)"
    using listed(1) by (simp add: latest_scan_for_def Let_def)
  moreover have "rescan_due C None (cs_rescan (mc_spec conn)) s2 = (False, s2)"
    by (simp add: rescan_due_def split: option.splits)
  ultimately show ?thesis using base by (simp add: sync_version_def Let_def base_key_def)
qed

text \<open>
  The scan of one model can hold back another. Scans are looked up by the label of the model,
  which is not its name: when any scan under this connector that carries the same label and the same
  version is still open, whatever model it is of, a version that was scanned before is not scanned
  again, however old its verdict is.
\<close>

theorem other_model_blocks_rescan:
  assumes "k_get (cn_scans C) (om_namespace (mc_meta conn), scan_name (cn_digest C) (mv_model v) (mv_version v) []) s
      = (Inr x, s1)"
    and "list_plain (cn_scans C) (om_namespace (mc_meta conn)) s1 = (Inr xs, s2)" and "(n, scan) \<in> set xs"
    and "map_of (om_labels (as_meta scan)) label_connector = Some (om_name (mc_meta conn))"
    and "map_of (om_labels (as_meta scan)) label_model = Some (sanitize_label (mv_model v))"
    and "ss_version (as_spec scan) = mv_version v" and "\<not> is_finished scan"
  shows "sync_version C conn src v s = (SkippedVersion, s2)"
  by (rule open_scan_skips [unfolded base_key_def]) fact+

lemma first_version_created:
  assumes ok: "kclient_ok vs fr env (cn_scans C)" and alone: "env \<le> (\<lambda>a b. vs b = vs a)"
    and fresh: "vs s (base_key C conn v) = None"
    and run: "sync_version C conn src v s = (r, s')" and r: "r \<noteq> FailedVersion"
  shows "r = CreatedScan \<and> (\<exists>x rv. cn_own C conn (new_scan_for src conn v (snd (base_key C conn v)) trigger_registry) = Inr x \<and>
    vs s' = (vs s)(base_key C conn v \<mapsto> (x, rv)))"
proof -
  let ?k = "base_key C conn v"
  have still: "env a b \<Longrightarrow> vs b = vs a" for a b using alone by blast
  obtain g s1 where g: "k_get (cn_scans C) ?k s = (g, s1)" by (rule prod.exhaust)
  have v1: "vs s1 = vs s" by (rule still) (rule get_cases(1) [OF ok g])
  have "g = Inl NotFound"
  proof (cases g)
    case (Inl e)
    then show ?thesis using run r g by (auto simp: sync_version_def base_key_def Let_def split: if_splits)
  next
    case (Inr x)
    then show ?thesis using get_cases(2) [OF ok g] fresh v1 by simp
  qed
  then have c: "create_scan C conn src v (snd ?k) trigger_registry s1 = (r, s')"
    using run g by (simp add: sync_version_def base_key_def Let_def)
  then obtain x where x: "cn_own C conn (new_scan_for src conn v (snd ?k) trigger_registry) = Inr x"
    using r by (auto simp: create_scan_def split: sum.splits)
  obtain q s2 where q: "k_create (cn_scans C) ?k x s1 = (q, s2)" by (rule prod.exhaust)
  have rq: "s' = s2" "r = (case q of None \<Rightarrow> CreatedScan | Some e \<Rightarrow> if e = AlreadyExists then SkippedVersion else FailedVersion)"
    using c x q by (auto simp: create_scan_def base_key_def split: option.splits)
  show ?thesis
  proof (rule create_cases [OF ok q])
    fix t rv
    assume "env s1 t" "vs s2 = (vs t)(?k \<mapsto> (x, rv))" "q \<noteq> Some AlreadyExists"
    then show ?thesis using still [of s1 t] v1 rq r x by (auto split: option.splits if_splits)
  next
    fix t
    assume "env s1 t" "q \<noteq> None" "q = Some AlreadyExists \<Longrightarrow> vs t ?k \<noteq> None"
    then show ?thesis using still [of s1 t] v1 fresh rq r by (auto split: option.splits if_splits)
  qed
qed

lemma just_created_skips:
  assumes ok: "kclient_ok vs fr env (cn_scans C)" and alone: "env \<le> (\<lambda>a b. vs b = vs a)"
    and stored: "vs s (base_key C conn w) = Some (x, rv)"
    and labels: "map_of (om_labels (as_meta x)) label_connector = Some (om_name (mc_meta conn))"
      "map_of (om_labels (as_meta x)) label_model = Some (sanitize_label (mv_model w))"
    and ver: "ss_version (as_spec x) = mv_version w" and busy: "\<not> is_finished x"
    and run: "sync_version C conn src w s = (r, s')" and r: "r \<noteq> FailedVersion"
  shows "r = SkippedVersion \<and> vs s' = vs s"
proof -
  let ?ns = "om_namespace (mc_meta conn)"
  have still: "env a b \<Longrightarrow> vs b = vs a" for a b using alone by blast
  obtain g s1 where g: "k_get (cn_scans C) (base_key C conn w) s = (g, s1)" by (rule prod.exhaust)
  have v1: "vs s1 = vs s" by (rule still) (rule get_cases(1) [OF ok g])
  have "g \<noteq> Inl NotFound" using get_cases(3) [OF ok g] stored v1 by auto
  then obtain y where y: "g = Inr y"
    using run r g by (cases g) (auto simp: sync_version_def base_key_def Let_def split: if_splits)
  obtain l s2 where l: "list_plain (cn_scans C) ?ns s1 = (l, s2)" by (rule prod.exhaust)
  have v2: "vs s2 = vs s1" by (rule still) (rule list_cases(1) [OF ok l])
  obtain xs where xs: "l = Inr xs"
    using run r g y l by (cases l) (auto simp: sync_version_def latest_scan_for_def base_key_def Let_def)
  have "map_of xs (snd (base_key C conn w)) = Some x"
    using list_cases(3) [OF ok l xs] stored v1 v2 by (simp add: base_key_def)
  then have "(snd (base_key C conn w), x) \<in> set xs" by (rule map_of_SomeD)
  from open_scan_skips [OF g [unfolded y] l [unfolded xs] this labels ver busy] show ?thesis using run v1 v2 by simp
qed

text \<open>
  Only one artifact of a version is scanned. Scans are named by model and version alone. When
  a source lists two artifacts of one version that had no scan, and nobody else writes, a pass
  without a failure counts both, creates one scan, of the first artifact, and stores nothing for the
  second.
\<close>

theorem second_artifact_unscanned:
  assumes ok: "kclient_ok vs fr env (cn_scans C)" and alone: "env \<le> (\<lambda>a b. vs b = vs a)"
    and own: "\<forall>scan x. cn_own C conn scan = Inr x \<longrightarrow>
      as_spec x = as_spec scan \<and> as_status x = as_status scan \<and> om_labels (as_meta x) = om_labels (as_meta scan)"
    and fresh: "vs s (om_namespace (mc_meta conn), scan_name (cn_digest C) (mv_model v) (mv_version v) []) = None"
    and same: "mv_model w = mv_model v" "mv_version w = mv_version v"
    and inc: "matches_include_list (mv_model v) (cs_include (mc_spec conn))"
    and run: "sync_versions C conn src [v, w] (0, 0, 0) s = ((versions, created, 0), s')"
  shows "versions = 2 \<and> created = 1 \<and>
    (\<exists>x rv. ss_artifact (as_spec x) = mv_artifact v \<and>
       vs s' = (vs s)((om_namespace (mc_meta conn), scan_name (cn_digest C) (mv_model v) (mv_version v) []) \<mapsto> (x, rv)))"
proof -
  have key: "base_key C conn w = base_key C conn v" by (simp add: base_key_def same)
  obtain r1 s1 where r1: "sync_version C conn src v s = (r1, s1)" by (rule prod.exhaust)
  obtain r2 s2 where r2: "sync_version C conn src w s1 = (r2, s2)" by (rule prod.exhaust)
  have nf: "r1 \<noteq> FailedVersion" "r2 \<noteq> FailedVersion" "s' = s2"
    "r1 = CreatedScan \<Longrightarrow> r2 = SkippedVersion \<Longrightarrow> versions = 2 \<and> created = 1"
    using run inc r1 r2 same(1) by (cases r1; cases r2; simp)+
  obtain x rv where x: "r1 = CreatedScan" "vs s1 = (vs s)(base_key C conn v \<mapsto> (x, rv))"
    "cn_own C conn (new_scan_for src conn v (snd (base_key C conn v)) trigger_registry) = Inr x"
    using first_version_created [OF ok alone _ r1 nf(1)] fresh by (auto simp: base_key_def)
  have labels: "map_of (om_labels (as_meta x)) label_connector = Some (om_name (mc_meta conn))"
    "map_of (om_labels (as_meta x)) label_model = Some (sanitize_label (mv_model w))"
    and spec: "ss_version (as_spec x) = mv_version w" "ss_artifact (as_spec x) = mv_artifact v" "\<not> is_finished x"
    using own x(3) by (auto simp: new_scan_for_def label_connector_def label_model_def label_managed_by_def
        label_trigger_def is_finished_def same)
  have "vs s1 (base_key C conn w) = Some (x, rv)" using x(2) key by simp
  note skip = just_created_skips [OF ok alone this labels spec(1,3) r2 nf(2)]
  have "vs s' = (vs s)(base_key C conn v \<mapsto> (x, rv))" by (simp only: nf(3) conjunct2 [OF skip] x(2))
  then show ?thesis using nf(4) x(1) skip spec(2) unfolding base_key_def by blast
qed

section \<open>When a reconcile returns\<close>


section \<open>A registry and a cluster in memory\<close>

record connector_cluster =
  cc_connectors :: "model_connector mem_store"
  cc_scans :: "artifact_scan mem_store"

definition demo_artifact :: "string \<Rightarrow> model_artifact" where
  "demo_artifact uri = \<lparr>ma_id = uri, ma_uri = uri, ma_format = [], ma_storage_key = [], ma_storage_path = []\<rparr>"

text \<open>One model, one version, two artifacts; a third has no URI.\<close>

definition demo_registry :: "string \<Rightarrow> string \<Rightarrow> connector_cluster registry_client" where
  "demo_registry url token =
     new_registry url token (\<lambda>request w. (Inr (200, []), w)) (\<lambda>props. [])
       (\<lambda>payload. Inr ([\<lparr>rm_id = ''1'', rm_name = ''fraud''\<rparr>], []))
       (\<lambda>payload. Inr ([\<lparr>rv_id = ''7'', rv_name = ''v1''\<rparr>], []))
       (\<lambda>payload. Inr ([demo_artifact ''s3://a'', demo_artifact ''s3://b'', demo_artifact []], []))"

definition demo_connector_ctl :: "connector_cluster connector_ctl" where
  "demo_connector_ctl =
     \<lparr>cn_connectors = mem_client cc_connectors (\<lambda>m. cc_connectors_update (\<lambda>_. m)),
      cn_scans = mem_client cc_scans (\<lambda>m. cc_scans_update (\<lambda>_. m)),
      cn_reports = mem_client (\<lambda>w. []) (\<lambda>m w. w), cn_secrets = mem_client (\<lambda>w. []) (\<lambda>m w. w),
      cn_mlflow = (\<lambda>url token. declared_source []),
      cn_registry = (\<lambda>url token insecure. registry_source (demo_registry url token)),
      cn_own = (\<lambda>conn scan. Inr (scan\<lparr>as_meta := (as_meta scan)\<lparr>om_owner := Some (om_uid (mc_meta conn))\<rparr>\<rparr>)),
      cn_now = (\<lambda>w. (100, w)), cn_digest = one_digest [], cn_kerr_str = (\<lambda>e. [])\<rparr>"

definition demo_connector :: model_connector where
  "demo_connector =
     \<lparr>mc_meta = \<lparr>om_name = ''hub'', om_namespace = ''team'', om_uid = ''u'', om_labels = [], om_annotations = [],
        om_owner = None, om_created = 0, om_deleted = None\<rparr>,
      mc_spec = \<lparr>cs_type = [], cs_rescan = None, cs_url = ''https://registry/'', cs_models = [], cs_auth = None,
        cs_insecure = False, cs_poll = None, cs_policy = ''strict'', cs_include = [''fra*''], cs_write_back = None\<rparr>,
      mc_status = \<lparr>ct_phase = [], ct_message = [], ct_last_sync = None, ct_registered = 0, ct_versions = 0,
        ct_scans = 0\<rparr>\<rparr>"

definition demo_cluster :: connector_cluster where
  "demo_cluster = \<lparr>cc_connectors = [((''team'', ''hub''), demo_connector, 1)], cc_scans = []\<rparr>"

definition demo_pass :: "(kerr reconciled \<times> connector_cluster) option" where
  "demo_pass = connector_reconcile demo_connector_ctl (''team'', ''hub'') demo_cluster"

lemma demo_passes:
  "map_option fst demo_pass = Some (RequeueAfter minute)"
  "map_option (\<lambda>p. ct_phase (mc_status (fst p))) (map_of (cc_connectors (snd (the demo_pass))) (''team'', ''hub''))
     = Some ''Connected''"
  "map (\<lambda>p. ar_uri (ss_artifact (as_spec (fst (snd p))))) (cc_scans (snd (the demo_pass))) = [''s3://a'']"
proof -
  have "map_option (\<lambda>(r, w). (r, map_option (\<lambda>p. ct_phase (mc_status (fst p))) (map_of (cc_connectors w) (''team'', ''hub'')),
      map (\<lambda>p. ar_uri (ss_artifact (as_spec (fst (snd p))))) (cc_scans w))) demo_pass
    = Some (RequeueAfter minute, Some ''Connected'', [''s3://a''])"
    by code_simp
  then obtain w where w: "demo_pass = Some (RequeueAfter minute, w)"
    "map_option (\<lambda>p. ct_phase (mc_status (fst p))) (map_of (cc_connectors w) (''team'', ''hub'')) = Some ''Connected''"
    "map (\<lambda>p. ar_uri (ss_artifact (as_spec (fst (snd p))))) (cc_scans w) = [''s3://a'']"
    by (cases demo_pass) auto
  show "map_option fst demo_pass = Some (RequeueAfter minute)"
    "map_option (\<lambda>p. ct_phase (mc_status (fst p))) (map_of (cc_connectors (snd (the demo_pass))) (''team'', ''hub''))
       = Some ''Connected''"
    "map (\<lambda>p. ar_uri (ss_artifact (as_spec (fst (snd p))))) (cc_scans (snd (the demo_pass))) = [''s3://a'']"
    using w(2,3) by (simp_all add: w(1))
qed

lemma demo_registry_do: "snd (registry_do (demo_registry url token) method path query body s) = s"
  by (simp add: registry_do_def demo_registry_def new_registry_def success_status_def Let_def)

lemma demo_registry_page:
  "registry_page (demo_registry url token) dec path tok s =
     (case dec [] of Inl e \<Rightarrow> (Inl (Decode_Response path e), s) | Inr page \<Rightarrow> (Inr page, s))"
  by (simp add: registry_page_def registry_do_def demo_registry_def new_registry_def success_status_def Let_def
      limit_reader_def)

lemma demo_registry_lists:
  "\<exists>vl. registry_list (demo_registry url token) s = Some (Inr vl, s)"
proof -
  let ?R = "demo_registry url token"
  have m: "list_registered_models ?R s = Some (Inr [\<lparr>rm_id = ''1'', rm_name = ''fraud''\<rparr>], s)"
    unfolding list_registered_models_def paginate.simps [of _ _ _ s] demo_registry_page
    by (simp add: demo_registry_def new_registry_def)
  have v: "list_model_versions ?R i s = Some (Inr [\<lparr>rv_id = ''7'', rv_name = ''v1''\<rparr>], s)" for i
    unfolding list_model_versions_def paginate.simps [of _ _ _ s] demo_registry_page
    by (simp add: demo_registry_def new_registry_def)
  have "\<exists>as. list_artifacts ?R i s = Some (Inr as, s)" for i
    unfolding list_artifacts_def paginate.simps [of _ _ _ s] demo_registry_page
    by (simp add: demo_registry_def new_registry_def)
  then obtain as where a: "list_artifacts ?R ''7'' s = Some (Inr as, s)" by blast
  have o: "versions_of ?R x [\<lparr>rv_id = ''7'', rv_name = ''v1''\<rparr>] l s =
      Some (Inr (l @ map (registry_version_of x \<lparr>rv_id = ''7'', rv_name = ''v1''\<rparr>) (filter (\<lambda>a. ma_uri a \<noteq> []) as)), s)" for x l
    unfolding versions_of.simps registry_version.simps a by simp
  show ?thesis
    unfolding registry_list_def m option.case prod.case sum.case versions_of_models.simps v o by blast
qed

lemma demo_connector_world:
  "connector_world (\<lambda>w. map_of (cc_scans w)) (\<lambda>w. map_of (cc_connectors w)) (=) demo_connector_ctl"
proof -
  have "source_within (=) (registry_source (demo_registry url token))" for url token
    unfolding source_within_def
  proof (intro conjI allI impI)
    fix s r s'
    assume l: "so_list (registry_source (demo_registry url token)) s = Some (r, s')"
    obtain vl where "registry_list (demo_registry url token) s = Some (Inr vl, s)" using demo_registry_lists by blast
    then show "s = s'" using l by (simp add: registry_source_def stringly_def)
  next
    fix v x s
    have "snd (patch_properties (demo_registry url token) i props s) = s" for i props
    proof -
      obtain q s1 where q: "registry_do (demo_registry url token) ''PATCH'' (''/model_versions/'' @ path_escape i) []
          (Some props) s = (q, s1)" by (rule prod.exhaust)
      then have "s1 = s" using demo_registry_do [of url token "''PATCH''" "''/model_versions/'' @ path_escape i" "[]"
          "Some props" s] by (simp only: snd_conv)
      then show ?thesis unfolding patch_properties_def q by (cases q) simp_all
    qed
    then show "s = snd (so_write_back (registry_source (demo_registry url token)) v x s)"
      by (simp add: registry_source_def registry_write_back_def Let_def split_beta)
  qed
  moreover have "source_within (=) (declared_source [])" by (simp add: source_within_def declared_source_def)
  moreover have "kclient_ok (\<lambda>w. map_of (cc_scans w)) (\<lambda>a b. True) (=)
      (mem_client cc_scans (\<lambda>m. cc_scans_update (\<lambda>_. m)))" by (rule mem_client_ok) simp_all
  moreover have "kclient_ok (\<lambda>w. map_of (cc_connectors w)) (\<lambda>a b. map_of (cc_scans b) = map_of (cc_scans a)) (=)
      (mem_client cc_connectors (\<lambda>m. cc_connectors_update (\<lambda>_. m)))" by (rule mem_client_ok) simp_all
  moreover have "(=) \<le> never_deletes (\<lambda>w. map_of (cc_scans w))" by (auto simp: never_deletes_def)
  ultimately show ?thesis
    unfolding connector_world_def demo_connector_ctl_def connector_ctl.simps by (simp add: mem_client_def)
qed

theorem connected_means_scanned_witness:
  "\<exists>conn rv. map_of (cc_connectors (snd (the demo_pass))) (''team'', ''hub'') = Some (conn, rv) \<and>
    (\<exists>token src vl t0 t1. source_for demo_connector_ctl conn token = Inr src \<and> so_list src t0 = Some (Inr vl, t1) \<and>
      (\<forall>v \<in> set vl. matches_include_list (mv_model v) (cs_include (mc_spec conn)) \<longrightarrow>
         map_of (cc_scans (snd (the demo_pass)))
           (om_namespace (mc_meta conn), scan_name (one_digest []) (mv_model v) (mv_version v) []) \<noteq> None))"
proof -
  obtain r w where r: "demo_pass = Some (r, w)" using demo_passes(1) by (cases demo_pass) auto
  then have d: "connector_reconcile demo_connector_ctl (''team'', ''hub'') demo_cluster = Some (RequeueAfter minute, w)"
    using demo_passes(1) unfolding demo_pass_def by simp
  obtain x where x: "map_of (cc_connectors w) (''team'', ''hub'') = Some x" "ct_phase (mc_status (fst x)) = ''Connected''"
    using demo_passes(2) unfolding r by auto
  have s: "map_of (cc_connectors w) (''team'', ''hub'') = Some (fst x, snd x)" using x(1) by simp
  have g: "cn_digest demo_connector_ctl = one_digest []" by (simp add: demo_connector_ctl_def)
  note c = connected_means_scanned [where vs = "\<lambda>w. map_of (cc_scans w)" and vc = "\<lambda>w. map_of (cc_connectors w)"
      and env = "(=)" and C = demo_connector_ctl and key = "(''team'', ''hub'')" and s = demo_cluster and s' = w
      and d = minute and conn = "fst x" and rv = "snd x", OF demo_connector_world d s x(2)]
  show ?thesis unfolding r option.sel snd_conv using s c [unfolded g] by blast
qed

definition demo_source :: "connector_cluster model_source" where
  "demo_source = registry_source (demo_registry [] [])"

definition demo_version :: "string \<Rightarrow> string \<Rightarrow> model_version" where
  "demo_version model uri =
     registry_version_of \<lparr>rm_id = ''1'', rm_name = model\<rparr> \<lparr>rv_id = ''7'', rv_name = ''v1''\<rparr> (demo_artifact uri)"

lemma demo_two_artifacts:
  "fst (sync_versions demo_connector_ctl demo_connector demo_source
     [demo_version ''fraud'' ''s3://a'', demo_version ''fraud'' ''s3://b''] (0, 0, 0) demo_cluster) = (2, 1, 0)"
  by code_simp

lemma demo_included: "matches_include_list ''fraud'' [''fra*'']"
  by code_simp

theorem second_artifact_unscanned_witness:
  "let C = demo_connector_ctl; v = demo_version ''fraud'' ''s3://a''; w = demo_version ''fraud'' ''s3://b'';
       s' = snd (sync_versions C demo_connector demo_source [v, w] (0, 0, 0) demo_cluster) in
   ar_uri (mv_artifact w) = ''s3://b'' \<and>
   (\<exists>x rv. ss_artifact (as_spec x) = mv_artifact v \<and>
      map_of (cc_scans s') = [(''team'', scan_name (one_digest []) ''fraud'' ''v1'' []) \<mapsto> (x, rv)])"
proof -
  let ?v = "demo_version ''fraud'' ''s3://a''" and ?w = "demo_version ''fraud'' ''s3://b''"
  obtain s' where r: "sync_versions demo_connector_ctl demo_connector demo_source [?v, ?w] (0, 0, 0) demo_cluster
      = ((2, 1, 0), s')"
    using demo_two_artifacts by (metis prod.collapse)
  have ok: "kclient_ok (\<lambda>w. map_of (cc_scans w)) (\<lambda>a b. True) (=) (cn_scans demo_connector_ctl)"
    by (rule connector_worldD(1) [OF demo_connector_world])
  have own: "\<forall>scan x. cn_own demo_connector_ctl demo_connector scan = Inr x \<longrightarrow>
      as_spec x = as_spec scan \<and> as_status x = as_status scan \<and> om_labels (as_meta x) = om_labels (as_meta scan)"
    by (auto simp: demo_connector_ctl_def)
  have f: "mv_model ?v = ''fraud''" "mv_version ?v = ''v1''" "mv_model ?w = ''fraud''" "mv_version ?w = ''v1''"
    "ar_uri (mv_artifact ?w) = ''s3://b''" "om_namespace (mc_meta demo_connector) = ''team''"
    "cs_include (mc_spec demo_connector) = [''fra*'']" "cn_digest demo_connector_ctl = one_digest []"
    "cc_scans demo_cluster = []"
    by (simp_all add: demo_version_def registry_version_of_def demo_artifact_def demo_connector_def
        demo_connector_ctl_def demo_cluster_def)
  have alone: "(=) \<le> (\<lambda>a b. map_of (cc_scans b) = map_of (cc_scans a))" by auto
  have fresh: "map_of (cc_scans demo_cluster) (om_namespace (mc_meta demo_connector),
      scan_name (cn_digest demo_connector_ctl) (mv_model ?v) (mv_version ?v) []) = None" by (simp add: f)
  have same: "mv_model ?w = mv_model ?v" "mv_version ?w = mv_version ?v" by (simp_all only: f)
  have inc: "matches_include_list (mv_model ?v) (cs_include (mc_spec demo_connector))"
    by (simp only: f demo_included)
  note c = second_artifact_unscanned [where vs = "\<lambda>w. map_of (cc_scans w)" and C = demo_connector_ctl
      and conn = demo_connector and v = ?v and w = ?w and s = demo_cluster and s' = s', OF ok alone own fresh same inc r]
  show ?thesis using c unfolding Let_def r f snd_conv by (simp only: f map_of.simps)
qed

text \<open>The model \<open>acme/fraud\<close> was scanned long ago; the model \<open>acme-fraud\<close> has a scan that is still open.\<close>

definition demo_held_cluster :: connector_cluster where
  "demo_held_cluster =
     (let scan = (\<lambda>model. new_scan_for demo_source demo_connector (demo_version model ''s3://a'') [] trigger_registry);
          completed = scan ''acme/fraud''
      in \<lparr>cc_connectors = [((''team'', ''hub''), demo_connector, 1)],
          cc_scans =
            [((''team'', scan_name (one_digest []) ''acme/fraud'' ''v1'' []),
              completed\<lparr>as_status := (as_status completed)\<lparr>st_phase := ''Completed'', st_completed := Some 1\<rparr>\<rparr>, 1),
             ((''team'', ''other''), scan ''acme-fraud'', 1)]\<rparr>)"

lemma demo_labels_collide: "sanitize_label ''acme-fraud'' = sanitize_label ''acme/fraud''"
  by code_simp

lemma demo_base_name: "scan_name (one_digest []) ''acme/fraud'' ''v1'' [] \<noteq> ''other''"
  by code_simp

lemma demo_held_scans:
  "list_plain (cn_scans demo_connector_ctl) ''team'' demo_held_cluster =
     (Inr (map (\<lambda>p. (snd (fst p), fst (snd p))) (cc_scans demo_held_cluster)), demo_held_cluster)"
  "fst (k_get (cn_scans demo_connector_ctl) (''team'', scan_name (one_digest []) ''acme/fraud'' ''v1'' []) demo_held_cluster)
     = Inr (snd (cc_scans demo_held_cluster ! 0))"
  using demo_base_name
  by (simp_all add: demo_held_cluster_def demo_connector_ctl_def mem_client_def list_plain_def mem_list_def Let_def)

theorem other_model_blocks_rescan_witness:
  "fst (sync_version demo_connector_ctl demo_connector demo_source (demo_version ''acme/fraud'' ''s3://a'')
     demo_held_cluster) = SkippedVersion"
proof -
  let ?v = "demo_version ''acme/fraud'' ''s3://a''"
  define open_scan where
    "open_scan = new_scan_for demo_source demo_connector (demo_version ''acme-fraud'' ''s3://a'') [] trigger_registry"
  have f: "mv_model ?v = ''acme/fraud''" "mv_version ?v = ''v1''" "om_namespace (mc_meta demo_connector) = ''team''"
    "om_name (mc_meta demo_connector) = ''hub''" "cn_digest demo_connector_ctl = one_digest []"
    by (simp_all add: demo_version_def registry_version_of_def demo_connector_def demo_connector_ctl_def)
  have g: "k_get (cn_scans demo_connector_ctl) (''team'', scan_name (one_digest []) ''acme/fraud'' ''v1'' [])
      demo_held_cluster = (Inr (snd (cc_scans demo_held_cluster ! 0)), demo_held_cluster)"
    using demo_held_scans(2) by (simp add: prod_eq_iff) (simp add: demo_connector_ctl_def mem_client_def)
  have o: "(''other'', open_scan) \<in> set (map (\<lambda>p. (snd (fst p), fst (snd p))) (cc_scans demo_held_cluster))"
    by (simp add: demo_held_cluster_def open_scan_def Let_def)
  have l: "map_of (om_labels (as_meta open_scan)) label_connector = Some ''hub''"
    "map_of (om_labels (as_meta open_scan)) label_model = Some (sanitize_label ''acme/fraud'')"
    "ss_version (as_spec open_scan) = ''v1''" "\<not> is_finished open_scan"
    unfolding open_scan_def demo_labels_collide [symmetric]
    by (simp_all add: new_scan_for_def demo_connector_def demo_version_def registry_version_of_def label_connector_def
        label_model_def label_managed_by_def label_trigger_def is_finished_def)
  have "sync_version demo_connector_ctl demo_connector demo_source ?v demo_held_cluster
      = (SkippedVersion, demo_held_cluster)"
    by (rule other_model_blocks_rescan [where C = demo_connector_ctl and v = ?v and conn = demo_connector, unfolded f,
          OF g demo_held_scans(1) o l])
  then show ?thesis by simp
qed

end
