(* ===== verification/Frameworks.thy ===== *)
theory Frameworks
  imports Cupel_Prelude "HOL-Library.Product_Lexorder"
begin

text \<open>
  The governance frameworks (\<open>internal/compliance/framework.go\<close>, \<open>nist80053.go\<close>) and the catalog over
  them (\<open>catalog.go\<close>): the controls of NIST AI RMF 1.0 and the subset of SP 800-53 the program speaks to,
  with how far scan evidence can carry each.  The controls are those of the source, prose included; the
  two kinds of dash it uses are their UTF-8 bytes.
\<close>

section \<open>Controls\<close>

datatype core_function =
  Govern | Map_Function | Measure | Manage
| Family_AC | Family_AU | Family_CA | Family_CM | Family_RA | Family_SA | Family_SI | Family_SR

fun function_str :: "core_function \<Rightarrow> string" where
  "function_str Govern = ''GOVERN''"
| "function_str Map_Function = ''MAP''"
| "function_str Measure = ''MEASURE''"
| "function_str Manage = ''MANAGE''"
| "function_str Family_AC = ''AC''"
| "function_str Family_AU = ''AU''"
| "function_str Family_CA = ''CA''"
| "function_str Family_CM = ''CM''"
| "function_str Family_RA = ''RA''"
| "function_str Family_SA = ''SA''"
| "function_str Family_SI = ''SI''"
| "function_str Family_SR = ''SR''"

datatype automation = Auto_Full | Auto_Partial | Auto_None

fun automation_str :: "automation \<Rightarrow> string" where
  "automation_str Auto_Full = ''Full''"
| "automation_str Auto_Partial = ''Partial''"
| "automation_str Auto_None = ''None''"

datatype evidence_kind =
  Ev_Inventory | Ev_Security_Scan | Ev_SBOM | Ev_AIBOM | Ev_Provenance | Ev_Secrets | Ev_Policy | Ev_Verdict
| Ev_Risk_Score | Ev_Residual_Risk | Ev_Scan_History | Ev_Revocation | Ev_Coverage_Gap | Ev_Bias_Eval

fun kind_str :: "evidence_kind \<Rightarrow> string" where
  "kind_str Ev_Inventory = ''inventory''"
| "kind_str Ev_Security_Scan = ''security-scan''"
| "kind_str Ev_SBOM = ''sbom''"
| "kind_str Ev_AIBOM = ''aibom''"
| "kind_str Ev_Provenance = ''provenance''"
| "kind_str Ev_Secrets = ''secrets''"
| "kind_str Ev_Policy = ''policy''"
| "kind_str Ev_Verdict = ''verdict''"
| "kind_str Ev_Risk_Score = ''risk-score''"
| "kind_str Ev_Residual_Risk = ''residual-risk''"
| "kind_str Ev_Scan_History = ''scan-history''"
| "kind_str Ev_Revocation = ''revocation''"
| "kind_str Ev_Coverage_Gap = ''coverage-gap''"
| "kind_str Ev_Bias_Eval = ''bias-eval''"

record control =
  co_id :: string
  co_function :: core_function
  co_category :: string
  co_text :: string
  co_automation :: automation
  co_evidence :: "evidence_kind list"
  co_rationale :: string

definition not_observable :: string where
  "not_observable =
     ''Organizational or procedural control. No property of a model artifact evidences it; requires a named attestation.''"

definition en_dash :: string where "en_dash = [CHR 0xE2, CHR 0x80, CHR 0x93]"

definition em_dash :: string where "em_dash = [CHR 0xE2, CHR 0x80, CHR 0x94]"

section \<open>The two frameworks\<close>

definition govern_controls :: "control list" where
  "govern_controls =
     [\<lparr>co_id = ''GOVERN 1.1'', co_function = Govern, co_category = ''GOVERN 1'',
        co_text = ''Legal and regulatory requirements involving AI are understood, managed, and documented.'',
        co_automation = Auto_None, co_evidence = [],
        co_rationale = not_observable\<rparr>,
      \<lparr>co_id = ''GOVERN 1.2'', co_function = Govern, co_category = ''GOVERN 1'',
        co_text = ''The characteristics of trustworthy AI are integrated into organizational policies, processes, procedures, and practices.'',
        co_automation = Auto_Partial, co_evidence = [Ev_Policy],
        co_rationale = ''An ArtifactScanPolicy encodes part of this as executable rules, but only the security and resilience characteristic. The remaining characteristics are policy statements Cupel does not hold.''\<rparr>,
      \<lparr>co_id = ''GOVERN 1.3'', co_function = Govern, co_category = ''GOVERN 1'',
        co_text = ''Processes, procedures, and practices are in place to determine the needed level of risk management activities based on the organization's risk tolerance.'',
        co_automation = Auto_Partial, co_evidence = [Ev_Policy],
        co_rationale = ''Policy thresholds (maxCriticalCVEs, blockMalware, enforcement mode) are a machine-readable expression of risk tolerance for model artifacts.''\<rparr>,
      \<lparr>co_id = ''GOVERN 1.4'', co_function = Govern, co_category = ''GOVERN 1'',
        co_text = ''The risk management process and its outcomes are established through transparent policies, procedures, and other controls based on organizational risk priorities.'',
        co_automation = Auto_Partial, co_evidence = [Ev_Policy, Ev_Verdict],
        co_rationale = ''Policy and verdict are both stored as inspectable cluster resources, so the process and its outcome are transparent and auditable for the artifact scanning slice of risk management.''\<rparr>,
      \<lparr>co_id = ''GOVERN 1.5'', co_function = Govern, co_category = ''GOVERN 1'',
        co_text = ''Ongoing monitoring and periodic review of the risk management process and its outcomes are planned and organizational roles and responsibilities clearly defined, including determining the frequency of periodic review.'',
        co_automation = Auto_Partial, co_evidence = [Ev_Scan_History],
        co_rationale = ''Cupel evidences the monitoring cadence through repeated scans. Roles, responsibilities, and review planning are organizational.''\<rparr>,
      \<lparr>co_id = ''GOVERN 1.6'', co_function = Govern, co_category = ''GOVERN 1'',
        co_text = ''Mechanisms are in place to inventory AI systems and are resourced according to organizational risk priorities.'',
        co_automation = Auto_Full, co_evidence = [Ev_Inventory, Ev_Risk_Score],
        co_rationale = ''Cupel maintains a ModelSecurityReport per registered model version, which is a live inventory keyed to the registry and ranked by risk score.''\<rparr>,
      \<lparr>co_id = ''GOVERN 1.7'', co_function = Govern, co_category = ''GOVERN 1'',
        co_text = ''Processes and procedures are in place for decommissioning and phasing out AI systems safely and in a manner that does not increase risks or decrease the organization's trustworthiness.'',
        co_automation = Auto_Partial, co_evidence = [Ev_Revocation],
        co_rationale = ''Revocation plus admission denial is the enforcement half of decommissioning. The surrounding process is organizational.''\<rparr>,
      \<lparr>co_id = ''GOVERN 2.1'', co_function = Govern, co_category = ''GOVERN 2'',
        co_text = ''Roles and responsibilities and lines of communication related to mapping, measuring, and managing AI risks are documented and are clear to individuals and teams throughout the organization.'',
        co_automation = Auto_None, co_evidence = [],
        co_rationale = not_observable\<rparr>,
      \<lparr>co_id = ''GOVERN 2.2'', co_function = Govern, co_category = ''GOVERN 2'',
        co_text = ''The organization's personnel and partners receive AI risk management training to enable them to perform their duties and responsibilities consistent with related policies, procedures, and agreements.'',
        co_automation = Auto_None, co_evidence = [],
        co_rationale = not_observable\<rparr>,
      \<lparr>co_id = ''GOVERN 2.3'', co_function = Govern, co_category = ''GOVERN 2'',
        co_text = ''Executive leadership of the organization takes responsibility for decisions about risks associated with AI system development and deployment.'',
        co_automation = Auto_None, co_evidence = [],
        co_rationale = not_observable\<rparr>,
      \<lparr>co_id = ''GOVERN 3.1'', co_function = Govern, co_category = ''GOVERN 3'',
        co_text = ''Decision-making related to mapping, measuring, and managing AI risks throughout the lifecycle is informed by a diverse team (e.g., diversity of demographics, disciplines, experience, expertise, and backgrounds).'',
        co_automation = Auto_None, co_evidence = [],
        co_rationale = not_observable\<rparr>,
      \<lparr>co_id = ''GOVERN 3.2'', co_function = Govern, co_category = ''GOVERN 3'',
        co_text = ''Policies and procedures are in place to define and differentiate roles and responsibilities for human-AI configurations and oversight of AI systems.'',
        co_automation = Auto_None, co_evidence = [],
        co_rationale = not_observable\<rparr>,
      \<lparr>co_id = ''GOVERN 4.1'', co_function = Govern, co_category = ''GOVERN 4'',
        co_text = ''Organizational policies and practices are in place to foster a critical thinking and safety-first mindset in the design, development, deployment, and uses of AI systems to minimize potential negative impacts.'',
        co_automation = Auto_None, co_evidence = [],
        co_rationale = not_observable\<rparr>,
      \<lparr>co_id = ''GOVERN 4.2'', co_function = Govern, co_category = ''GOVERN 4'',
        co_text = ''Organizational teams document the risks and potential impacts of the AI technology they design, develop, deploy, evaluate, and use, and they communicate about the impacts more broadly.'',
        co_automation = Auto_Partial, co_evidence = [Ev_Security_Scan, Ev_Risk_Score],
        co_rationale = ''Scan reports document security risk per model version. Broader impact documentation is organizational.''\<rparr>,
      \<lparr>co_id = ''GOVERN 4.3'', co_function = Govern, co_category = ''GOVERN 4'',
        co_text = ''Organizational practices are in place to enable AI testing, identification of incidents, and information sharing.'',
        co_automation = Auto_Partial, co_evidence = [Ev_Security_Scan],
        co_rationale = ''Automated scanning on every registration is a testing practice. Incident handling and information sharing are organizational.''\<rparr>,
      \<lparr>co_id = ''GOVERN 5.1'', co_function = Govern, co_category = ''GOVERN 5'',
        co_text = ''Organizational policies and practices are in place to collect, consider, prioritize, and integrate feedback from those external to the team that developed or deployed the AI system regarding the potential individual and societal impacts related to AI risks.'',
        co_automation = Auto_None, co_evidence = [],
        co_rationale = not_observable\<rparr>,
      \<lparr>co_id = ''GOVERN 5.2'', co_function = Govern, co_category = ''GOVERN 5'',
        co_text = ''Mechanisms are established to enable the team that developed or deployed AI systems to regularly incorporate adjudicated feedback from relevant AI actors into system design and implementation.'',
        co_automation = Auto_None, co_evidence = [],
        co_rationale = not_observable\<rparr>,
      \<lparr>co_id = ''GOVERN 6.1'', co_function = Govern, co_category = ''GOVERN 6'',
        co_text = ''Policies and procedures are in place that address AI risks associated with third-party entities, including risks of infringement of a third-party's intellectual property or other rights.'',
        co_automation = Auto_Partial, co_evidence = [Ev_SBOM, Ev_Policy],
        co_rationale = ''The SBOM enumerates third-party components and their licences, which is the evidentiary basis for IP risk. The policy governing them is organizational.''\<rparr>,
      \<lparr>co_id = ''GOVERN 6.2'', co_function = Govern, co_category = ''GOVERN 6'',
        co_text = ''Contingency processes are in place to handle failures or incidents in third-party data or AI systems deemed to be high-risk.'',
        co_automation = Auto_Partial, co_evidence = [Ev_Verdict, Ev_Revocation],
        co_rationale = ''Quarantine and revocation are the automated contingency for a third-party model found to be high-risk. The wider incident process is organizational.''\<rparr>]"

definition map_controls :: "control list" where
  "map_controls =
     [\<lparr>co_id = ''MAP 1.1'', co_function = Map_Function, co_category = ''MAP 1'',
        co_text = ''Intended purposes, potentially beneficial uses, context-specific laws, norms and expectations, and prospective settings in which the AI system will be deployed are understood and documented.'',
        co_automation = Auto_None, co_evidence = [],
        co_rationale = not_observable\<rparr>,
      \<lparr>co_id = ''MAP 1.2'', co_function = Map_Function, co_category = ''MAP 1'',
        co_text = ''Interdisciplinary AI actors, competencies, skills, and capacities for establishing context reflect demographic diversity and broad domain and user experience expertise, and their participation is documented.'',
        co_automation = Auto_None, co_evidence = [],
        co_rationale = not_observable\<rparr>,
      \<lparr>co_id = ''MAP 1.3'', co_function = Map_Function, co_category = ''MAP 1'',
        co_text = ''The organization's mission and relevant goals for AI technology are understood and documented.'',
        co_automation = Auto_None, co_evidence = [],
        co_rationale = not_observable\<rparr>,
      \<lparr>co_id = ''MAP 1.4'', co_function = Map_Function, co_category = ''MAP 1'',
        co_text = ''The business value or context of business use has been clearly defined or '' @ en_dash @ '' in the case of assessing existing AI systems '' @ en_dash @ '' re-evaluated.'',
        co_automation = Auto_None, co_evidence = [],
        co_rationale = not_observable\<rparr>,
      \<lparr>co_id = ''MAP 1.5'', co_function = Map_Function, co_category = ''MAP 1'',
        co_text = ''Organizational risk tolerances are determined and documented.'',
        co_automation = Auto_Partial, co_evidence = [Ev_Policy],
        co_rationale = ''Policy thresholds document risk tolerance for model artifacts in machine-readable form. Tolerances for other risk classes are organizational.''\<rparr>,
      \<lparr>co_id = ''MAP 1.6'', co_function = Map_Function, co_category = ''MAP 1'',
        co_text = ''System requirements are elicited from and understood by relevant AI actors. Design decisions take socio-technical implications into account to address AI risks.'',
        co_automation = Auto_None, co_evidence = [],
        co_rationale = not_observable\<rparr>,
      \<lparr>co_id = ''MAP 2.1'', co_function = Map_Function, co_category = ''MAP 2'',
        co_text = ''The specific tasks and methods used to implement the tasks that the AI system will support are defined (e.g., classifiers, generative models, recommenders).'',
        co_automation = Auto_Partial, co_evidence = [Ev_Inventory, Ev_AIBOM],
        co_rationale = ''The bill of materials records the architecture measured from the weights and the task the model card declares, which is the method framing this subcategory asks for. Inventory alone never was: it named a file format. Whether the declared task is the right one for the deployment remains a registry-authoring responsibility.''\<rparr>,
      \<lparr>co_id = ''MAP 2.2'', co_function = Map_Function, co_category = ''MAP 2'',
        co_text = ''Information about the AI system's knowledge limits and how system output may be utilized and overseen by humans is documented.'',
        co_automation = Auto_None, co_evidence = [],
        co_rationale = not_observable\<rparr>,
      \<lparr>co_id = ''MAP 2.3'', co_function = Map_Function, co_category = ''MAP 2'',
        co_text = ''Scientific integrity and TEVV considerations are identified and documented, including those related to experimental design, data collection and selection, system trustworthiness, and construct validation.'',
        co_automation = Auto_None, co_evidence = [],
        co_rationale = not_observable\<rparr>,
      \<lparr>co_id = ''MAP 3.1'', co_function = Map_Function, co_category = ''MAP 3'',
        co_text = ''Potential benefits of intended AI system functionality and performance are examined and documented.'',
        co_automation = Auto_None, co_evidence = [],
        co_rationale = not_observable\<rparr>,
      \<lparr>co_id = ''MAP 3.2'', co_function = Map_Function, co_category = ''MAP 3'',
        co_text = ''Potential costs, including non-monetary costs, which result from expected or realized AI errors or system functionality and trustworthiness '' @ en_dash @ '' as connected to organizational risk tolerance '' @ en_dash @ '' are examined and documented.'',
        co_automation = Auto_None, co_evidence = [],
        co_rationale = not_observable\<rparr>,
      \<lparr>co_id = ''MAP 3.3'', co_function = Map_Function, co_category = ''MAP 3'',
        co_text = ''Targeted application scope is specified and documented based on the system's capability, established context, and AI system categorization.'',
        co_automation = Auto_None, co_evidence = [],
        co_rationale = not_observable\<rparr>,
      \<lparr>co_id = ''MAP 3.4'', co_function = Map_Function, co_category = ''MAP 3'',
        co_text = ''Processes for operator and practitioner proficiency with AI system performance and trustworthiness '' @ en_dash @ '' and relevant technical standards and certifications '' @ en_dash @ '' are defined, assessed, and documented.'',
        co_automation = Auto_None, co_evidence = [],
        co_rationale = not_observable\<rparr>,
      \<lparr>co_id = ''MAP 3.5'', co_function = Map_Function, co_category = ''MAP 3'',
        co_text = ''Processes for human oversight are defined, assessed, and documented in accordance with organizational policies from the govern function.'',
        co_automation = Auto_Partial, co_evidence = [Ev_Residual_Risk],
        co_rationale = ''Exception approval and promotion are human-in-the-loop steps Cupel records with an authenticated approver: a waiver carries an approver and an expiry, and a promotion into an environment requires a decision signed by the identity that made it and re-checks the security verdict at the moment it is acted on. The wider oversight design is organizational.''\<rparr>,
      \<lparr>co_id = ''MAP 4.1'', co_function = Map_Function, co_category = ''MAP 4'',
        co_text = ''Approaches for mapping AI technology and legal risks of its components '' @ en_dash @ '' including the use of third-party data or software '' @ en_dash @ '' are in place, followed, and documented, as are risks of infringement of a third party's intellectual property or other rights.'',
        co_automation = Auto_Partial, co_evidence = [Ev_SBOM],
        co_rationale = ''The SBOM is the component map for third-party software in the artifact. Data provenance and legal analysis are organizational.''\<rparr>,
      \<lparr>co_id = ''MAP 4.2'', co_function = Map_Function, co_category = ''MAP 4'',
        co_text = ''Internal risk controls for components of the AI system, including third-party AI technologies, are identified and documented.'',
        co_automation = Auto_Full, co_evidence = [Ev_Policy, Ev_Security_Scan],
        co_rationale = ''The ArtifactScanPolicy is a documented, version-controlled statement of the internal risk controls applied to every model component, and the scan report records that they ran.''\<rparr>,
      \<lparr>co_id = ''MAP 5.1'', co_function = Map_Function, co_category = ''MAP 5'',
        co_text = ''Likelihood and magnitude of each identified impact (both potentially beneficial and harmful) based on expected use, past uses of AI systems in similar contexts, public incident reports, feedback from those external to the team that developed or deployed the AI system, or other data are identified and documented.'',
        co_automation = Auto_None, co_evidence = [],
        co_rationale = not_observable\<rparr>,
      \<lparr>co_id = ''MAP 5.2'', co_function = Map_Function, co_category = ''MAP 5'',
        co_text = ''Practices and personnel for supporting regular engagement with relevant AI actors and integrating feedback about positive, negative, and unanticipated impacts are in place and documented.'',
        co_automation = Auto_None, co_evidence = [],
        co_rationale = not_observable\<rparr>]"

definition measure_controls :: "control list" where
  "measure_controls =
     [\<lparr>co_id = ''MEASURE 1.1'', co_function = Measure, co_category = ''MEASURE 1'',
        co_text = ''Approaches and metrics for measurement of AI risks enumerated during the map function are selected for implementation starting with the most significant AI risks. The risks or trustworthiness characteristics that will not '' @ en_dash @ '' or cannot '' @ en_dash @ '' be measured are properly documented.'',
        co_automation = Auto_Full, co_evidence = [Ev_Policy, Ev_Coverage_Gap],
        co_rationale = ''The policy names the scanners selected, and Cupel emits an explicit coverage gap for every trustworthiness characteristic it does not measure '' @ em_dash @ '' which is precisely the documentation this subcategory asks for.''\<rparr>,
      \<lparr>co_id = ''MEASURE 1.2'', co_function = Measure, co_category = ''MEASURE 1'',
        co_text = ''Appropriateness of AI metrics and effectiveness of existing controls are regularly assessed and updated, including reports of errors and potential impacts on affected communities.'',
        co_automation = Auto_None, co_evidence = [],
        co_rationale = not_observable\<rparr>,
      \<lparr>co_id = ''MEASURE 1.3'', co_function = Measure, co_category = ''MEASURE 1'',
        co_text = ''Internal experts who did not serve as front-line developers for the system and/or independent assessors are involved in regular assessments and updates.'',
        co_automation = Auto_None, co_evidence = [],
        co_rationale = not_observable\<rparr>,
      \<lparr>co_id = ''MEASURE 2.1'', co_function = Measure, co_category = ''MEASURE 2'',
        co_text = ''Test sets, metrics, and details about the tools used during TEVV are documented.'',
        co_automation = Auto_Partial, co_evidence = [Ev_Security_Scan, Ev_Policy],
        co_rationale = ''Cupel records which scanner ran, at which pinned image version, and what it found. Test sets for model performance TEVV are outside its scope.''\<rparr>,
      \<lparr>co_id = ''MEASURE 2.2'', co_function = Measure, co_category = ''MEASURE 2'',
        co_text = ''Evaluations involving human subjects meet applicable requirements (including human subject protection) and are representative of the relevant population.'',
        co_automation = Auto_None, co_evidence = [],
        co_rationale = not_observable\<rparr>,
      \<lparr>co_id = ''MEASURE 2.3'', co_function = Measure, co_category = ''MEASURE 2'',
        co_text = ''AI system performance or assurance criteria are measured qualitatively or quantitatively and demonstrated for conditions similar to deployment setting(s). Measures are documented.'',
        co_automation = Auto_None, co_evidence = [],
        co_rationale = ''Model performance measurement is outside the scope of artifact scanning; requires a TEVV pipeline attestation.''\<rparr>,
      \<lparr>co_id = ''MEASURE 2.4'', co_function = Measure, co_category = ''MEASURE 2'',
        co_text = ''The functionality and behavior of the AI system and its components '' @ en_dash @ '' as identified in the map function '' @ en_dash @ '' are monitored when in production.'',
        co_automation = Auto_None, co_evidence = [],
        co_rationale = ''This subcategory concerns inference behaviour in production. Cupel assesses the artifact, so this control takes evidence from runtime monitoring or an attestation.''\<rparr>,
      \<lparr>co_id = ''MEASURE 2.5'', co_function = Measure, co_category = ''MEASURE 2'',
        co_text = ''The AI system to be deployed is demonstrated to be valid and reliable. Limitations of the generalizability beyond the conditions under which the technology was developed are documented.'',
        co_automation = Auto_None, co_evidence = [],
        co_rationale = ''Validity and reliability are model-performance properties; requires a TEVV attestation.''\<rparr>,
      \<lparr>co_id = ''MEASURE 2.6'', co_function = Measure, co_category = ''MEASURE 2'',
        co_text = ''The AI system is evaluated regularly for safety risks '' @ en_dash @ '' as identified in the map function. The AI system to be deployed is demonstrated to be safe, its residual negative risk does not exceed the risk tolerance, and it can fail safely, particularly if made to operate beyond its knowledge limits.'',
        co_automation = Auto_Partial, co_evidence = [Ev_Risk_Score, Ev_Residual_Risk],
        co_rationale = ''Cupel evidences that residual risk is bounded by policy and explicitly accepted where it is not. Fail-safe behaviour and knowledge limits require a TEVV attestation.''\<rparr>,
      \<lparr>co_id = ''MEASURE 2.7'', co_function = Measure, co_category = ''MEASURE 2'',
        co_text = ''AI system security and resilience '' @ en_dash @ '' as identified in the map function '' @ en_dash @ '' are evaluated and documented.'',
        co_automation = Auto_Full, co_evidence = [Ev_Security_Scan, Ev_Secrets, Ev_SBOM],
        co_rationale = ''This is the subcategory Cupel exists to satisfy: malware, known vulnerabilities, embedded secrets, and unsafe serialization are evaluated on every model version and the results are retained as cluster resources.''\<rparr>,
      \<lparr>co_id = ''MEASURE 2.8'', co_function = Measure, co_category = ''MEASURE 2'',
        co_text = ''Risks associated with transparency and accountability '' @ en_dash @ '' as identified in the map function '' @ en_dash @ '' are examined and documented.'',
        co_automation = Auto_Partial, co_evidence = [Ev_Provenance, Ev_Inventory],
        co_rationale = ''Signature verification and a per-version audit trail establish artifact accountability. Model transparency and disclosure practices are organizational.''\<rparr>,
      \<lparr>co_id = ''MEASURE 2.9'', co_function = Measure, co_category = ''MEASURE 2'',
        co_text = ''The AI model is explained, validated, and documented, and AI system output is interpreted within its context '' @ en_dash @ '' as identified in the map function '' @ en_dash @ '' to inform responsible use and governance.'',
        co_automation = Auto_None, co_evidence = [],
        co_rationale = ''Explainability is a model-behaviour property; requires an attestation from the team that built the model.''\<rparr>,
      \<lparr>co_id = ''MEASURE 2.10'', co_function = Measure, co_category = ''MEASURE 2'',
        co_text = ''Privacy risk of the AI system '' @ en_dash @ '' as identified in the map function '' @ en_dash @ '' is examined and documented.'',
        co_automation = Auto_Partial, co_evidence = [Ev_Secrets],
        co_rationale = ''Cupel detects credentials and secrets embedded in the artifact. Training-data privacy, memorization, and re-identification risk require a separate privacy assessment.''\<rparr>,
      \<lparr>co_id = ''MEASURE 2.11'', co_function = Measure, co_category = ''MEASURE 2'',
        co_text = ''Fairness and bias '' @ en_dash @ '' as identified in the map function '' @ en_dash @ '' are evaluated and results are documented.'',
        co_automation = Auto_None, co_evidence = [Ev_Bias_Eval],
        co_rationale = ''Fairness evaluation is a separate discipline from artifact security and produces its own evidence. This control is satisfied by that evidence or by an attestation naming a reviewer, and is never inferred from a clean security scan.''\<rparr>,
      \<lparr>co_id = ''MEASURE 2.12'', co_function = Measure, co_category = ''MEASURE 2'',
        co_text = ''Environmental impact and sustainability of AI model training and management activities '' @ en_dash @ '' as identified in the map function '' @ en_dash @ '' are assessed and documented.'',
        co_automation = Auto_None, co_evidence = [],
        co_rationale = not_observable\<rparr>,
      \<lparr>co_id = ''MEASURE 2.13'', co_function = Measure, co_category = ''MEASURE 2'',
        co_text = ''Effectiveness of the employed TEVV metrics and processes in the measure function are evaluated and documented.'',
        co_automation = Auto_None, co_evidence = [],
        co_rationale = not_observable\<rparr>,
      \<lparr>co_id = ''MEASURE 3.1'', co_function = Measure, co_category = ''MEASURE 3'',
        co_text = ''Approaches, personnel, and documentation are in place to regularly identify and track existing, unanticipated, and emergent AI risks based on factors such as intended and actual performance in deployed contexts.'',
        co_automation = Auto_Partial, co_evidence = [Ev_Scan_History],
        co_rationale = ''Repeated scanning tracks emergent supply-chain risk as new vulnerabilities are published against an unchanged artifact. Performance-driven risk tracking is organizational.''\<rparr>,
      \<lparr>co_id = ''MEASURE 3.2'', co_function = Measure, co_category = ''MEASURE 3'',
        co_text = ''Risk tracking approaches are considered for settings where AI risks are difficult to assess using currently available measurement techniques or where metrics are not yet available.'',
        co_automation = Auto_Partial, co_evidence = [Ev_Coverage_Gap],
        co_rationale = ''Cupel records what it could not measure, which is the input to this consideration. The consideration itself is organizational.''\<rparr>,
      \<lparr>co_id = ''MEASURE 3.3'', co_function = Measure, co_category = ''MEASURE 3'',
        co_text = ''Feedback processes for end users and impacted communities to report problems and appeal system outcomes are established and integrated into AI system evaluation metrics.'',
        co_automation = Auto_None, co_evidence = [],
        co_rationale = not_observable\<rparr>,
      \<lparr>co_id = ''MEASURE 4.1'', co_function = Measure, co_category = ''MEASURE 4'',
        co_text = ''Measurement approaches for identifying AI risks are connected to deployment context(s) and informed through consultation with domain experts and other end users. Approaches are documented.'',
        co_automation = Auto_None, co_evidence = [],
        co_rationale = not_observable\<rparr>,
      \<lparr>co_id = ''MEASURE 4.2'', co_function = Measure, co_category = ''MEASURE 4'',
        co_text = ''Measurement results regarding AI system trustworthiness in deployment context(s) and across the AI lifecycle are informed by input from domain experts and relevant AI actors to validate whether the system is performing consistently as intended.'',
        co_automation = Auto_None, co_evidence = [],
        co_rationale = not_observable\<rparr>,
      \<lparr>co_id = ''MEASURE 4.3'', co_function = Measure, co_category = ''MEASURE 4'',
        co_text = ''Measurable performance improvements or declines based on consultations with relevant AI actors, including affected communities, and field data about context-relevant risks and trustworthiness characteristics are identified and documented.'',
        co_automation = Auto_None, co_evidence = [],
        co_rationale = not_observable\<rparr>]"

definition manage_controls :: "control list" where
  "manage_controls =
     [\<lparr>co_id = ''MANAGE 1.1'', co_function = Manage, co_category = ''MANAGE 1'',
        co_text = ''A determination is made as to whether the AI system achieves its intended purposes and stated objectives and whether its development or deployment should proceed.'',
        co_automation = Auto_Partial, co_evidence = [Ev_Verdict],
        co_rationale = ''The verdict is a recorded, enforced determination on whether deployment proceeds. Whether the model achieves its intended purpose is a TEVV question Cupel does not answer.''\<rparr>,
      \<lparr>co_id = ''MANAGE 1.2'', co_function = Manage, co_category = ''MANAGE 1'',
        co_text = ''Treatment of documented AI risks is prioritized based on impact, likelihood, and available resources or methods.'',
        co_automation = Auto_Full, co_evidence = [Ev_Risk_Score, Ev_Security_Scan],
        co_rationale = ''Findings are severity-ranked and consolidated into a risk score that orders treatment, with model-level execution risk weighted above equivalent-severity CVEs.''\<rparr>,
      \<lparr>co_id = ''MANAGE 1.3'', co_function = Manage, co_category = ''MANAGE 1'',
        co_text = ''Responses to the AI risks deemed high priority, as identified by the map function, are developed, planned, and documented. Risk response options can include mitigating, transferring, avoiding, or accepting.'',
        co_automation = Auto_Full, co_evidence = [Ev_Verdict, Ev_Residual_Risk],
        co_rationale = ''Quarantine is avoidance, an ArtifactException is documented acceptance with a named approver and an expiry, and admission enforcement is the mitigation. All three are recorded.''\<rparr>,
      \<lparr>co_id = ''MANAGE 1.4'', co_function = Manage, co_category = ''MANAGE 1'',
        co_text = ''Negative residual risks (defined as the sum of all unmitigated risks) to both downstream acquirers of AI systems and end users are documented.'',
        co_automation = Auto_Full, co_evidence = [Ev_Residual_Risk, Ev_Coverage_Gap],
        co_rationale = ''Waived policy violations are exactly the unmitigated risk set, and Cupel records each with the reason it was accepted, by whom, and until when '' @ em_dash @ '' alongside what was never measured.''\<rparr>,
      \<lparr>co_id = ''MANAGE 2.1'', co_function = Manage, co_category = ''MANAGE 2'',
        co_text = ''Resources required to manage AI risks are taken into account '' @ en_dash @ '' along with viable non-AI alternative systems, approaches, or methods '' @ en_dash @ '' to reduce the magnitude or likelihood of potential impacts.'',
        co_automation = Auto_None, co_evidence = [],
        co_rationale = not_observable\<rparr>,
      \<lparr>co_id = ''MANAGE 2.2'', co_function = Manage, co_category = ''MANAGE 2'',
        co_text = ''Mechanisms are in place and applied to sustain the value of deployed AI systems.'',
        co_automation = Auto_None, co_evidence = [],
        co_rationale = not_observable\<rparr>,
      \<lparr>co_id = ''MANAGE 2.3'', co_function = Manage, co_category = ''MANAGE 2'',
        co_text = ''Procedures are followed to respond to and recover from a previously unknown risk when it is identified.'',
        co_automation = Auto_Partial, co_evidence = [Ev_Scan_History, Ev_Revocation],
        co_rationale = ''Rescanning surfaces newly-published vulnerabilities in an unchanged artifact, and revocation withdraws approval. The recovery procedure around it is organizational.''\<rparr>,
      \<lparr>co_id = ''MANAGE 2.4'', co_function = Manage, co_category = ''MANAGE 2'',
        co_text = ''Mechanisms are in place and applied, and responsibilities are assigned and understood, to supersede, disengage, or deactivate AI systems that demonstrate performance or outcomes inconsistent with intended use.'',
        co_automation = Auto_Partial, co_evidence = [Ev_Revocation, Ev_Verdict],
        co_rationale = ''Revoking a model version causes admission to refuse it, which is an applied deactivation mechanism. Assignment of responsibility is organizational.''\<rparr>,
      \<lparr>co_id = ''MANAGE 3.1'', co_function = Manage, co_category = ''MANAGE 3'',
        co_text = ''AI risks and benefits from third-party resources are regularly monitored, and risk controls are applied and documented.'',
        co_automation = Auto_Full, co_evidence = [Ev_Scan_History, Ev_Policy, Ev_SBOM],
        co_rationale = ''Every third-party model version is scanned on registration and rescanned on a cadence, with the controls applied recorded in policy and the results retained.''\<rparr>,
      \<lparr>co_id = ''MANAGE 3.2'', co_function = Manage, co_category = ''MANAGE 3'',
        co_text = ''Pre-trained models which are used for development are monitored as part of AI system regular monitoring and maintenance.'',
        co_automation = Auto_Full, co_evidence = [Ev_Scan_History, Ev_Inventory, Ev_Security_Scan],
        co_rationale = ''Monitoring pre-trained models is the product's precise purpose: every registered version is inventoried, scanned, and rescanned.''\<rparr>,
      \<lparr>co_id = ''MANAGE 4.1'', co_function = Manage, co_category = ''MANAGE 4'',
        co_text = ''Post-deployment AI system monitoring plans are implemented, including mechanisms for capturing and evaluating input from users and other relevant AI actors, appeal and override, decommissioning, incident response, recovery, and change management.'',
        co_automation = Auto_Partial, co_evidence = [Ev_Scan_History, Ev_Residual_Risk, Ev_Revocation],
        co_rationale = ''Cupel provides the override path (exceptions), the decommissioning path (revocation), and continuous rescanning. User feedback capture and incident response are organizational.''\<rparr>,
      \<lparr>co_id = ''MANAGE 4.2'', co_function = Manage, co_category = ''MANAGE 4'',
        co_text = ''Measurable activities for continual improvements are integrated into AI system updates and include regular engagement with interested parties, including relevant AI actors.'',
        co_automation = Auto_None, co_evidence = [],
        co_rationale = not_observable\<rparr>,
      \<lparr>co_id = ''MANAGE 4.3'', co_function = Manage, co_category = ''MANAGE 4'',
        co_text = ''Incidents and errors are communicated to relevant AI actors, including affected communities. Processes for tracking, responding to, and recovering from incidents and errors are followed and documented.'',
        co_automation = Auto_Partial, co_evidence = [Ev_Verdict],
        co_rationale = ''A quarantine verdict is recorded and surfaced in the registry, which is the tracking half. Communication to affected parties is organizational.''\<rparr>]"

definition nist_80053_controls :: "control list" where
  "nist_80053_controls =
     [\<lparr>co_id = ''SR-4'', co_function = Family_SR, co_category = ''SR'',
        co_text = ''Provenance: document, monitor, and maintain valid provenance of systems, system components, and associated data.'',
        co_automation = Auto_Partial, co_evidence = [Ev_Provenance, Ev_Inventory],
        co_rationale = ''Cupel verifies Sigstore signatures against declared trusted publishers and records which identity signed which bytes, with partial signature coverage reported as its own finding. It establishes provenance for the artifact it scanned; it cannot establish provenance for the data the model was trained on, which is the other half of what this control asks for.''\<rparr>,
      \<lparr>co_id = ''SR-11'', co_function = Family_SR, co_category = ''SR'',
        co_text = ''Component Authenticity: develop and implement anti-counterfeit policy and procedures, including the detection of counterfeit components.'',
        co_automation = Auto_Partial, co_evidence = [Ev_Provenance],
        co_rationale = ''Signature verification detects an artifact that did not come from the publisher it claims. It does not detect a counterfeit that a trusted publisher was induced to sign.''\<rparr>,
      \<lparr>co_id = ''SR-10'', co_function = Family_SR, co_category = ''SR'',
        co_text = ''Inspection of Systems or Components: inspect systems or components to detect tampering.'',
        co_automation = Auto_Full, co_evidence = [Ev_Security_Scan, Ev_Coverage_Gap],
        co_rationale = ''This is what the scanner does. The coverage record matters as much as the findings: an inspection that skipped part of the artifact is a partial inspection and is reported as one.''\<rparr>,
      \<lparr>co_id = ''SR-3'', co_function = Family_SR, co_category = ''SR'',
        co_text = ''Supply Chain Controls and Processes: establish a process for identifying and addressing weaknesses or deficiencies in the supply chain elements and processes.'',
        co_automation = Auto_Partial, co_evidence = [Ev_Policy, Ev_Verdict, Ev_Residual_Risk],
        co_rationale = ''The policy engine and the admission gate are an executable process for addressing a deficiency once found. Identifying weaknesses in the supply chain as a whole is organizational.''\<rparr>,
      \<lparr>co_id = ''RA-5'', co_function = Family_RA, co_category = ''RA'',
        co_text = ''Vulnerability Monitoring and Scanning: monitor and scan for vulnerabilities in the system and hosted applications, and when new vulnerabilities are identified and reported.'',
        co_automation = Auto_Full, co_evidence = [Ev_Security_Scan, Ev_Scan_History, Ev_Coverage_Gap],
        co_rationale = ''Scans on registration, on deployment, and on a schedule, with each scan recording why it ran. The periodic rescan is what addresses the 'when new vulnerabilities are identified' clause: a verdict describes what was known when it ran, and CVE data moves.''\<rparr>,
      \<lparr>co_id = ''SI-3'', co_function = Family_SI, co_category = ''SI'',
        co_text = ''Malicious Code Protection: implement malicious code protection mechanisms to detect and eradicate malicious code.'',
        co_automation = Auto_Partial, co_evidence = [Ev_Security_Scan],
        co_rationale = ''Detection only. Cupel refuses a malicious artifact at admission; it does not eradicate anything, and the control's remediation clause is met elsewhere.''\<rparr>,
      \<lparr>co_id = ''SI-7'', co_function = Family_SI, co_category = ''SI'',
        co_text = ''Software, Firmware, and Information Integrity: employ integrity verification tools to detect unauthorized changes to software, firmware, and information.'',
        co_automation = Auto_Full, co_evidence = [Ev_Provenance, Ev_Verdict],
        co_rationale = ''Every verdict is bound to the digest of the bytes that were scanned, and the admission gate refuses a workload whose artifact digest does not match the verdict being relied on. An approval cannot be replayed onto different bytes published under the same name.''\<rparr>,
      \<lparr>co_id = ''SI-2'', co_function = Family_SI, co_category = ''SI'',
        co_text = ''Flaw Remediation: identify, report, and correct system flaws.'',
        co_automation = Auto_Partial, co_evidence = [Ev_Security_Scan, Ev_Residual_Risk],
        co_rationale = ''Identification and reporting are automated, and an accepted risk is recorded with its approver. Correcting a flaw in a third-party model means replacing it, which is a human decision.''\<rparr>,
      \<lparr>co_id = ''CM-8'', co_function = Family_CM, co_category = ''CM'',
        co_text = ''System Component Inventory: develop and document an inventory of system components that accurately reflects the system and is at the level of granularity deemed necessary for tracking and reporting.'',
        co_automation = Auto_Full, co_evidence = [Ev_Inventory, Ev_SBOM],
        co_rationale = ''Every model version a connected source publishes becomes an inventory entry with its posture attached, derived from the registry rather than maintained by hand '' @ em_dash @ '' which is the failure mode this control exists to prevent.''\<rparr>,
      \<lparr>co_id = ''CM-14'', co_function = Family_CM, co_category = ''CM'',
        co_text = ''Signed Components: prevent the installation of software and firmware components without verification that the component has been digitally signed using a certificate that is recognized and approved by the organization.'',
        co_automation = Auto_Full, co_evidence = [Ev_Provenance, Ev_Verdict],
        co_rationale = ''The closest fit in the entire catalogue for what the admission gate does. TrustedPublisher is the organization's list of recognised certificates, and a policy requiring a signature refuses deployment without one '' @ em_dash @ '' including when the signature covers only part of the artifact.''\<rparr>,
      \<lparr>co_id = ''CM-7'', co_function = Family_CM, co_category = ''CM'',
        co_text = ''Least Functionality: configure the system to provide only mission-essential capabilities.'',
        co_automation = Auto_Partial, co_evidence = [Ev_Security_Scan, Ev_Policy],
        co_rationale = ''Cupel reports formats that execute code on load and lets policy refuse them, which is this control applied to serialization: safetensors cannot execute anything, and a pickle can.''\<rparr>,
      \<lparr>co_id = ''AU-2'', co_function = Family_AU, co_category = ''AU'',
        co_text = ''Event Logging: identify the types of events that the system is capable of logging in support of the audit function.'',
        co_automation = Auto_Full, co_evidence = [Ev_Scan_History, Ev_Residual_Risk, Ev_Revocation],
        co_rationale = ''Verdicts, admission decisions, accepted risks and policy changes are all recorded as events '' @ em_dash @ '' the decisions an auditor asks about, rather than only the scans.''\<rparr>,
      \<lparr>co_id = ''AU-3'', co_function = Family_AU, co_category = ''AU'',
        co_text = ''Content of Audit Records: ensure that audit records contain information that establishes what type of event occurred, when, where, the source, the outcome, and the identity of any individuals or subjects associated with the event.'',
        co_automation = Auto_Full, co_evidence = [Ev_Residual_Risk, Ev_Verdict],
        co_rationale = ''Each record carries the event, an actor, a subject bound to an artifact digest, and the outcome. The approver on an accepted risk comes from the admission webhook rather than the submitted object, so the identity is established rather than claimed.''\<rparr>,
      \<lparr>co_id = ''AU-9'', co_function = Family_AU, co_category = ''AU'',
        co_text = ''Protection of Audit Information: protect audit information and audit logging tools from unauthorized access, modification, and deletion.'',
        co_automation = Auto_Partial, co_evidence = [Ev_Residual_Risk],
        co_rationale = ''The audit chain is hash-linked with a published checkpoint, so modification, reordering and deletion are all evident. Evident is not prevented: an operator who controls the store can rewrite the whole chain, and only an externally anchored checkpoint closes that. The limitation is documented in the package rather than implied.''\<rparr>,
      \<lparr>co_id = ''AC-3'', co_function = Family_AC, co_category = ''AC'',
        co_text = ''Access Enforcement: enforce approved authorizations for logical access to information and system resources.'',
        co_automation = Auto_Partial, co_evidence = [Ev_Policy],
        co_rationale = ''The console API authenticates every request and returns only what the subject's role and tenant scope permit, with findings redacted server-side rather than hidden in the page. This covers access to Cupel's own data, not to the models themselves.''\<rparr>,
      \<lparr>co_id = ''AC-6'', co_function = Family_AC, co_category = ''AC'',
        co_text = ''Least Privilege: employ the principle of least privilege, allowing only authorized accesses for users which are necessary to accomplish assigned organizational tasks.'',
        co_automation = Auto_Partial, co_evidence = [Ev_Policy],
        co_rationale = ''Five roles, deny-by-default namespace scoping, and an auditor role that sees findings but never the exploit path '' @ em_dash @ '' enough to audit, not enough to attack. Scan pods hold no cluster credentials at all; only the publish step gets a token.''\<rparr>,
      \<lparr>co_id = ''CA-7'', co_function = Family_CA, co_category = ''CA'',
        co_text = ''Continuous Monitoring: develop a system-level continuous monitoring strategy and implement continuous monitoring in accordance with the organization-level strategy.'',
        co_automation = Auto_Partial, co_evidence = [Ev_Scan_History, Ev_Verdict],
        co_rationale = ''Rescanning on an interval, and re-deriving a verdict when the exceptions behind it change, is continuous monitoring for the model layer. The strategy itself is organizational.''\<rparr>,
      \<lparr>co_id = ''CA-2'', co_function = Family_CA, co_category = ''CA'',
        co_text = ''Control Assessments: assess the controls in the system and its environment of operation to determine the extent to which the controls are implemented correctly, operating as intended, and producing the desired outcome.'',
        co_automation = Auto_Partial, co_evidence = [Ev_Verdict, Ev_Coverage_Gap],
        co_rationale = ''The evidence bundle is built for this: a portable record an assessor can verify offline, stating what was checked, what was not, and what the tool structurally cannot assess.''\<rparr>,
      \<lparr>co_id = ''SA-11'', co_function = Family_SA, co_category = ''SA'',
        co_text = ''Developer Testing and Evaluation: require the developer of the system, system component, or system service to perform testing and evaluation.'',
        co_automation = Auto_None, co_evidence = [],
        co_rationale = ''Cupel assesses an artifact it is handed. It says nothing about whether the party that built the model tested it, which is what this control requires and what a third-party model almost never comes with.''\<rparr>,
      \<lparr>co_id = ''SA-15'', co_function = Family_SA, co_category = ''SA'',
        co_text = ''Development Process, Standards, and Tools: require the developer to follow a documented development process and to define quality metrics.'',
        co_automation = Auto_None, co_evidence = [],
        co_rationale = not_observable\<rparr>,
      \<lparr>co_id = ''RA-3'', co_function = Family_RA, co_category = ''RA'',
        co_text = ''Risk Assessment: conduct a risk assessment, including the likelihood and magnitude of harm from unauthorized access, use, disclosure, disruption, modification, or destruction of the system.'',
        co_automation = Auto_None, co_evidence = [],
        co_rationale = ''A risk score over an artifact's findings is not a risk assessment of a system. Likelihood and magnitude of harm depend on what the model is used for, which Cupel does not know.''\<rparr>]"


definition nist_ai_rmf_10 :: string where "nist_ai_rmf_10 = ''nist-ai-rmf-1.0''"

definition nist_80053_r5 :: string where "nist_80053_r5 = ''nist-sp-800-53r5''"

definition nist_ai_rmf :: "control list" where
  "nist_ai_rmf = govern_controls @ map_controls @ measure_controls @ manage_controls"

section \<open>Catalogs\<close>

record catalog =
  ca_framework :: string
  ca_controls :: "control list"
  ca_by_id :: "string \<rightharpoonup> control"

text \<open>The loop \<open>c.byID[ctrl.ID] = ctrl\<close>: a later control of the same identifier replaces an earlier one.\<close>

definition by_id :: "control list \<Rightarrow> string \<rightharpoonup> control" where
  "by_id cs = fold (\<lambda>c m. m(co_id c \<mapsto> c)) cs Map.empty"

text \<open>\<open>functionOrder\<close> has the four core functions; the missing key reads as 0.\<close>

definition function_order :: "core_function \<Rightarrow> nat" where
  "function_order f = (case f of Govern \<Rightarrow> 0 | Map_Function \<Rightarrow> 1 | Measure \<Rightarrow> 2 | Manage \<Rightarrow> 3 | _ \<Rightarrow> 0)"

text \<open>\<open>strings.Cut\<close> at one character.\<close>

definition str_cut :: "char \<Rightarrow> string \<Rightarrow> (string \<times> string) option" where
  "str_cut c s =
     (if c \<in> set s then Some (takeWhile (\<lambda>d. d \<noteq> c) s, tl (dropWhile (\<lambda>d. d \<noteq> c) s)) else None)"

text \<open>The value of \<open>strconv.Atoi\<close> whose error is dropped: 0 when there is no number, the bound beyond it.\<close>

definition atoi :: "string \<Rightarrow> int" where
  "atoi s =
     (let neg = (s \<noteq> [] \<and> hd s = CHR ''-''); ds = (if neg \<or> s \<noteq> [] \<and> hd s = CHR ''+'' then tl s else s) in
      if ds = [] \<or> \<not> list_all is_digit ds then 0
      else if neg then max (- (2 ^ 63)) (- int (str_nat ds)) else min (2 ^ 63 - 1) (int (str_nat ds)))"

definition split_id :: "string \<Rightarrow> int \<times> int" where
  "split_id i =
     (case str_cut CHR '' '' i of
        None \<Rightarrow> (0, 0)
      | Some (pre, numbers) \<Rightarrow>
          (case str_cut CHR ''.'' numbers of
             None \<Rightarrow> (atoi numbers, 0)
           | Some (major, minor) \<Rightarrow> (atoi major, atoi minor)))"

text \<open>\<open>sort.SliceStable\<close> by function, then category, then subcategory.\<close>

definition control_key :: "control \<Rightarrow> nat \<times> int \<times> int" where
  "control_key c = (function_order (co_function c), split_id (co_id c))"

definition sort_controls :: "control list \<Rightarrow> control list" where
  "sort_controls cs = sort_key control_key cs"

definition nist_ai_rmf_catalog :: catalog where
  "nist_ai_rmf_catalog =
     \<lparr>ca_framework = nist_ai_rmf_10, ca_controls = sort_controls nist_ai_rmf, ca_by_id = by_id nist_ai_rmf\<rparr>"

definition nist_80053_catalog :: catalog where
  "nist_80053_catalog =
     \<lparr>ca_framework = nist_80053_r5, ca_controls = nist_80053_controls, ca_by_id = by_id nist_80053_controls\<rparr>"

definition catalog_get :: "catalog \<Rightarrow> string \<Rightarrow> string + control" where
  "catalog_get c i =
     (case ca_by_id c i of
        None \<Rightarrow> Inl (''unknown '' @ ca_framework c @ '' control '' @ quote i)
      | Some ctrl \<Rightarrow> Inr ctrl)"

definition by_function :: "catalog \<Rightarrow> core_function \<Rightarrow> control list" where
  "by_function c f = filter (\<lambda>ctrl. co_function ctrl = f) (ca_controls c)"

definition automatable :: "catalog \<Rightarrow> control list" where
  "automatable c = filter (\<lambda>ctrl. co_automation ctrl \<noteq> Auto_None) (ca_controls c)"

record coverage =
  cv_total :: nat
  cv_full :: nat
  cv_partial :: nat
  cv_none :: nat

fun count_coverage :: "control list \<Rightarrow> coverage \<Rightarrow> coverage" where
  "count_coverage [] v = v"
| "count_coverage (c # cs) v =
     count_coverage cs
       (case co_automation c of
          Auto_Full \<Rightarrow> v\<lparr>cv_full := Suc (cv_full v)\<rparr>
        | Auto_Partial \<Rightarrow> v\<lparr>cv_partial := Suc (cv_partial v)\<rparr>
        | Auto_None \<Rightarrow> v\<lparr>cv_none := Suc (cv_none v)\<rparr>)"

definition coverage_of :: "catalog \<Rightarrow> coverage" where
  "coverage_of c =
     count_coverage (ca_controls c) \<lparr>cv_total = length (ca_controls c), cv_full = 0, cv_partial = 0, cv_none = 0\<rparr>"

definition coverage_str :: "coverage \<Rightarrow> string" where
  "coverage_str v =
     nat_str (cv_total v) @ '' controls: '' @ nat_str (cv_full v) @ '' fully evidenceable, '' @
     nat_str (cv_partial v) @ '' partial, '' @ nat_str (cv_none v) @ '' attestation-only''"

definition core_functions :: "core_function list" where
  "core_functions = [Govern, Map_Function, Measure, Manage]"

section \<open>What the tables hold\<close>

text \<open>The part of a control that decisions depend on, without its prose.\<close>

definition control_row :: "control \<Rightarrow> string \<times> core_function \<times> string \<times> automation \<times> evidence_kind list" where
  "control_row c = (co_id c, co_function c, co_category c, co_automation c, co_evidence c)"

lemma govern_controls_rows:
  "map control_row govern_controls =
     [(''GOVERN 1.1'', Govern, ''GOVERN 1'', Auto_None, []),
      (''GOVERN 1.2'', Govern, ''GOVERN 1'', Auto_Partial, [Ev_Policy]),
      (''GOVERN 1.3'', Govern, ''GOVERN 1'', Auto_Partial, [Ev_Policy]),
      (''GOVERN 1.4'', Govern, ''GOVERN 1'', Auto_Partial, [Ev_Policy, Ev_Verdict]),
      (''GOVERN 1.5'', Govern, ''GOVERN 1'', Auto_Partial, [Ev_Scan_History]),
      (''GOVERN 1.6'', Govern, ''GOVERN 1'', Auto_Full, [Ev_Inventory, Ev_Risk_Score]),
      (''GOVERN 1.7'', Govern, ''GOVERN 1'', Auto_Partial, [Ev_Revocation]),
      (''GOVERN 2.1'', Govern, ''GOVERN 2'', Auto_None, []),
      (''GOVERN 2.2'', Govern, ''GOVERN 2'', Auto_None, []),
      (''GOVERN 2.3'', Govern, ''GOVERN 2'', Auto_None, []),
      (''GOVERN 3.1'', Govern, ''GOVERN 3'', Auto_None, []),
      (''GOVERN 3.2'', Govern, ''GOVERN 3'', Auto_None, []),
      (''GOVERN 4.1'', Govern, ''GOVERN 4'', Auto_None, []),
      (''GOVERN 4.2'', Govern, ''GOVERN 4'', Auto_Partial, [Ev_Security_Scan, Ev_Risk_Score]),
      (''GOVERN 4.3'', Govern, ''GOVERN 4'', Auto_Partial, [Ev_Security_Scan]),
      (''GOVERN 5.1'', Govern, ''GOVERN 5'', Auto_None, []),
      (''GOVERN 5.2'', Govern, ''GOVERN 5'', Auto_None, []),
      (''GOVERN 6.1'', Govern, ''GOVERN 6'', Auto_Partial, [Ev_SBOM, Ev_Policy]),
      (''GOVERN 6.2'', Govern, ''GOVERN 6'', Auto_Partial, [Ev_Verdict, Ev_Revocation])]"
  by (simp only: govern_controls_def list.map control_row_def control.select_convs)

lemma map_controls_rows:
  "map control_row map_controls =
     [(''MAP 1.1'', Map_Function, ''MAP 1'', Auto_None, []),
      (''MAP 1.2'', Map_Function, ''MAP 1'', Auto_None, []),
      (''MAP 1.3'', Map_Function, ''MAP 1'', Auto_None, []),
      (''MAP 1.4'', Map_Function, ''MAP 1'', Auto_None, []),
      (''MAP 1.5'', Map_Function, ''MAP 1'', Auto_Partial, [Ev_Policy]),
      (''MAP 1.6'', Map_Function, ''MAP 1'', Auto_None, []),
      (''MAP 2.1'', Map_Function, ''MAP 2'', Auto_Partial, [Ev_Inventory, Ev_AIBOM]),
      (''MAP 2.2'', Map_Function, ''MAP 2'', Auto_None, []),
      (''MAP 2.3'', Map_Function, ''MAP 2'', Auto_None, []),
      (''MAP 3.1'', Map_Function, ''MAP 3'', Auto_None, []),
      (''MAP 3.2'', Map_Function, ''MAP 3'', Auto_None, []),
      (''MAP 3.3'', Map_Function, ''MAP 3'', Auto_None, []),
      (''MAP 3.4'', Map_Function, ''MAP 3'', Auto_None, []),
      (''MAP 3.5'', Map_Function, ''MAP 3'', Auto_Partial, [Ev_Residual_Risk]),
      (''MAP 4.1'', Map_Function, ''MAP 4'', Auto_Partial, [Ev_SBOM]),
      (''MAP 4.2'', Map_Function, ''MAP 4'', Auto_Full, [Ev_Policy, Ev_Security_Scan]),
      (''MAP 5.1'', Map_Function, ''MAP 5'', Auto_None, []),
      (''MAP 5.2'', Map_Function, ''MAP 5'', Auto_None, [])]"
  by (simp only: map_controls_def list.map control_row_def control.select_convs)

lemma measure_controls_rows:
  "map control_row measure_controls =
     [(''MEASURE 1.1'', Measure, ''MEASURE 1'', Auto_Full, [Ev_Policy, Ev_Coverage_Gap]),
      (''MEASURE 1.2'', Measure, ''MEASURE 1'', Auto_None, []),
      (''MEASURE 1.3'', Measure, ''MEASURE 1'', Auto_None, []),
      (''MEASURE 2.1'', Measure, ''MEASURE 2'', Auto_Partial, [Ev_Security_Scan, Ev_Policy]),
      (''MEASURE 2.2'', Measure, ''MEASURE 2'', Auto_None, []),
      (''MEASURE 2.3'', Measure, ''MEASURE 2'', Auto_None, []),
      (''MEASURE 2.4'', Measure, ''MEASURE 2'', Auto_None, []),
      (''MEASURE 2.5'', Measure, ''MEASURE 2'', Auto_None, []),
      (''MEASURE 2.6'', Measure, ''MEASURE 2'', Auto_Partial, [Ev_Risk_Score, Ev_Residual_Risk]),
      (''MEASURE 2.7'', Measure, ''MEASURE 2'', Auto_Full, [Ev_Security_Scan, Ev_Secrets, Ev_SBOM]),
      (''MEASURE 2.8'', Measure, ''MEASURE 2'', Auto_Partial, [Ev_Provenance, Ev_Inventory]),
      (''MEASURE 2.9'', Measure, ''MEASURE 2'', Auto_None, []),
      (''MEASURE 2.10'', Measure, ''MEASURE 2'', Auto_Partial, [Ev_Secrets]),
      (''MEASURE 2.11'', Measure, ''MEASURE 2'', Auto_None, [Ev_Bias_Eval]),
      (''MEASURE 2.12'', Measure, ''MEASURE 2'', Auto_None, []),
      (''MEASURE 2.13'', Measure, ''MEASURE 2'', Auto_None, []),
      (''MEASURE 3.1'', Measure, ''MEASURE 3'', Auto_Partial, [Ev_Scan_History]),
      (''MEASURE 3.2'', Measure, ''MEASURE 3'', Auto_Partial, [Ev_Coverage_Gap]),
      (''MEASURE 3.3'', Measure, ''MEASURE 3'', Auto_None, []),
      (''MEASURE 4.1'', Measure, ''MEASURE 4'', Auto_None, []),
      (''MEASURE 4.2'', Measure, ''MEASURE 4'', Auto_None, []),
      (''MEASURE 4.3'', Measure, ''MEASURE 4'', Auto_None, [])]"
  by (simp only: measure_controls_def list.map control_row_def control.select_convs)

lemma manage_controls_rows:
  "map control_row manage_controls =
     [(''MANAGE 1.1'', Manage, ''MANAGE 1'', Auto_Partial, [Ev_Verdict]),
      (''MANAGE 1.2'', Manage, ''MANAGE 1'', Auto_Full, [Ev_Risk_Score, Ev_Security_Scan]),
      (''MANAGE 1.3'', Manage, ''MANAGE 1'', Auto_Full, [Ev_Verdict, Ev_Residual_Risk]),
      (''MANAGE 1.4'', Manage, ''MANAGE 1'', Auto_Full, [Ev_Residual_Risk, Ev_Coverage_Gap]),
      (''MANAGE 2.1'', Manage, ''MANAGE 2'', Auto_None, []),
      (''MANAGE 2.2'', Manage, ''MANAGE 2'', Auto_None, []),
      (''MANAGE 2.3'', Manage, ''MANAGE 2'', Auto_Partial, [Ev_Scan_History, Ev_Revocation]),
      (''MANAGE 2.4'', Manage, ''MANAGE 2'', Auto_Partial, [Ev_Revocation, Ev_Verdict]),
      (''MANAGE 3.1'', Manage, ''MANAGE 3'', Auto_Full, [Ev_Scan_History, Ev_Policy, Ev_SBOM]),
      (''MANAGE 3.2'', Manage, ''MANAGE 3'', Auto_Full, [Ev_Scan_History, Ev_Inventory, Ev_Security_Scan]),
      (''MANAGE 4.1'', Manage, ''MANAGE 4'', Auto_Partial, [Ev_Scan_History, Ev_Residual_Risk, Ev_Revocation]),
      (''MANAGE 4.2'', Manage, ''MANAGE 4'', Auto_None, []),
      (''MANAGE 4.3'', Manage, ''MANAGE 4'', Auto_Partial, [Ev_Verdict])]"
  by (simp only: manage_controls_def list.map control_row_def control.select_convs)

lemma nist_80053_controls_rows:
  "map control_row nist_80053_controls =
     [(''SR-4'', Family_SR, ''SR'', Auto_Partial, [Ev_Provenance, Ev_Inventory]),
      (''SR-11'', Family_SR, ''SR'', Auto_Partial, [Ev_Provenance]),
      (''SR-10'', Family_SR, ''SR'', Auto_Full, [Ev_Security_Scan, Ev_Coverage_Gap]),
      (''SR-3'', Family_SR, ''SR'', Auto_Partial, [Ev_Policy, Ev_Verdict, Ev_Residual_Risk]),
      (''RA-5'', Family_RA, ''RA'', Auto_Full, [Ev_Security_Scan, Ev_Scan_History, Ev_Coverage_Gap]),
      (''SI-3'', Family_SI, ''SI'', Auto_Partial, [Ev_Security_Scan]),
      (''SI-7'', Family_SI, ''SI'', Auto_Full, [Ev_Provenance, Ev_Verdict]),
      (''SI-2'', Family_SI, ''SI'', Auto_Partial, [Ev_Security_Scan, Ev_Residual_Risk]),
      (''CM-8'', Family_CM, ''CM'', Auto_Full, [Ev_Inventory, Ev_SBOM]),
      (''CM-14'', Family_CM, ''CM'', Auto_Full, [Ev_Provenance, Ev_Verdict]),
      (''CM-7'', Family_CM, ''CM'', Auto_Partial, [Ev_Security_Scan, Ev_Policy]),
      (''AU-2'', Family_AU, ''AU'', Auto_Full, [Ev_Scan_History, Ev_Residual_Risk, Ev_Revocation]),
      (''AU-3'', Family_AU, ''AU'', Auto_Full, [Ev_Residual_Risk, Ev_Verdict]),
      (''AU-9'', Family_AU, ''AU'', Auto_Partial, [Ev_Residual_Risk]),
      (''AC-3'', Family_AC, ''AC'', Auto_Partial, [Ev_Policy]),
      (''AC-6'', Family_AC, ''AC'', Auto_Partial, [Ev_Policy]),
      (''CA-7'', Family_CA, ''CA'', Auto_Partial, [Ev_Scan_History, Ev_Verdict]),
      (''CA-2'', Family_CA, ''CA'', Auto_Partial, [Ev_Verdict, Ev_Coverage_Gap]),
      (''SA-11'', Family_SA, ''SA'', Auto_None, []),
      (''SA-15'', Family_SA, ''SA'', Auto_None, []),
      (''RA-3'', Family_RA, ''RA'', Auto_None, [])]"
  by (simp only: nist_80053_controls_def list.map control_row_def control.select_convs)

lemmas ai_rmf_rows = govern_controls_rows map_controls_rows measure_controls_rows manage_controls_rows

text \<open>A condition on the rows of the table is one on its controls.\<close>

lemma rows_all: "(\<forall>c \<in> set cs. P (control_row c)) \<longleftrightarrow> list_all P (map control_row cs)"
  by (simp add: list_all_iff)

lemma rows_count: "length (filter (\<lambda>c. P (control_row c)) cs) = length (filter P (map control_row cs))"
  by (simp add: filter_map comp_def)

lemma ai_rmf_all: "list_all P (map control_row nist_ai_rmf) \<Longrightarrow> c \<in> set nist_ai_rmf \<Longrightarrow> P (control_row c)"
  by (simp add: list_all_iff)

lemma ai_rmf_size: "length nist_ai_rmf = 72"
proof -
  have "length (map control_row nist_ai_rmf) = 72"
    unfolding nist_ai_rmf_def map_append ai_rmf_rows by simp
  then show ?thesis by simp
qed

lemma ai_rmf_ids: "distinct (map co_id nist_ai_rmf)"
proof -
  have "distinct (map fst (map control_row nist_ai_rmf))"
    unfolding nist_ai_rmf_def map_append ai_rmf_rows by simp
  moreover have "fst \<circ> control_row = co_id" by (simp add: fun_eq_iff control_row_def)
  ultimately show ?thesis by simp
qed

lemma ai_rmf_evidence: "c \<in> set nist_ai_rmf \<Longrightarrow> co_automation c \<noteq> Auto_None \<Longrightarrow> co_evidence c \<noteq> []"
proof -
  have "list_all (\<lambda>(i, f, g, a, e). a \<noteq> Auto_None \<longrightarrow> e \<noteq> []) (map control_row nist_ai_rmf)"
    unfolding nist_ai_rmf_def map_append ai_rmf_rows by simp
  from ai_rmf_all [OF this] show "c \<in> set nist_ai_rmf \<Longrightarrow> co_automation c \<noteq> Auto_None \<Longrightarrow> co_evidence c \<noteq> []"
    by (simp add: control_row_def)
qed

lemma ai_rmf_core: "c \<in> set nist_ai_rmf \<Longrightarrow> co_function c \<in> set core_functions"
proof -
  have "list_all (\<lambda>(i, f, g, a, e). f \<in> set core_functions) (map control_row nist_ai_rmf)"
    unfolding nist_ai_rmf_def map_append ai_rmf_rows by (simp add: core_functions_def)
  from ai_rmf_all [OF this] show "c \<in> set nist_ai_rmf \<Longrightarrow> co_function c \<in> set core_functions"
    by (simp add: control_row_def)
qed

text \<open>The table is written in the order the catalog sorts it into.\<close>

definition row_key :: "string \<times> core_function \<times> string \<times> automation \<times> evidence_kind list \<Rightarrow> nat \<times> int \<times> int" where
  "row_key r = (case r of (i, f, g, a, e) \<Rightarrow> (function_order f, split_id i))"

lemma ai_rmf_sorted: "sorted (map row_key (map control_row nist_ai_rmf))"
  unfolding nist_ai_rmf_def map_append ai_rmf_rows by code_simp

lemma sort_ai_rmf: "sort_controls nist_ai_rmf = nist_ai_rmf"
proof -
  have "row_key \<circ> control_row = control_key" by (simp add: fun_eq_iff row_key_def control_row_def control_key_def)
  then have "sorted (map control_key nist_ai_rmf)" using ai_rmf_sorted by simp
  then show ?thesis unfolding sort_controls_def by (rule sort_key_id_if_sorted)
qed

lemma by_id_notin: "i \<notin> co_id ` set cs \<Longrightarrow> fold (\<lambda>c m. m(co_id c \<mapsto> c)) cs m i = m i"
  by (induction cs arbitrary: m) auto

lemma by_id_get: "distinct (map co_id cs) \<Longrightarrow> c \<in> set cs \<Longrightarrow> by_id cs (co_id c) = Some c"
proof -
  have "fold (\<lambda>c m. m(co_id c \<mapsto> c)) cs m (co_id c) = Some c" if "distinct (map co_id cs)" "c \<in> set cs" for m
    using that
  proof (induction cs arbitrary: m)
    case (Cons d cs)
    then show ?case
    proof (cases "c \<in> set cs")
      case False
      then have "c = d" using Cons.prems by simp
      moreover have "co_id d \<notin> co_id ` set cs" using Cons.prems by simp
      ultimately show ?thesis using by_id_notin [of "co_id d" cs "m(co_id d \<mapsto> d)"]
        by (simp del: fun_upd_apply) simp
    qed simp
  qed simp
  then show "distinct (map co_id cs) \<Longrightarrow> c \<in> set cs \<Longrightarrow> by_id cs (co_id c) = Some c" by (simp add: by_id_def)
qed

lemma count_coverage_counts:
  "cv_total (count_coverage cs v) = cv_total v \<and>
   cv_full (count_coverage cs v) = cv_full v + length (filter (\<lambda>c. co_automation c = Auto_Full) cs) \<and>
   cv_partial (count_coverage cs v) = cv_partial v + length (filter (\<lambda>c. co_automation c = Auto_Partial) cs) \<and>
   cv_none (count_coverage cs v) = cv_none v + length (filter (\<lambda>c. co_automation c = Auto_None) cs)"
  by (induction cs arbitrary: v) (auto split: automation.splits)

definition row_automation :: "string \<times> core_function \<times> string \<times> automation \<times> evidence_kind list \<Rightarrow> automation" where
  "row_automation r = (case r of (i, f, g, a, e) \<Rightarrow> a)"

definition row_function :: "string \<times> core_function \<times> string \<times> automation \<times> evidence_kind list \<Rightarrow> core_function" where
  "row_function r = (case r of (i, f, g, a, e) \<Rightarrow> f)"

lemma ai_rmf_automation:
  "length (filter (\<lambda>c. co_automation c = a) nist_ai_rmf) =
     (case a of Auto_Full \<Rightarrow> 9 | Auto_Partial \<Rightarrow> 24 | Auto_None \<Rightarrow> 39)"
proof -
  have "length (filter (\<lambda>c. co_automation c = a) nist_ai_rmf) =
      length (filter (\<lambda>r. row_automation r = a) (map control_row nist_ai_rmf))"
    using rows_count [of "\<lambda>r. row_automation r = a" nist_ai_rmf] by (simp add: row_automation_def control_row_def)
  also have "\<dots> = (case a of Auto_Full \<Rightarrow> 9 | Auto_Partial \<Rightarrow> 24 | Auto_None \<Rightarrow> 39)"
    unfolding nist_ai_rmf_def map_append ai_rmf_rows by (cases a) (simp_all add: row_automation_def)
  finally show ?thesis .
qed

lemma ai_rmf_functions:
  "map (\<lambda>f. length (filter (\<lambda>c. co_function c = f) nist_ai_rmf)) core_functions = [19, 18, 22, 13]"
proof -
  have "length (filter (\<lambda>c. co_function c = f) nist_ai_rmf) =
      length (filter (\<lambda>r. row_function r = f) (map control_row nist_ai_rmf))" for f
    using rows_count [of "\<lambda>r. row_function r = f" nist_ai_rmf] by (simp add: row_function_def control_row_def)
  then show ?thesis
    unfolding nist_ai_rmf_def map_append ai_rmf_rows by (simp add: row_function_def core_functions_def)
qed

text \<open>
  The catalog is the whole framework, each control once. The AI RMF catalog holds the 72
  subcategories, 19, 18, 22 and 13 of the four functions in their order, sorted by the numbers in their
  identifiers; each is found under its identifier; and its coverage says of nine that scans evidence them
  in full, of 24 in part, and of 39 that nothing but an attestation can close them.
\<close>

theorem ai_rmf_catalog_complete:
  "let cat = nist_ai_rmf_catalog in
   length (ca_controls cat) = 72 \<and> map (length \<circ> by_function cat) core_functions = [19, 18, 22, 13] \<and>
   sorted (map control_key (ca_controls cat)) \<and>
   map (\<lambda>c. catalog_get cat (co_id c)) (ca_controls cat) = map Inr (ca_controls cat) \<and>
   coverage_of cat = \<lparr>cv_total = 72, cv_full = 9, cv_partial = 24, cv_none = 39\<rparr>"
proof -
  let ?cat = nist_ai_rmf_catalog
  have c: "ca_controls ?cat = nist_ai_rmf" by (simp add: nist_ai_rmf_catalog_def sort_ai_rmf)
  have get: "catalog_get ?cat (co_id d) = Inr d" if "d \<in> set nist_ai_rmf" for d
    using by_id_get [OF ai_rmf_ids that] by (simp add: catalog_get_def nist_ai_rmf_catalog_def)
  have f: "map (length \<circ> by_function ?cat) core_functions = [19, 18, 22, 13]"
    using ai_rmf_functions by (simp add: comp_def by_function_def c)
  have s: "sorted (map control_key (ca_controls ?cat))"
    unfolding nist_ai_rmf_catalog_def catalog.select_convs sort_controls_def by (rule sorted_sort_key)
  have v: "coverage_of ?cat = \<lparr>cv_total = 72, cv_full = 9, cv_partial = 24, cv_none = 39\<rparr>"
    by (rule coverage.equality) (simp_all add: coverage_of_def c count_coverage_counts ai_rmf_automation ai_rmf_size)
  show ?thesis unfolding Let_def c using f s v get by (simp add: c ai_rmf_size)
qed

end
