(* ===== verification/Compliance.thy ===== *)
theory Compliance
  imports Frameworks Go_Time
begin

text \<open>
  Assessing a model version against a framework (\<open>internal/compliance/evaluate.go\<close>): which evidence a scan
  gives, which controls it closes, which an attestation closes, and which stay open.
\<close>

section \<open>Statuses and inputs\<close>

datatype control_status =
  Satisfied | Partially_Satisfied | Not_Satisfied | Attested | Attestation_Required | Not_Applicable

fun status_str :: "control_status \<Rightarrow> string" where
  "status_str Satisfied = ''Satisfied''"
| "status_str Partially_Satisfied = ''PartiallySatisfied''"
| "status_str Not_Satisfied = ''NotSatisfied''"
| "status_str Attested = ''Attested''"
| "status_str Attestation_Required = ''AttestationRequired''"
| "status_str Not_Applicable = ''NotApplicable''"

fun open_status :: "control_status \<Rightarrow> bool" where
  "open_status Satisfied = False"
| "open_status Attested = False"
| "open_status Not_Applicable = False"
| "open_status _ = True"

datatype trust_characteristic =
  Valid_Reliable | Safe | Secure_Resilient | Accountable | Explainable | Privacy | Fair

fun characteristic_str :: "trust_characteristic \<Rightarrow> string" where
  "characteristic_str Valid_Reliable = ''Valid and Reliable''"
| "characteristic_str Safe = ''Safe''"
| "characteristic_str Secure_Resilient = ''Secure and Resilient''"
| "characteristic_str Accountable = ''Accountable and Transparent''"
| "characteristic_str Explainable = ''Explainable and Interpretable''"
| "characteristic_str Privacy = ''Privacy-Enhanced''"
| "characteristic_str Fair = ''Fair with Harmful Bias Managed''"

definition trust_characteristics :: "trust_characteristic list" where
  "trust_characteristics = [Valid_Reliable, Safe, Secure_Resilient, Accountable, Explainable, Privacy, Fair]"

record evidence =
  ev_scan_complete :: bool
  ev_verdict :: string
  ev_risk_scored :: bool
  ev_security_scanned :: bool
  ev_secrets_scanned :: bool
  ev_sbom_generated :: bool
  ev_aibom_generated :: bool
  ev_signature_verified :: bool
  ev_policy_ref :: string
  ev_inventoried :: bool
  ev_continuous_monitoring :: bool
  ev_admission_enforcing :: bool
  ev_residual_risks_documented :: bool
  ev_bias_evaluated :: bool

record attestation =
  at_control :: string
  at_statement :: string
  at_by :: string
  at_time :: go_time
  at_expires :: go_time
  at_uri :: string

text \<open>\<open>Valid\<close>: nothing, or why the attestation cannot close its control.\<close>

definition attestation_problem :: "go_time \<Rightarrow> attestation \<Rightarrow> string option" where
  "attestation_problem now a =
     (if trim_space (at_by a) = [] then Some ''attestation has no named attester''
      else if trim_space (at_statement a) = [] then Some ''attestation has no statement''
      else if at_expires a \<noteq> zero_time \<and> now > at_expires a
      then Some (''attestation expired on '' @ rfc3339 (unix_sec (at_expires a)))
      else None)"

text \<open>The loop \<open>byControl[a.ControlID] = a\<close>: a later attestation replaces an earlier one.\<close>

definition by_control :: "attestation list \<Rightarrow> string \<rightharpoonup> attestation" where
  "by_control as = fold (\<lambda>a m. m(at_control a \<mapsto> a)) as Map.empty"

section \<open>Evidence\<close>

definition observed_evidence :: "evidence \<Rightarrow> evidence_kind \<Rightarrow> bool" where
  "observed_evidence ev k =
     (if \<not> ev_scan_complete ev then False
      else (case k of
              Ev_Inventory \<Rightarrow> ev_inventoried ev
            | Ev_Security_Scan \<Rightarrow> ev_security_scanned ev
            | Ev_SBOM \<Rightarrow> ev_sbom_generated ev
            | Ev_AIBOM \<Rightarrow> ev_aibom_generated ev
            | Ev_Provenance \<Rightarrow> ev_signature_verified ev
            | Ev_Secrets \<Rightarrow> ev_secrets_scanned ev
            | Ev_Policy \<Rightarrow> ev_policy_ref ev \<noteq> []
            | Ev_Verdict \<Rightarrow> ev_verdict ev \<noteq> [] \<and> ev_verdict ev \<noteq> ''Unknown''
            | Ev_Risk_Score \<Rightarrow> ev_risk_scored ev
            | Ev_Residual_Risk \<Rightarrow> ev_residual_risks_documented ev
            | Ev_Scan_History \<Rightarrow> ev_continuous_monitoring ev
            | Ev_Revocation \<Rightarrow> ev_admission_enforcing ev
            | Ev_Coverage_Gap \<Rightarrow> True
            | Ev_Bias_Eval \<Rightarrow> ev_bias_evaluated ev))"

definition unmeasured_characteristics :: "evidence \<Rightarrow> trust_characteristic list" where
  "unmeasured_characteristics ev =
     [Valid_Reliable, Safe, Explainable] @
     (if \<not> ev_bias_evaluated ev then [Fair] else []) @
     (if \<not> ev_scan_complete ev \<or> \<not> ev_security_scanned ev then [Secure_Resilient] else []) @
     (if \<not> ev_scan_complete ev \<or> \<not> ev_secrets_scanned ev then [Privacy] else []) @
     (if \<not> ev_scan_complete ev \<or> \<not> ev_signature_verified ev then [Accountable] else [])"

definition join_kinds :: "evidence_kind list \<Rightarrow> string" where
  "join_kinds ks = (if ks = [] then ''none'' else str_join '', '' (map kind_str ks))"

section \<open>One control\<close>

record control_outcome =
  cr_control :: control
  cr_status :: control_status
  cr_reason :: string
  cr_seen :: "evidence_kind list"
  cr_missing :: "evidence_kind list"
  cr_attested_by :: string
  cr_warning :: string

definition evaluate_control ::
    "control \<Rightarrow> (evidence_kind \<Rightarrow> bool) \<Rightarrow> (string \<rightharpoonup> attestation) \<Rightarrow> (string \<rightharpoonup> string) \<Rightarrow> go_time \<Rightarrow> control_outcome" where
  "evaluate_control c present attested scope now =
     (case scope (co_id c) of
        Some justification \<Rightarrow>
          (if trim_space justification = []
           then \<lparr>cr_control = c, cr_status = Attestation_Required,
                 cr_reason = ''declared not applicable without a justification; scoping a control out requires one'',
                 cr_seen = [], cr_missing = [], cr_attested_by = [], cr_warning = []\<rparr>
           else \<lparr>cr_control = c, cr_status = Not_Applicable, cr_reason = justification, cr_seen = [], cr_missing = [],
                 cr_attested_by = [], cr_warning = []\<rparr>)
      | None \<Rightarrow>
          (let seen = filter present (co_evidence c);
               missing = filter (\<lambda>k. \<not> present k) (co_evidence c);
               found = attested (co_id c);
               problem = (case found of None \<Rightarrow> None | Some a \<Rightarrow> attestation_problem now a);
               valid = (found \<noteq> None \<and> problem = None);
               warning = (case found of
                   None \<Rightarrow> []
                 | Some a \<Rightarrow>
                     (case problem of
                        Some why \<Rightarrow> why
                      | None \<Rightarrow> if at_expires a = zero_time
                                then ''attestation has no expiry; a permanent attestation is not periodically re-examined''
                                else []));
               who = (if valid then at_by (the found) else []);
               outcome = (\<lambda>status reason. \<lparr>cr_control = c, cr_status = status, cr_reason = reason, cr_seen = seen,
                   cr_missing = missing, cr_attested_by = who, cr_warning = warning\<rparr>)
           in case co_automation c of
                Auto_None \<Rightarrow>
                  (if valid then outcome Attested (''attested by '' @ who @ '': '' @ at_statement (the found))
                   else outcome Attestation_Required (co_rationale c))
              | Auto_Full \<Rightarrow>
                  (if missing \<noteq> [] then outcome Not_Satisfied (''expected evidence not produced: '' @ join_kinds missing)
                   else outcome Satisfied (co_rationale c))
              | Auto_Partial \<Rightarrow>
                  (if missing \<noteq> [] then outcome Not_Satisfied (''expected evidence not produced: '' @ join_kinds missing)
                   else if valid
                   then outcome Satisfied (''technical evidence ('' @ join_kinds seen @ '') plus attestation by '' @ who)
                   else outcome Partially_Satisfied (''Cupel evidences '' @ join_kinds seen @
                          ''; the organizational remainder is unattested. '' @ co_rationale c))))"

section \<open>The assessment\<close>

record assessment =
  am_framework :: string
  am_coverage :: coverage
  am_results :: "control_outcome list"
  am_unmeasured :: "trust_characteristic list"
  am_counts :: "control_status \<Rightarrow> nat"
  am_conformant :: bool

fun status_severity :: "control_status \<Rightarrow> nat" where
  "status_severity Not_Satisfied = 3"
| "status_severity Partially_Satisfied = 2"
| "status_severity Attestation_Required = 1"
| "status_severity _ = 0"

definition open_controls :: "control_outcome list \<Rightarrow> control_outcome list" where
  "open_controls rs = sort_key (\<lambda>r. - int (status_severity (cr_status r))) (filter (\<lambda>r. open_status (cr_status r)) rs)"

definition count_status :: "control_outcome list \<Rightarrow> control_status \<Rightarrow> nat" where
  "count_status rs = fold (\<lambda>r n. n(cr_status r := Suc (n (cr_status r)))) rs (\<lambda>x. 0)"

definition evaluate_framework ::
    "catalog \<Rightarrow> evidence \<Rightarrow> attestation list \<Rightarrow> (string \<rightharpoonup> string) \<Rightarrow> go_time \<Rightarrow> assessment" where
  "evaluate_framework cat ev attestations scope now =
     (let present = observed_evidence ev;
          results = map (\<lambda>c. evaluate_control c present (by_control attestations) scope now) (ca_controls cat)
      in \<lparr>am_framework = ca_framework cat, am_coverage = coverage_of cat, am_results = results,
          am_unmeasured = unmeasured_characteristics ev, am_counts = count_status results,
          am_conformant = (length (open_controls results) = 0)\<rparr>)"

definition assessment_summary :: "assessment \<Rightarrow> string" where
  "assessment_summary a =
     (let n = (\<lambda>s. nat_str (am_counts a s)) in
      am_framework a @ '': '' @ n Satisfied @ '' satisfied, '' @ n Attested @ '' attested, '' @
      n Partially_Satisfied @ '' partial, '' @ n Attestation_Required @ '' awaiting attestation, '' @
      n Not_Satisfied @ '' not satisfied, '' @ n Not_Applicable @ '' n/a'')"

section \<open>What closes a control\<close>

text \<open>
  The rule the program states, without its branches: a control scoped out needs a reason; an
  organizational one an attestation in force; one that can be evidenced all of its evidence, and where the
  evidence is only part of it, the attestation as well.
\<close>

definition attested_now :: "attestation list \<Rightarrow> go_time \<Rightarrow> string \<Rightarrow> bool" where
  "attested_now as now i \<longleftrightarrow> (\<exists>a. by_control as i = Some a \<and> attestation_problem now a = None)"

definition closed :: "evidence \<Rightarrow> attestation list \<Rightarrow> (string \<rightharpoonup> string) \<Rightarrow> go_time \<Rightarrow> control \<Rightarrow> bool" where
  "closed ev as scope now c \<longleftrightarrow>
     (case scope (co_id c) of
        Some j \<Rightarrow> trim_space j \<noteq> []
      | None \<Rightarrow>
          (let evidenced = (\<forall>k \<in> set (co_evidence c). observed_evidence ev k); attested = attested_now as now (co_id c)
           in case co_automation c of Auto_None \<Rightarrow> attested | Auto_Full \<Rightarrow> evidenced | Auto_Partial \<Rightarrow> evidenced \<and> attested))"

lemma evaluate_control_open:
  "open_status (cr_status (evaluate_control c (observed_evidence ev) (by_control as) scope now)) \<longleftrightarrow>
     \<not> closed ev as scope now c"
proof (cases "scope (co_id c)")
  case None
  have m: "filter (\<lambda>k. \<not> observed_evidence ev k) (co_evidence c) = [] \<longleftrightarrow> (\<forall>k \<in> set (co_evidence c). observed_evidence ev k)"
    by (simp add: filter_empty_conv)
  have a: "(by_control as (co_id c) \<noteq> None \<and>
      (case by_control as (co_id c) of None \<Rightarrow> None | Some a \<Rightarrow> attestation_problem now a) = None) \<longleftrightarrow>
      attested_now as now (co_id c)"
    by (auto simp: attested_now_def split: option.splits)
  show ?thesis
    unfolding evaluate_control_def closed_def None option.case Let_def a m
    by (cases "co_automation c") auto
next
  case (Some j)
  then show ?thesis by (simp add: evaluate_control_def closed_def)
qed

lemma evaluate_control_control [simp]: "cr_control (evaluate_control c p as scope now) = c"
  unfolding evaluate_control_def Let_def
  by (cases "scope (co_id c)"; cases "co_automation c")
    (simp_all only: option.case automation.case if_distrib [of cr_control] control_outcome.select_convs if_cancel)

lemma count_status_count:
  "fold (\<lambda>r n. n(cr_status r := Suc (n (cr_status r)))) rs n s = n s + length (filter (\<lambda>r. cr_status r = s) rs)"
  by (induction rs arbitrary: n) auto

lemma conformant_rule:
  "am_conformant (evaluate_framework cat ev as scope now) \<longleftrightarrow>
     (\<forall>c. c \<in> set (ca_controls cat) \<longrightarrow> closed ev as scope now c)"
  by (simp add: evaluate_framework_def open_controls_def Let_def filter_empty_conv evaluate_control_open comp_def)
    blast


section \<open>An incomplete scan\<close>

lemma nothing_observed: "\<not> ev_scan_complete ev \<Longrightarrow> observed_evidence ev k = False"
  by (simp add: observed_evidence_def)

lemma unevidenced_status:
  assumes "\<forall>k. \<not> present k" and "co_automation c \<noteq> Auto_None \<longrightarrow> co_evidence c \<noteq> []"
  shows "cr_status (evaluate_control c present as scope now) \<notin> {Satisfied, Partially_Satisfied} \<and>
    (scope (co_id c) = None \<and> co_automation c \<noteq> Auto_None \<longrightarrow>
       cr_status (evaluate_control c present as scope now) = Not_Satisfied)"
proof -
  have m: "filter (\<lambda>k. \<not> present k) (co_evidence c) = co_evidence c" using assms(1) by simp
  show ?thesis
    using assms(2) unfolding evaluate_control_def Let_def m
    by (cases "scope (co_id c)"; cases "co_automation c")
      (simp_all only: option.case automation.case if_distrib [of cr_status] control_outcome.select_convs, auto)
qed

text \<open>
  A scan that did not finish proves nothing. When one scanner has not finished, no control of
  the AI RMF is satisfied, not even in part, whatever the other scanners reported and whatever is attested;
  every control that scans could evidence and that is not scoped out is not satisfied.
\<close>

theorem incomplete_scan_satisfies_nothing:
  assumes "\<not> ev_scan_complete ev"
    and "r \<in> set (am_results (evaluate_framework nist_ai_rmf_catalog ev as scope now))"
  shows "cr_status r \<notin> {Satisfied, Partially_Satisfied} \<and>
    (scope (co_id (cr_control r)) = None \<and> co_automation (cr_control r) \<noteq> Auto_None \<longrightarrow> cr_status r = Not_Satisfied)"
proof -
  obtain c where c: "c \<in> set nist_ai_rmf"
    and r: "r = evaluate_control c (observed_evidence ev) (by_control as) scope now"
    using assms(2) by (auto simp: evaluate_framework_def nist_ai_rmf_catalog_def sort_ai_rmf Let_def)
  have "\<forall>k. \<not> observed_evidence ev k" using nothing_observed [OF assms(1)] by simp
  from unevidenced_status [OF this, of c] ai_rmf_evidence [OF c] show ?thesis by (simp add: r)
qed

definition unfinished_evidence :: evidence where
  "unfinished_evidence =
     \<lparr>ev_scan_complete = False, ev_verdict = ''Approved'', ev_risk_scored = True, ev_security_scanned = True,
      ev_secrets_scanned = True, ev_sbom_generated = True, ev_aibom_generated = True, ev_signature_verified = True,
      ev_policy_ref = ''strict'', ev_inventoried = True, ev_continuous_monitoring = True, ev_admission_enforcing = True,
      ev_residual_risks_documented = True, ev_bias_evaluated = True\<rparr>"

theorem incomplete_scan_satisfies_nothing_witness:
  "let rs = am_results (evaluate_framework nist_ai_rmf_catalog unfinished_evidence [] Map.empty 0) in
   length rs = 72 \<and> list_all (\<lambda>r. cr_status r \<notin> {Satisfied, Partially_Satisfied}) rs"
proof -
  have "\<not> ev_scan_complete unfinished_evidence" by (simp add: unfinished_evidence_def)
  note i = incomplete_scan_satisfies_nothing [OF this]
  have "length (am_results (evaluate_framework nist_ai_rmf_catalog unfinished_evidence [] Map.empty 0)) = 72"
    by (simp add: evaluate_framework_def nist_ai_rmf_catalog_def sort_ai_rmf ai_rmf_size Let_def)
  then show ?thesis unfolding Let_def list_all_iff using i by blast
qed

section \<open>Counts\<close>

lemma length_filter_sum:
  "finite A \<Longrightarrow> (\<forall>x \<in> set xs. f x \<in> A) \<Longrightarrow> (\<Sum>a \<in> A. length (filter (\<lambda>x. f x = a) xs)) = length xs"
proof (induction xs)
  case (Cons x xs)
  have "(\<Sum>a \<in> A. length (filter (\<lambda>y. f y = a) (x # xs))) = (\<Sum>a \<in> A. (if f x = a then 1 else 0) + length (filter (\<lambda>y. f y = a) xs))"
    by (rule sum.cong) auto
  also have "\<dots> = 1 + length xs" using Cons by (simp add: sum.distrib)
  finally show ?case by simp
qed simp

definition all_statuses :: "control_status list" where
  "all_statuses = [Satisfied, Partially_Satisfied, Not_Satisfied, Attested, Attestation_Required, Not_Applicable]"

lemma all_statuses: "set all_statuses = UNIV"
  using control_status.exhaust by (auto simp: all_statuses_def)

lemma counts_total: "(\<Sum>s \<in> set all_statuses. count_status rs s) = length rs"
proof -
  have "count_status rs s = length (filter (\<lambda>r. cr_status r = s) rs)" for s
    by (simp add: count_status_def count_status_count)
  then show ?thesis using length_filter_sum [OF finite_set, of rs cr_status all_statuses] by (simp add: all_statuses)
qed

section \<open>Attestations\<close>

text \<open>
  Of several attestations of one control only the last counts, also when it is the one that expired; and
  the date of an attestation is never looked at.
\<close>

lemma by_control_last: "by_control (as @ [b]) i = (if i = at_control b then Some b else by_control as i)"
  by (simp add: by_control_def)

lemma expired_attestation_shadows: "attestation_problem now b \<noteq> None \<Longrightarrow> \<not> attested_now (as @ [b]) now (at_control b)"
  by (simp add: attested_now_def by_control_last)

lemma undated_attestation_counts: "attestation_problem now (a\<lparr>at_time := t\<rparr>) = attestation_problem now a"
  by (simp add: attestation_problem_def)

end
