(* ===== verification/Compliance_Control.thy ===== *)
theory Compliance_Control
  imports Compliance Artifact_Scan Glob
begin

text \<open>
  The compliance controller (\<open>internal/controller/compliance_controller.go\<close>): it assesses each model's
  security report against every profile that selects the model, and stores a compliance report for
  each.  The owner reference, which may be refused, is a parameter; conditions and logging are not
  modelled.
\<close>

section \<open>Profiles and reports\<close>

record control_attestation =
  ca_control :: string
  ca_statement :: string
  ca_by :: string
  ca_at :: "go_time option"
  ca_expires :: "go_time option"
  ca_uri :: string

record control_exclusion =
  ce_control :: string
  ce_justification :: string

record profile_spec =
  fs_framework :: string
  fs_selector :: "string list"
  fs_attestations :: "control_attestation list"
  fs_exclusions :: "control_exclusion list"
  fs_block :: bool

record profile_status =
  ft_attested :: int32
  ft_excluded :: int32
  ft_expired :: int32
  ft_message :: string

record compliance_profile =
  cf_meta :: object_meta
  cf_spec :: profile_spec
  cf_status :: profile_status

record control_result =
  ct_control :: string
  ct_function :: string
  ct_status :: string
  ct_automation :: string
  ct_reason :: string
  ct_evidence :: "string list"
  ct_attested_by :: string
  ct_warning :: string

record function_summary =
  fm_function :: core_function
  fm_satisfied :: int32
  fm_attested :: int32
  fm_partial :: int32
  fm_awaiting :: int32
  fm_not_satisfied :: int32
  fm_not_applicable :: int32

record compliance_spec =
  cq_model :: string
  cq_version :: string
  cq_framework :: string
  cq_profile :: string
  cq_report :: string

record compliance_status =
  cz_conformant :: bool
  cz_full :: int32
  cz_partial :: int32
  cz_attestation_only :: int32
  cz_total :: int32
  cz_summary :: "function_summary list"
  cz_controls :: "control_result list"
  cz_unmeasured :: "string list"
  cz_open :: int32
  cz_message :: string
  cz_assessed :: "go_time option"

record compliance_report =
  cy_meta :: object_meta
  cy_spec :: compliance_spec
  cy_status :: compliance_status

record 's compliance_ctl =
  cc_reports :: "('s, model_report) kclient"
  cc_profiles :: "('s, compliance_profile) kclient"
  cc_exceptions :: "('s, artifact_exception) kclient"
  cc_compliance :: "('s, compliance_report) kclient"
  cc_own :: "model_report \<Rightarrow> compliance_report \<Rightarrow> string + compliance_report"
  cc_enforcing :: bool
  cc_catalog :: "(string \<times> scanner_def) list"
  cc_now :: "'s \<Rightarrow> go_time \<times> 's"
  cc_digest :: hex_digest

datatype compliance_error =
  Get_Report kerr | List_Profiles kerr | Unsupported_Framework string | List_Exceptions kerr
| Own_Report string | Upsert_Compliance kerr | Update_Compliance kerr | Update_Profile kerr | Nil_Summary

section \<open>Evidence from a security report\<close>

definition scanner_category :: "(string \<times> scanner_def) list \<Rightarrow> string \<Rightarrow> category option" where
  "scanner_category cat n = (case get_scanner cat n of Inl e \<Rightarrow> None | Inr d \<Rightarrow> Some (sd_category d))"

fun aibom_produced :: "(string \<times> scanner_def) list \<Rightarrow> scanner_result list \<Rightarrow> bool" where
  "aibom_produced cat [] \<longleftrightarrow> False"
| "aibom_produced cat (r # rs) \<longleftrightarrow>
     (if scanner_category cat (sr_scanner r) \<noteq> Some AIBOM then aibom_produced cat rs
      else if sr_produced r = Some True then True else aibom_produced cat rs)"

definition residual_risks_documented :: "artifact_exception list \<Rightarrow> bool" where
  "residual_risks_documented exs \<longleftrightarrow>
     list_all (\<lambda>ex. \<not> (ex_reason (ae_spec ex) = [] \<or> ex_approved_by (ae_spec ex) = [])) exs"

definition scan_finished :: "scanner_result list \<Rightarrow> bool" where
  "scan_finished rs \<longleftrightarrow> rs \<noteq> [] \<and> list_all (\<lambda>r. sr_status r \<in> {''Passed'', ''Failed'', ''Skipped''}) rs"

definition category_ran :: "(string \<times> scanner_def) list \<Rightarrow> scanner_result list \<Rightarrow> category \<Rightarrow> bool" where
  "category_ran cat rs c \<longleftrightarrow>
     list_ex (\<lambda>r. sr_status r \<in> {''Passed'', ''Failed''} \<and> scanner_category cat (sr_scanner r) = Some c) rs"

definition build_evidence ::
    "(string \<times> scanner_def) list \<Rightarrow> model_report \<Rightarrow> artifact_exception list \<Rightarrow> bool \<Rightarrow> evidence" where
  "build_evidence cat report exs enforcing =
     (let st = mr_status report; rs = rt_scanners st; ran = category_ran cat rs in
      \<lparr>ev_scan_complete = scan_finished rs, ev_verdict = rt_verdict st, ev_risk_scored = scan_finished rs,
       ev_security_scanned = (ran Malware \<and> ran CVE \<and> ran Model), ev_secrets_scanned = ran Secret,
       ev_sbom_generated = (rt_sbom_ref st \<noteq> [] \<or> ran SBOM), ev_aibom_generated = aibom_produced cat rs,
       ev_signature_verified = rt_signature_verified st, ev_policy_ref = rs_scan_ref (mr_spec report),
       ev_inventoried = (rt_last_scan st \<noteq> None), ev_continuous_monitoring = (rt_last_scan st \<noteq> None),
       ev_admission_enforcing = enforcing, ev_residual_risks_documented = residual_risks_documented exs,
       ev_bias_evaluated = False\<rparr>)"

section \<open>Profiles read\<close>

definition catalog_for :: "string \<Rightarrow> compliance_error + catalog" where
  "catalog_for framework =
     (if framework = nist_ai_rmf_10 \<or> framework = [] then Inr nist_ai_rmf_catalog else Inl (Unsupported_Framework framework))"

definition convert_attestations :: "control_attestation list \<Rightarrow> attestation list" where
  "convert_attestations as =
     map (\<lambda>a. \<lparr>at_control = ca_control a, at_statement = ca_statement a, at_by = ca_by a,
       at_time = (case ca_at a of Some t \<Rightarrow> t | None \<Rightarrow> zero_time),
       at_expires = (case ca_expires a of Some t \<Rightarrow> t | None \<Rightarrow> zero_time), at_uri = ca_uri a\<rparr>) as"

definition convert_scope :: "control_exclusion list \<Rightarrow> string \<rightharpoonup> string" where
  "convert_scope xs = fold (\<lambda>x m. m(ce_control x \<mapsto> ce_justification x)) xs Map.empty"

definition profile_matches :: "compliance_profile \<Rightarrow> string \<Rightarrow> bool" where
  "profile_matches p model \<longleftrightarrow> matches_include_list model (fs_selector (cf_spec p))"

section \<open>Rendering an assessment\<close>

definition truncate_reason :: "string \<Rightarrow> string" where
  "truncate_reason r = (if length r \<le> 400 then r else take 400 r @ ''...'')"

definition control_entry :: "control_outcome \<Rightarrow> control_result" where
  "control_entry r =
     \<lparr>ct_control = co_id (cr_control r), ct_function = function_str (co_function (cr_control r)),
      ct_status = status_str (cr_status r), ct_automation = automation_str (co_automation (cr_control r)),
      ct_reason = truncate_reason (cr_reason r), ct_evidence = map kind_str (cr_seen r),
      ct_attested_by = cr_attested_by r, ct_warning = cr_warning r\<rparr>"

definition count_in_summary :: "control_status \<Rightarrow> function_summary \<Rightarrow> function_summary" where
  "count_in_summary st m =
     (case st of
        Satisfied \<Rightarrow> m\<lparr>fm_satisfied := fm_satisfied m + 1\<rparr>
      | Attested \<Rightarrow> m\<lparr>fm_attested := fm_attested m + 1\<rparr>
      | Partially_Satisfied \<Rightarrow> m\<lparr>fm_partial := fm_partial m + 1\<rparr>
      | Attestation_Required \<Rightarrow> m\<lparr>fm_awaiting := fm_awaiting m + 1\<rparr>
      | Not_Satisfied \<Rightarrow> m\<lparr>fm_not_satisfied := fm_not_satisfied m + 1\<rparr>
      | Not_Applicable \<Rightarrow> m\<lparr>fm_not_applicable := fm_not_applicable m + 1\<rparr>)"

text \<open>
  The summaries are pointers in a map keyed by the four core functions: a result of another function is a
  nil pointer, \<open>None\<close> here.
\<close>

fun summarize :: "control_outcome list \<Rightarrow> (core_function \<rightharpoonup> function_summary) \<Rightarrow> (core_function \<rightharpoonup> function_summary) option" where
  "summarize [] m = Some m"
| "summarize (r # rs) m =
     (case m (co_function (cr_control r)) of
        None \<Rightarrow> None
      | Some x \<Rightarrow> summarize rs (m(co_function (cr_control r) \<mapsto> count_in_summary (cr_status r) x)))"

definition empty_summary :: "core_function \<Rightarrow> function_summary" where
  "empty_summary f =
     \<lparr>fm_function = f, fm_satisfied = 0, fm_attested = 0, fm_partial = 0, fm_awaiting = 0, fm_not_satisfied = 0,
      fm_not_applicable = 0\<rparr>"

definition render_status :: "assessment \<Rightarrow> go_time \<Rightarrow> compliance_status option" where
  "render_status a now =
     (case summarize (am_results a) (\<lambda>f. if f \<in> set core_functions then Some (empty_summary f) else None) of
        None \<Rightarrow> None
      | Some m \<Rightarrow>
          Some \<lparr>cz_conformant = am_conformant a, cz_full = of_nat (cv_full (am_coverage a)),
            cz_partial = of_nat (cv_partial (am_coverage a)), cz_attestation_only = of_nat (cv_none (am_coverage a)),
            cz_total = of_nat (cv_total (am_coverage a)), cz_summary = map (\<lambda>f. the (m f)) core_functions,
            cz_controls = map control_entry (am_results a), cz_unmeasured = map characteristic_str (am_unmeasured a),
            cz_open = of_nat (length (open_controls (am_results a))), cz_message = assessment_summary a,
            cz_assessed = Some now\<rparr>)"

section \<open>Assessing\<close>

text \<open>\<open>controllerutil.CreateOrUpdate\<close> with a mutation that may fail.\<close>

definition create_or_mutate ::
    "('s, 'o) kclient \<Rightarrow> okey \<Rightarrow> 'o \<Rightarrow> ('o \<Rightarrow> string + 'o) \<Rightarrow> 's \<Rightarrow> (compliance_error + 'o \<times> nat) \<times> 's" where
  "create_or_mutate c k fresh f s =
     (case k_get c k s of
        (Inl e, s1) \<Rightarrow>
          (if e = NotFound
           then (case f fresh of
                   Inl m \<Rightarrow> (Inl (Own_Report m), s1)
                 | Inr x \<Rightarrow>
                     (case k_create c k x s1 of
                        (None, s2) \<Rightarrow> (Inr (x, k_version c k s2), s2)
                      | (Some e', s2) \<Rightarrow> (Inl (Upsert_Compliance e'), s2)))
           else (Inl (Upsert_Compliance e), s1))
      | (Inr (x, v), s1) \<Rightarrow>
          (case f x of
             Inl m \<Rightarrow> (Inl (Own_Report m), s1)
           | Inr y \<Rightarrow>
               (if y = x then (Inr (x, v), s1)
                else (case k_update c k (y, v) s1 of
                        (None, s2) \<Rightarrow> (Inr (y, k_version c k s2), s2)
                      | (Some e, s2) \<Rightarrow> (Inl (Upsert_Compliance e), s2)))))"

definition label_profile :: string where "label_profile = ''security.davano.io/profile''"

definition fresh_compliance :: "okey \<Rightarrow> compliance_report" where
  "fresh_compliance k =
     \<lparr>cy_meta = \<lparr>om_name = snd k, om_namespace = fst k, om_uid = [], om_labels = [], om_annotations = [],
        om_owner = None, om_created = 0, om_deleted = None\<rparr>,
      cy_spec = \<lparr>cq_model = [], cq_version = [], cq_framework = [], cq_profile = [], cq_report = []\<rparr>,
      cy_status = \<lparr>cz_conformant = False, cz_full = 0, cz_partial = 0, cz_attestation_only = 0, cz_total = 0,
        cz_summary = [], cz_controls = [], cz_unmeasured = [], cz_open = 0, cz_message = [], cz_assessed = None\<rparr>\<rparr>"

definition describe_compliance ::
    "'s compliance_ctl \<Rightarrow> model_report \<Rightarrow> compliance_profile \<Rightarrow> compliance_report \<Rightarrow> string + compliance_report" where
  "describe_compliance C report profile r =
     (let labels = sm_put label_profile (sanitize_label (om_name (cf_meta profile)))
            (sm_put label_model (sanitize_label (rs_model (mr_spec report)))
              (sm_put label_managed_by manager_name (om_labels (cy_meta r))))
      in cc_own C report
           (r\<lparr>cy_meta := (cy_meta r)\<lparr>om_labels := labels\<rparr>,
              cy_spec := \<lparr>cq_model = rs_model (mr_spec report), cq_version = rs_version (mr_spec report),
                cq_framework = fs_framework (cf_spec profile), cq_profile = om_name (cf_meta profile),
                cq_report = om_name (mr_meta report)\<rparr>\<rparr>))"

definition expired_attestations :: "go_time \<Rightarrow> control_attestation list \<Rightarrow> nat" where
  "expired_attestations now as =
     length (filter (\<lambda>a. case ca_expires a of None \<Rightarrow> False | Some t \<Rightarrow> now > t) as)"

definition update_profile_status ::
    "'s compliance_ctl \<Rightarrow> string \<times> compliance_profile \<times> nat \<Rightarrow> string \<Rightarrow> assessment \<Rightarrow> 's \<Rightarrow> compliance_error option \<times> 's" where
  "update_profile_status C x ns a s =
     (case x of (name, profile, rv) \<Rightarrow>
      case cc_now C s of (now, s1) \<Rightarrow>
        (let profile' = profile\<lparr>cf_status :=
               \<lparr>ft_attested = of_nat (length (fs_attestations (cf_spec profile))),
                ft_excluded = of_nat (length (fs_exclusions (cf_spec profile))),
                ft_expired = of_nat (expired_attestations now (fs_attestations (cf_spec profile))),
                ft_message = coverage_str (am_coverage a)\<rparr>\<rparr>
         in case k_update (cc_profiles C) (ns, name) (profile', rv) s1 of
              (Some e, s2) \<Rightarrow> (Some (Update_Profile e), s2) | (None, s2) \<Rightarrow> (None, s2)))"

definition assess ::
    "'s compliance_ctl \<Rightarrow> string \<Rightarrow> model_report \<Rightarrow> string \<times> compliance_profile \<times> nat \<Rightarrow> 's \<Rightarrow> compliance_error option \<times> 's"
where
  "assess C ns report x s =
     (let profile = fst (snd x); model = rs_model (mr_spec report); version = rs_version (mr_spec report) in
      case catalog_for (fs_framework (cf_spec profile)) of
        Inl e \<Rightarrow> (Some e, s)
      | Inr cat \<Rightarrow>
          (case list_plain (cc_exceptions C) ns s of
             (Inl e, s1) \<Rightarrow> (Some (List_Exceptions e), s1)
           | (Inr exs, s1) \<Rightarrow>
               (case cc_now C s1 of
                  (now, s2) \<Rightarrow>
                    (let ev = build_evidence (cc_catalog C) report (exceptions_for (map snd exs) model version) (cc_enforcing C);
                         a = evaluate_framework cat ev (convert_attestations (fs_attestations (cf_spec profile)))
                               (convert_scope (fs_exclusions (cf_spec profile))) now;
                         key = (ns, stable (cc_digest C) ''cr'' [model, version, om_name (cf_meta profile)])
                     in case create_or_mutate (cc_compliance C) key (fresh_compliance key)
                               (describe_compliance C report profile) s2 of
                          (Inl e, s3) \<Rightarrow> (Some e, s3)
                        | (Inr (stored, rv), s3) \<Rightarrow>
                            (case cc_now C s3 of
                               (now', s4) \<Rightarrow>
                                 (case render_status a now' of
                                    None \<Rightarrow> (Some Nil_Summary, s4)
                                  | Some st \<Rightarrow>
                                      (case k_update (cc_compliance C) key (stored\<lparr>cy_status := st\<rparr>, rv) s4 of
                                         (Some e, s5) \<Rightarrow> (Some (Update_Compliance e), s5)
                                       | (None, s5) \<Rightarrow> update_profile_status C x ns a s5)))))))"

fun assess_all ::
    "'s compliance_ctl \<Rightarrow> string \<Rightarrow> model_report \<Rightarrow> (string \<times> compliance_profile \<times> nat) list \<Rightarrow> 's \<Rightarrow> compliance_error option \<times> 's"
where
  "assess_all C ns report [] s = (None, s)"
| "assess_all C ns report (x # xs) s =
     (if \<not> profile_matches (fst (snd x)) (rs_model (mr_spec report)) then assess_all C ns report xs s
      else (case assess C ns report x s of
              (Some e, s1) \<Rightarrow> (Some e, s1)
            | (None, s1) \<Rightarrow> assess_all C ns report xs s1))"

definition compliance_reconcile :: "'s compliance_ctl \<Rightarrow> okey \<Rightarrow> 's \<Rightarrow> compliance_error reconciled \<times> 's" where
  "compliance_reconcile C key s =
     (case k_get (cc_reports C) key s of
        (Inl e, s1) \<Rightarrow> (if e = NotFound then Done else Failing (Get_Report e), s1)
      | (Inr (report, rv), s1) \<Rightarrow>
          (if rt_last_scan (mr_status report) = None then (Done, s1)
           else
             (case k_list (cc_profiles C) (fst key) s1 of
                (Inl e, s2) \<Rightarrow> (Failing (List_Profiles e), s2)
              | (Inr profiles, s2) \<Rightarrow>
                  (case assess_all C (fst key) report profiles s2 of
                     (Some e, s3) \<Rightarrow> (Failing e, s3)
                   | (None, s3) \<Rightarrow> (Done, s3)))))"

text \<open>The models whose assessment a changed profile may change: all of its namespace.\<close>

definition models_in_namespace :: "'s compliance_ctl \<Rightarrow> compliance_profile \<Rightarrow> 's \<Rightarrow> okey list \<times> 's" where
  "models_in_namespace C p s =
     (case list_plain (cc_reports C) (om_namespace (cf_meta p)) s of
        (Inl e, s1) \<Rightarrow> ([], s1)
      | (Inr xs, s1) \<Rightarrow> (map (\<lambda>x. (om_namespace (cf_meta p), fst x)) xs, s1))"

section \<open>Every control is counted\<close>

definition summary_total :: "function_summary \<Rightarrow> int32" where
  "summary_total m =
     fm_satisfied m + fm_attested m + fm_partial m + fm_awaiting m + fm_not_satisfied m + fm_not_applicable m"

lemma summary_total_count [simp]: "summary_total (count_in_summary st m) = summary_total m + 1"
  by (simp add: summary_total_def count_in_summary_def split: control_status.split)

lemma fm_function_count [simp]: "fm_function (count_in_summary st m) = fm_function m"
  by (simp add: count_in_summary_def split: control_status.split)

lemma summarize_totals:
  assumes "\<forall>r \<in> set rs. m (co_function (cr_control r)) \<noteq> None"
  shows "\<exists>m'. summarize rs m = Some m' \<and>
    (\<forall>f x. m f = Some x \<longrightarrow> (\<exists>y. m' f = Some y \<and>
       summary_total y = summary_total x + of_nat (length (filter (\<lambda>r. co_function (cr_control r) = f) rs))))"
  using assms
proof (induction rs arbitrary: m)
  case Nil
  then show ?case by simp
next
  case (Cons r rs)
  let ?f = "co_function (cr_control r)"
  obtain x where x: "m ?f = Some x" using Cons.prems by auto
  let ?m = "m(?f \<mapsto> count_in_summary (cr_status r) x)"
  have "\<forall>q \<in> set rs. ?m (co_function (cr_control q)) \<noteq> None" using Cons.prems by auto
  from Cons.IH [OF this] obtain m' where m': "summarize rs ?m = Some m'"
    "\<And>f y. ?m f = Some y \<Longrightarrow> \<exists>z. m' f = Some z \<and>
       summary_total z = summary_total y + of_nat (length (filter (\<lambda>r. co_function (cr_control r) = f) rs))" by blast
  have "\<exists>z. m' f = Some z \<and> summary_total z = summary_total y +
      of_nat (length (filter (\<lambda>r. co_function (cr_control r) = f) (r # rs)))" if y: "m f = Some y" for f y
  proof (cases "f = ?f")
    case True
    then show ?thesis using m'(2) [of f "count_in_summary (cr_status r) x"] x y by (auto simp: algebra_simps)
  next
    case False
    then show ?thesis using m'(2) [of f y] y by auto
  qed
  then show ?case using m'(1) x by simp
qed

lemma report_counts:
  "\<exists>z. render_status (evaluate_framework nist_ai_rmf_catalog ev as scope now) t = Some z \<and>
     map summary_total (cz_summary z) = [19, 18, 22, 13] \<and> length (cz_controls z) = 72 \<and> cz_total z = 72 \<and>
     cz_conformant z = am_conformant (evaluate_framework nist_ai_rmf_catalog ev as scope now)"
proof -
  let ?a = "evaluate_framework nist_ai_rmf_catalog ev as scope now"
  let ?m = "\<lambda>f. if f \<in> set core_functions then Some (empty_summary f) else None"
  define rs where "rs = am_results ?a"
  have rs: "map cr_control rs = nist_ai_rmf"
    by (simp add: rs_def evaluate_framework_def nist_ai_rmf_catalog_def sort_ai_rmf Let_def comp_def)
  have n: "length (filter (\<lambda>r. co_function (cr_control r) = f) rs) = length (filter (\<lambda>c. co_function c = f) nist_ai_rmf)" for f
    unfolding rs [symmetric] filter_map by (simp add: comp_def)
  have "\<forall>r \<in> set rs. ?m (co_function (cr_control r)) \<noteq> None"
  proof
    fix r assume "r \<in> set rs"
    then have "cr_control r \<in> set nist_ai_rmf" unfolding rs [symmetric] by simp
    then show "?m (co_function (cr_control r)) \<noteq> None" using ai_rmf_core by simp
  qed
  from summarize_totals [OF this] obtain m where m: "summarize rs ?m = Some m"
    "\<And>f. f \<in> set core_functions \<Longrightarrow> \<exists>y. m f = Some y \<and> summary_total y =
       summary_total (empty_summary f) + of_nat (length (filter (\<lambda>r. co_function (cr_control r) = f) rs))" by auto
  have "summary_total (the (m f)) = of_nat (length (filter (\<lambda>c. co_function c = f) nist_ai_rmf))"
    if "f \<in> set core_functions" for f
    using m(2) [OF that] n [of f] by (auto simp: summary_total_def empty_summary_def)
  then have "map (\<lambda>f. summary_total (the (m f))) core_functions =
      map of_nat (map (\<lambda>f. length (filter (\<lambda>c. co_function c = f) nist_ai_rmf)) core_functions)" by simp
  then have s: "map (\<lambda>f. summary_total (the (m f))) core_functions = [19, 18, 22, 13]"
    unfolding ai_rmf_functions by simp
  have l: "length rs = 72" using rs ai_rmf_size by (metis length_map)
  have tot: "cv_total (am_coverage ?a) = 72"
    by (simp add: evaluate_framework_def coverage_of_def count_coverage_counts nist_ai_rmf_catalog_def sort_ai_rmf
        ai_rmf_size Let_def)
  show ?thesis unfolding render_status_def rs_def [symmetric] m(1) option.case
    using s l tot by (simp add: comp_def)
qed

text \<open>
  The report counts every control once. Rendering an assessment against the AI RMF never meets a
  function without a summary, so it never fails; the summaries are those of the four functions in order,
  whose totals are the numbers of their controls, and the status says conformant and lists results
  exactly as the assessment does.
\<close>

theorem report_counts_every_control:
  "\<exists>z. render_status (evaluate_framework nist_ai_rmf_catalog ev as scope now) t = Some z \<and>
     map summary_total (cz_summary z) = [19, 18, 22, 13] \<and> length (cz_controls z) = 72 \<and> cz_total z = 72 \<and>
     cz_conformant z = am_conformant (evaluate_framework nist_ai_rmf_catalog ev as scope now)"
  by (rule report_counts)

end
