(* ===== verification/Compliance_Safety.thy ===== *)
theory Compliance_Safety
  imports Compliance_Control
begin

text \<open>
  What a stored compliance report rests on, and what one scan is taken to prove.
\<close>

section \<open>The stored report\<close>

lemma create_or_mutate_stored:
  assumes ok: "kclient_ok vz fr env c" and r: "create_or_mutate c k fresh f s = (Inr (x, rv), s')"
  shows "vz s' k = Some (x, rv) \<and> (\<exists>y. f y = Inr x \<or> y = x \<and> f x = Inr x)"
proof -
  obtain g s1 where g: "k_get c k s = (g, s1)" by (rule prod.exhaust)
  show ?thesis
  proof (cases g)
    case (Inl e)
    then obtain y where y: "f fresh = Inr y" "e = NotFound"
      using r g by (auto simp: create_or_mutate_def split: if_splits sum.splits)
    obtain q s2 where q: "k_create c k y s1 = (q, s2)" by (rule prod.exhaust)
    have "q = None" "x = y" "rv = k_version c k s2" "s' = s2"
      using r g Inl y q by (auto simp: create_or_mutate_def split: option.splits)
    then show ?thesis using reply_version(1) [OF ok] q y by blast
  next
    case (Inr p)
    obtain z v where z: "p = (z, v)" by (rule prod.exhaust)
    obtain y where y: "f z = Inr y" using r g Inr z by (auto simp: create_or_mutate_def split: sum.splits)
    show ?thesis
    proof (cases "y = z")
      case True
      then have "x = z" "rv = v" "s' = s1" using r g Inr z y by (auto simp: create_or_mutate_def)
      then show ?thesis using get_cases(2) [OF ok g] Inr z y True by blast
    next
      case False
      obtain q s2 where q: "k_update c k (y, v) s1 = (q, s2)" by (rule prod.exhaust)
      have "q = None" "x = y" "rv = k_version c k s2" "s' = s2"
        using r g Inr z y False q by (auto simp: create_or_mutate_def split: option.splits)
      then show ?thesis using reply_version(2) [OF ok] q y by blast
    qed
  qed
qed


section \<open>A cluster in memory\<close>

record compliance_cluster =
  cl_profiles :: "compliance_profile mem_store"
  cl_compliance :: "compliance_report mem_store"

definition demo_compliance_ctl :: "compliance_cluster compliance_ctl" where
  "demo_compliance_ctl =
     \<lparr>cc_reports = mem_client (\<lambda>w. []) (\<lambda>m w. w),
      cc_profiles = mem_client cl_profiles (\<lambda>m. cl_profiles_update (\<lambda>_. m)),
      cc_exceptions = mem_client (\<lambda>w. []) (\<lambda>m w. w),
      cc_compliance = mem_client cl_compliance (\<lambda>m. cl_compliance_update (\<lambda>_. m)),
      cc_own = (\<lambda>report r. Inr (r\<lparr>cy_meta := (cy_meta r)\<lparr>om_owner := Some (om_uid (mr_meta report))\<rparr>\<rparr>)),
      cc_enforcing = True, cc_catalog = Scanners.catalog, cc_now = (\<lambda>w. (100, w)), cc_digest = one_digest []\<rparr>"

definition demo_profile :: compliance_profile where
  "demo_profile =
     \<lparr>cf_meta = \<lparr>om_name = ''rmf'', om_namespace = ''team'', om_uid = [], om_labels = [], om_annotations = [],
        om_owner = None, om_created = 0, om_deleted = None\<rparr>,
      cf_spec = \<lparr>fs_framework = nist_ai_rmf_10, fs_selector = [], fs_attestations = [], fs_exclusions = [], fs_block = True\<rparr>,
      cf_status = \<lparr>ft_attested = 0, ft_excluded = 0, ft_expired = 0, ft_message = []\<rparr>\<rparr>"

text \<open>One scan of the model has finished; no policy is named anywhere.\<close>

definition demo_security_report :: model_report where
  "demo_security_report =
     (let ran = (\<lambda>n. \<lparr>sr_scanner = n, sr_status = ''Passed'', sr_findings = 0, sr_severities = no_counts,
            sr_drift = no_counts, sr_unexamined = no_counts, sr_produced = None, sr_message = [], sr_report_ref = [],
            sr_completed = Some 1\<rparr>)
      in \<lparr>mr_meta = \<lparr>om_name = ''msr'', om_namespace = ''team'', om_uid = ''u'', om_labels = [], om_annotations = [],
            om_owner = None, om_created = 0, om_deleted = None\<rparr>,
          mr_spec = \<lparr>rs_model = ''fraud'', rs_version = ''v1'',
            rs_artifact = \<lparr>ar_uri = [], ar_digest = [], ar_media_type = [], ar_format = [], ar_size = None\<rparr>,
            rs_scan_ref = ''scan-fraud-v1''\<rparr>,
          mr_status = \<lparr>rt_verdict = verdict_approved, rt_risk = 0, rt_malware = [], rt_secrets = [],
            rt_cves = no_counts, rt_unexamined = no_counts, rt_sbom_ref = [], rt_aibom_ref = [],
            rt_signature_verified = False, rt_scanners = [ran ''syft''], rt_last_scan = Some 1, rt_environments = []\<rparr>\<rparr>)"

definition demo_compliance_cluster :: compliance_cluster where
  "demo_compliance_cluster = \<lparr>cl_profiles = [((''team'', ''rmf''), demo_profile, 1)], cl_compliance = []\<rparr>"

definition demo_assessed :: "compliance_error option \<times> compliance_cluster" where
  "demo_assessed =
     assess demo_compliance_ctl ''team'' demo_security_report (''rmf'', demo_profile, 1) demo_compliance_cluster"

lemma demo_assess_runs: "fst demo_assessed = None"
proof -
  define a where "a = evaluate_framework nist_ai_rmf_catalog
      (build_evidence Scanners.catalog demo_security_report [] True) [] Map.empty 100"
  obtain z where z: "render_status a 100 = Some z" unfolding a_def using report_counts by blast
  have e: "evaluate_framework nist_ai_rmf_catalog (build_evidence (cc_catalog demo_compliance_ctl) demo_security_report
      (exceptions_for [] m v) (cc_enforcing demo_compliance_ctl)) (convert_attestations [])
      (convert_scope []) 100 = a" for m v
    by (simp add: a_def demo_compliance_ctl_def exceptions_for_def convert_attestations_def convert_scope_def)
  have c: "catalog_for (fs_framework (cf_spec demo_profile)) = Inr nist_ai_rmf_catalog"
    by (simp add: catalog_for_def demo_profile_def)
  have p: "fs_attestations (cf_spec demo_profile) = []" "fs_exclusions (cf_spec demo_profile) = []"
    by (simp_all add: demo_profile_def)
  have l: "list_plain (cc_exceptions demo_compliance_ctl) ''team'' w = (Inr [], w)"
    "cc_now demo_compliance_ctl w = (100, w)" for w
    by (simp_all add: demo_compliance_ctl_def mem_client_def list_plain_def mem_list_def)
  obtain y where y: "describe_compliance demo_compliance_ctl demo_security_report demo_profile (fresh_compliance k) = Inr (y k)" for k
    by (auto simp: describe_compliance_def demo_compliance_ctl_def Let_def)
  have m: "create_or_mutate (cc_compliance demo_compliance_ctl) k (fresh_compliance k)
      (describe_compliance demo_compliance_ctl demo_security_report demo_profile) demo_compliance_cluster
      = (Inr (y k, 1), demo_compliance_cluster\<lparr>cl_compliance := [(k, y k, 1)]\<rparr>)" for k
    using y [of k] by (simp add: create_or_mutate_def) (simp add: demo_compliance_ctl_def mem_client_def demo_compliance_cluster_def)
  have u: "k_update (cc_compliance demo_compliance_ctl) k (b, 1) (demo_compliance_cluster\<lparr>cl_compliance := [(k, y', 1)]\<rparr>)
      = (None, demo_compliance_cluster\<lparr>cl_compliance := [(k, b, 2)]\<rparr>)" for k b y'
    by (simp add: demo_compliance_ctl_def mem_client_def demo_compliance_cluster_def)
  have f: "fst (update_profile_status demo_compliance_ctl (''rmf'', demo_profile, 1) ''team'' a
      (demo_compliance_cluster\<lparr>cl_compliance := m\<rparr>)) = None" for m
    by (simp add: update_profile_status_def Let_def l) (simp add: demo_compliance_ctl_def mem_client_def demo_compliance_cluster_def)
  show ?thesis
    unfolding demo_assessed_def assess_def Let_def snd_conv fst_conv c sum.case l prod.case list.map e p m z option.case u
    by (rule f)
qed


section \<open>What one scan is taken to prove\<close>

text \<open>
  One scan reads as monitoring under a policy. The evidence of a governing policy is the name of
  the scan, and the evidence of continued monitoring is that there was a scan. So after a single finished scan,
  under no policy and with no rescan ever due, the control for regular monitoring under recorded policy
  (MANAGE 3.1) is satisfied without any attestation, as soon as a bill of materials was produced.
\<close>

theorem one_scan_reads_as_monitoring:
  assumes over: "scan_finished (rt_scanners (mr_status report))" and last: "rt_last_scan (mr_status report) \<noteq> None"
    and ref: "rs_scan_ref (mr_spec report) \<noteq> []"
    and sbom: "rt_sbom_ref (mr_status report) \<noteq> [] \<or> category_ran cat (rt_scanners (mr_status report)) SBOM"
    and c: "c \<in> set nist_ai_rmf" "co_id c = ''MANAGE 3.1''" and scope: "scope (co_id c) = None"
  shows "cr_status (evaluate_control c (observed_evidence (build_evidence cat report exs enforcing)) attested scope now)
    = Satisfied"
proof -
  let ?ev = "observed_evidence (build_evidence cat report exs enforcing)"
  have "list_all (\<lambda>(i, f, g, a, e). i = ''MANAGE 3.1'' \<longrightarrow> a = Auto_Full \<and> e = [Ev_Scan_History, Ev_Policy, Ev_SBOM])
      (map control_row nist_ai_rmf)"
    unfolding nist_ai_rmf_def map_append ai_rmf_rows by simp
  from ai_rmf_all [OF this c(1)] have row: "co_automation c = Auto_Full" "co_evidence c = [Ev_Scan_History, Ev_Policy, Ev_SBOM]"
    using c(2) by (simp_all add: control_row_def)
  have "?ev Ev_Scan_History" "?ev Ev_Policy" "?ev Ev_SBOM"
    using over last ref sbom by (auto simp: observed_evidence_def build_evidence_def Let_def)
  then have "filter (\<lambda>k. \<not> ?ev k) (co_evidence c) = []" by (simp add: row)
  then show ?thesis unfolding evaluate_control_def Let_def scope option.case row(1) automation.case by simp
qed

lemma manage_31: "\<exists>c. c \<in> set nist_ai_rmf \<and> co_id c = ''MANAGE 3.1''"
proof -
  have "''MANAGE 3.1'' \<in> set (map fst (map control_row nist_ai_rmf))"
    unfolding nist_ai_rmf_def map_append ai_rmf_rows by simp
  then show ?thesis by (auto simp: control_row_def)
qed

theorem one_scan_reads_as_monitoring_witness:
  "\<exists>c. co_id c = ''MANAGE 3.1'' \<and>
     cr_status (evaluate_control c (observed_evidence (build_evidence Scanners.catalog demo_security_report [] False))
       Map.empty Map.empty 100) = Satisfied"
proof -
  obtain c where c: "c \<in> set nist_ai_rmf" "co_id c = ''MANAGE 3.1''" using manage_31 by blast
  have r: "scan_finished (rt_scanners (mr_status demo_security_report))"
    "rt_last_scan (mr_status demo_security_report) \<noteq> None" "rs_scan_ref (mr_spec demo_security_report) \<noteq> []"
    by (simp_all add: demo_security_report_def scan_finished_def Let_def)
  have "category_ran Scanners.catalog (rt_scanners (mr_status demo_security_report)) SBOM" by code_simp
  from one_scan_reads_as_monitoring [OF r disjI2 [OF this] c, where scope = Map.empty and attested = Map.empty
      and exs = "[]" and enforcing = False and now = 100]
  show ?thesis using c(2) by auto
qed

end
