(* ===== verification/Scan_Job.thy ===== *)
theory Scan_Job
  imports Scanners Trust_Policy Artifact_Scan
begin

text \<open>
  The Job of one scanner against one artifact (\<open>internal/controller/jobs.go\<close>): a pod that fetches the
  artifact, scans it and publishes the report.  The parts of the Kubernetes types the code fills in are
  records; a quantity of resources is a value of the type parameter \<open>'q\<close>, read from text by the
  library (\<open>quantities\<close>).
\<close>

section \<open>The parts of a pod\<close>

record 'q quantities =
  qt_parse :: "string \<Rightarrow> 'q"
  qt_is_zero :: "'q \<Rightarrow> bool"

record 'q resource_req =
  rq_requests :: "(string \<times> 'q) list"
  rq_limits :: "(string \<times> 'q) list"

text \<open>A scanner of a policy, with the resources it asks for.\<close>

record 'q sized_spec = scanner_spec +
  sn_resources :: "'q resource_req"

datatype projection =
    Token_Projection string int64
  | Map_Projection string "(string \<times> string) list"
  | Downward_Projection "(string \<times> string) list"

datatype 'q volume_source =
    Empty_Dir "'q option"
  | Projected "projection list"
  | Claim string bool
  | Secret_Files string "(string \<times> string) list"
  | Map_Files string bool

record 'q volume =
  vo_name :: string
  vo_source :: "'q volume_source"

record volume_mount =
  vm_name :: string
  vm_path :: string
  vm_read_only :: bool

text \<open>A variable has a value, or names a key of a secret (and whether it may be missing).\<close>

record env_var =
  ev_name :: string
  ev_value :: string
  ev_secret :: "(secret_key_ref \<times> bool) option"

record security_context =
  sx_escalation :: "bool option"
  sx_read_only_root :: "bool option"
  sx_non_root :: "bool option"
  sx_drop :: "string list"
  sx_seccomp :: "string option"

record 'q pod_container =
  pc_name :: string
  pc_image :: string
  pc_command :: "string list"
  pc_args :: "string list"
  pc_env :: "env_var list"
  pc_mounts :: "volume_mount list"
  pc_security :: security_context
  pc_resources :: "'q resource_req"

record 'q pod_spec =
  pd_restart :: string
  pd_account :: string
  pd_automount :: "bool option"
  pd_non_root :: "bool option"
  pd_seccomp :: "string option"
  pd_volumes :: "'q volume list"
  pd_init :: "'q pod_container list"
  pd_containers :: "'q pod_container list"

record 'q scan_job_object =
  jb_name :: string
  jb_namespace :: string
  jb_labels :: str_map
  jb_backoff :: "int32 option"
  jb_deadline :: "int64 option"
  jb_ttl :: "int32 option"
  jb_pod_labels :: str_map
  jb_pod :: "'q pod_spec"

definition pod_steps :: "'q pod_spec \<Rightarrow> 'q pod_container list" where
  "pod_steps p = pd_init p @ pd_containers p"

record 'q job_config =
  jc_operator_image :: string
  jc_registry :: string
  jc_account :: string
  jc_pull_secret :: string
  jc_storage_secret :: string
  jc_workspace_size :: 'q
  jc_tmp_size :: 'q
  jc_ttl_after :: int32

section \<open>Paths\<close>

definition workspace_path :: string where "workspace_path = ''/workspace''"
definition results_path :: string where "results_path = ''/results''"
definition tmp_path :: string where "tmp_path = ''/tmp''"
definition pvc_mount_root :: string where "pvc_mount_root = ''/mnt/pvc''"
definition trust_mount_path :: string where "trust_mount_path = ''/trust''"
definition label_scanner :: string where "label_scanner = ''security.davano.io/scanner''"
definition pvc_scheme :: string where "pvc_scheme = ''pvc://''"

definition pvc_claim_of :: "string \<Rightarrow> string option" where
  "pvc_claim_of uri =
     (if take (length pvc_scheme) uri \<noteq> pvc_scheme then None
      else (let rest = drop (length pvc_scheme) uri; claim = takeWhile (\<lambda>c. c \<noteq> CHR ''/'') rest
            in if claim = [] then None else Some claim))"

text \<open>\<open>strings.ReplaceAll\<close>, for the text to replace the code gives it, which is not empty.\<close>

function replace_all :: "string \<Rightarrow> string \<Rightarrow> string \<Rightarrow> string" where
  "replace_all old new [] = []"
| "replace_all old new (c # cs) =
     (if old \<noteq> [] \<and> take (length old) (c # cs) = old
      then new @ replace_all old new (drop (length old) (c # cs))
      else c # replace_all old new cs)"
  by pat_completeness auto
termination
  by (relation "measure (\<lambda>(old, new, s). length s)") auto

definition substitute_paths :: "string list \<Rightarrow> string list" where
  "substitute_paths args =
     map (\<lambda>a. replace_all trust_placeholder (trust_mount_path @ ''/'' @ trust_policy_key)
                (replace_all res_placeholder results_path
                   (replace_all ws_placeholder workspace_path a)))
       args"

section \<open>Volumes and mounts\<close>

definition token_volume_name :: string where "token_volume_name = ''kube-api-access''"

definition base_volumes :: "'q \<Rightarrow> 'q \<Rightarrow> 'q volume list" where
  "base_volumes ws tmp =
     [\<lparr>vo_name = ''workspace'', vo_source = Empty_Dir (Some ws)\<rparr>,
      \<lparr>vo_name = ''results'', vo_source = Empty_Dir None\<rparr>,
      \<lparr>vo_name = ''tmp'', vo_source = Empty_Dir (Some tmp)\<rparr>]"

definition base_mounts :: "volume_mount list" where
  "base_mounts =
     [\<lparr>vm_name = ''workspace'', vm_path = workspace_path, vm_read_only = False\<rparr>,
      \<lparr>vm_name = ''results'', vm_path = results_path, vm_read_only = False\<rparr>,
      \<lparr>vm_name = ''tmp'', vm_path = tmp_path, vm_read_only = False\<rparr>]"

definition token_volume :: "'q volume" where
  "token_volume =
     \<lparr>vo_name = token_volume_name,
      vo_source = Projected
        [Token_Projection ''token'' 3600,
         Map_Projection ''kube-root-ca.crt'' [(''ca.crt'', ''ca.crt'')],
         Downward_Projection [(''namespace'', ''metadata.namespace'')]]\<rparr>"

definition publish_mounts :: "volume_mount list" where
  "publish_mounts =
     base_mounts @
     [\<lparr>vm_name = token_volume_name, vm_path = ''/var/run/secrets/kubernetes.io/serviceaccount'', vm_read_only = True\<rparr>]"

definition pvc_volumes :: "string \<Rightarrow> 'q volume list" where
  "pvc_volumes uri =
     (case pvc_claim_of uri of None \<Rightarrow> []
      | Some claim \<Rightarrow> [\<lparr>vo_name = ''artifact-pvc'', vo_source = Claim claim True\<rparr>])"

definition pvc_mounts :: "string \<Rightarrow> volume_mount list" where
  "pvc_mounts uri =
     (case pvc_claim_of uri of None \<Rightarrow> []
      | Some claim \<Rightarrow> [\<lparr>vm_name = ''artifact-pvc'', vm_path = pvc_mount_root @ ''/'' @ claim, vm_read_only = True\<rparr>])"

definition pull_volumes :: "'q job_config \<Rightarrow> 'q volume list" where
  "pull_volumes cfg =
     (if jc_pull_secret cfg = [] then []
      else [\<lparr>vo_name = ''pull-secret'',
             vo_source = Secret_Files (jc_pull_secret cfg) [(''.dockerconfigjson'', ''config.json'')]\<rparr>])"

definition pull_mounts :: "'q job_config \<Rightarrow> volume_mount list" where
  "pull_mounts cfg =
     (if jc_pull_secret cfg = [] then []
      else [\<lparr>vm_name = ''pull-secret'', vm_path = ''/docker'', vm_read_only = True\<rparr>])"

definition fetch_mounts :: "'q job_config \<Rightarrow> string \<Rightarrow> volume_mount list" where
  "fetch_mounts cfg uri = base_mounts @ pvc_mounts uri @ pull_mounts cfg"

definition trust_volumes :: "scanner_def \<Rightarrow> 'q volume list" where
  "trust_volumes d =
     (if sd_category d = Provenance
      then [\<lparr>vo_name = ''trust-policy'', vo_source = Map_Files trust_policy_map True\<rparr>] else [])"

definition scan_mounts :: "scanner_def \<Rightarrow> volume_mount list" where
  "scan_mounts d =
     base_mounts @
     (if sd_category d = Provenance
      then [\<lparr>vm_name = ''trust-policy'', vm_path = trust_mount_path, vm_read_only = True\<rparr>] else [])"

definition scan_volumes :: "'q \<Rightarrow> 'q \<Rightarrow> 'q job_config \<Rightarrow> string \<Rightarrow> scanner_def \<Rightarrow> 'q volume list" where
  "scan_volumes ws tmp cfg uri d =
     base_volumes ws tmp @ [token_volume] @ pvc_volumes uri @ pull_volumes cfg @ trust_volumes d"

section \<open>Environment, resources and hardening\<close>

definition secret_env :: "string \<Rightarrow> string \<Rightarrow> string \<Rightarrow> env_var" where
  "secret_env secret name key =
     \<lparr>ev_name = name, ev_value = [], ev_secret = Some (\<lparr>skr_name = secret, skr_key = key\<rparr>, True)\<rparr>"

definition fetch_env :: "'q job_config \<Rightarrow> env_var list" where
  "fetch_env cfg =
     \<lparr>ev_name = ''DOCKER_CONFIG'', ev_value = ''/docker'', ev_secret = None\<rparr> #
     (let s = jc_storage_secret cfg
      in if s = [] then []
         else [secret_env s ''AWS_ACCESS_KEY_ID'' ''AWS_ACCESS_KEY_ID'',
               secret_env s ''AWS_SECRET_ACCESS_KEY'' ''AWS_SECRET_ACCESS_KEY'',
               secret_env s ''AWS_S3_ENDPOINT'' ''AWS_S3_ENDPOINT'',
               secret_env s ''AWS_REGION'' ''AWS_DEFAULT_REGION''])"

definition hardened :: security_context where
  "hardened =
     \<lparr>sx_escalation = Some False, sx_read_only_root = Some True, sx_non_root = Some True,
      sx_drop = [''ALL''], sx_seccomp = Some ''RuntimeDefault''\<rparr>"

definition staging_resources :: "'q quantities \<Rightarrow> 'q \<Rightarrow> string \<Rightarrow> 'q resource_req" where
  "staging_resources qt ws mem =
     \<lparr>rq_requests = [(''cpu'', qt_parse qt ''200m''), (''memory'', qt_parse qt ''512Mi''), (''ephemeral-storage'', ws)],
      rq_limits = [(''cpu'', qt_parse qt ''2''), (''memory'', qt_parse qt mem)]\<rparr>"

definition publish_resources :: "'q quantities \<Rightarrow> 'q resource_req" where
  "publish_resources qt =
     \<lparr>rq_requests = [(''cpu'', qt_parse qt ''100m''), (''memory'', qt_parse qt ''128Mi'')],
      rq_limits = [(''cpu'', qt_parse qt ''500m''), (''memory'', qt_parse qt ''512Mi'')]\<rparr>"

definition scan_resources :: "'q quantities \<Rightarrow> 'q \<Rightarrow> 'q sized_spec option \<Rightarrow> 'q resource_req" where
  "scan_resources qt ws spec =
     (case spec of
        Some sp \<Rightarrow>
          if rq_requests (sn_resources sp) \<noteq> [] \<or> rq_limits (sn_resources sp) \<noteq> [] then sn_resources sp
          else staging_resources qt ws ''4Gi''
      | None \<Rightarrow> staging_resources qt ws ''4Gi'')"

section \<open>The three steps\<close>

definition scan_image :: "'q job_config \<Rightarrow> scanner_def \<Rightarrow> 'q sized_spec option \<Rightarrow> string" where
  "scan_image cfg d spec =
     (case spec of
        Some sp \<Rightarrow> if sn_image sp \<noteq> [] then sn_image sp else resolve_image d (jc_registry cfg) (jc_operator_image cfg)
      | None \<Rightarrow> resolve_image d (jc_registry cfg) (jc_operator_image cfg))"

definition scan_args :: "scanner_def \<Rightarrow> 'q sized_spec option \<Rightarrow> string list" where
  "scan_args d spec =
     substitute_paths (case spec of Some sp \<Rightarrow> if sn_args sp \<noteq> [] then sn_args sp else sd_args d | None \<Rightarrow> sd_args d)"

definition scan_timeout :: "'q sized_spec option \<Rightarrow> int64" where
  "scan_timeout spec = (case spec of Some sp \<Rightarrow> (case sn_timeout sp of Some t \<Rightarrow> t | None \<Rightarrow> 1800) | None \<Rightarrow> 1800)"

definition artifact_json :: string where "artifact_json = results_path @ ''/artifact.json''"

definition fetch_step :: "'q quantities \<Rightarrow> 'q job_config \<Rightarrow> 'q \<Rightarrow> string \<Rightarrow> 'q pod_container" where
  "fetch_step qt cfg ws uri =
     \<lparr>pc_name = ''fetch'', pc_image = jc_operator_image cfg, pc_command = [''/cupel-runner''],
      pc_args = [''fetch'', ''--uri'', uri, ''--dest'', workspace_path, ''--metadata'', artifact_json],
      pc_env = fetch_env cfg, pc_mounts = fetch_mounts cfg uri, pc_security = hardened,
      pc_resources = staging_resources qt ws ''2Gi''\<rparr>"

definition scan_step ::
    "'q quantities \<Rightarrow> 'q job_config \<Rightarrow> 'q \<Rightarrow> scanner_def \<Rightarrow> 'q sized_spec option \<Rightarrow> 'q pod_container" where
  "scan_step qt cfg ws d spec =
     \<lparr>pc_name = ''scan'', pc_image = scan_image cfg d spec, pc_command = substitute_paths (sd_command d),
      pc_args = scan_args d spec, pc_env = [], pc_mounts = scan_mounts d, pc_security = hardened,
      pc_resources = scan_resources qt ws spec\<rparr>"

definition publish_step :: "'q quantities \<Rightarrow> 'q job_config \<Rightarrow> artifact_scan \<Rightarrow> scanner_def \<Rightarrow> 'q pod_container" where
  "publish_step qt cfg scan d =
     \<lparr>pc_name = ''publish'', pc_image = jc_operator_image cfg, pc_command = [''/cupel-runner''],
      pc_args = [''publish'', ''--scan'', om_name (as_meta scan), ''--namespace'', om_namespace (as_meta scan),
                 ''--scanner'', sd_name d, ''--format'', sd_format d,
                 ''--results'', results_path @ ''/'' @ sd_output d, ''--metadata'', artifact_json],
      pc_env = [], pc_mounts = publish_mounts, pc_security = hardened,
      pc_resources = publish_resources qt\<rparr>"

definition build_scan_job ::
    "hex_digest \<Rightarrow> 'q quantities \<Rightarrow> 'q job_config \<Rightarrow> artifact_scan \<Rightarrow> scanner_def \<Rightarrow> 'q sized_spec option \<Rightarrow>
     string + 'q scan_job_object"
where
  "build_scan_job D qt cfg scan d spec =
     (if jc_operator_image cfg = [] then Inl ''operator image is not configured''
      else
        (let uri = ar_uri (ss_artifact (as_spec scan));
             ws = (if qt_is_zero qt (jc_workspace_size cfg) then qt_parse qt ''12Gi'' else jc_workspace_size cfg);
             tmp = (if qt_is_zero qt (jc_tmp_size cfg) then qt_parse qt ''4Gi'' else jc_tmp_size cfg);
             labels = [(label_scan, om_name (as_meta scan)), (label_scanner, sd_name d), (label_managed_by, manager_name)]
         in Inr
              \<lparr>jb_name = scan_job D (om_name (as_meta scan)) (sd_name d),
               jb_namespace = om_namespace (as_meta scan), jb_labels = labels,
               jb_backoff = Some 1, jb_deadline = Some (scan_timeout spec), jb_ttl = Some (jc_ttl_after cfg),
               jb_pod_labels = labels,
               jb_pod =
                 \<lparr>pd_restart = ''Never'', pd_account = jc_account cfg, pd_automount = Some False,
                  pd_non_root = Some True, pd_seccomp = Some ''RuntimeDefault'',
                  pd_volumes = scan_volumes ws tmp cfg uri d,
                  pd_init = [fetch_step qt cfg ws uri, scan_step qt cfg ws d spec],
                  pd_containers = [publish_step qt cfg scan d]\<rparr>\<rparr>))"


text \<open>The builder the scan controller is given: a scanner of the policy keeps the resources it was read with.\<close>

definition job_builder ::
    "hex_digest \<Rightarrow> 'q quantities \<Rightarrow> 'q job_config \<Rightarrow> (scanner_spec \<Rightarrow> 'q resource_req) \<Rightarrow>
     artifact_scan \<Rightarrow> scanner_def \<Rightarrow> scanner_spec option \<Rightarrow> string + 'q scan_job_object"
where
  "job_builder D qt cfg res scan d spec =
     build_scan_job D qt cfg scan d
       (map_option (\<lambda>sp. scanner_spec.extend sp (sized_spec.fields (res sp))) spec)"

section \<open>What a built Job is\<close>

lemma build_scan_job_cases:
  assumes "build_scan_job D qt cfg scan d spec = Inr job"
  obtains ws tmp where
    "jc_operator_image cfg \<noteq> []"
    "jb_name job = scan_job D (om_name (as_meta scan)) (sd_name d)" "jb_namespace job = om_namespace (as_meta scan)"
    "pd_automount (jb_pod job) = Some False" "pd_non_root (jb_pod job) = Some True"
    "pd_volumes (jb_pod job) = scan_volumes ws tmp cfg (ar_uri (ss_artifact (as_spec scan))) d"
    "pod_steps (jb_pod job) =
       [fetch_step qt cfg ws (ar_uri (ss_artifact (as_spec scan))), scan_step qt cfg ws d spec, publish_step qt cfg scan d]"
proof -
  have "jc_operator_image cfg \<noteq> []" using assms by (auto simp: build_scan_job_def)
  moreover from this assms have "job = projr (build_scan_job D qt cfg scan d spec)" by simp
  ultimately show thesis
    by (intro that) (simp_all add: build_scan_job_def Let_def pod_steps_def)
qed

text \<open>What a volume holds that a container must not be handed lightly.\<close>

definition holds_token :: "'q volume_source \<Rightarrow> bool" where
  "holds_token v \<longleftrightarrow>
     (case v of Projected ps \<Rightarrow> list_ex (\<lambda>p. case p of Token_Projection q n \<Rightarrow> True | _ \<Rightarrow> False) ps | _ \<Rightarrow> False)"

definition holds_secret :: "'q volume_source \<Rightarrow> bool" where
  "holds_secret v \<longleftrightarrow> (case v of Secret_Files n items \<Rightarrow> True | _ \<Rightarrow> False)"

definition scratch_space :: "'q volume_source \<Rightarrow> bool" where
  "scratch_space v \<longleftrightarrow> (case v of Empty_Dir q \<Rightarrow> True | _ \<Rightarrow> False)"

text \<open>The volumes of a pod a container mounts.\<close>

definition mounted :: "'q pod_spec \<Rightarrow> 'q pod_container \<Rightarrow> ('q volume \<times> volume_mount) list" where
  "mounted p c =
     concat (map (\<lambda>m. map (\<lambda>v. (v, m)) (filter (\<lambda>v. vo_name v = vm_name m) (pd_volumes p))) (pc_mounts c))"

lemmas volume_defs =
  scan_volumes_def base_volumes_def token_volume_def pvc_volumes_def pull_volumes_def trust_volumes_def
  base_mounts_def publish_mounts_def pvc_mounts_def pull_mounts_def fetch_mounts_def scan_mounts_def
  token_volume_name_def

lemmas step_defs = fetch_step_def scan_step_def publish_step_def

lemma scan_volumes_distinct: "distinct (map vo_name (scan_volumes ws tmp cfg uri d))"
  by (simp add: volume_defs split: option.split)

lemma scan_volume_sources:
  assumes "v \<in> set (scan_volumes ws tmp cfg uri d)"
  shows "holds_token (vo_source v) \<longleftrightarrow> vo_name v = ''kube-api-access''"
    and "holds_secret (vo_source v) \<longleftrightarrow> vo_name v = ''pull-secret''"
    and "scratch_space (vo_source v) \<longleftrightarrow> vo_name v \<in> {''workspace'', ''results'', ''tmp''}"
  using assms
  by (auto simp: volume_defs holds_token_def holds_secret_def scratch_space_def split: option.splits if_splits)

lemma mount_names:
  "vm_name ` set (fetch_mounts cfg uri) \<subseteq> {''workspace'', ''results'', ''tmp'', ''artifact-pvc'', ''pull-secret''}"
  "vm_name ` set (scan_mounts d) \<subseteq> {''workspace'', ''results'', ''tmp'', ''trust-policy''}"
  "vm_name ` set publish_mounts \<subseteq> {''workspace'', ''results'', ''tmp'', ''kube-api-access''}"
  by (auto simp: volume_defs split: option.splits)

lemma mounted_iff: "(v, m) \<in> set (mounted p c) \<longleftrightarrow> v \<in> set (pd_volumes p) \<and> m \<in> set (pc_mounts c) \<and> vo_name v = vm_name m"
  by (auto simp: mounted_def)

lemma mount_modes:
  "m \<in> set (fetch_mounts cfg uri) \<union> set (scan_mounts d) \<union> set publish_mounts \<Longrightarrow>
   vm_read_only m \<longleftrightarrow> vm_name m \<notin> {''workspace'', ''results'', ''tmp''}"
  by (auto simp: volume_defs split: option.splits if_splits)

lemma mounts_declared:
  "list_all (\<lambda>m. list_ex (\<lambda>v. vo_name v = vm_name m) (scan_volumes ws tmp cfg uri d)) (fetch_mounts cfg uri)"
  "list_all (\<lambda>m. list_ex (\<lambda>v. vo_name v = vm_name m) (scan_volumes ws tmp cfg uri d)) (scan_mounts d)"
  "list_all (\<lambda>m. list_ex (\<lambda>v. vo_name v = vm_name m) (scan_volumes ws tmp cfg uri d)) publish_mounts"
  by (simp_all add: volume_defs split: option.split)

lemmas mounts_are_declared = mounts_declared [unfolded list_all_iff list_ex_iff]

section \<open>Properties\<close>

text \<open>
  Claim C14. The step that parses hostile bytes holds no credential.  In the pod of a scan the service
  account's token is not mounted by the kubelet; the volume that carries it is mounted in the
  \<open>publish\<close> step alone; volumes of secrets and variables read from secrets reach the \<open>fetch\<close> step alone;
  and the two steps that hold a credential run the operator's own image, whatever image, arguments and
  resources the policy gives the scanner.
\<close>

theorem scanner_holds_no_credentials:
  assumes "build_scan_job D qt cfg scan d spec = Inr job"
  shows "pd_automount (jb_pod job) = Some False \<and>
         (\<forall>c \<in> set (pod_steps (jb_pod job)).
           (\<forall>(v, m) \<in> set (mounted (jb_pod job) c).
              (holds_token (vo_source v) \<longrightarrow> pc_name c = ''publish'') \<and>
              (holds_secret (vo_source v) \<longrightarrow> pc_name c = ''fetch'')) \<and>
           ((\<exists>e \<in> set (pc_env c). ev_secret e \<noteq> None) \<longrightarrow> pc_name c = ''fetch'') \<and>
           (pc_name c \<noteq> ''scan'' \<longrightarrow> pc_image c = jc_operator_image cfg))"
proof -
  from assms obtain ws tmp where j: "pd_automount (jb_pod job) = Some False"
    "pd_volumes (jb_pod job) = scan_volumes ws tmp cfg (ar_uri (ss_artifact (as_spec scan))) d"
    "pod_steps (jb_pod job) =
       [fetch_step qt cfg ws (ar_uri (ss_artifact (as_spec scan))), scan_step qt cfg ws d spec, publish_step qt cfg scan d]"
    by (rule build_scan_job_cases)
  note names = mount_names(1) [of cfg "ar_uri (ss_artifact (as_spec scan))"] mount_names(2) [of d] mount_names(3)
  have "\<forall>(v, m) \<in> set (mounted (jb_pod job) c).
          (holds_token (vo_source v) \<longrightarrow> pc_name c = ''publish'') \<and> (holds_secret (vo_source v) \<longrightarrow> pc_name c = ''fetch'')"
    if "c \<in> set (pod_steps (jb_pod job))" for c
    using that names unfolding j(3) by (fastforce simp: mounted_iff j(2) scan_volume_sources step_defs)
  then show ?thesis by (simp add: j(1) j(3)) (simp add: step_defs)
qed

text \<open>
  The pod is closed.  Every step runs without privileges: no escalation, a read-only root, no
  root user, no capabilities and the runtime's seccomp profile.  Every mount names exactly one declared volume, and
  everything but the three scratch directories is mounted read-only, the claim that holds the artifact
  included.
\<close>

theorem scan_pod_is_closed:
  assumes "build_scan_job D qt cfg scan d spec = Inr job"
  shows "pd_non_root (jb_pod job) = Some True \<and>
         (\<forall>c \<in> set (pod_steps (jb_pod job)).
            pc_security c = hardened \<and>
            (\<forall>m \<in> set (pc_mounts c).
               (\<exists>!v. v \<in> set (pd_volumes (jb_pod job)) \<and> vo_name v = vm_name m) \<and>
               (\<forall>v \<in> set (pd_volumes (jb_pod job)). vo_name v = vm_name m \<longrightarrow>
                  (vm_read_only m \<longleftrightarrow> \<not> scratch_space (vo_source v)))))"
proof -
  from assms obtain ws tmp where j: "pd_non_root (jb_pod job) = Some True"
    "pd_volumes (jb_pod job) = scan_volumes ws tmp cfg (ar_uri (ss_artifact (as_spec scan))) d"
    "pod_steps (jb_pod job) =
       [fetch_step qt cfg ws (ar_uri (ss_artifact (as_spec scan))), scan_step qt cfg ws d spec, publish_step qt cfg scan d]"
    by (rule build_scan_job_cases)
  define vs where "vs = scan_volumes ws tmp cfg (ar_uri (ss_artifact (as_spec scan))) d"
  have d: "distinct (map vo_name vs)" unfolding vs_def by (rule scan_volumes_distinct)
  have one: "\<exists>!v. v \<in> set vs \<and> vo_name v = n" if "n \<in> vo_name ` set vs" for n
    using that d by (auto simp: distinct_map dest: inj_onD)
  have mode: "vm_read_only m \<longleftrightarrow> \<not> scratch_space (vo_source v)"
    if "m \<in> set (fetch_mounts cfg (ar_uri (ss_artifact (as_spec scan)))) \<union> set (scan_mounts d) \<union> set publish_mounts"
      "v \<in> set vs" "vo_name v = vm_name m" for m v
    using mount_modes [OF that(1)] scan_volume_sources(3) [OF that(2) [unfolded vs_def]] that(3) by simp
  have c: "pc_security c = hardened \<and> (\<forall>m \<in> set (pc_mounts c). \<exists>v \<in> set vs. vo_name v = vm_name m) \<and>
      set (pc_mounts c) \<subseteq> set (fetch_mounts cfg (ar_uri (ss_artifact (as_spec scan)))) \<union> set (scan_mounts d) \<union> set publish_mounts"
    if "c \<in> set (pod_steps (jb_pod job))" for c
    using that mounts_are_declared [where cfg = cfg and uri = "ar_uri (ss_artifact (as_spec scan))" and d = d and ws = ws and tmp = tmp]
    unfolding j(3) vs_def by (auto simp: step_defs)
  show ?thesis
    unfolding j(2) vs_def [symmetric] using j(1)
  proof (intro conjI ballI impI)
    fix c' m
    assume c': "c' \<in> set (pod_steps (jb_pod job))" and m: "m \<in> set (pc_mounts c')"
    then have n: "vm_name m \<in> vo_name ` set vs" using c [OF c'] by (auto simp: image_iff eq_commute)
    show "\<exists>!v. v \<in> set vs \<and> vo_name v = vm_name m" by (rule one [OF n])
    fix v
    assume "v \<in> set vs" "vo_name v = vm_name m"
    with c [OF c'] m show "vm_read_only m \<longleftrightarrow> \<not> scratch_space (vo_source v)" by (intro mode) auto
  qed (use c in auto)
qed


text \<open>
  The steps agree on where things are.  For every scanner of the catalog run with its own arguments,
  nothing the scan step gets still holds a placeholder, and one of its arguments is the file the publish step
  reads the results from.
\<close>

theorem scan_steps_agree:
  "list_all (\<lambda>(n, d).
     list_all (\<lambda>a. \<not> str_contains a ''$('') (scan_args d None @ substitute_paths (sd_command d)) \<and>
     List.member (scan_args d None) (results_path @ ''/'' @ sd_output d)) catalog"
  by code_simp

lemma pvc_claim_iff:
  "pvc_claim_of uri = Some claim \<longleftrightarrow>
     claim \<noteq> [] \<and> CHR ''/'' \<notin> set claim \<and> (\<exists>rest. uri = pvc_scheme @ claim @ rest \<and> (rest = [] \<or> hd rest = CHR ''/''))"
proof
  assume c: "pvc_claim_of uri = Some claim"
  define rest where "rest = drop (length pvc_scheme) uri"
  define tl' where "tl' = dropWhile (\<lambda>c. c \<noteq> CHR ''/'') rest"
  have t: "take (length pvc_scheme) uri = pvc_scheme" and k: "claim = takeWhile (\<lambda>c. c \<noteq> CHR ''/'') rest" "claim \<noteq> []"
    using c by (auto simp: pvc_claim_of_def rest_def Let_def split: if_splits)
  have "uri = pvc_scheme @ rest" unfolding rest_def by (subst t [symmetric], simp only: append_take_drop_id)
  moreover have "rest = claim @ tl'" unfolding k(1) tl'_def by (simp only: takeWhile_dropWhile_id)
  ultimately have u: "uri = pvc_scheme @ claim @ tl'" by (simp only:)
  have h: "tl' = [] \<or> hd tl' = CHR ''/''"
    using hd_dropWhile [of "\<lambda>c. c \<noteq> CHR ''/''" rest] unfolding tl'_def by (cases "dropWhile (\<lambda>c. c \<noteq> CHR ''/'') rest = []") auto
  have n: "CHR ''/'' \<notin> set claim" unfolding k(1) by (auto dest: set_takeWhileD)
  show "claim \<noteq> [] \<and> CHR ''/'' \<notin> set claim \<and>
      (\<exists>rest. uri = pvc_scheme @ claim @ rest \<and> (rest = [] \<or> hd rest = CHR ''/''))"
    by (intro conjI k(2) n exI [of _ tl'] u h)
next
  assume "claim \<noteq> [] \<and> CHR ''/'' \<notin> set claim \<and>
      (\<exists>rest. uri = pvc_scheme @ claim @ rest \<and> (rest = [] \<or> hd rest = CHR ''/''))"
  then obtain rest where a: "claim \<noteq> []" "CHR ''/'' \<notin> set claim" "uri = pvc_scheme @ claim @ rest"
    "rest = [] \<or> hd rest = CHR ''/''" by auto
  have "takeWhile (\<lambda>c. c \<noteq> CHR ''/'') claim = claim" using a(2) by (auto simp: takeWhile_eq_all_conv)
  then have "takeWhile (\<lambda>c. c \<noteq> CHR ''/'') (claim @ rest) = claim"
    using a(2,4) by (cases rest) (auto simp: takeWhile_append2)
  with a show "pvc_claim_of uri = Some claim" by (simp add: pvc_claim_of_def)
qed

section \<open>A Job of the catalog's signature check\<close>

definition demo_quantities :: "string quantities" where
  "demo_quantities = \<lparr>qt_parse = (\<lambda>s. s), qt_is_zero = (\<lambda>s. s = [])\<rparr>"

definition demo_job_config :: "string job_config" where
  "demo_job_config =
     \<lparr>jc_operator_image = ''cupel:1'', jc_registry = [], jc_account = ''cupel-scanner'', jc_pull_secret = ''pull'',
      jc_storage_secret = ''s3'', jc_workspace_size = [], jc_tmp_size = ''1Gi'', jc_ttl_after = 3600\<rparr>"

definition demo_scanner_spec :: "string sized_spec" where
  "demo_scanner_spec =
     \<lparr>sn_name = ''provenance'', sn_image = ''evil:1'', sn_enabled = None, sn_args = [''--all''], sn_timeout = Some 60,
      sn_resources = \<lparr>rq_requests = [], rq_limits = []\<rparr>\<rparr>"

definition demo_job :: "artifact_scan \<Rightarrow> string + string scan_job_object" where
  "demo_job scan =
     build_scan_job (one_digest (replicate 64 (CHR ''a''))) demo_quantities demo_job_config scan
       (the (map_of catalog ''provenance'')) (Some demo_scanner_spec)"

definition demo_job_scan :: artifact_scan where
  "demo_job_scan =
     \<lparr>as_meta = \<lparr>om_name = ''scan-1'', om_namespace = ''team'', om_uid = ''u'', om_labels = [], om_annotations = [],
         om_owner = None, om_created = 0, om_deleted = None\<rparr>, as_spec = artifact_scan_spec.make ''m'' ''1'' [] [] []
        \<lparr>ar_uri = ''pvc://models/llama'', ar_digest = [], ar_media_type = [], ar_format = [], ar_size = None\<rparr> [] [] [] [],
      as_status = artifact_scan_status.make [] None None [] None [] [] []\<rparr>"

lemma demo_job_built: "\<exists>job. demo_job demo_job_scan = Inr job"
  by (simp add: demo_job_def build_scan_job_def demo_job_config_def Let_def)

theorem scanner_holds_no_credentials_witness:
  "\<exists>job. demo_job demo_job_scan = Inr job \<and> length (pod_steps (jb_pod job)) = 3 \<and>
     pd_automount (jb_pod job) = Some False \<and>
     (\<exists>c. c \<in> set (pod_steps (jb_pod job)) \<and> pc_image c = ''evil:1'')"
proof -
  obtain job where j: "demo_job demo_job_scan = Inr job" using demo_job_built by blast
  note b = j [unfolded demo_job_def]
  obtain ws where p: "pod_steps (jb_pod job) =
       [fetch_step demo_quantities demo_job_config ws (ar_uri (ss_artifact (as_spec demo_job_scan))),
        scan_step demo_quantities demo_job_config ws (the (map_of catalog ''provenance'')) (Some demo_scanner_spec),
        publish_step demo_quantities demo_job_config demo_job_scan (the (map_of catalog ''provenance''))]"
    by (rule build_scan_job_cases [OF b])
  have e: "pc_image (scan_step demo_quantities demo_job_config ws d (Some demo_scanner_spec)) = ''evil:1''" for d
    by (simp add: scan_step_def scan_image_def demo_scanner_spec_def)
  show ?thesis
  proof (intro exI [of _ job] conjI)
    show "pd_automount (jb_pod job) = Some False" using scanner_holds_no_credentials [OF b] by (rule conjunct1)
    show "\<exists>c. c \<in> set (pod_steps (jb_pod job)) \<and> pc_image c = ''evil:1''"
      unfolding p by (rule exI, rule conjI [OF _ e], simp only: list.set insert_iff, rule disjI2, rule disjI1, rule refl)
  qed (simp_all only: j p, simp)
qed

theorem scan_pod_is_closed_witness:
  "\<exists>job. demo_job demo_job_scan = Inr job \<and> pd_non_root (jb_pod job) = Some True"
proof -
  obtain job where j: "demo_job demo_job_scan = Inr job" using demo_job_built by blast
  from scan_pod_is_closed [OF j [unfolded demo_job_def]] j show ?thesis by auto
qed

end
