(* ===== verification/Atlas.thy ===== *)
theory Atlas
  imports Frameworks
begin

text \<open>
  The mapping to MITRE ATLAS (\<open>internal/compliance/atlas.go\<close>): the techniques, what the program claims to
  see of each, the identifiers that were retired, and the lookups the evidence bundle uses.
\<close>

definition atlas_version :: string where "atlas_version = ''2026.07''"

datatype atlas_coverage = Detected | Partly_Covered | Out_Of_Scope

fun atlas_coverage_str :: "atlas_coverage \<Rightarrow> string" where
  "atlas_coverage_str Detected = ''Detected''"
| "atlas_coverage_str Partly_Covered = ''Partial''"
| "atlas_coverage_str Out_Of_Scope = ''OutOfScope''"

record technique =
  te_id :: string
  te_name :: string
  te_tactic :: string
  te_coverage :: atlas_coverage
  te_rationale :: string
  te_findings :: "string list"
  te_mitigations :: "string list"

definition deprecated_techniques :: str_map where
  "deprecated_techniques =
     [(''AML.T0019'', ''AML.T0115.000''),
      (''AML.T0058'', ''AML.T0115.001''),
      (''AML.T0104'', ''AML.T0115.002''),
      (''AML.T0045'', ''AML.T0048.004'')]"

definition replacement_for :: "string \<Rightarrow> string option" where
  "replacement_for i = map_of deprecated_techniques i"

section \<open>The techniques\<close>

definition atlas_observed :: "technique list" where
  "atlas_observed =
     [\<lparr>te_id = ''AML.T0011.000'', te_name = ''Unsafe AI Artifacts'', te_tactic = ''Execution'', te_coverage = Detected,
        te_rationale = ''Deserialization of a model that executes code on load. The inspector reads pickle opcodes directly and reports GLOBAL/STACK_GLOBAL references to callables that run at load time. The same technique in the Keras family is covered separately, because it does not go through pickle at all: a Lambda layer carries a marshalled code object, a TFSMLayer loads an external SavedModel from a path in the config, and an altered config.json names arbitrary modules to import '' @ em_dash @ '' CVE-2026-1462 and CVE-2025-1550 respectively, both of which bypass safe_mode.'',
        te_findings = [''cupel-PICKLE'', ''cupel-KERAS'', ''cupel-TF'', ''model-inspector''], te_mitigations = [''AML.M0011'', ''AML.M0013'', ''AML.M0014'', ''AML.M0016'']\<rparr>,
      \<lparr>te_id = ''AML.T0018.002'', te_name = ''Embed Malware'', te_tactic = ''AI Attack Staging'', te_coverage = Detected,
        te_rationale = ''Malware embedded in a model artifact. Covered by both opcode analysis and conventional malware scanning of the staged bytes.'',
        te_findings = [''cupel-PICKLE'', ''clamav'', ''model-inspector''], te_mitigations = [''AML.M0013'']\<rparr>,
      \<lparr>te_id = ''AML.T0112.001'', te_name = ''Machine Compromise: AI Artifacts'', te_tactic = ''Impact'', te_coverage = Detected,
        te_rationale = ''Embedded commands or malware in artifacts, including bundled scripts and notebooks.'',
        te_findings = [''cupel-PICKLE'', ''clamav''], te_mitigations = [''AML.M0011'', ''AML.M0016'']\<rparr>,
      \<lparr>te_id = ''AML.T0011.001'', te_name = ''Malicious Package'', te_tactic = ''Execution'', te_coverage = Detected,
        te_rationale = ''Malicious or vulnerable dependencies bundled with the model, found by scanning the artifact's package manifests.'',
        te_findings = [''trivy'', ''grype'', ''syft''], te_mitigations = [''AML.M0011'', ''AML.M0016'']\<rparr>,
      \<lparr>te_id = ''AML.T0076'', te_name = ''Corrupt AI Model'', te_tactic = ''Defense Evasion'', te_coverage = Detected,
        te_rationale = ''A model deliberately made un-deserializable so scanners skip it while it still executes on load. Cupel reports unparsed and unread executable files as findings rather than passing them over, so a file that defeats the parser cannot also defeat the verdict.'',
        te_findings = [''cupel-COVERAGE'', ''cupel-PICKLE''], te_mitigations = [''AML.M0016'']\<rparr>,
      \<lparr>te_id = ''AML.T0010'', te_name = ''AI Supply Chain Compromise'', te_tactic = ''Initial Access'', te_coverage = Partly_Covered,
        te_rationale = ''Cupel detects the payload a compromise delivers, and signature verification detects an artifact that did not come from a trusted publisher. The compromise event itself '' @ em_dash @ '' how the upstream was breached '' @ em_dash @ '' is not observable here.'',
        te_findings = [''cupel-PROV'', ''cupel-PICKLE'', ''clamav''], te_mitigations = [''AML.M0014'', ''AML.M0023'', ''AML.M0035'']\<rparr>,
      \<lparr>te_id = ''AML.T0010.003'', te_name = ''AI Supply Chain Compromise: Model'', te_tactic = ''Initial Access'', te_coverage = Partly_Covered,
        te_rationale = ''Provenance verification establishes whether the model came from a trusted signer. A compromised-but-correctly-signed model is not distinguishable by signature alone.'',
        te_findings = [''cupel-PROV'', ''cupel-PICKLE''], te_mitigations = [''AML.M0008'', ''AML.M0013'', ''AML.M0017'']\<rparr>,
      \<lparr>te_id = ''AML.T0010.001'', te_name = ''AI Supply Chain Compromise: AI Software'', te_tactic = ''Initial Access'', te_coverage = Partly_Covered,
        te_rationale = ''Vulnerable or tampered ML framework dependencies are visible in the SBOM and CVE scan. A compromised build of a dependency that reports a clean version is not.'',
        te_findings = [''trivy'', ''grype'', ''syft''], te_mitigations = [''AML.M0014'', ''AML.M0023'']\<rparr>,
      \<lparr>te_id = ''AML.T0018.001'', te_name = ''Modify AI Model Architecture'', te_tactic = ''AI Attack Staging'', te_coverage = Partly_Covered,
        te_rationale = ''Injected operators or subgraphs are parseable from an ONNX graph. Deciding whether an architecture is malicious requires a known-good baseline to compare against, which a single artifact does not provide. NOTE: this ID previously meant \"Inject Payload\"; that concept is now AML.T0018.002.'',
        te_findings = [''cupel-ONNX'', ''model-inspector''], te_mitigations = [''AML.M0008'']\<rparr>,
      \<lparr>te_id = ''AML.T0018.003'', te_name = ''Modify Prompt Construction Logic'', te_tactic = ''AI Attack Staging'', te_coverage = Out_Of_Scope,
        te_rationale = ''Chat templates and tool-call formatting live in a GGUF header, and Cupel does not read GGUF headers '' @ em_dash @ '' it records the format as present and produces no finding about it. This was previously mapped to a finding ID that nothing emits, which claimed coverage that did not exist. Tessera does parse these (TESS-GGUF-010); until Cupel consumes it, the honest answer here is no.'',
        te_findings = [], te_mitigations = []\<rparr>,
      \<lparr>te_id = ''AML.T0074'', te_name = ''Masquerading'', te_tactic = ''Defense Evasion'', te_coverage = Partly_Covered,
        te_rationale = ''A file whose magic bytes contradict its extension is detectable. Registry namespace reuse '' @ em_dash @ '' a familiar name republished by a different owner '' @ em_dash @ '' needs registry-side history and is invisible in the artifact.'',
        te_findings = [''cupel-FORMAT''], te_mitigations = [''AML.M0014'']\<rparr>,
      \<lparr>te_id = ''AML.T0115.001'', te_name = ''Publish Poisoned AI Artifacts: Models'', te_tactic = ''Resource Development'', te_coverage = Partly_Covered,
        te_rationale = ''The code-and-malware fraction of a poisoned published model is detectable. Poisoning carried in the weights is not '' @ em_dash @ '' see AML.T0018.000.'',
        te_findings = [''cupel-PICKLE'', ''clamav'', ''cupel-PROV''], te_mitigations = [''AML.M0008'', ''AML.M0016'']\<rparr>]"

definition atlas_unobservable :: "technique list" where
  "atlas_unobservable =
     [\<lparr>te_id = ''AML.T0018.000'', te_name = ''Poison AI Model'', te_tactic = ''AI Attack Staging'', te_coverage = Out_Of_Scope,
        te_rationale = ''A model backdoored through its weights is a well-formed, signature-clean file that is byte-level indistinguishable from a clean one. No static scanner can detect this. It requires behavioural evaluation or training-data provenance.'',
        te_findings = [], te_mitigations = [''AML.M0007'', ''AML.M0008'', ''AML.M0025'']\<rparr>,
      \<lparr>te_id = ''AML.T0020'', te_name = ''Training Data Poisoning'', te_tactic = ''Resource Development'', te_coverage = Out_Of_Scope,
        te_rationale = ''Requires visibility into the training data, which a supply-chain artifact scanner does not have. An AIBOM recording dataset provenance is the partial answer, and it records a claim rather than verifying it.'',
        te_findings = [], te_mitigations = [''AML.M0007'', ''AML.M0025'']\<rparr>,
      \<lparr>te_id = ''AML.T0043.004'', te_name = ''Craft Adversarial Data: Insert Backdoor Trigger'', te_tactic = ''AI Attack Staging'', te_coverage = Out_Of_Scope,
        te_rationale = ''A trigger embedded during training leaves no artifact-level signature.'',
        te_findings = [], te_mitigations = [''AML.M0007'', ''AML.M0008'']\<rparr>,
      \<lparr>te_id = ''AML.T0031'', te_name = ''Erode AI Model Integrity'', te_tactic = ''Impact'', te_coverage = Out_Of_Scope,
        te_rationale = ''Degradation is observed by monitoring inference behaviour over time, not by inspecting a file.'',
        te_findings = [], te_mitigations = [''AML.M0003'', ''AML.M0015'']\<rparr>,
      \<lparr>te_id = ''AML.T0024'', te_name = ''Exfiltration via AI Inference API'', te_tactic = ''Exfiltration'', te_coverage = Out_Of_Scope,
        te_rationale = ''An inference-time attack against a deployed endpoint. Nothing in the artifact indicates it.'',
        te_findings = [], te_mitigations = [''AML.M0004'', ''AML.M0005'']\<rparr>,
      \<lparr>te_id = ''AML.T0051'', te_name = ''LLM Prompt Injection'', te_tactic = ''Defense Evasion'', te_coverage = Out_Of_Scope,
        te_rationale = ''A runtime input attack. Requires guardrails at the inference boundary.'',
        te_findings = [], te_mitigations = [''AML.M0020'', ''AML.M0033'']\<rparr>,
      \<lparr>te_id = ''AML.T0070'', te_name = ''RAG Poisoning'', te_tactic = ''Persistence'', te_coverage = Out_Of_Scope,
        te_rationale = ''Targets a live retrieval store, not a model artifact.'',
        te_findings = [], te_mitigations = [''AML.M0030'', ''AML.M0033'']\<rparr>,
      \<lparr>te_id = ''AML.T0109'', te_name = ''AI Supply Chain Rug Pull'', te_tactic = ''Resource Development'', te_coverage = Out_Of_Scope,
        te_rationale = ''A trusted artifact replaced with a malicious one after adoption. Detecting it needs version history across time, not a point-in-time scan. Cupel's periodic rescan narrows the window '' @ em_dash @ '' a rescan under a new name preserves the earlier verdict for comparison '' @ em_dash @ '' but it does not detect the pattern itself.'',
        te_findings = [], te_mitigations = []\<rparr>,
      \<lparr>te_id = ''AML.T0111'', te_name = ''AI Supply Chain Reputation Inflation'', te_tactic = ''Resource Development'', te_coverage = Out_Of_Scope,
        te_rationale = ''Manufactured popularity signals. Requires download, star and fork time-series from the registry. No artifact property reveals it.'',
        te_findings = [], te_mitigations = []\<rparr>,
      \<lparr>te_id = ''AML.T0044'', te_name = ''Full AI Model Access'', te_tactic = ''AI Model Access'', te_coverage = Out_Of_Scope,
        te_rationale = ''A property of who can reach the model, not of the model. Access control, not scanning.'',
        te_findings = [], te_mitigations = [''AML.M0005'', ''AML.M0019'']\<rparr>,
      \<lparr>te_id = ''AML.T0012'', te_name = ''Valid Accounts'', te_tactic = ''Initial Access'', te_coverage = Out_Of_Scope,
        te_rationale = ''Credential and identity control. Cupel's own RBAC and tenant scoping address the console, not this technique in a customer's environment.'',
        te_findings = [], te_mitigations = [''AML.M0005'', ''AML.M0019'']\<rparr>]"

definition atlas_techniques :: "technique list" where
  "atlas_techniques = atlas_observed @ atlas_unobservable"

definition atlas_mitigations :: str_map where
  "atlas_mitigations =
     [(''AML.M0003'', ''Predictive AI Model Hardening''),
      (''AML.M0004'', ''Limit AI Service Query Volume and Rate''),
      (''AML.M0005'', ''Control Access to AI Models and Data at Rest''),
      (''AML.M0007'', ''Sanitize Training Data''),
      (''AML.M0008'', ''Validate AI Model''),
      (''AML.M0011'', ''Restrict Library Loading''),
      (''AML.M0013'', ''Code Signing''),
      (''AML.M0014'', ''Verify AI Artifacts''),
      (''AML.M0015'', ''Predictive AI Adversarial Input Detection''),
      (''AML.M0016'', ''Vulnerability Scanning''),
      (''AML.M0017'', ''AI Model Distribution Methods''),
      (''AML.M0019'', ''Control Access to AI Models and Data in Production''),
      (''AML.M0020'', ''Generative AI Guardrails''),
      (''AML.M0023'', ''AI Bill of Materials''),
      (''AML.M0025'', ''Maintain AI Dataset Provenance''),
      (''AML.M0030'', ''Restrict AI Agent Tool Invocation on Untrusted Data''),
      (''AML.M0033'', ''Input and Output Validation for AI Agent Components''),
      (''AML.M0035'', ''AI Red Team'')]"

section \<open>Lookups\<close>

definition atlas_technique :: "string \<Rightarrow> technique option" where
  "atlas_technique i =
     (let j = (case replacement_for i of Some r \<Rightarrow> r | None \<Rightarrow> i) in find (\<lambda>t. te_id t = j) atlas_techniques)"

definition mitigation_name :: "string \<Rightarrow> string option" where
  "mitigation_name i = map_of atlas_mitigations i"

record atlas_summary =
  ay_version :: string
  ay_detected :: nat
  ay_partial :: nat
  ay_out_of_scope :: nat
  ay_total :: nat

fun count_techniques :: "technique list \<Rightarrow> atlas_summary \<Rightarrow> atlas_summary" where
  "count_techniques [] s = s"
| "count_techniques (t # ts) s =
     count_techniques ts
       (case te_coverage t of
          Detected \<Rightarrow> s\<lparr>ay_detected := Suc (ay_detected s)\<rparr>
        | Partly_Covered \<Rightarrow> s\<lparr>ay_partial := Suc (ay_partial s)\<rparr>
        | Out_Of_Scope \<Rightarrow> s\<lparr>ay_out_of_scope := Suc (ay_out_of_scope s)\<rparr>)"

definition summarize_atlas :: atlas_summary where
  "summarize_atlas =
     count_techniques atlas_techniques
       \<lparr>ay_version = atlas_version, ay_detected = 0, ay_partial = 0, ay_out_of_scope = 0, ay_total = length atlas_techniques\<rparr>"

section \<open>What the mapping holds\<close>

definition technique_row :: "technique \<Rightarrow> string \<times> atlas_coverage \<times> string list \<times> string list" where
  "technique_row t = (te_id t, te_coverage t, te_findings t, te_mitigations t)"

lemma atlas_observed_rows:
  "map technique_row atlas_observed =
     [(''AML.T0011.000'', Detected, [''cupel-PICKLE'', ''cupel-KERAS'', ''cupel-TF'', ''model-inspector''], [''AML.M0011'', ''AML.M0013'', ''AML.M0014'', ''AML.M0016'']),
      (''AML.T0018.002'', Detected, [''cupel-PICKLE'', ''clamav'', ''model-inspector''], [''AML.M0013'']),
      (''AML.T0112.001'', Detected, [''cupel-PICKLE'', ''clamav''], [''AML.M0011'', ''AML.M0016'']),
      (''AML.T0011.001'', Detected, [''trivy'', ''grype'', ''syft''], [''AML.M0011'', ''AML.M0016'']),
      (''AML.T0076'', Detected, [''cupel-COVERAGE'', ''cupel-PICKLE''], [''AML.M0016'']),
      (''AML.T0010'', Partly_Covered, [''cupel-PROV'', ''cupel-PICKLE'', ''clamav''], [''AML.M0014'', ''AML.M0023'', ''AML.M0035'']),
      (''AML.T0010.003'', Partly_Covered, [''cupel-PROV'', ''cupel-PICKLE''], [''AML.M0008'', ''AML.M0013'', ''AML.M0017'']),
      (''AML.T0010.001'', Partly_Covered, [''trivy'', ''grype'', ''syft''], [''AML.M0014'', ''AML.M0023'']),
      (''AML.T0018.001'', Partly_Covered, [''cupel-ONNX'', ''model-inspector''], [''AML.M0008'']),
      (''AML.T0018.003'', Out_Of_Scope, [], []),
      (''AML.T0074'', Partly_Covered, [''cupel-FORMAT''], [''AML.M0014'']),
      (''AML.T0115.001'', Partly_Covered, [''cupel-PICKLE'', ''clamav'', ''cupel-PROV''], [''AML.M0008'', ''AML.M0016''])]"
  by (simp only: atlas_observed_def list.map technique_row_def technique.select_convs)

lemma atlas_unobservable_rows:
  "map technique_row atlas_unobservable =
     [(''AML.T0018.000'', Out_Of_Scope, [], [''AML.M0007'', ''AML.M0008'', ''AML.M0025'']),
      (''AML.T0020'', Out_Of_Scope, [], [''AML.M0007'', ''AML.M0025'']),
      (''AML.T0043.004'', Out_Of_Scope, [], [''AML.M0007'', ''AML.M0008'']),
      (''AML.T0031'', Out_Of_Scope, [], [''AML.M0003'', ''AML.M0015'']),
      (''AML.T0024'', Out_Of_Scope, [], [''AML.M0004'', ''AML.M0005'']),
      (''AML.T0051'', Out_Of_Scope, [], [''AML.M0020'', ''AML.M0033'']),
      (''AML.T0070'', Out_Of_Scope, [], [''AML.M0030'', ''AML.M0033'']),
      (''AML.T0109'', Out_Of_Scope, [], []),
      (''AML.T0111'', Out_Of_Scope, [], []),
      (''AML.T0044'', Out_Of_Scope, [], [''AML.M0005'', ''AML.M0019'']),
      (''AML.T0012'', Out_Of_Scope, [], [''AML.M0005'', ''AML.M0019''])]"
  by (simp only: atlas_unobservable_def list.map technique_row_def technique.select_convs)

lemmas atlas_rows = atlas_observed_rows atlas_unobservable_rows

lemma atlas_all: "list_all P (map technique_row atlas_techniques) \<Longrightarrow> t \<in> set atlas_techniques \<Longrightarrow> P (technique_row t)"
  by (simp add: list_all_iff)

lemma atlas_ids: "map te_id atlas_techniques = map fst (map technique_row atlas_observed @ map technique_row atlas_unobservable)"
  by (simp add: atlas_techniques_def technique_row_def)

lemma find_technique: "map_option te_id (find (\<lambda>t. te_id t = j) ts) = (if j \<in> set (map te_id ts) then Some j else None)"
  by (induction ts) auto

lemma count_techniques_counts:
  "ay_version (count_techniques ts s) = ay_version s \<and> ay_total (count_techniques ts s) = ay_total s \<and>
   ay_detected (count_techniques ts s) + ay_partial (count_techniques ts s) + ay_out_of_scope (count_techniques ts s) =
     ay_detected s + ay_partial s + ay_out_of_scope s + length ts"
  by (induction ts arbitrary: s) (auto split: atlas_coverage.splits)

text \<open>
  The coverage the program claims is accounted for. Every technique is detected, covered in part or
  out of scope; one that is not out of scope names findings that evidence it, one that is names none, and
  every mitigation has its published name.
\<close>

theorem atlas_accounts_for_all:
  "ay_detected summarize_atlas + ay_partial summarize_atlas + ay_out_of_scope summarize_atlas = ay_total summarize_atlas \<and>
   ay_total summarize_atlas = length atlas_techniques \<and>
   list_all (\<lambda>t. (te_coverage t = Out_Of_Scope \<longleftrightarrow> te_findings t = []) \<and>
     list_all (\<lambda>m. mitigation_name m \<noteq> None) (te_mitigations t)) atlas_techniques"
proof -
  have "list_all (\<lambda>(i, c, f, m). (c = Out_Of_Scope \<longleftrightarrow> f = []) \<and> list_all (\<lambda>x. mitigation_name x \<noteq> None) m)
      (map technique_row atlas_techniques)"
    unfolding atlas_techniques_def map_append atlas_rows by code_simp
  from atlas_all [OF this] show ?thesis
    using count_techniques_counts [of atlas_techniques] by (simp add: summarize_atlas_def list_all_iff technique_row_def)
qed

text \<open>
  Three of the four retired identifiers still match nothing. Each retired identifier has a
  replacement, but only the one for \<open>AML.T0058\<close> is a technique of the mapping; looking up the others finds
  nothing, as if there were no replacement.
\<close>

theorem retired_identifiers_unresolved:
  "map (\<lambda>p. (fst p, map_option te_id (atlas_technique (fst p)))) deprecated_techniques =
     [(''AML.T0019'', None), (''AML.T0058'', Some ''AML.T0115.001''), (''AML.T0104'', None), (''AML.T0045'', None)]"
  by (simp add: atlas_technique_def deprecated_techniques_def replacement_for_def
      find_technique [of _ atlas_techniques, unfolded atlas_ids atlas_rows])

end
