(* ===== verification/Evidence.thy ===== *)
theory Evidence
  imports Atlas Audit_Events Cupel_Types Scanners
begin

text \<open>
  The evidence bundle (\<open>internal/evidence/bundle.go\<close>): one file that says why a model version was allowed or
  refused, with the findings, the accepted risks, what was not examined and the excerpt of the audit log, and a
  digest over all of it.  The JSON encoding of a bundle is the parameter \<open>enc\<close>, and \<open>H\<close> is the hexadecimal SHA-256.
\<close>

section \<open>The parts of a bundle\<close>

record bundle_subject =
  bs_model :: string
  bs_version :: string
  bs_uri :: string
  bs_digest :: string
  bs_namespace :: string

record bundle_verdict =
  bv_decision :: string
  bv_risk :: int32
  bv_policy :: string
  bv_scanned_at :: go_time
  bv_trigger :: string
  bv_triggered_by :: string

record scanner_run =
  rn_name :: string
  rn_category :: string
  rn_completed :: bool
  rn_findings :: int
  rn_message :: string

record acceptance =
  ac_findings :: "string list"
  ac_rules :: "string list"
  ac_reason :: string
  ac_approved_by :: string
  ac_approved_at :: go_time
  ac_expires :: "go_time option"
  ac_signed :: bool
  ac_digest :: string

record bundle_coverage =
  bc_requested :: nat
  bc_completed :: nat
  bc_incomplete :: "string list"
  bc_gaps :: "string list"
  bc_out_of_scope :: "string list"

record control_mapping =
  bm_atlas_version :: string
  bm_atlas :: atlas_summary
  bm_techniques :: "string list"
  bm_frameworks :: "string list"
  bm_attestations :: int

record audit_section =
  au_records :: "audit_record list"
  au_intact :: bool
  au_checkpoint :: "checkpoint option"
  au_anchor :: "anchor option"
  au_chain_valid :: bool
  au_chain_length :: uint64
  au_present :: bool
  au_problems :: "string list"

record evidence_bundle =
  bu_schema :: string
  bu_generated :: go_time
  bu_producer :: string
  bu_subject :: bundle_subject
  bu_verdict :: bundle_verdict
  bu_findings :: "finding list"
  bu_scanners :: "scanner_run list"
  bu_acceptances :: "acceptance list"
  bu_coverage :: bundle_coverage
  bu_controls :: control_mapping
  bu_audit :: audit_section
  bu_digest :: string

record bundle_input =
  bi_now :: go_time
  bi_producer :: string
  bi_subject :: bundle_subject
  bi_verdict :: bundle_verdict
  bi_findings :: "finding list"
  bi_scanners :: "scanner_run list"
  bi_acceptances :: "acceptance list"
  bi_gaps :: "string list"
  bi_frameworks :: "string list"
  bi_attestations :: int
  bi_chain :: "audit_record list"
  bi_checkpoint :: "checkpoint option"
  bi_anchor :: "anchor option"

type_synonym bundle_encoder = "evidence_bundle \<Rightarrow> string + string"

definition bundle_version :: string where "bundle_version = ''cupel-evidence/v1''"

definition out_of_scope_classes :: "string list" where
  "out_of_scope_classes =
     [''Weight-level model poisoning (AML.T0018.000): a backdoored model is '' @
      ''byte-indistinguishable from a clean one and requires behavioural evaluation.'',
      ''Training data poisoning (AML.T0020): requires visibility into the training data.'',
      ''Runtime evasion and adversarial inputs (AML.T0043, AML.T0051): require '' @
      ''monitoring at the inference boundary.'',
      ''Supply chain rug pull and reputation inflation (AML.T0109, AML.T0111): '' @
      ''require registry history over time, not a point-in-time scan.'',
      ''Model behaviour, accuracy, fairness and bias: not properties of an artifact's bytes.'']"

section \<open>Building\<close>

definition excerpt_for :: "audit_record list \<Rightarrow> string \<Rightarrow> audit_record list" where
  "excerpt_for rs subject = filter (\<lambda>r. ar_subject r = subject) rs"

fun records_intact :: "digest_fn \<Rightarrow> audit_record list \<Rightarrow> bool" where
  "records_intact H [] = True"
| "records_intact H (r # rs) = (if compute_hash H r \<noteq> ar_hash r then False else records_intact H rs)"

fun scan_coverage :: "scanner_run list \<Rightarrow> bundle_coverage \<Rightarrow> bundle_coverage" where
  "scan_coverage [] c = c"
| "scan_coverage (s # ss) c =
     scan_coverage ss
       (if rn_completed s then c\<lparr>bc_completed := Suc (bc_completed c)\<rparr>
        else c\<lparr>bc_incomplete := bc_incomplete c @ [rn_name s]\<rparr>)"

definition build_coverage :: "bundle_input \<Rightarrow> bundle_coverage" where
  "build_coverage i =
     (let c = scan_coverage (bi_scanners i)
                \<lparr>bc_requested = length (bi_scanners i), bc_completed = 0, bc_incomplete = [], bc_gaps = bi_gaps i,
                 bc_out_of_scope = out_of_scope_classes\<rparr>
      in c\<lparr>bc_incomplete := sort (bc_incomplete c)\<rparr>)"

text \<open>The names of the scanners that completed, and the techniques whose evidence is one of these names.\<close>

definition completed_names :: "scanner_run list \<Rightarrow> string list" where
  "completed_names ss = map rn_name (filter rn_completed ss)"

fun note_technique :: "string list \<Rightarrow> string \<Rightarrow> string list \<Rightarrow> string list \<Rightarrow> string list" where
  "note_technique rans i [] seen = seen"
| "note_technique rans i (e # es) seen =
     note_technique rans i es (if e \<in> set rans \<and> i \<notin> set seen then seen @ [i] else seen)"

fun techniques_evidenced :: "string list \<Rightarrow> technique list \<Rightarrow> string list \<Rightarrow> string list" where
  "techniques_evidenced rans [] seen = seen"
| "techniques_evidenced rans (t # ts) seen =
     techniques_evidenced rans ts
       (if te_coverage t = Out_Of_Scope then seen else note_technique rans (te_id t) (te_findings t) seen)"

definition build_controls :: "bundle_input \<Rightarrow> control_mapping" where
  "build_controls i =
     \<lparr>bm_atlas_version = atlas_version, bm_atlas = summarize_atlas,
      bm_techniques = sort (techniques_evidenced (completed_names (bi_scanners i)) atlas_techniques []),
      bm_frameworks = bi_frameworks i, bm_attestations = bi_attestations i\<rparr>"

definition bundle_hash :: "digest_fn \<Rightarrow> bundle_encoder \<Rightarrow> evidence_bundle \<Rightarrow> string + string" where
  "bundle_hash H enc b =
     (case enc (b\<lparr>bu_digest := []\<rparr>) of
        Inl e \<Rightarrow> Inl (''encode bundle for digest: '' @ e)
      | Inr text \<Rightarrow> Inr (''sha256:'' @ H text))"

text \<open>\<open>clock\<close> is what \<open>time.Now()\<close> gives, for an input without a time.\<close>

definition draft_bundle :: "digest_fn \<Rightarrow> go_time \<Rightarrow> bundle_input \<Rightarrow> evidence_bundle" where
  "draft_bundle H clock i =
     (let whole = verify_from H (bi_chain i) (bi_anchor i) (bi_checkpoint i);
          excerpt = excerpt_for (bi_chain i) (subject_name (bs_model (bi_subject i)) (bs_version (bi_subject i)))
      in \<lparr>bu_schema = bundle_version,
          bu_generated = (if truncate_sec (bi_now i) = zero_time then truncate_sec clock else truncate_sec (bi_now i)),
          bu_producer = bi_producer i, bu_subject = bi_subject i, bu_verdict = bi_verdict i,
          bu_findings = bi_findings i, bu_scanners = bi_scanners i, bu_acceptances = bi_acceptances i,
          bu_coverage = build_coverage i, bu_controls = build_controls i,
          bu_audit =
            \<lparr>au_records = excerpt, au_intact = records_intact H excerpt, au_checkpoint = bi_checkpoint i,
             au_anchor = bi_anchor i, au_chain_valid = v_valid whole, au_chain_length = v_length whole,
             au_present = 0 < length excerpt, au_problems = v_problems whole\<rparr>,
          bu_digest = []\<rparr>)"

definition build_bundle :: "digest_fn \<Rightarrow> bundle_encoder \<Rightarrow> go_time \<Rightarrow> bundle_input \<Rightarrow> string + evidence_bundle" where
  "build_bundle H enc clock i =
     (let b = draft_bundle H clock i
      in case bundle_hash H enc b of Inl e \<Rightarrow> Inl e | Inr d \<Rightarrow> Inr (b\<lparr>bu_digest := d\<rparr>))"

section \<open>Verifying\<close>

record bundle_verification =
  bw_valid :: bool
  bw_digest :: bool
  bw_intact :: bool
  bw_chain :: bool
  bw_problems :: "string list"

definition short19 :: "string \<Rightarrow> string" where
  "short19 h = (if length h \<le> 19 then h else take 19 h)"

fun altered_records :: "digest_fn \<Rightarrow> audit_record list \<Rightarrow> string list" where
  "altered_records H [] = []"
| "altered_records H (r # rs) =
     (let got = compute_hash H r
      in if got \<noteq> ar_hash r
         then (''audit record '' @ u64_str (ar_seq r) @ '' has been modified since it was written: contents hash '' @
               ''to '' @ short19 got @ '' but it carries '' @ short19 (ar_hash r)) # altered_records H rs
         else altered_records H rs)"

definition verify_bundle :: "digest_fn \<Rightarrow> bundle_encoder \<Rightarrow> evidence_bundle \<Rightarrow> string + bundle_verification" where
  "verify_bundle H enc b =
     (case bundle_hash H enc b of
        Inl e \<Rightarrow> Inl e
      | Inr want \<Rightarrow>
          (let a = bu_audit b; c = bu_coverage b;
               matches = (want = bu_digest b);
               p1 = (if matches then []
                     else [''the bundle has been modified since it was produced: contents hash to '' @ short19 want @
                           '' but it carries '' @ short19 (bu_digest b)]);
               altered = altered_records H (au_records a);
               p2 = (if au_chain_valid a then []
                     else [''the audit chain did not verify when this bundle was produced ('' @
                           u64_str (au_chain_length a) @ '' records): '' @ str_join ''; '' (au_problems a)]);
               p3 = (if au_records a = []
                     then [''there is no audit trail for this subject: nothing was recorded about it, '' @
                           ''so there is nothing here to have verified''] else []);
               p4 = (if bc_completed c < bc_requested c
                     then [nat_str (bc_requested c - bc_completed c) @ '' of '' @ nat_str (bc_requested c) @
                           '' scanners did not complete ('' @ list_str (bc_incomplete c) @
                           ''); the verdict rests on less '' @ ''evidence than was requested''] else [])
           in Inr \<lparr>bw_valid = (matches \<and> altered = [] \<and> au_chain_valid a), bw_digest = matches,
                   bw_intact = (altered = []), bw_chain = au_chain_valid a,
                   bw_problems = p1 @ altered @ p2 @ p3 @ p4\<rparr>))"

section \<open>What building and verifying do\<close>

lemma records_intact_iff: "records_intact H rs \<longleftrightarrow> list_all (\<lambda>r. compute_hash H r = ar_hash r) rs"
  by (induction rs) auto

lemma altered_records_iff: "altered_records H rs = [] \<longleftrightarrow> records_intact H rs"
  by (induction rs) (auto simp: Let_def)

lemma chain_ok_intact: "chain_ok H n h rs \<Longrightarrow> records_intact H rs"
  by (induction rs arbitrary: n h) auto

lemma excerpt_intact: "records_intact H rs \<Longrightarrow> records_intact H (excerpt_for rs s)"
  by (auto simp: records_intact_iff excerpt_for_def list_all_iff)

lemma bundle_hash_frame: "bundle_hash H enc (b\<lparr>bu_digest := d\<rparr>) = bundle_hash H enc b"
  by (simp add: bundle_hash_def)

lemma draft_simps [simp]:
  "bu_verdict (draft_bundle H t i) = bi_verdict i" "bu_subject (draft_bundle H t i) = bi_subject i"
  "bu_coverage (draft_bundle H t i) = build_coverage i" "bu_controls (draft_bundle H t i) = build_controls i"
  "au_records (bu_audit (draft_bundle H t i)) =
     excerpt_for (bi_chain i) (subject_name (bs_model (bi_subject i)) (bs_version (bi_subject i)))"
  "au_chain_valid (bu_audit (draft_bundle H t i)) = v_valid (verify_from H (bi_chain i) (bi_anchor i) (bi_checkpoint i))"
  by (simp_all add: draft_bundle_def Let_def)

lemma build_bundle_cases:
  assumes "build_bundle H enc clock i = Inr b"
  shows "bundle_hash H enc b = Inr (bu_digest b)"
    and "bu_verdict b = bi_verdict i" "bu_subject b = bi_subject i" "bu_coverage b = build_coverage i" "bu_controls b = build_controls i"
    and "au_records (bu_audit b) = excerpt_for (bi_chain i) (subject_name (bs_model (bi_subject i)) (bs_version (bi_subject i)))"
    and "au_chain_valid (bu_audit b) = v_valid (verify_from H (bi_chain i) (bi_anchor i) (bi_checkpoint i))"
  using assms unfolding build_bundle_def Let_def
  by (auto simp: bundle_hash_frame split: sum.splits)

lemma scan_coverage_counts:
  "bc_requested (scan_coverage ss c) = bc_requested c"
  "bc_completed (scan_coverage ss c) = bc_completed c + length (filter rn_completed ss)"
  "bc_incomplete (scan_coverage ss c) = bc_incomplete c @ map rn_name (filter (\<lambda>s. \<not> rn_completed s) ss)"
  by (induction ss arbitrary: c) auto

lemma build_coverage_counts:
  "bc_requested (build_coverage i) = length (bi_scanners i)"
  "bc_completed (build_coverage i) = length (filter rn_completed (bi_scanners i))"
  "bc_incomplete (build_coverage i) = sort (map rn_name (filter (\<lambda>s. \<not> rn_completed s) (bi_scanners i)))"
  by (simp_all add: build_coverage_def Let_def scan_coverage_counts)

lemma all_complete_iff: "length xs \<le> length (filter P xs) \<longleftrightarrow> list_all P xs"
proof -
  have "length xs \<le> length (filter P xs) \<longleftrightarrow> length (filter (\<lambda>x. \<not> P x) xs) = 0"
    using sum_length_filter_compl [of P xs] by linarith
  then show ?thesis by (auto simp: list_all_iff filter_empty_conv)
qed

lemma note_technique_spec:
  "distinct seen \<Longrightarrow> distinct (note_technique rans i es seen) \<and>
   set (note_technique rans i es seen) = set seen \<union> {j. j = i \<and> (\<exists>e \<in> set es. e \<in> set rans)}"
  by (induction es arbitrary: seen) auto

lemma techniques_evidenced_spec:
  "distinct seen \<Longrightarrow> distinct (techniques_evidenced rans ts seen) \<and>
   set (techniques_evidenced rans ts seen) =
     set seen \<union> {te_id t |t. t \<in> set ts \<and> te_coverage t \<noteq> Out_Of_Scope \<and> (\<exists>e \<in> set (te_findings t). e \<in> set rans)}"
  by (induction ts arbitrary: seen) (auto simp: note_technique_spec)

section \<open>Properties\<close>

text \<open>
  A fresh bundle says what is known. A bundle that was just built verifies exactly if the whole
  log verified against its anchor and checkpoint; and it is verified without a remark exactly if
  moreover the log says something about this model version and every scanner completed. So
  neither an empty trail nor a partial scan passes for a clean one.
\<close>

theorem fresh_bundle_valid_iff:
  assumes "build_bundle H enc clock i = Inr b"
  shows "\<exists>w. verify_bundle H enc b = Inr w \<and>
    (bw_valid w \<longleftrightarrow>
       chain_ok H (anchor_length (bi_anchor i)) (anchor_head (bi_anchor i)) (bi_chain i) \<and>
       checkpoint_ok (bi_checkpoint i) (anchor_length (bi_anchor i) + of_nat (length (bi_chain i)))
         (head_hash (anchor_head (bi_anchor i)) (bi_chain i))) \<and>
    (bw_problems w = [] \<longleftrightarrow>
       bw_valid w \<and> list_ex (\<lambda>r. ar_subject r = subject_name (bs_model (bi_subject i)) (bs_version (bi_subject i))) (bi_chain i) \<and>
       list_all rn_completed (bi_scanners i))"
proof -
  note b = build_bundle_cases [OF assms]
  define whole where "whole = verify_from H (bi_chain i) (bi_anchor i) (bi_checkpoint i)"
  have v: "v_valid whole \<longleftrightarrow> chain_ok H (anchor_length (bi_anchor i)) (anchor_head (bi_anchor i)) (bi_chain i) \<and>
       checkpoint_ok (bi_checkpoint i) (anchor_length (bi_anchor i) + of_nat (length (bi_chain i)))
         (head_hash (anchor_head (bi_anchor i)) (bi_chain i))"
    unfolding whole_def by (rule verify_from_valid)
  have e: "altered_records H (au_records (bu_audit b)) = []" if "v_valid whole"
    unfolding altered_records_iff b(6) using that v chain_ok_intact excerpt_intact by blast
  have n: "au_records (bu_audit b) = [] \<longleftrightarrow>
      \<not> list_ex (\<lambda>r. ar_subject r = subject_name (bs_model (bi_subject i)) (bs_version (bi_subject i))) (bi_chain i)"
    unfolding b(6) by (simp add: excerpt_for_def filter_empty_conv list_ex_iff)
  have c: "bc_completed (bu_coverage b) < bc_requested (bu_coverage b) \<longleftrightarrow> \<not> list_all rn_completed (bi_scanners i)"
    unfolding b(4) build_coverage_counts by (simp add: all_complete_iff [symmetric] not_le)
  show ?thesis
    unfolding verify_bundle_def b(1) Let_def sum.case n c v [symmetric]
    using e b(7) [folded whole_def] by auto
qed

text \<open>
  The bundle claims no evidence it does not have. Its techniques are, in order and once each, those the
  mapping does not call out of scope and that name a scanner which completed; the scanners that
  completed and those listed as incomplete are all the scanners there were.
\<close>

theorem bundle_claims_exact:
  "sorted (bm_techniques (build_controls i)) \<and> distinct (bm_techniques (build_controls i)) \<and>
   set (bm_techniques (build_controls i)) =
     {te_id t |t. t \<in> set atlas_techniques \<and> te_coverage t \<noteq> Out_Of_Scope \<and>
        (\<exists>s. s \<in> set (bi_scanners i) \<and> rn_completed s \<and> rn_name s \<in> set (te_findings t))} \<and>
   bc_completed (build_coverage i) + length (bc_incomplete (build_coverage i)) = bc_requested (build_coverage i)"
proof -
  have "bc_completed (build_coverage i) + length (bc_incomplete (build_coverage i)) = bc_requested (build_coverage i)"
    by (simp add: build_coverage_counts sum_length_filter_compl)
  moreover have "distinct (bm_techniques (build_controls i))"
    by (simp add: build_controls_def techniques_evidenced_spec)
  moreover have "set (bm_techniques (build_controls i)) =
     {te_id t |t. t \<in> set atlas_techniques \<and> te_coverage t \<noteq> Out_Of_Scope \<and>
        (\<exists>s. s \<in> set (bi_scanners i) \<and> rn_completed s \<and> rn_name s \<in> set (te_findings t))}"
    by (auto simp: build_controls_def techniques_evidenced_spec completed_names_def)
  ultimately show ?thesis by (simp add: build_controls_def)
qed

text \<open>
  The digest is no signature. Take any bundle whose verification succeeds, put any verdict and any
  findings into it, and write the digest of the result: it verifies again, because nothing in a bundle
  depends on a secret and the finding on the whole log is a field of it.
\<close>

theorem altered_bundle_verifies:
  assumes "verify_bundle H enc b = Inr w" and "bw_valid w"
    and "enc (b\<lparr>bu_verdict := verdict, bu_findings := findings, bu_digest := []\<rparr>) = Inr body"
  shows "\<exists>d w'. verify_bundle H enc (b\<lparr>bu_verdict := verdict, bu_findings := findings, bu_digest := d\<rparr>) = Inr w' \<and> bw_valid w'"
proof -
  have ok: "altered_records H (au_records (bu_audit b)) = []" "au_chain_valid (bu_audit b)"
    using assms(1,2) by (auto simp: verify_bundle_def Let_def split: sum.splits)
  have "bundle_hash H enc (b\<lparr>bu_verdict := verdict, bu_findings := findings, bu_digest := d\<rparr>) = Inr (''sha256:'' @ H body)" for d
    using assms(3) by (simp add: bundle_hash_def)
  then show ?thesis
    by (intro exI [of _ "''sha256:'' @ H body"]) (simp add: verify_bundle_def Let_def ok)
qed

text \<open>
  A bundle with a digest known from elsewhere cannot be altered. Two bundles that carry the same digest and both
  match it have the same content, if the encoder tells them apart and their two texts do not collide.
\<close>

theorem digest_fixes_bundle:
  assumes "verify_bundle H enc b = Inr w" and "bw_digest w" and "verify_bundle H enc b' = Inr w'" and "bw_digest w'"
    and "bu_digest b = bu_digest b'"
    and "inj_on enc {b\<lparr>bu_digest := []\<rparr>, b'\<lparr>bu_digest := []\<rparr>}"
    and "inj_on H {t. enc (b\<lparr>bu_digest := []\<rparr>) = Inr t \<or> enc (b'\<lparr>bu_digest := []\<rparr>) = Inr t}"
  shows "b = b'"
proof -
  obtain t where t: "enc (b\<lparr>bu_digest := []\<rparr>) = Inr t" "''sha256:'' @ H t = bu_digest b"
    using assms(1,2) by (auto simp: verify_bundle_def bundle_hash_def Let_def split: sum.splits)
  obtain t' where t': "enc (b'\<lparr>bu_digest := []\<rparr>) = Inr t'" "''sha256:'' @ H t' = bu_digest b'"
    using assms(3,4) by (auto simp: verify_bundle_def bundle_hash_def Let_def split: sum.splits)
  have "''sha256:'' @ H t = ''sha256:'' @ H t'" using t(2) t'(2) assms(5) by (simp only:)
  then have "H t = H t'" by (simp only: same_append_eq)
  then have "t = t'" using assms(7) t(1) t'(1) by (auto dest: inj_onD)
  then have "b\<lparr>bu_digest := []\<rparr> = b'\<lparr>bu_digest := []\<rparr>" using assms(6) t(1) t'(1) by (auto dest: inj_onD)
  then have "(b\<lparr>bu_digest := []\<rparr>)\<lparr>bu_digest := bu_digest b\<rparr> = (b'\<lparr>bu_digest := []\<rparr>)\<lparr>bu_digest := bu_digest b'\<rparr>"
    using assms(5) by simp
  then show ?thesis by simp
qed

lemma techniques_of_scanners:
  "list_all (\<lambda>(j, c, fs, ms).
     (j \<in> {''AML.T0076'', ''AML.T0010.003'', ''AML.T0074''} \<longrightarrow> list_all (\<lambda>n. n \<notin> set fs) (map fst catalog)) \<and>
     list_all (\<lambda>n. n \<notin> set fs) [''provenance'', ''trufflehog'', ''tessera''])
   (map technique_row atlas_techniques)"
  by (simp add: atlas_techniques_def atlas_rows catalog_def external_def internal_def)

text \<open>
  What no bundle can evidence. Techniques name the prefixes of findings as their evidence
  beside the names of scanners, and a bundle only looks at the latter: whichever scanners of the catalog
  complete, the bundle never lists these three techniques, one of which the mapping calls detected; and
  the check of signatures, the search for secrets and the bill of materials evidence no technique at all.
\<close>

theorem techniques_never_evidenced:
  assumes "set (map rn_name (bi_scanners i)) \<subseteq> set (map fst catalog)"
  shows "{''AML.T0076'', ''AML.T0010.003'', ''AML.T0074''} \<inter> set (bm_techniques (build_controls i)) = {} \<and>
    bm_techniques (build_controls
      (i\<lparr>bi_scanners := filter (\<lambda>r. rn_name r \<in> {''provenance'', ''trufflehog'', ''tessera''}) (bi_scanners i)\<rparr>)) = []"
proof -
  note row = techniques_of_scanners [THEN atlas_all, unfolded technique_row_def split_conv]
  have "False" if "j \<in> {''AML.T0076'', ''AML.T0010.003'', ''AML.T0074''}" "j \<in> set (bm_techniques (build_controls i))" for j
  proof -
    from that(2) obtain t s where t: "t \<in> set atlas_techniques" "te_id t = j" "s \<in> set (bi_scanners i)" "rn_name s \<in> set (te_findings t)"
      by (auto simp: build_controls_def techniques_evidenced_spec completed_names_def)
    have "rn_name s \<in> set (map fst catalog)" using t(3) assms by auto
    moreover have "\<forall>n \<in> set (map fst catalog). n \<notin> set (te_findings t)"
      using row [OF t(1)] t(2) that(1) by (simp only: list_all_iff) blast
    ultimately show False using t(4) by blast
  qed
  moreover have "bm_techniques (build_controls
      (i\<lparr>bi_scanners := filter (\<lambda>r. rn_name r \<in> {''provenance'', ''trufflehog'', ''tessera''}) (bi_scanners i)\<rparr>)) = []"
    (is "?ts = []")
  proof (rule ccontr)
    assume "?ts \<noteq> []"
    then have "set ?ts \<noteq> {}" by simp
    then obtain t n where t: "t \<in> set atlas_techniques" "n \<in> {''provenance'', ''trufflehog'', ''tessera''}"
      "n \<in> set (te_findings t)"
      unfolding build_controls_def control_mapping.select_convs set_sort
      by (auto simp: techniques_evidenced_spec completed_names_def)
    with row [OF t(1)] show False by (auto simp: list_all_iff)
  qed
  ultimately show ?thesis by auto
qed


section \<open>A bundle of one recorded verdict\<close>

definition demo_bundle_chain :: "audit_record list" where
  "demo_bundle_chain =
     [seal escape (event_at 0 event_verdict_issued (subject_name ''fraud'' ''1'') ''system'' []) None]"

definition demo_bundle_input :: bundle_input where
  "demo_bundle_input =
     \<lparr>bi_now = 5000000000, bi_producer = ''tessera'',
      bi_subject = \<lparr>bs_model = ''fraud'', bs_version = ''1'', bs_uri = [], bs_digest = [], bs_namespace = ''team''\<rparr>,
      bi_verdict = \<lparr>bv_decision = verdict_quarantined, bv_risk = 90, bv_policy = [], bv_scanned_at = 0, bv_trigger = [], bv_triggered_by = []\<rparr>,
      bi_findings = [], bi_scanners = [\<lparr>rn_name = ''clamav'', rn_category = [], rn_completed = True, rn_findings = 0, rn_message = []\<rparr>],
      bi_acceptances = [], bi_gaps = [], bi_frameworks = [], bi_attestations = 0, bi_chain = demo_bundle_chain,
      bi_checkpoint = None, bi_anchor = None\<rparr>"

definition demo_encoder :: bundle_encoder where
  "demo_encoder b = Inr (bv_decision (bu_verdict b))"

definition demo_bundle :: evidence_bundle where
  "demo_bundle = projr (build_bundle escape demo_encoder 0 demo_bundle_input)"

lemma demo_bundle_built: "build_bundle escape demo_encoder 0 demo_bundle_input = Inr demo_bundle"
  by (simp add: demo_bundle_def build_bundle_def Let_def bundle_hash_def demo_encoder_def)

lemma demo_chain_ok: "chain_ok escape 0 genesis_hash demo_bundle_chain"
  by (simp add: demo_bundle_chain_def)

lemma demo_bundle_verifies: "\<exists>w. verify_bundle escape demo_encoder demo_bundle = Inr w \<and> bw_valid w \<and> bw_digest w"
proof -
  note b = build_bundle_cases [OF demo_bundle_built]
  have v: "v_valid (verify_from escape (bi_chain demo_bundle_input) (bi_anchor demo_bundle_input) (bi_checkpoint demo_bundle_input))"
    by (simp add: verify_from_valid demo_bundle_input_def demo_chain_ok anchor_length_def anchor_head_def checkpoint_ok_def)
  have "records_intact escape (bi_chain demo_bundle_input)"
    using chain_ok_intact [OF demo_chain_ok] by (simp add: demo_bundle_input_def)
  then have "altered_records escape (au_records (bu_audit demo_bundle)) = []"
    unfolding altered_records_iff b(6) by (rule excerpt_intact)
  with v show ?thesis by (simp add: verify_bundle_def b(1,7) Let_def)
qed

theorem fresh_bundle_valid_iff_witness:
  "\<exists>w. verify_bundle escape demo_encoder demo_bundle = Inr w \<and> bw_valid w \<and> bw_problems w = []"
  using fresh_bundle_valid_iff [OF demo_bundle_built] demo_chain_ok
  by (simp add: demo_bundle_input_def anchor_length_def anchor_head_def checkpoint_ok_def)
    (auto simp: demo_bundle_chain_def)

theorem altered_bundle_verifies_witness:
  "\<exists>d w. verify_bundle escape demo_encoder
     (demo_bundle\<lparr>bu_verdict := (bu_verdict demo_bundle)\<lparr>bv_decision := verdict_approved\<rparr>, bu_findings := [], bu_digest := d\<rparr>) = Inr w \<and>
     bw_valid w"
proof -
  obtain w where w: "verify_bundle escape demo_encoder demo_bundle = Inr w" "bw_valid w" using demo_bundle_verifies by blast
  show ?thesis
    by (rule altered_bundle_verifies [OF w, where body = verdict_approved]) (simp add: demo_encoder_def)
qed

theorem digest_fixes_bundle_witness: "demo_bundle\<lparr>bu_digest := bu_digest demo_bundle\<rparr> = demo_bundle"
proof -
  obtain w where w: "verify_bundle escape demo_encoder demo_bundle = Inr w" "bw_digest w" using demo_bundle_verifies by blast
  have w': "verify_bundle escape demo_encoder (demo_bundle\<lparr>bu_digest := bu_digest demo_bundle\<rparr>) = Inr w" using w(1) by simp
  show ?thesis
    by (rule digest_fixes_bundle [OF w' w(2) w]) (simp_all add: demo_encoder_def)
qed

theorem techniques_never_evidenced_witness:
  "''AML.T0076'' \<notin> set (bm_techniques (build_controls demo_bundle_input)) \<and>
   ''AML.T0018.002'' \<in> set (bm_techniques (build_controls demo_bundle_input))"
proof -
  have "set (map rn_name (bi_scanners demo_bundle_input)) \<subseteq> set (map fst catalog)"
    by (simp add: demo_bundle_input_def catalog_def external_def)
  from techniques_never_evidenced [OF this]
  have "''AML.T0076'' \<notin> set (bm_techniques (build_controls demo_bundle_input))" by blast
  moreover have "''AML.T0018.002'' \<in> set (bm_techniques (build_controls demo_bundle_input))"
  proof -
    have "list_ex (\<lambda>(j, c, fs, ms). j = ''AML.T0018.002'' \<and> c \<noteq> Out_Of_Scope \<and> ''clamav'' \<in> set fs) (map technique_row atlas_techniques)"
      by (simp add: atlas_techniques_def atlas_rows)
    then show ?thesis
      by (auto simp: list_ex_iff technique_row_def demo_bundle_input_def build_controls_def completed_names_def techniques_evidenced_spec
          intro: sym)
  qed
  ultimately show ?thesis ..
qed

end
