(* ===== verification/Authz.thy ===== *)
theory Authz
  imports Cupel_Types
begin

text \<open>
  Who may see which models, and how much of a finding (\<open>internal/authz\<close>): roles and their
  capabilities, bindings from identity-provider groups to roles and tenants, and the redaction of
  findings and models.  A role is a string, as in the source, because a binding file may hold any;
  a capability is one of the eight constants.
\<close>

section \<open>Roles and capabilities\<close>

datatype capability =
    ViewInventory | ViewFindings | ViewFindingPath | ViewCompliance | RunScan | Waive | Manage | ViewAudit

definition cap_str :: "capability \<Rightarrow> string" where
  "cap_str c =
     (case c of
        ViewInventory \<Rightarrow> ''view:inventory'' | ViewFindings \<Rightarrow> ''view:findings''
      | ViewFindingPath \<Rightarrow> ''view:finding-path'' | ViewCompliance \<Rightarrow> ''view:compliance''
      | RunScan \<Rightarrow> ''scan:create'' | Waive \<Rightarrow> ''finding:waive'' | Manage \<Rightarrow> ''admin:manage''
      | ViewAudit \<Rightarrow> ''view:audit'')"

lemma cap_str_inject: "cap_str a = cap_str b \<Longrightarrow> a = b"
  by (cases a; cases b) (simp_all add: cap_str_def)

text \<open>The source sorts capabilities by their strings; that is their order here.\<close>

instantiation capability :: linorder
begin

definition less_eq_capability :: "capability \<Rightarrow> capability \<Rightarrow> bool" where
  "less_eq_capability a b \<longleftrightarrow> cap_str a \<le> cap_str b"

definition less_capability :: "capability \<Rightarrow> capability \<Rightarrow> bool" where
  "less_capability a b \<longleftrightarrow> cap_str a < cap_str b"

instance
  by standard (auto simp: less_eq_capability_def less_capability_def dest: cap_str_inject)

end

type_synonym role = string

definition role_admin :: role where "role_admin = ''admin''"
definition role_security :: role where "role_security = ''security''"
definition role_owner :: role where "role_owner = ''owner''"
definition role_auditor :: role where "role_auditor = ''auditor''"
definition role_viewer :: role where "role_viewer = ''viewer''"

definition role_capabilities :: "(role \<times> capability list) list" where
  "role_capabilities =
     [(''admin'', [ViewInventory, ViewFindings, ViewFindingPath, ViewCompliance, RunScan, Waive, Manage, ViewAudit]),
      (''security'', [ViewInventory, ViewFindings, ViewFindingPath, ViewCompliance, RunScan, Waive, ViewAudit]),
      (''owner'', [ViewInventory, ViewFindings, ViewFindingPath, ViewCompliance, RunScan]),
      (''auditor'', [ViewInventory, ViewFindings, ViewCompliance, ViewAudit]),
      (''viewer'', [ViewInventory])]"

definition caps_of :: "role \<Rightarrow> capability list" where
  "caps_of r = (case map_of role_capabilities r of None \<Rightarrow> [] | Some cs \<Rightarrow> cs)"

definition all_capabilities :: "capability list" where
  "all_capabilities = sort (remdups (concat (map snd role_capabilities)))"

definition role_names :: "role list" where
  "role_names = sort (map fst role_capabilities)"

definition parse_role :: "string \<Rightarrow> string + role" where
  "parse_role s =
     (let r = to_lower (trim_space s)
      in if map_of role_capabilities r = None
         then Inl (''unknown role '' @ quote s @ ''; known roles: '' @ str_join '', '' role_names)
         else Inr r)"

section \<open>Subjects\<close>

record scope =
  sc_namespaces :: "string list"
  sc_all :: bool

record subject =
  su_name :: string
  su_groups :: "string list"
  su_roles :: "role list"
  su_scope :: scope

definition can :: "subject \<Rightarrow> capability \<Rightarrow> bool" where
  "can s c \<longleftrightarrow> (\<exists>r \<in> set (su_roles s). c \<in> set (caps_of r))"

definition can_see_namespace :: "subject \<Rightarrow> string \<Rightarrow> bool" where
  "can_see_namespace s ns \<longleftrightarrow> sc_all (su_scope s) \<or> ns \<in> set (sc_namespaces (su_scope s))"

definition anonymous :: subject where
  "anonymous = \<lparr>su_name = ''anonymous'', su_groups = [], su_roles = [],
     su_scope = \<lparr>sc_namespaces = [], sc_all = False\<rparr>\<rparr>"

section \<open>Bindings\<close>

record binding =
  b_group :: string
  b_role :: role
  b_namespaces :: "string list"
  b_all :: bool

definition binding_validate :: "binding \<Rightarrow> string option" where
  "binding_validate b =
     (if trim_space (b_group b) = [] then Some ''binding has no group''
      else if (case str_index (b_group b) ''*'' of None \<Rightarrow> False | Some i \<Rightarrow> i \<noteq> length (b_group b) - 1)
      then Some (''binding group '' @ quote (b_group b) @ '': '' @ quote ''*'' @
                 '' is only allowed as a trailing wildcard'')
      else
        (case parse_role (b_role b) of
           Inl e \<Rightarrow> Some (''binding for group '' @ quote (b_group b) @ '': '' @ e)
         | Inr _ \<Rightarrow>
             if \<not> b_all b \<and> b_namespaces b = []
             then Some (''binding for group '' @ quote (b_group b) @ '' grants '' @ quote (b_role b) @
                        '' over no namespaces; set namespaces or allNamespaces'')
             else if b_all b \<and> b_namespaces b \<noteq> []
             then Some (''binding for group '' @ quote (b_group b) @ '' sets both namespaces and allNamespaces'')
             else if \<exists>ns \<in> set (b_namespaces b). trim_space ns = []
             then Some (''binding for group '' @ quote (b_group b) @ '' has an empty namespace'')
             else None))"

definition binding_matches :: "binding \<Rightarrow> string \<Rightarrow> bool" where
  "binding_matches b g =
     (if suffix ''*'' (b_group b) then prefix (trim_suffix (b_group b) ''*'') g
      else b_group b = g)"

text \<open>\<open>Bindings.Validate\<close>: every problem, with its index.\<close>

definition bindings_validate :: "binding list \<Rightarrow> string option" where
  "bindings_validate bs =
     (let problems = concat (map (\<lambda>(i, b). case binding_validate b of
            None \<Rightarrow> [] | Some e \<Rightarrow> [''  ['' @ nat_str i @ ''] '' @ e]) (enumerate 0 bs))
      in if problems = [] then None
         else Some (''invalid role bindings:'' @ [newline_char] @ str_join [newline_char] problems))"

record claims =
  cl_username :: string
  cl_groups :: "string list"

text \<open>
  \<open>SubjectFor\<close>.  The loop over the bindings collects the roles and the namespaces in maps used as
  sets; each binding counts once, when some group of the claims matches it.
\<close>

definition binding_step :: "string list \<Rightarrow> binding \<Rightarrow> role list \<times> string list \<times> bool \<Rightarrow> role list \<times> string list \<times> bool" where
  "binding_step groups b acc =
     (case acc of (roles, namespaces, every) \<Rightarrow>
        if \<exists>g \<in> set groups. binding_matches b g
        then (add_new (b_role b) roles, fold add_new (b_namespaces b) namespaces, every \<or> b_all b)
        else (roles, namespaces, every))"

definition subject_for :: "binding list \<Rightarrow> claims \<Rightarrow> subject" where
  "subject_for bs c =
     (case fold (binding_step (cl_groups c)) bs ([], [], False) of (roles, namespaces, every) \<Rightarrow>
        \<lparr>su_name = cl_username c, su_groups = cl_groups c, su_roles = sort roles,
         su_scope = \<lparr>sc_namespaces = (if every then [] else sort namespaces), sc_all = every\<rparr>\<rparr>)"

definition describe :: "subject \<Rightarrow> string" where
  "describe s =
     (if su_roles s = [] then su_name s @ '': no roles; sees nothing''
      else
        (let scp = (if sc_all (su_scope s) then ''all tenants''
                    else if sc_namespaces (su_scope s) \<noteq> []
                    then ''tenants '' @ str_join '', '' (sc_namespaces (su_scope s))
                    else ''no tenants'');
             detail = (if can s ViewFindingPath then ''full finding detail''
                       else if can s ViewFindings then ''findings without location or description''
                       else ''verdicts only'')
         in su_name s @ '': '' @ str_join ''+'' (su_roles s) @ '' over '' @ scp @ '' ('' @ detail @ '')''))"

text \<open>
  \<open>ParseBindings\<close>.  Reading YAML is the library's: \<open>obj\<close> reads an object with a \<open>bindings\<close> key and
  \<open>lst\<close> a bare list.
\<close>

definition parse_bindings ::
    "(string \<Rightarrow> string + binding list) \<Rightarrow> (string \<Rightarrow> string + binding list) \<Rightarrow> string
       \<Rightarrow> string + binding list" where
  "parse_bindings obj lst raw =
     (if trim_space raw = [] then Inl ''the bindings file is empty; nobody would be able to sign in''
      else
        (case (case obj raw of Inr bs \<Rightarrow> if bs \<noteq> [] then Some bs else None | Inl _ \<Rightarrow> None) of
           Some bs \<Rightarrow> Inr bs
         | None \<Rightarrow>
             (case lst raw of
                Inl e \<Rightarrow> Inl (''expected a list of bindings, or an object with a '' @ quote ''bindings'' @ '' key: '' @ e)
              | Inr bs \<Rightarrow>
                  if bs = [] then Inl ''no bindings found; nobody would be able to sign in''
                  else Inr bs)))"

section \<open>Redaction\<close>

record redaction =
  rd_hidden :: int
  rd_withheld :: bool
  rd_reason :: string

record finding_view =
  fv_id :: string
  fv_title :: string
  fv_severity :: string
  fv_category :: string
  fv_scanner :: string
  fv_location :: string
  fv_description :: string
  fv_redacted :: bool

definition view_of :: "bool \<Rightarrow> string \<Rightarrow> finding \<Rightarrow> finding_view" where
  "view_of full scanner f =
     \<lparr>fv_id = f_id f, fv_title = f_title f, fv_severity = f_severity f, fv_category = f_category f,
      fv_scanner = scanner,
      fv_location = (if full then f_location f else []),
      fv_description = (if full then f_description f else []),
      fv_redacted = (\<not> full)\<rparr>"

definition redact_findings ::
    "subject \<Rightarrow> string \<Rightarrow> finding list \<Rightarrow> string \<Rightarrow> finding_view list \<times> redaction" where
  "redact_findings s ns findings scanner =
     (if \<not> can_see_namespace s ns
      then ([], \<lparr>rd_hidden = int (length findings), rd_withheld = True,
                 rd_reason = ''outside your assigned tenants''\<rparr>)
      else if \<not> can s ViewFindings
      then ([], \<lparr>rd_hidden = int (length findings), rd_withheld = True,
                 rd_reason = ''your role does not include finding detail''\<rparr>)
      else
        (let full = can s ViewFindingPath; views = map (view_of full scanner) findings
         in (views,
             if \<not> full \<and> views \<noteq> []
             then \<lparr>rd_hidden = 0, rd_withheld = True,
                   rd_reason = ''location and description are limited to security and model-owner roles''\<rparr>
             else \<lparr>rd_hidden = 0, rd_withheld = False, rd_reason = []\<rparr>)))"

record model_view =
  mv_model :: string
  mv_version :: string
  mv_namespace :: string
  mv_verdict :: string
  mv_risk :: int32
  mv_malware :: string
  mv_secrets :: string
  mv_last_scan :: string
  mv_severities :: severity_counts

definition filter_models :: "subject \<Rightarrow> model_view list \<Rightarrow> model_view list \<times> redaction" where
  "filter_models s models =
     (if \<not> can s ViewInventory
      then ([], \<lparr>rd_hidden = int (length models), rd_withheld = False,
                 rd_reason = ''your role does not include the model inventory''\<rparr>)
      else
        (let visible = filter (\<lambda>m. can_see_namespace s (mv_namespace m)) models;
             hidden = int (length (filter (\<lambda>m. \<not> can_see_namespace s (mv_namespace m)) models))
         in (visible,
             if hidden > 0
             then \<lparr>rd_hidden = hidden, rd_withheld = False,
                   rd_reason = ''models outside your assigned tenants are not shown''\<rparr>
             else \<lparr>rd_hidden = 0, rd_withheld = False, rd_reason = []\<rparr>)))"


section \<open>What the bindings grant\<close>

lemma set_fold_add_new [simp]: "set (fold add_new xs ys) = set xs \<union> set ys"
  by (induction xs arbitrary: ys) auto

lemma distinct_fold_add_new: "distinct ys \<Longrightarrow> distinct (fold add_new xs ys)"
  by (induction xs arbitrary: ys) (auto intro: wf_intros)

definition matched :: "binding list \<Rightarrow> claims \<Rightarrow> binding set" where
  "matched bs c = {b \<in> set bs. \<exists>g \<in> set (cl_groups c). binding_matches b g}"

lemma fold_binding_step:
  "case fold (binding_step (cl_groups c)) bs (rs, ns, ev) of (rs', ns', ev') \<Rightarrow>
     set rs' = set rs \<union> b_role ` matched bs c \<and>
     set ns' = set ns \<union> \<Union> (set ` b_namespaces ` matched bs c) \<and>
     (ev' \<longleftrightarrow> ev \<or> (\<exists>b \<in> matched bs c. b_all b)) \<and>
     (distinct rs \<longrightarrow> distinct rs') \<and> (distinct ns \<longrightarrow> distinct ns')"
proof (induction bs arbitrary: rs ns ev)
  case (Cons b bs)
  show ?case
  proof (cases "\<exists>g \<in> set (cl_groups c). binding_matches b g")
    case True
    then have m: "matched (b # bs) c = insert b (matched bs c)" by (auto simp: matched_def)
    have "binding_step (cl_groups c) b (rs, ns, ev)
        = (add_new (b_role b) rs, fold add_new (b_namespaces b) ns, ev \<or> b_all b)"
      using True by (simp add: binding_step_def)
    then show ?thesis
      using Cons [of "add_new (b_role b) rs" "fold add_new (b_namespaces b) ns" "ev \<or> b_all b"]
      unfolding m by (auto split: prod.splits intro: wf_intros distinct_fold_add_new)
  next
    case False
    then have m: "matched (b # bs) c = matched bs c" by (auto simp: matched_def)
    have "binding_step (cl_groups c) b (rs, ns, ev) = (rs, ns, ev)"
      using False by (simp add: binding_step_def)
    then show ?thesis using Cons [of rs ns ev] unfolding m by simp
  qed
qed (simp add: matched_def)

lemma subject_for_parts:
  obtains rs xs ev where "fold (binding_step (cl_groups c)) bs ([], [], False) = (rs, xs, ev)"
    and "set rs = b_role ` matched bs c" and "set xs = \<Union> (set ` b_namespaces ` matched bs c)"
    and "ev \<longleftrightarrow> (\<exists>b \<in> matched bs c. b_all b)" and "distinct rs" and "distinct xs"
proof -
  obtain rs xs ev where f: "fold (binding_step (cl_groups c)) bs ([], [], False) = (rs, xs, ev)"
    by (rule prod_cases3)
  show thesis
    using fold_binding_step [where c = c and bs = bs and rs = "[]" and ns = "[]" and ev = False]
    by (intro that [OF f]) (simp_all add: f)
qed

lemma subject_can: "can (subject_for bs c) cap \<longleftrightarrow> (\<exists>b \<in> matched bs c. cap \<in> set (caps_of (b_role b)))"
proof -
  obtain rs xs ev where "fold (binding_step (cl_groups c)) bs ([], [], False) = (rs, xs, ev)"
    and "set rs = b_role ` matched bs c"
    by (rule subject_for_parts)
  then show ?thesis by (auto simp: subject_for_def can_def)
qed

lemma subject_sees:
  "can_see_namespace (subject_for bs c) ns \<longleftrightarrow>
     (\<exists>b \<in> matched bs c. b_all b \<or> ns \<in> set (b_namespaces b))"
proof -
  obtain rs xs ev where p: "fold (binding_step (cl_groups c)) bs ([], [], False) = (rs, xs, ev)"
    "set xs = \<Union> (set ` b_namespaces ` matched bs c)" "ev \<longleftrightarrow> (\<exists>b \<in> matched bs c. b_all b)"
    by (rule subject_for_parts)
  show ?thesis
  proof (cases ev)
    case True
    then show ?thesis using p by (auto simp: subject_for_def can_see_namespace_def)
  next
    case False
    then show ?thesis using p by (auto simp: subject_for_def can_see_namespace_def)
  qed
qed

text \<open>
  A token grants exactly what its matching bindings say, and nothing without one. A subject
  may do what the role of some binding allows that one of its groups matches, and see the namespaces
  some such binding names: with no match it may do nothing and see nothing.
\<close>

theorem subject_access_iff:
  "(can (subject_for bs c) cap \<longleftrightarrow>
      (\<exists>b \<in> set bs. (\<exists>g \<in> set (cl_groups c). binding_matches b g) \<and> cap \<in> set (caps_of (b_role b)))) \<and>
   (can_see_namespace (subject_for bs c) ns \<longleftrightarrow>
      (\<exists>b \<in> set bs. (\<exists>g \<in> set (cl_groups c). binding_matches b g) \<and>
         (b_all b \<or> ns \<in> set (b_namespaces b))))"
  unfolding subject_can subject_sees matched_def by blast

text \<open>
  The order of the bindings does not matter, and neither does repeating one: two binding
  files with the same bindings give the same subject, down to the order of its roles and namespaces.
\<close>

theorem bindings_order_irrelevant:
  assumes "set bs = set bs'"
  shows "subject_for bs c = subject_for bs' c"
proof -
  have m: "matched bs c = matched bs' c" using assms by (simp add: matched_def)
  obtain rs ns ev where a: "fold (binding_step (cl_groups c)) bs ([], [], False) = (rs, ns, ev)"
    "set rs = b_role ` matched bs c" "set ns = \<Union> (set ` b_namespaces ` matched bs c)"
    "ev \<longleftrightarrow> (\<exists>b \<in> matched bs c. b_all b)" "distinct rs" "distinct ns"
    by (rule subject_for_parts)
  obtain rs' ns' ev' where b: "fold (binding_step (cl_groups c)) bs' ([], [], False) = (rs', ns', ev')"
    "set rs' = b_role ` matched bs' c" "set ns' = \<Union> (set ` b_namespaces ` matched bs' c)"
    "ev' \<longleftrightarrow> (\<exists>b \<in> matched bs' c. b_all b)" "distinct rs'" "distinct ns'"
    by (rule subject_for_parts)
  have "sort rs = sort rs'" using a(2,5) b(2,5) m by (intro sort_eq_of_set) simp_all
  moreover have "sort ns = sort ns'" using a(3,6) b(3,6) m by (intro sort_eq_of_set) simp_all
  moreover have "ev = ev'" using a(4) b(4) m by simp
  ultimately show ?thesis using a(1) b(1) by (simp add: subject_for_def)
qed

definition bind :: "string \<Rightarrow> role \<Rightarrow> string list \<Rightarrow> binding" where
  "bind g r ns = \<lparr>b_group = g, b_role = r, b_namespaces = ns, b_all = False\<rparr>"

definition token :: claims where
  "token = \<lparr>cl_username = ''ann'', cl_groups = [''ml-team-a'', ''staff'']\<rparr>"

theorem bindings_order_irrelevant_witness:
  "subject_for [bind ''ml-team-*'' ''security'' [''a''], bind ''staff'' ''viewer'' [''b'']] token
     = subject_for [bind ''staff'' ''viewer'' [''b''], bind ''ml-team-*'' ''security'' [''a''],
                    bind ''staff'' ''viewer'' [''b'']] token"
  by (rule bindings_order_irrelevant) auto

text \<open>
  Roles are not tied to their tenants. A binding says which namespaces its role applies to,
  but a subject's roles and namespaces are collected apart: one binding's capability applies in the
  namespaces of every other binding that matches, so a finding of a tenant where the subject is only
  a viewer is shown with its exploit path to whoever holds that capability anywhere.
\<close>

theorem roles_cross_tenants:
  assumes "b \<in> matched bs c" and "d \<in> matched bs c"
    and "ViewFindingPath \<in> set (caps_of (b_role b))" and "ViewFindings \<in> set (caps_of (b_role b))"
    and "ns \<in> set (b_namespaces d)"
  shows "fst (redact_findings (subject_for bs c) ns fs scanner) = map (view_of True scanner) fs"
proof -
  have "can (subject_for bs c) ViewFindingPath" "can (subject_for bs c) ViewFindings"
    "can_see_namespace (subject_for bs c) ns"
    using assms unfolding subject_can subject_sees by blast+
  then show ?thesis by (simp add: redact_findings_def Let_def)
qed

definition secret_finding :: finding where
  "secret_finding = \<lparr>f_id = ''S-1'', f_title = ''leaked key'', f_severity = ''critical'',
     f_category = ''secret'', f_location = ''weights/model.pkl'', f_description = ''calls os.system''\<rparr>"

text \<open>Security in tenant \<open>a\<close>, viewer in tenant \<open>b\<close>: the path of a finding in \<open>b\<close> is shown.\<close>

theorem roles_cross_tenants_witness:
  "map fv_location (fst (redact_findings
     (subject_for [bind ''ml-team-*'' ''security'' [''a''], bind ''staff'' ''viewer'' [''b'']] token)
     ''b'' [secret_finding] ''trufflehog'')) = [''weights/model.pkl'']"
proof -
  define bs where "bs = [bind ''ml-team-*'' ''security'' [''a''], bind ''staff'' ''viewer'' [''b'']]"
  have "bind ''ml-team-*'' ''security'' [''a''] \<in> matched bs token"
    "bind ''staff'' ''viewer'' [''b''] \<in> matched bs token"
    by (auto simp: matched_def bs_def bind_def token_def binding_matches_def trim_suffix_def suffix_def)
  from roles_cross_tenants [OF this, of "''b''"] show ?thesis
    unfolding bs_def [symmetric]
    by (simp add: bind_def caps_of_def role_capabilities_def view_of_def secret_finding_def)
qed

section \<open>What each role may do\<close>

lemma caps_of_role:
  "c \<in> set (caps_of r) \<longleftrightarrow>
     (case c of
        ViewInventory \<Rightarrow> r \<in> {role_admin, role_security, role_owner, role_auditor, role_viewer}
      | ViewFindings \<Rightarrow> r \<in> {role_admin, role_security, role_owner, role_auditor}
      | ViewFindingPath \<Rightarrow> r \<in> {role_admin, role_security, role_owner}
      | ViewCompliance \<Rightarrow> r \<in> {role_admin, role_security, role_owner, role_auditor}
      | RunScan \<Rightarrow> r \<in> {role_admin, role_security, role_owner}
      | Waive \<Rightarrow> r \<in> {role_admin, role_security}
      | Manage \<Rightarrow> r \<in> {role_admin}
      | ViewAudit \<Rightarrow> r \<in> {role_admin, role_security, role_auditor})"
  by (auto simp: caps_of_def role_capabilities_def role_admin_def role_security_def role_owner_def
      role_auditor_def role_viewer_def split: capability.split if_splits)

text \<open>
  Separation of duties. Only an admin or a security role can accept a risk, so an owner never
  waives a finding of its own model; only admins, security and owners ever see an exploit path; only
  an admin configures; and whoever may run a scan may see the inventory and the findings.
\<close>

theorem separation_of_duties:
  "(can s Waive \<longrightarrow> role_admin \<in> set (su_roles s) \<or> role_security \<in> set (su_roles s)) \<and>
   (can s Manage \<longrightarrow> role_admin \<in> set (su_roles s)) \<and>
   (set (su_roles s) \<subseteq> {role_auditor, role_viewer} \<longrightarrow> \<not> can s ViewFindingPath) \<and>
   (can s RunScan \<longrightarrow> can s ViewInventory \<and> can s ViewFindings)"
  unfolding can_def caps_of_role by (auto simp: role_admin_def role_security_def role_owner_def
      role_auditor_def role_viewer_def)

definition owner_subject :: subject where
  "owner_subject = \<lparr>su_name = ''olga'', su_groups = [], su_roles = [''owner''],
     su_scope = \<lparr>sc_namespaces = [''a''], sc_all = False\<rparr>\<rparr>"

theorem separation_of_duties_witness:
  "\<not> can owner_subject Waive \<and> can owner_subject RunScan \<and> can owner_subject ViewFindings"
  using separation_of_duties [of owner_subject]
  by (auto simp: owner_subject_def role_admin_def role_security_def can_def caps_of_def role_capabilities_def)

text \<open>
  A binding can pass validation and grant nothing. Validation accepts a role in any case and
  with surrounding blanks, but the capabilities are looked up under the role as it was written: a
  valid binding grants its role's capabilities exactly when the role is written in lower case and
  trimmed, and no capability otherwise.
\<close>

theorem valid_binding_may_grant_nothing:
  assumes "binding_validate b = None"
  shows "caps_of (b_role b) = [] \<longleftrightarrow> to_lower (trim_space (b_role b)) \<noteq> b_role b"
proof
  assume "to_lower (trim_space (b_role b)) \<noteq> b_role b"
  moreover have "to_lower (trim_space r) = r" if "r \<in> fst ` set role_capabilities" for r
  proof -
    have "\<forall>r \<in> set (map fst role_capabilities). to_lower (trim_space r) = r" by code_simp
    then show ?thesis using that unfolding set_map by blast
  qed
  ultimately have "map_of role_capabilities (b_role b) = None"
    by (metis map_of_eq_None_iff)
  then show "caps_of (b_role b) = []" by (simp add: caps_of_def)
next
  assume e: "caps_of (b_role b) = []"
  show "to_lower (trim_space (b_role b)) \<noteq> b_role b"
  proof
    assume "to_lower (trim_space (b_role b)) = b_role b"
    then have "map_of role_capabilities (b_role b) \<noteq> None"
      using assms by (auto simp: binding_validate_def parse_role_def Let_def split: if_splits)
    then obtain cs where "map_of role_capabilities (b_role b) = Some cs" by auto
    moreover from this have "(b_role b, cs) \<in> set role_capabilities" by (rule map_of_SomeD)
    ultimately show False using e by (auto simp: caps_of_def role_capabilities_def)
  qed
qed

theorem valid_binding_may_grant_nothing_witness:
  "caps_of (b_role (bind ''security-team'' ''Security'' [''a''])) = []"
proof -
  have "binding_validate (bind ''security-team'' ''Security'' [''a'']) = None" by code_simp
  from valid_binding_may_grant_nothing [OF this] show ?thesis by code_simp
qed


section \<open>Redaction withholds\<close>

text \<open>Two findings that differ at most in what redaction withholds.\<close>

definition same_public :: "finding \<Rightarrow> finding \<Rightarrow> bool" where
  "same_public f g \<longleftrightarrow> f\<lparr>f_location := [], f_description := []\<rparr> = g\<lparr>f_location := [], f_description := []\<rparr>"

lemma same_public_fields:
  "same_public f g \<longleftrightarrow> f_id f = f_id g \<and> f_title f = f_title g \<and> f_severity f = f_severity g \<and>
     f_category f = f_category g"
  by (cases f; cases g) (simp add: same_public_def)

lemma view_public: "same_public f g \<Longrightarrow> view_of False scanner f = view_of False scanner g"
  by (simp add: view_of_def same_public_fields)

text \<open>
  Claim C39. Withheld detail does not leak. For a subject that may not see exploit paths, the whole
  answer (rows, counts and messages) is the same for any two lists of findings that differ only in
  their locations and descriptions; for a subject outside the tenant, or without findings, it
  depends on nothing but how many there are.
\<close>

theorem redaction_noninterference:
  assumes "if can_see_namespace s ns \<and> can s ViewFindings
           then \<not> can s ViewFindingPath \<and> list_all2 same_public fs gs
           else length fs = length gs"
  shows "redact_findings s ns fs scanner = redact_findings s ns gs scanner"
proof (cases "can_see_namespace s ns \<and> can s ViewFindings")
  case False
  then show ?thesis using assms by (auto simp: redact_findings_def)
next
  case True
  then have c: "\<not> can s ViewFindingPath" "list_all2 same_public fs gs" using assms by simp_all
  have "map (view_of False scanner) fs = map (view_of False scanner) gs"
    using c(2) by (induction rule: list_all2_induct) (auto simp: view_public)
  moreover have "length fs = length gs" using c(2) by (rule list_all2_lengthD)
  ultimately show ?thesis using c(1) by (auto simp: redact_findings_def Let_def)
qed

definition auditor_subject :: subject where
  "auditor_subject = \<lparr>su_name = ''aud'', su_groups = [], su_roles = [''auditor''],
     su_scope = \<lparr>sc_namespaces = [''a''], sc_all = False\<rparr>\<rparr>"

theorem redaction_noninterference_witness:
  "redact_findings auditor_subject ''a'' [secret_finding] ''trufflehog''
     = redact_findings auditor_subject ''a'' [secret_finding\<lparr>f_location := ''elsewhere''\<rparr>] ''trufflehog''"
  by (rule redaction_noninterference)
    (simp add: can_def can_see_namespace_def auditor_subject_def caps_of_def role_capabilities_def
      same_public_fields)

text \<open>
  A subject outside a tenant is told how many findings it has: the answer hides every finding
  and carries their number.
\<close>

theorem outsider_learns_count:
  assumes "\<not> can_see_namespace s ns"
  shows "fst (redact_findings s ns fs scanner) = [] \<and>
    rd_hidden (snd (redact_findings s ns fs scanner)) = int (length fs)"
  using assms by (simp add: redact_findings_def)

theorem outsider_learns_count_witness:
  "rd_hidden (snd (redact_findings auditor_subject ''b'' [secret_finding, secret_finding] ''x'')) = 2"
proof -
  have "\<not> can_see_namespace auditor_subject ''b''"
    by (simp add: can_see_namespace_def auditor_subject_def)
  from outsider_learns_count [OF this] show ?thesis by simp
qed

text \<open>
  The model list is complete for what the subject may see. Every model shown is in one of its
  tenants, in the order given; every model of its tenants is shown if it may see the inventory at
  all; and the number withheld makes up the rest, so a partial view is never taken for a full one.
\<close>

theorem filter_models_partition:
  "set (fst (filter_models s ms)) =
     {m \<in> set ms. can s ViewInventory \<and> can_see_namespace s (mv_namespace m)} \<and>
   int (length (fst (filter_models s ms))) + rd_hidden (snd (filter_models s ms)) = int (length ms) \<and>
   subseq (fst (filter_models s ms)) ms"
  using sum_length_filter_compl [of "\<lambda>m. can_see_namespace s (mv_namespace m)" ms]
  by (auto simp: filter_models_def Let_def)

end
