(* ===== verification/Api_Session.thy ===== *)
theory Api_Session
  imports Authz Go_Time
begin

text \<open>
  Signing in to the console (\<open>internal/api/session.go\<close>, \<open>internal/api/auth.go\<close>): the signed session cookie and
  the login through an identity provider.  The keyed hash, the JSON form of a session and the provider's
  library (exchange of a code, verification of a token) are parameters; base64 is modelled.
\<close>

section \<open>Base64 for URLs, without padding\<close>

definition b64_alphabet :: string where
  "b64_alphabet = ''ABCDEFGHIJKLMNOPQRSTUVWXYZabcdefghijklmnopqrstuvwxyz0123456789-_''"

fun b64_sextets :: "nat list \<Rightarrow> nat list" where
  "b64_sextets [] = []"
| "b64_sextets [a] = [a div 4, (a mod 4) * 16]"
| "b64_sextets [a, b] = [a div 4, (a mod 4) * 16 + b div 16, (b mod 16) * 4]"
| "b64_sextets (a # b # c # xs) =
     [a div 4, (a mod 4) * 16 + b div 16, (b mod 16) * 4 + c div 64, c mod 64] @ b64_sextets xs"

text \<open>Decoding is not strict: the bits that are left over are not looked at.\<close>

fun b64_bytes :: "nat list \<Rightarrow> nat list option" where
  "b64_bytes [] = Some []"
| "b64_bytes [x] = None"
| "b64_bytes [x, y] = Some [x * 4 + y div 16]"
| "b64_bytes [x, y, z] = Some [x * 4 + y div 16, (y mod 16) * 16 + z div 4]"
| "b64_bytes (x # y # z # w # xs) =
     map_option (\<lambda>bs. [x * 4 + y div 16, (y mod 16) * 16 + z div 4, (z mod 4) * 64 + w] @ bs) (b64_bytes xs)"

definition b64_value :: "char \<Rightarrow> nat option" where
  "b64_value c = map_of (zip b64_alphabet [0..<64]) c"

definition b64_encode :: "string \<Rightarrow> string" where
  "b64_encode s = map ((!) b64_alphabet) (b64_sextets (map of_char s))"

definition b64_decode :: "string \<Rightarrow> string option" where
  "b64_decode s =
     (let vs = map b64_value (filter (\<lambda>c. c \<noteq> newline_char \<and> c \<noteq> CHR 0x0D) s)
      in if None \<in> set vs then None else map_option (map char_of) (b64_bytes (map the vs)))"

section \<open>Requests, cookies and the session\<close>

record api_request =
  rq_method :: string
  rq_path :: "string list"
  rq_query :: "string \<Rightarrow> string"
  rq_cookie :: "string \<Rightarrow> string option"
  rq_tls :: bool
  rq_forwarded :: string
  rq_body :: string

text \<open>A cookie to set; without an expiry it is to be deleted.\<close>

record cookie =
  ck_name :: string
  ck_value :: string
  ck_expires :: "go_time option"
  ck_http_only :: bool
  ck_lax :: bool
  ck_secure :: bool

record session =
  se_user :: string
  se_groups :: "string list"
  se_expires :: int

record session_codec =
  sk_key :: string
  sk_ttl :: duration
  sk_mac :: "string \<Rightarrow> string \<Rightarrow> string"
  sk_encode :: "session \<Rightarrow> string + string"
  sk_decode :: "string \<Rightarrow> session option"

definition session_cookie :: string where "session_cookie = ''cupel_session''"
definition state_cookie :: string where "state_cookie = ''cupel_oidc_state''"

text \<open>The codec for a key, given the library functions \<open>mac\<close>, \<open>enc\<close> and \<open>dec\<close>.\<close>

definition new_session_codec ::
    "(string \<Rightarrow> string \<Rightarrow> string) \<Rightarrow> (session \<Rightarrow> string + string) \<Rightarrow> (string \<Rightarrow> session option) \<Rightarrow> string \<Rightarrow> duration \<Rightarrow>
     string + session_codec"
where
  "new_session_codec mac enc dec key ttl =
     (if length key < 32
      then Inl (''session key must be at least 32 bytes, got '' @ nat_str (length key))
      else Inr \<lparr>sk_key = key, sk_ttl = (if ttl \<le> 0 then 12 * hour else ttl), sk_mac = mac, sk_encode = enc, sk_decode = dec\<rparr>)"

definition sign_session :: "session_codec \<Rightarrow> string \<Rightarrow> string" where
  "sign_session c payload = b64_encode payload @ ''.'' @ b64_encode (sk_mac c (sk_key c) payload)"

text \<open>\<open>strings.Cut\<close> at the first dot.\<close>

definition cut_dot :: "string \<Rightarrow> (string \<times> string) option" where
  "cut_dot s =
     (case dropWhile (\<lambda>c. c \<noteq> CHR ''.'') s of [] \<Rightarrow> None | d # rest \<Rightarrow> Some (takeWhile (\<lambda>c. c \<noteq> CHR ''.'') s, rest))"

definition verify_session :: "session_codec \<Rightarrow> go_time \<Rightarrow> string \<Rightarrow> string + session" where
  "verify_session c now value =
     (case cut_dot value of
        None \<Rightarrow> Inl ''malformed session''
      | Some (body, sig) \<Rightarrow>
          (case b64_decode body of
             None \<Rightarrow> Inl ''malformed session payload''
           | Some payload \<Rightarrow>
               (case b64_decode sig of
                  None \<Rightarrow> Inl ''malformed session signature''
                | Some want \<Rightarrow>
                    if sk_mac c (sk_key c) payload \<noteq> want then Inl ''session signature does not verify''
                    else
                      (case sk_decode c payload of
                         None \<Rightarrow> Inl ''malformed session contents''
                       | Some s \<Rightarrow> if unix_sec now > se_expires s then Inl ''session expired'' else Inr s))))"

definition is_tls :: "api_request \<Rightarrow> bool" where
  "is_tls rq \<longleftrightarrow> rq_tls rq \<or> equal_fold (rq_forwarded rq) ''https''"

definition issue_session :: "session_codec \<Rightarrow> go_time \<Rightarrow> api_request \<Rightarrow> string \<Rightarrow> string list \<Rightarrow> string + cookie" where
  "issue_session c now rq user groups =
     (case sk_encode c \<lparr>se_user = user, se_groups = groups, se_expires = unix_sec (now + sk_ttl c)\<rparr> of
        Inl e \<Rightarrow> Inl e
      | Inr payload \<Rightarrow>
          Inr \<lparr>ck_name = session_cookie, ck_value = sign_session c payload, ck_expires = Some (now + sk_ttl c),
               ck_http_only = True, ck_lax = True, ck_secure = is_tls rq\<rparr>)"

definition clear_session :: "api_request \<Rightarrow> cookie" where
  "clear_session rq =
     \<lparr>ck_name = session_cookie, ck_value = [], ck_expires = None, ck_http_only = True, ck_lax = True, ck_secure = is_tls rq\<rparr>"

section \<open>Claims of a token\<close>

datatype claim_value = Claim_Text string | Claim_List "claim_value list" | Claim_Strings "string list" | Claim_Other

type_synonym token_claims = "string \<Rightarrow> claim_value option"

record oidc_config =
  oc_issuer :: string
  oc_client :: string
  oc_scopes :: "string list"
  oc_groups_claim :: string
  oc_user_claim :: string

definition dedupe :: "string list \<Rightarrow> string list" where
  "dedupe xs = fold add_new (filter (\<lambda>s. s \<noteq> []) xs) []"

definition oidc_scopes :: "oidc_config \<Rightarrow> string list" where
  "oidc_scopes cfg = dedupe ([''openid'', ''profile'', ''email''] @ oc_scopes cfg)"

fun first_text :: "token_claims \<Rightarrow> string list \<Rightarrow> string" where
  "first_text cl [] = []"
| "first_text cl (k # ks) =
     (case cl k of
        Some (Claim_Text v) \<Rightarrow> if v \<noteq> [] then v else first_text cl ks
      | _ \<Rightarrow> first_text cl ks)"

text \<open>\<open>strings.FieldsFunc\<close> at commas and blanks.\<close>

fun fields_of :: "string \<Rightarrow> string \<Rightarrow> string list" where
  "fields_of cur [] = (if cur = [] then [] else [cur])"
| "fields_of cur (c # cs) =
     (if c = CHR '','' \<or> c = CHR '' '' then (if cur = [] then fields_of [] cs else cur # fields_of [] cs)
      else fields_of (cur @ [c]) cs)"

definition claim_groups :: "claim_value option \<Rightarrow> string list" where
  "claim_groups v =
     (case v of
        Some (Claim_List xs) \<Rightarrow> List.map_filter (\<lambda>x. case x of Claim_Text t \<Rightarrow> if t \<noteq> [] then Some t else None | _ \<Rightarrow> None) xs
      | Some (Claim_Strings xs) \<Rightarrow> xs
      | Some (Claim_Text t) \<Rightarrow> fields_of [] t
      | _ \<Rightarrow> [])"

definition extract_claims :: "token_claims \<Rightarrow> oidc_config \<Rightarrow> claims" where
  "extract_claims cl cfg =
     (let user_key = (if oc_user_claim cfg = [] then ''email'' else oc_user_claim cfg);
          group_key = (if oc_groups_claim cfg = [] then ''groups'' else oc_groups_claim cfg)
      in \<lparr>cl_username = first_text cl (dedupe [user_key, ''email'', ''preferred_username'', ''sub'']),
          cl_groups = claim_groups (cl group_key)\<rparr>)"

section \<open>The login\<close>

text \<open>The provider's library: exchanging a code for an identity token, if there is one, verifying it, and reading its claims.\<close>

record oidc_provider =
  op_exchange :: "string \<Rightarrow> string + string option"
  op_verify :: "string \<Rightarrow> string + string + token_claims"

text \<open>\<open>login\<close>: the random state, or none if there is no randomness; the cookie and the state to redirect with.\<close>

definition start_login :: "go_time \<Rightarrow> api_request \<Rightarrow> string option \<Rightarrow> string + cookie \<times> string" where
  "start_login now rq random =
     (case random of
        None \<Rightarrow> Inl ''cannot start login''
      | Some bytes \<Rightarrow>
          (let state = b64_encode bytes
           in Inr (\<lparr>ck_name = state_cookie, ck_value = state, ck_expires = Some (now + 10 * minute),
                    ck_http_only = True, ck_lax = True, ck_secure = is_tls rq\<rparr>, state)))"

text \<open>The answer of the callback and whether the state cookie was deleted.\<close>

definition login_callback :: "oidc_provider \<Rightarrow> oidc_config \<Rightarrow> api_request \<Rightarrow> (string + claims) \<times> bool" where
  "login_callback prov cfg rq =
     (case rq_cookie rq state_cookie of
        None \<Rightarrow> (Inl ''no login in progress'', False)
      | Some want \<Rightarrow>
          if rq_query rq ''state'' = [] \<or> rq_query rq ''state'' \<noteq> want
          then (Inl ''login state does not match; start again'', False)
          else if rq_query rq ''error'' \<noteq> []
          then (Inl (''identity provider refused the login: '' @ rq_query rq ''error''), True)
          else if rq_query rq ''code'' = [] then (Inl ''no authorization code in the callback'', True)
          else
            (case op_exchange prov (rq_query rq ''code'') of
               Inl e \<Rightarrow> (Inl (''exchange authorization code: '' @ e), True)
             | Inr None \<Rightarrow> (Inl ''the provider returned no id_token'', True)
             | Inr (Some raw) \<Rightarrow>
                 (case op_verify prov raw of
                    Inl e \<Rightarrow> (Inl (''verify id_token: '' @ e), True)
                  | Inr (Inl e) \<Rightarrow> (Inl (''read token claims: '' @ e), True)
                  | Inr (Inr cl) \<Rightarrow> (Inr (extract_claims cl cfg), True))))"

section \<open>Base64 loses nothing\<close>

lemma sextet_split:
  "y < 16 \<Longrightarrow> (x * 16 + y) div 16 = (x :: nat) \<and> (x * 16 + y) mod 16 = y"
  "y < 4 \<Longrightarrow> (x * 4 + y) div 4 = (x :: nat) \<and> (x * 4 + y) mod 4 = y"
  by simp_all

lemma sextet_bounds:
  "b < 256 \<Longrightarrow> b div 16 < (16 :: nat)" "c < 256 \<Longrightarrow> c div 64 < (4 :: nat)" "a < 256 \<Longrightarrow> a div 4 < (64 :: nat)"
  "x < 4 \<Longrightarrow> y < 16 \<Longrightarrow> x * 16 + y < (64 :: nat)" "x < 16 \<Longrightarrow> y < 4 \<Longrightarrow> x * 4 + y < (64 :: nat)"
  by auto

lemma b64_bytes_sextets:
  "\<forall>b \<in> set bs. b < 256 \<Longrightarrow> b64_bytes (b64_sextets bs) = Some bs"
proof (induction bs rule: b64_sextets.induct)
  case (3 a b)
  then show ?case by (simp add: sextet_split sextet_bounds)
next
  case (4 a b c xs)
  then show ?case by (simp add: sextet_split sextet_bounds)
qed simp_all

lemma b64_sextets_bound: "\<forall>b \<in> set bs. b < 256 \<Longrightarrow> \<forall>v \<in> set (b64_sextets bs). v < 64"
proof (induction bs rule: b64_sextets.induct)
  case (2 a) then show ?case using sextet_bounds(4) [of "a mod 4" 0] by (simp add: sextet_bounds)
next
  case (3 a b)
  then show ?case using sextet_bounds(5) [of "b mod 16" 0] by (simp add: sextet_bounds)
next
  case (4 a b c xs)
  then show ?case by (simp add: sextet_bounds)
qed simp

lemma b64_alphabet_values:
  "list_all (\<lambda>n. b64_value (b64_alphabet ! n) = Some n) [0..<64]"
  by code_simp

lemma b64_alphabet_chars:
  "list_all (\<lambda>c. c \<noteq> newline_char \<and> c \<noteq> CHR 0x0D \<and> c \<noteq> CHR ''.'') b64_alphabet"
  by (simp add: b64_alphabet_def)


lemma b64_alphabet_length: "length b64_alphabet = 64"
  by (simp add: b64_alphabet_def)

lemma b64_encode_chars: "c \<in> set (b64_encode s) \<Longrightarrow> c \<in> set b64_alphabet"
proof -
  assume "c \<in> set (b64_encode s)"
  then obtain v where v: "v \<in> set (b64_sextets (map of_char s))" "c = b64_alphabet ! v" by (auto simp: b64_encode_def)
  have "\<forall>b \<in> set (map of_char s). b < (256 :: nat)" by simp
  with v(1) have "v < 64" using b64_sextets_bound by blast
  then show ?thesis unfolding v(2) by (intro nth_mem) (simp only: b64_alphabet_length)
qed

lemma b64_encode_clean: "c \<in> set (b64_encode s) \<Longrightarrow> c \<noteq> newline_char \<and> c \<noteq> CHR 0x0D \<and> c \<noteq> CHR ''.''"
  using b64_encode_chars b64_alphabet_chars by (auto simp: list_all_iff)

lemma b64_decode_encode: "b64_decode (b64_encode s) = Some s"
proof -
  define vs where "vs = b64_sextets (map of_char s)"
  have b: "\<forall>b \<in> set (map of_char s). b < (256 :: nat)" by simp
  have lt: "\<forall>v \<in> set vs. v < 64" unfolding vs_def by (rule b64_sextets_bound [OF b])
  have f: "filter (\<lambda>c. c \<noteq> newline_char \<and> c \<noteq> CHR 0x0D) (b64_encode s) = b64_encode s"
    using b64_encode_clean by (auto simp: filter_id_conv)
  have m: "map b64_value (b64_encode s) = map Some vs"
    using lt b64_alphabet_values unfolding b64_encode_def vs_def [symmetric] by (simp add: list_all_iff)
  have "map (the \<circ> Some) vs = vs" by (simp add: comp_def)
  moreover have "b64_bytes vs = Some (map of_char s)" unfolding vs_def by (rule b64_bytes_sextets [OF b])
  moreover have "map (char_of \<circ> of_char :: char \<Rightarrow> char) s = s" by (simp add: comp_def)
  ultimately show ?thesis
    unfolding b64_decode_def f m Let_def by (auto simp: comp_def)
qed

lemma fields_of_blank: "CHR '' '' \<notin> set x \<Longrightarrow> CHR '','' \<notin> set x \<Longrightarrow> cur @ x \<noteq> [] \<Longrightarrow>
  fields_of cur (x @ CHR '' '' # rest) = (cur @ x) # fields_of [] rest"
  by (induction x arbitrary: cur) auto

lemma fields_of_plain: "CHR '' '' \<notin> set x \<Longrightarrow> CHR '','' \<notin> set x \<Longrightarrow> cur @ x \<noteq> [] \<Longrightarrow> fields_of cur x = [cur @ x]"
  by (induction x arbitrary: cur) auto

lemma cut_signed: "cut_dot (b64_encode p @ CHR ''.'' # sig) = Some (b64_encode p, sig)"
proof -
  have n: "\<forall>c \<in> set (b64_encode p). c \<noteq> CHR ''.''" using b64_encode_clean by blast
  then have "takeWhile (\<lambda>c. c \<noteq> CHR ''.'') (b64_encode p @ CHR ''.'' # sig) = b64_encode p"
    "dropWhile (\<lambda>c. c \<noteq> CHR ''.'') (b64_encode p @ CHR ''.'' # sig) = CHR ''.'' # sig"
    by (auto simp: takeWhile_append2 dropWhile_append2)
  then show ?thesis by (simp add: cut_dot_def)
qed

lemma verify_signed:
  "verify_session c now (sign_session c payload) =
     (case sk_decode c payload of None \<Rightarrow> Inl ''malformed session contents''
      | Some s \<Rightarrow> if unix_sec now > se_expires s then Inl ''session expired'' else Inr s)"
  by (simp add: verify_session_def sign_session_def cut_signed b64_decode_encode)

section \<open>Properties\<close>

text \<open>
  Base64 loses nothing. Whatever bytes are encoded, decoding gives them back, and the encoding has neither
  the dot that separates the signature of a cookie from its payload, nor the line ends that decoding skips.
\<close>

theorem base64_roundtrip:
  "b64_decode (b64_encode s) = Some s \<and>
   list_all (\<lambda>c. c \<notin> {CHR ''.'', newline_char, CHR 0x0D}) (b64_encode s)"
  using b64_decode_encode [of s] b64_encode_clean [of _ s] by (auto simp: list_all_iff)

text \<open>
  Claim C24. A session lasts as long as it was issued for. The cookie of a successful login is accepted, and gives the identity it was
  issued to, from then on until its time to live is over, to the second, and never after; if
  the encoding of this session can be read back.
\<close>

theorem issued_session_verifies_until:
  assumes "issue_session c now rq user groups = Inr ck"
    and "\<And>p. sk_encode c \<lparr>se_user = user, se_groups = groups, se_expires = unix_sec (now + sk_ttl c)\<rparr> = Inr p \<Longrightarrow>
           sk_decode c p = Some \<lparr>se_user = user, se_groups = groups, se_expires = unix_sec (now + sk_ttl c)\<rparr>"
  shows "((\<exists>s. verify_session c later (ck_value ck) = Inr s) \<longleftrightarrow> unix_sec later \<le> unix_sec (now + sk_ttl c)) \<and>
    (\<forall>s. verify_session c later (ck_value ck) = Inr s \<longrightarrow> se_user s = user \<and> se_groups s = groups)"
  using assms by (auto simp: issue_session_def verify_signed split: sum.splits if_splits)

text \<open>
  A session cannot be edited. Where a cookie is accepted with the signature of an issued one, it is the
  session that was issued: neither its user nor its groups, from which every right is derived, nor its
  end can be exchanged, unless the keyed hash collides on the two payloads.
\<close>

theorem session_cannot_be_edited:
  assumes "verify_session c now value = Inr s" and "cut_dot value = Some (body, sig)"
    and "b64_decode sig = Some (sk_mac c (sk_key c) issued)"
    and "inj_on (sk_mac c (sk_key c)) {p. b64_decode body = Some p \<or> p = issued}"
  shows "sk_decode c issued = Some s \<and> unix_sec now \<le> se_expires s"
proof -
  obtain payload where p: "b64_decode body = Some payload" "sk_mac c (sk_key c) payload = sk_mac c (sk_key c) issued"
    "sk_decode c payload = Some s" "unix_sec now \<le> se_expires s"
    using assms(1-3) by (auto simp: verify_session_def split: option.splits if_splits)
  have "payload = issued" using p(1,2) assms(4) by (auto dest: inj_onD)
  then show ?thesis using p(3,4) by simp
qed

text \<open>
  A login that did not start here does not end here. Claims are only taken from a callback whose state is not
  empty and equals the one in the cookie of the browser, with a code that the provider exchanged for
  a token it verified; and then the state is used up.
\<close>

theorem login_is_bound_to_browser:
  assumes "login_callback prov cfg rq = (Inr cl, cleared)"
  shows "cleared \<and> rq_query rq ''state'' \<noteq> [] \<and> rq_cookie rq state_cookie = Some (rq_query rq ''state'') \<and>
    rq_query rq ''error'' = [] \<and>
    (\<exists>raw tok. op_exchange prov (rq_query rq ''code'') = Inr (Some raw) \<and> op_verify prov raw = Inr (Inr tok) \<and>
       cl = extract_claims tok cfg)"
  using assms unfolding login_callback_def by (auto split: option.splits if_splits sum.splits)

text \<open>
  One group can read as another. Where the provider sends the groups as one text, the name of a
  group is taken apart at its blanks and commas: somebody whose only group is called
  \<open>x g\<close> has every right a binding gives to the group \<open>g\<close>.
\<close>

theorem group_name_splits:
  assumes "tok (if oc_groups_claim cfg = [] then ''groups'' else oc_groups_claim cfg) = Some (Claim_Text (x @ '' '' @ g))"
    and "x \<noteq> []" and "g \<noteq> []" and "set (x @ g) \<inter> {CHR '' '', CHR '',''} = {}"
    and "b \<in> set bs" and "binding_matches b g" and "cap \<in> set (caps_of (b_role b))"
  shows "can (subject_for bs (extract_claims tok cfg)) cap"
proof -
  have "fields_of [] (x @ CHR '' '' # g) = [x, g]"
    using assms(2-4) fields_of_blank [of x "[]" g] fields_of_plain [of g "[]"] by auto
  then have "cl_groups (extract_claims tok cfg) = [x, g]"
    using assms(1) by (simp add: extract_claims_def Let_def claim_groups_def)
  then show ?thesis using assms(5-7) unfolding subject_can matched_def by auto
qed


section \<open>A session, and a login\<close>

definition demo_codec :: session_codec where
  "demo_codec =
     \<lparr>sk_key = replicate 32 (CHR ''k''), sk_ttl = hour, sk_mac = (\<lambda>k p. k @ p),
      sk_encode = (\<lambda>s. Inr (se_user s)),
      sk_decode = (\<lambda>p. Some \<lparr>se_user = p, se_groups = [''ml''], se_expires = 3600\<rparr>)\<rparr>"

definition demo_login :: api_request where
  "demo_login =
     \<lparr>rq_method = ''GET'', rq_path = [''auth'', ''callback''],
      rq_query = (\<lambda>k. if k = ''state'' then ''xyz'' else if k = ''code'' then ''c'' else []),
      rq_cookie = (\<lambda>k. if k = state_cookie then Some ''xyz'' else None), rq_tls = True, rq_forwarded = [], rq_body = []\<rparr>"

definition demo_oidc :: oidc_config where
  "demo_oidc = \<lparr>oc_issuer = ''https://idp'', oc_client = ''cupel'', oc_scopes = [], oc_groups_claim = [], oc_user_claim = []\<rparr>"

definition demo_token :: token_claims where
  "demo_token = [''email'' \<mapsto> Claim_Text ''eve@x'', ''groups'' \<mapsto> Claim_Text ''platform security'']"

definition demo_provider :: oidc_provider where
  "demo_provider = \<lparr>op_exchange = (\<lambda>c. Inr (Some c)), op_verify = (\<lambda>t. Inr (Inr demo_token))\<rparr>"

definition demo_session_cookie :: cookie where
  "demo_session_cookie = projr (issue_session demo_codec 0 demo_login ''ann'' [''ml''])"

lemma demo_session_issued: "issue_session demo_codec 0 demo_login ''ann'' [''ml''] = Inr demo_session_cookie"
  by (simp add: demo_session_cookie_def issue_session_def demo_codec_def)

theorem issued_session_verifies_until_witness:
  "(\<exists>s. verify_session demo_codec (3600 * second) (ck_value demo_session_cookie) = Inr s) \<and>
   \<not> (\<exists>s. verify_session demo_codec (3601 * second) (ck_value demo_session_cookie) = Inr s)"
proof -
  have "sk_decode demo_codec p = Some \<lparr>se_user = ''ann'', se_groups = [''ml''], se_expires = unix_sec (0 + sk_ttl demo_codec)\<rparr>"
    if "sk_encode demo_codec \<lparr>se_user = ''ann'', se_groups = [''ml''], se_expires = unix_sec (0 + sk_ttl demo_codec)\<rparr> = Inr p" for p
    using that by (simp add: demo_codec_def unix_sec_def hour_def minute_def second_def)
  then have v: "(\<exists>s. verify_session demo_codec later (ck_value demo_session_cookie) = Inr s) \<longleftrightarrow>
      unix_sec later \<le> unix_sec (0 + sk_ttl demo_codec)" for later
    by (rule issued_session_verifies_until [OF demo_session_issued, THEN conjunct1])
  show ?thesis unfolding v [of "3600 * second"] v [of "3601 * second"]
    by (simp add: demo_codec_def unix_sec_def hour_def minute_def second_def)
qed

theorem session_cannot_be_edited_witness:
  "sk_decode demo_codec ''ann'' = Some \<lparr>se_user = ''ann'', se_groups = [''ml''], se_expires = 3600\<rparr>"
proof -
  have v: "verify_session demo_codec 0 (sign_session demo_codec ''ann'') =
      Inr \<lparr>se_user = ''ann'', se_groups = [''ml''], se_expires = 3600\<rparr>"
    by (simp add: verify_signed) (simp add: demo_codec_def unix_sec_def)
  have c: "cut_dot (sign_session demo_codec ''ann'') =
      Some (b64_encode ''ann'', b64_encode (sk_mac demo_codec (sk_key demo_codec) ''ann''))"
    using cut_signed [of "''ann''"] by (simp add: sign_session_def)
  have i: "inj_on (sk_mac demo_codec (sk_key demo_codec)) {p. b64_decode (b64_encode ''ann'') = Some p \<or> p = ''ann''}"
    by (simp add: demo_codec_def inj_on_def)
  show ?thesis using session_cannot_be_edited [OF v c b64_decode_encode i] by (rule conjunct1)
qed

theorem login_is_bound_to_browser_witness:
  "login_callback demo_provider demo_oidc demo_login = (Inr (extract_claims demo_token demo_oidc), True) \<and>
   rq_cookie demo_login state_cookie = Some (rq_query demo_login ''state'')"
proof -
  have "login_callback demo_provider demo_oidc demo_login = (Inr (extract_claims demo_token demo_oidc), True)"
    by (simp add: login_callback_def demo_login_def demo_provider_def)
  from this login_is_bound_to_browser [OF this] show ?thesis by blast
qed

text \<open>Eve's group is \<open>platform security\<close>; the binding gives the right to waive to the group \<open>security\<close>.\<close>

theorem group_name_splits_witness:
  "can (subject_for [bind ''security'' ''security'' [''a'']] (extract_claims demo_token demo_oidc)) Waive"
  by (rule group_name_splits [where x = "''platform''" and g = "''security''" and b = "bind ''security'' ''security'' [''a'']"])
    (simp_all add: demo_token_def demo_oidc_def bind_def binding_matches_def suffix_def caps_of_def role_capabilities_def)

end
