(* ===== verification/Api_Server.thy ===== *)
theory Api_Server
  imports Api_Session Source_Sync Compliance_Control Scanners Audit_Store
begin

text \<open>
  The console's server (\<open>internal/api\<close>): routing, the session of a request, and every handler.  It reads
  the whole cluster through an indexed cache (\<open>internal/indexes\<close>) and answers with what the subject may see.
  A handler takes the request, the subject and the world and returns the response and the new world.

  Reading the body of a request (\<open>encoding/json\<close> behind a limit on its size), durations and the order in
  which Go visits a map are parameters.  The path of a request is the list of its decoded segments.
\<close>

section \<open>Indexes\<close>

definition key_separator :: string where "key_separator = [CHR 0x1F]"

definition model_key :: "string \<Rightarrow> string \<Rightarrow> string" where
  "model_key model version = model @ key_separator @ version"

definition model_index :: "string \<Rightarrow> string \<Rightarrow> string list" where
  "model_index model version = (if model = [] \<or> version = [] then [] else [model_key model version])"

definition scan_index :: "artifact_scan \<Rightarrow> string list" where
  "scan_index sc = model_index (ss_model (as_spec sc)) (ss_version (as_spec sc))"

definition report_index :: "model_report \<Rightarrow> string list" where
  "report_index r = model_index (rs_model (mr_spec r)) (rs_version (mr_spec r))"

definition compliance_index :: "compliance_report \<Rightarrow> string list" where
  "compliance_index r = model_index (cq_model (cy_spec r)) (cq_version (cy_spec r))"

definition scan_report_index :: "artifact_scan_report \<Rightarrow> string list" where
  "scan_report_index r = (if sp_scan_ref r = [] then [] else [sp_scan_ref r])"

text \<open>A list over the whole cluster, and the same with a matching field, which the cache answers from its index.\<close>

type_synonym ('s, 'o) lister = "'s \<Rightarrow> (kerr + 'o list) \<times> 's"

definition list_matching :: "('o \<Rightarrow> string list) \<Rightarrow> string \<Rightarrow> ('s, 'o) lister \<Rightarrow> ('s, 'o) lister" where
  "list_matching idx key lst s =
     (case lst s of (Inl e, s1) \<Rightarrow> (Inl e, s1) | (Inr xs, s1) \<Rightarrow> (Inr (filter (\<lambda>x. key \<in> set (idx x)) xs), s1))"

section \<open>Requests and answers\<close>

record scan_request =
  sq_model :: string
  sq_version :: string
  sq_uri :: string
  sq_format :: string
  sq_policy :: string
  sq_scanners :: "string list"

record exception_request =
  eq_model :: string
  eq_version :: string
  eq_reason :: string
  eq_rules :: "string list"

record connector_request =
  kq_name :: string
  kq_type :: string
  kq_url :: string
  kq_poll :: string
  kq_rescan :: string
  kq_policy :: string
  kq_include :: "string list"
  kq_secret_name :: string
  kq_secret_key :: string
  kq_insecure :: bool
  kq_write_back :: "bool option"

record scan_view =
  sv_name :: string
  sv_namespace :: string
  sv_model :: string
  sv_version :: string
  sv_phase :: string
  sv_verdict :: string
  sv_risk :: int32
  sv_scored :: bool
  sv_trigger :: string
  sv_triggered_by :: string
  sv_scanners :: nat
  sv_start :: string

record exception_view =
  ew_name :: string
  ew_namespace :: string
  ew_model :: string
  ew_version :: string
  ew_findings :: "string list"
  ew_rules :: "string list"
  ew_reason :: string
  ew_approved_by :: string
  ew_approved_at :: string
  ew_expires :: string
  ew_signed :: bool

record connector_view =
  kw_name :: string
  kw_namespace :: string
  kw_type :: string
  kw_url :: string
  kw_phase :: string
  kw_message :: string
  kw_registered :: int32
  kw_versions :: int32
  kw_scans :: int32
  kw_last_sync :: string
  kw_poll :: string
  kw_rescan :: string
  kw_policy :: string
  kw_credential :: bool

record scanner_view =
  zw_name :: string
  zw_category :: string
  zw_default :: bool

record retained_summary =
  ry_scanners :: "(string \<times> string \<times> int32 \<times> severity_counts) list"
  ry_findings :: int32
  ry_last :: "go_time option"
  ry_aibom :: bool

record whoami =
  ow_namespace :: string
  ow_version :: string
  ow_username :: string
  ow_roles :: "string list"
  ow_tenants :: "string list"
  ow_all :: bool
  ow_capabilities :: "(capability \<times> bool) list"
  ow_access :: string

record audit_answer =
  aw_chain :: verification
  aw_records :: "audit_record list"
  aw_retained :: nat
  aw_showing :: nat
  aw_checkpoint :: "checkpoint option"
  aw_archived :: "anchor option"

datatype api_body =
    Error_Body string
  | Whoami_Body whoami
  | Models_Body "model_view list" redaction
  | Findings_Body "finding_view list" redaction "retained_summary option"
  | Scans_Body "scan_view list"
  | Exceptions_Body "exception_view list"
  | Connectors_Body "connector_view list"
  | Policies_Body "string list"
  | Scanners_Body "scanner_view list"
  | Compliance_Body "compliance_report list"
  | Audit_Body audit_answer
  | Bom_Index string string "string list"
  | Document string string
  | Created_Scan string string
  | Accepted_Risk string string
  | Created_Source string
  | Plain string
  | Page string
  | Empty_Body

record api_response =
  hp_code :: nat
  hp_body :: api_body
  hp_cookies :: "cookie list"
  hp_location :: string

definition answer :: "nat \<Rightarrow> api_body \<Rightarrow> api_response" where
  "answer code body = \<lparr>hp_code = code, hp_body = body, hp_cookies = [], hp_location = []\<rparr>"

definition forbid :: "string \<Rightarrow> api_response" where "forbid msg = answer 403 (Error_Body msg)"
definition bad_request :: "string \<Rightarrow> api_response" where "bad_request msg = answer 400 (Error_Body msg)"
definition internal_error :: "string \<Rightarrow> api_response" where "internal_error msg = answer 500 (Error_Body msg)"

section \<open>The server\<close>

record 's api_server =
  ap_namespace :: string
  ap_bindings :: "binding list"
  ap_codec :: session_codec
  ap_oidc :: oidc_config
  ap_provider :: oidc_provider
  ap_auth_url :: "string \<Rightarrow> string"
  ap_console :: string
  ap_models :: "('s, model_report) lister"
  ap_scans :: "('s, artifact_scan) lister"
  ap_reports :: "('s, artifact_scan_report) lister"
  ap_exceptions :: "('s, artifact_exception) lister"
  ap_connectors :: "('s, model_connector) lister"
  ap_policies :: "('s, scan_policy) lister"
  ap_compliance :: "('s, compliance_report) lister"
  ap_scan_client :: "('s, artifact_scan) kclient"
  ap_exception_client :: "('s, artifact_exception) kclient"
  ap_connector_client :: "('s, model_connector) kclient"
  ap_configs :: "('s, str_map) kclient"
  ap_recorder :: "'s recorder"
  ap_now :: "'s \<Rightarrow> go_time \<times> 's"
  ap_random :: "'s \<Rightarrow> string option \<times> 's"
  ap_order :: "string list \<Rightarrow> string list"
  ap_read_scan :: "string \<Rightarrow> string + scan_request"
  ap_read_exception :: "string \<Rightarrow> string + exception_request"
  ap_read_connector :: "string \<Rightarrow> string + connector_request"
  ap_duration :: "string \<Rightarrow> duration option"
  ap_digest :: hex_digest
  ap_kerr_str :: "kerr \<Rightarrow> string"

text \<open>A path from a request, checked against \<open>^[a-z0-9]([-a-z0-9]*[a-z0-9])?$\<close>.\<close>

definition dns_name :: "string \<Rightarrow> bool" where
  "dns_name s \<longleftrightarrow>
     s \<noteq> [] \<and> (is_lower (hd s) \<or> is_digit (hd s)) \<and> (is_lower (last s) \<or> is_digit (last s)) \<and>
     list_all (\<lambda>c. is_lower c \<or> is_digit c \<or> c = CHR ''-'') s"

definition time_text :: "go_time option \<Rightarrow> string" where
  "time_text t = (case t of None \<Rightarrow> [] | Some x \<Rightarrow> rfc3339 (unix_sec x))"

section \<open>Models and findings\<close>

definition handle_whoami :: "'s api_server \<Rightarrow> api_request \<Rightarrow> subject \<Rightarrow> 's \<Rightarrow> api_response \<times> 's" where
  "handle_whoami A rq sub s =
     (answer 200 (Whoami_Body
        \<lparr>ow_namespace = ap_namespace A, ow_version = image_tag, ow_username = su_name sub, ow_roles = su_roles sub,
         ow_tenants = sc_namespaces (su_scope sub), ow_all = sc_all (su_scope sub),
         ow_capabilities = map (\<lambda>c. (c, can sub c)) all_capabilities, ow_access = describe sub\<rparr>), s)"

definition model_view_of :: "model_report \<Rightarrow> model_view" where
  "model_view_of m =
     model_view.make (rs_model (mr_spec m)) (rs_version (mr_spec m)) (om_namespace (mr_meta m))
       (rt_verdict (mr_status m)) (rt_risk (mr_status m)) (rt_malware (mr_status m)) (rt_secrets (mr_status m))
       (time_text (rt_last_scan (mr_status m))) (rt_cves (mr_status m))"

definition handle_models :: "'s api_server \<Rightarrow> api_request \<Rightarrow> subject \<Rightarrow> 's \<Rightarrow> api_response \<times> 's" where
  "handle_models A rq sub s =
     (case ap_models A s of
        (Inl e, s1) \<Rightarrow> (internal_error ''cannot list models'', s1)
      | (Inr ms, s1) \<Rightarrow> (case filter_models sub (map model_view_of ms) of
            (visible, red) \<Rightarrow> (answer 200 (Models_Body visible red), s1)))"

text \<open>The first report of the model version the subject may see, summarized.\<close>

definition summarize_report :: "model_report \<Rightarrow> retained_summary" where
  "summarize_report rep =
     \<lparr>ry_scanners = map (\<lambda>x. (sr_scanner x, sr_status x, sr_findings x, sr_severities x)) (rt_scanners (mr_status rep)),
      ry_findings = foldl (\<lambda>n x. n + sr_findings x) 0 (rt_scanners (mr_status rep)),
      ry_last = rt_last_scan (mr_status rep), ry_aibom = (rt_aibom_ref (mr_status rep) \<noteq> [])\<rparr>"

definition retained :: "'s api_server \<Rightarrow> subject \<Rightarrow> string \<Rightarrow> string \<Rightarrow> 's \<Rightarrow> retained_summary option \<times> 's" where
  "retained A sub model version s =
     (case list_matching report_index (model_key model version) (ap_models A) s of
        (Inl e, s1) \<Rightarrow> (None, s1)
      | (Inr rs, s1) \<Rightarrow>
          (map_option summarize_report (find (\<lambda>r. can_see_namespace sub (om_namespace (mr_meta r))) rs), s1))"

text \<open>\<open>owned\<close>: the namespace of each scan, by its name alone.\<close>

definition owned_scans :: "artifact_scan list \<Rightarrow> str_map" where
  "owned_scans scs = fold (\<lambda>sc m. sm_put (om_name (as_meta sc)) (om_namespace (as_meta sc)) m) scs []"

fun reports_of_scans ::
    "'s api_server \<Rightarrow> string list \<Rightarrow> artifact_scan_report list \<Rightarrow> 's \<Rightarrow> artifact_scan_report list option \<times> 's"
where
  "reports_of_scans A [] acc s = (Some acc, s)"
| "reports_of_scans A (n # ns) acc s =
     (case list_matching scan_report_index n (ap_reports A) s of
        (Inl e, s1) \<Rightarrow> (None, s1)
      | (Inr rs, s1) \<Rightarrow> reports_of_scans A ns (acc @ rs) s1)"

fun collect_findings ::
    "subject \<Rightarrow> str_map \<Rightarrow> artifact_scan_report list \<Rightarrow> finding_view list \<times> redaction \<Rightarrow> finding_view list \<times> redaction"
where
  "collect_findings sub owned [] acc = acc"
| "collect_findings sub owned (rep # rs) acc =
     (case map_of owned (sp_scan_ref rep) of
        None \<Rightarrow> collect_findings sub owned rs acc
      | Some ns \<Rightarrow>
          (case redact_findings sub ns (sp_findings rep) (sp_scanner rep) of (views, r2) \<Rightarrow>
             (case acc of (out, red) \<Rightarrow>
                collect_findings sub owned rs
                  (out @ views,
                   \<lparr>rd_hidden = rd_hidden red + rd_hidden r2, rd_withheld = (rd_withheld red \<or> rd_withheld r2),
                    rd_reason = (if rd_reason red = [] then rd_reason r2 else rd_reason red)\<rparr>))))"

definition no_redaction :: redaction where
  "no_redaction = \<lparr>rd_hidden = 0, rd_withheld = False, rd_reason = []\<rparr>"

definition handle_findings :: "'s api_server \<Rightarrow> api_request \<Rightarrow> subject \<Rightarrow> 's \<Rightarrow> api_response \<times> 's" where
  "handle_findings A rq sub s =
     (let model = rq_query rq ''model''; version = rq_query rq ''version'' in
      if model = [] \<or> version = [] then (bad_request ''model and version are required'', s)
      else
        (case list_matching scan_index (model_key model version) (ap_scans A) s of
           (Inl e, s1) \<Rightarrow> (internal_error ''cannot list scans'', s1)
         | (Inr scs, s1) \<Rightarrow>
             (let owned = owned_scans scs in
              case reports_of_scans A (ap_order A (map fst owned)) [] s1 of
                (None, s2) \<Rightarrow> (internal_error ''cannot list reports'', s2)
              | (Some reps, s2) \<Rightarrow>
                  (case collect_findings sub owned reps ([], no_redaction) of (out, red) \<Rightarrow>
                     if out = [] \<and> owned = []
                     then (case retained A sub model version s2 of
                             (Some sm, s3) \<Rightarrow> (answer 200 (Findings_Body out red (Some sm)), s3)
                           | (None, s3) \<Rightarrow> (answer 200 (Findings_Body out red None), s3))
                     else (answer 200 (Findings_Body out red None), s2)))))"


section \<open>Scans and exceptions\<close>

text \<open>The time of day as six digits, the format \<open>150405\<close>.\<close>

definition clock_digits :: "go_time \<Rightarrow> string" where
  "clock_digits t =
     (let sod = unix_sec t mod 86400
      in two_digits (sod div 3600) @ two_digits (sod div 60 mod 60) @ two_digits (sod mod 60))"

definition fresh_meta :: "string \<Rightarrow> string \<Rightarrow> object_meta" where
  "fresh_meta ns name =
     \<lparr>om_name = name, om_namespace = ns, om_uid = [], om_labels = [], om_annotations = [], om_owner = None,
      om_created = 0, om_deleted = None\<rparr>"

definition manual_scan :: "'s api_server \<Rightarrow> subject \<Rightarrow> scan_request \<Rightarrow> string \<Rightarrow> artifact_scan" where
  "manual_scan A sub q version =
     \<lparr>as_meta = (fresh_meta (ap_namespace A) (sanitize_label (sq_model q @ ''-'' @ version)))
        \<lparr>om_labels := [(label_trigger, ''Manual'')]\<rparr>,
      as_spec =
        \<lparr>ss_model = sq_model q, ss_version = version, ss_registry_model = [], ss_registry_version = [], ss_connector = [],
         ss_artifact = \<lparr>ar_uri = sq_uri q, ar_digest = [], ar_media_type = [], ar_format = sq_format q, ar_size = None\<rparr>,
         ss_policy_ref = sq_policy q, ss_scanners = sq_scanners q, ss_trigger = ''Manual'', ss_triggered_by = su_name sub\<rparr>,
      as_status =
        \<lparr>st_phase = [], st_started = None, st_completed = None, st_results = [], st_risk = None, st_verdict = [],
         st_message = [], st_digest = []\<rparr>\<rparr>"

definition handle_create_scan :: "'s api_server \<Rightarrow> api_request \<Rightarrow> subject \<Rightarrow> 's \<Rightarrow> api_response \<times> 's" where
  "handle_create_scan A rq sub s =
     (if \<not> can sub RunScan then (forbid ''your role cannot start scans'', s)
      else
        (case ap_read_scan A (rq_body rq) of
           Inl e \<Rightarrow> (bad_request ''malformed request'', s)
         | Inr q \<Rightarrow>
             if sq_model q = [] \<or> sq_uri q = [] then (bad_request ''modelName and uri are required'', s)
             else if \<not> can_see_namespace sub (ap_namespace A)
             then (forbid ''you cannot create scans in this tenant'', s)
             else
               (case (if sq_version q = [] then (case ap_now A s of (t, s1) \<Rightarrow> (''scan-'' @ clock_digits t, s1))
                      else (sq_version q, s)) of
                  (version, s1) \<Rightarrow>
                    (let scan = manual_scan A sub q version in
                     case k_create (ap_scan_client A) (ap_namespace A, om_name (as_meta scan)) scan s1 of
                       (Some e, s2) \<Rightarrow> (answer 502 (Error_Body (ap_kerr_str A e)), s2)
                     | (None, s2) \<Rightarrow> (answer 201 (Created_Scan (om_name (as_meta scan)) (ap_namespace A)), s2)))))"

definition scan_view_of :: "artifact_scan \<Rightarrow> scan_view" where
  "scan_view_of sc =
     \<lparr>sv_name = om_name (as_meta sc), sv_namespace = om_namespace (as_meta sc), sv_model = ss_model (as_spec sc),
      sv_version = ss_version (as_spec sc), sv_phase = st_phase (as_status sc), sv_verdict = st_verdict (as_status sc),
      sv_risk = (case st_risk (as_status sc) of None \<Rightarrow> 0 | Some n \<Rightarrow> n), sv_scored = (st_risk (as_status sc) \<noteq> None),
      sv_trigger = ss_trigger (as_spec sc), sv_triggered_by = ss_triggered_by (as_spec sc),
      sv_scanners = length (st_results (as_status sc)), sv_start = time_text (st_started (as_status sc))\<rparr>"

text \<open>\<open>sort.Slice\<close> by the start, newest first.\<close>

definition handle_scans :: "'s api_server \<Rightarrow> api_request \<Rightarrow> subject \<Rightarrow> 's \<Rightarrow> api_response \<times> 's" where
  "handle_scans A rq sub s =
     (if \<not> can sub ViewInventory then (forbid ''your role cannot see the model inventory'', s)
      else
        (case ap_scans A s of
           (Inl e, s1) \<Rightarrow> (internal_error ''cannot list scans'', s1)
         | (Inr xs, s1) \<Rightarrow>
             (let out = map scan_view_of (filter (\<lambda>sc. can_see_namespace sub (om_namespace (as_meta sc))) xs)
              in (answer 200 (Scans_Body (rev (sort_key sv_start (rev out)))), s1))))"

definition console_exception :: "'s api_server \<Rightarrow> subject \<Rightarrow> exception_request \<Rightarrow> artifact_exception" where
  "console_exception A sub q =
     \<lparr>ae_meta = fresh_meta (ap_namespace A) (sanitize_label (''accept-'' @ eq_model q @ ''-'' @ eq_version q)),
      ae_spec =
        \<lparr>ex_model = eq_model q, ex_version = eq_version q, ex_findings = [], ex_rules = eq_rules q, ex_reason = eq_reason q,
         ex_digest = [], ex_approved_by = su_name sub, ex_approved_groups = [], ex_approved_at = None, ex_expires = None\<rparr>,
      ae_phase = []\<rparr>"

definition handle_create_exception :: "'s api_server \<Rightarrow> api_request \<Rightarrow> subject \<Rightarrow> 's \<Rightarrow> api_response \<times> 's" where
  "handle_create_exception A rq sub s =
     (if \<not> can sub Waive
      then (forbid ''your role cannot accept risk; a model owner cannot sign off their own model'', s)
      else
        (case ap_read_exception A (rq_body rq) of
           Inl e \<Rightarrow> (bad_request ''malformed request'', s)
         | Inr q \<Rightarrow>
             if eq_reason q = []
             then (bad_request ''a reason is required: an unexplained waiver is indistinguishable from a mistake'', s)
             else if \<not> can_see_namespace sub (ap_namespace A)
             then (forbid ''you cannot accept risk in this tenant'', s)
             else
               (let ex = console_exception A sub q in
                case k_create (ap_exception_client A) (ap_namespace A, om_name (ae_meta ex)) ex s of
                  (Some e, s1) \<Rightarrow> (answer 502 (Error_Body (ap_kerr_str A e)), s1)
                | (None, s1) \<Rightarrow> (answer 201 (Accepted_Risk (om_name (ae_meta ex)) (ex_approved_by (ae_spec ex))), s1))))"

definition exception_view_of :: "artifact_exception \<Rightarrow> exception_view" where
  "exception_view_of e =
     \<lparr>ew_name = om_name (ae_meta e), ew_namespace = om_namespace (ae_meta e), ew_model = ex_model (ae_spec e),
      ew_version = ex_version (ae_spec e), ew_findings = ex_findings (ae_spec e), ew_rules = ex_rules (ae_spec e),
      ew_reason = ex_reason (ae_spec e), ew_approved_by = ex_approved_by (ae_spec e),
      ew_approved_at = time_text (ex_approved_at (ae_spec e)), ew_expires = time_text (ex_expires (ae_spec e)),
      ew_signed = (ex_approved_by (ae_spec e) \<noteq> [] \<and> ex_approved_at (ae_spec e) \<noteq> None)\<rparr>"

definition handle_exceptions :: "'s api_server \<Rightarrow> api_request \<Rightarrow> subject \<Rightarrow> 's \<Rightarrow> api_response \<times> 's" where
  "handle_exceptions A rq sub s =
     (if \<not> can sub ViewFindings then (forbid ''your role cannot see findings or the acceptances against them'', s)
      else
        (case ap_exceptions A s of
           (Inl e, s1) \<Rightarrow> (internal_error ''cannot list exceptions'', s1)
         | (Inr xs, s1) \<Rightarrow>
             (answer 200 (Exceptions_Body
                (map exception_view_of (filter (\<lambda>e. can_see_namespace sub (om_namespace (ae_meta e))) xs))), s1)))"

section \<open>Sources\<close>

definition connector_view_of :: "model_connector \<Rightarrow> connector_view" where
  "connector_view_of c =
     \<lparr>kw_name = om_name (mc_meta c), kw_namespace = om_namespace (mc_meta c),
      kw_type = or_default (cs_type (mc_spec c)) source_kubeflow, kw_url = cs_url (mc_spec c),
      kw_phase = ct_phase (mc_status c), kw_message = ct_message (mc_status c),
      kw_registered = ct_registered (mc_status c), kw_versions = ct_versions (mc_status c), kw_scans = ct_scans (mc_status c),
      kw_last_sync = time_text (ct_last_sync (mc_status c)),
      kw_poll = (case cs_poll (mc_spec c) of None \<Rightarrow> [] | Some d \<Rightarrow> duration_str d),
      kw_rescan = (case cs_rescan (mc_spec c) of None \<Rightarrow> [] | Some d \<Rightarrow> duration_str d),
      kw_policy = cs_policy (mc_spec c), kw_credential = (cs_auth (mc_spec c) \<noteq> None)\<rparr>"

definition handle_connectors :: "'s api_server \<Rightarrow> api_request \<Rightarrow> subject \<Rightarrow> 's \<Rightarrow> api_response \<times> 's" where
  "handle_connectors A rq sub s =
     (if \<not> can sub ViewInventory then (forbid ''your role cannot see model sources'', s)
      else
        (case ap_connectors A s of
           (Inl e, s1) \<Rightarrow> (internal_error ''cannot list connectors'', s1)
         | (Inr xs, s1) \<Rightarrow>
             (answer 200 (Connectors_Body (sort_key kw_name
                (map connector_view_of (filter (\<lambda>c. can_see_namespace sub (om_namespace (mc_meta c))) xs)))), s1)))"

definition read_duration :: "'s api_server \<Rightarrow> string \<Rightarrow> string + duration option" where
  "read_duration A raw =
     (let t = trim_space raw in
      if t = [] then Inr None
      else
        (case ap_duration A t of
           None \<Rightarrow> Inl (quote t @ '' is not a duration; use forms like 5m, 1h or 24h'')
         | Some d \<Rightarrow> if d < 0 then Inl ''a duration cannot be negative'' else Inr (Some d)))"

definition new_connector ::
    "'s api_server \<Rightarrow> subject \<Rightarrow> connector_request \<Rightarrow> duration option \<Rightarrow> duration option \<Rightarrow> model_connector"
where
  "new_connector A sub q poll rescan =
     \<lparr>mc_meta = (fresh_meta (ap_namespace A) (kq_name q))
        \<lparr>om_annotations := [(''security.davano.io/created-by'', su_name sub)]\<rparr>,
      mc_spec =
        \<lparr>cs_type = kq_type q, cs_rescan = rescan, cs_url = kq_url q, cs_models = [],
         cs_auth = (if kq_secret_name q = [] then None
                    else Some \<lparr>skr_name = kq_secret_name q,
                               skr_key = (if kq_secret_key q = [] then ''token'' else kq_secret_key q)\<rparr>),
         cs_insecure = kq_insecure q, cs_poll = poll, cs_policy = kq_policy q, cs_include = kq_include q,
         cs_write_back = kq_write_back q\<rparr>,
      mc_status =
        \<lparr>ct_phase = [], ct_message = [], ct_last_sync = None, ct_registered = 0, ct_versions = 0, ct_scans = 0\<rparr>\<rparr>"

definition handle_create_connector :: "'s api_server \<Rightarrow> api_request \<Rightarrow> subject \<Rightarrow> 's \<Rightarrow> api_response \<times> 's" where
  "handle_create_connector A rq sub s =
     (if \<not> can sub capability.Manage then (forbid ''connecting a model source is an administrative action'', s)
      else
        (case ap_read_connector A (rq_body rq) of
           Inl e \<Rightarrow> (bad_request (''could not read the request: '' @ e), s)
         | Inr q \<Rightarrow>
             if \<not> dns_name (kq_name q)
             then (bad_request ''the name must be lowercase letters, digits and dashes: it becomes a Kubernetes object name'', s)
             else if kq_url q = [] then (bad_request ''an endpoint is required'', s)
             else if \<not> prefix ''http://'' (kq_url q) \<and> \<not> prefix ''https://'' (kq_url q)
             then (bad_request ''the endpoint must be an http or https URL'', s)
             else
               (case read_duration A (kq_poll q) of
                  Inl e \<Rightarrow> (bad_request (''poll interval: '' @ e), s)
                | Inr poll \<Rightarrow>
                    (case read_duration A (kq_rescan q) of
                       Inl e \<Rightarrow> (bad_request (''rescan interval: '' @ e), s)
                     | Inr rescan \<Rightarrow>
                         (case k_create (ap_connector_client A) (ap_namespace A, kq_name q)
                                 (new_connector A sub q poll rescan) s of
                            (Some e, s1) \<Rightarrow>
                              (if e = AlreadyExists then bad_request (''a source named '' @ quote (kq_name q) @ '' already exists'')
                               else internal_error (''could not create the source: '' @ ap_kerr_str A e), s1)
                          | (None, s1) \<Rightarrow> (answer 201 (Created_Source (kq_name q)), s1))))))"

definition handle_delete_connector :: "'s api_server \<Rightarrow> string \<Rightarrow> api_request \<Rightarrow> subject \<Rightarrow> 's \<Rightarrow> api_response \<times> 's" where
  "handle_delete_connector A name rq sub s =
     (if \<not> can sub capability.Manage then (forbid ''removing a model source is an administrative action'', s)
      else if \<not> dns_name name then (bad_request ''invalid source name'', s)
      else
        (case k_delete (ap_connector_client A) (ap_namespace A, name) s of
           (Some e, s1) \<Rightarrow>
             (if e = NotFound then answer 404 (Error_Body ''no such source'')
              else internal_error (''could not remove the source: '' @ ap_kerr_str A e), s1)
         | (None, s1) \<Rightarrow> (answer 204 Empty_Body, s1)))"

definition handle_sync_connector :: "'s api_server \<Rightarrow> string \<Rightarrow> api_request \<Rightarrow> subject \<Rightarrow> 's \<Rightarrow> api_response \<times> 's" where
  "handle_sync_connector A name rq sub s =
     (if \<not> can sub capability.Manage then (forbid ''triggering a sync is an administrative action'', s)
      else if \<not> dns_name name then (bad_request ''invalid source name'', s)
      else
        (case k_get (ap_connector_client A) (ap_namespace A, name) s of
           (Inl e, s1) \<Rightarrow> (answer 404 (Error_Body ''no such source''), s1)
         | (Inr (c, rv), s1) \<Rightarrow>
             (case ap_now A s1 of (t, s2) \<Rightarrow>
                (let an = sm_put ''security.davano.io/sync-requested-by'' (su_name sub)
                            (sm_put ''security.davano.io/sync-requested'' (rfc3339 (unix_sec t)) (om_annotations (mc_meta c)))
                 in case k_update (ap_connector_client A) (ap_namespace A, name)
                           (c\<lparr>mc_meta := (mc_meta c)\<lparr>om_annotations := an\<rparr>\<rparr>, rv) s2 of
                      (Some e, s3) \<Rightarrow> (internal_error (''could not trigger a sync: '' @ ap_kerr_str A e), s3)
                    | (None, s3) \<Rightarrow> (answer 204 Empty_Body, s3)))))"

section \<open>Policies, scanners and compliance\<close>

definition handle_policies :: "'s api_server \<Rightarrow> api_request \<Rightarrow> subject \<Rightarrow> 's \<Rightarrow> api_response \<times> 's" where
  "handle_policies A rq sub s =
     (if \<not> can sub ViewInventory then (forbid ''your role cannot see policies'', s)
      else
        (case ap_policies A s of
           (Inl e, s1) \<Rightarrow> (internal_error ''cannot list policies'', s1)
         | (Inr xs, s1) \<Rightarrow>
             (answer 200 (Policies_Body (sort (map (\<lambda>p. om_name (po_meta p))
                (filter (\<lambda>p. can_see_namespace sub (om_namespace (po_meta p))) xs)))), s1)))"

definition handle_scanners :: "'s api_server \<Rightarrow> api_request \<Rightarrow> subject \<Rightarrow> 's \<Rightarrow> api_response \<times> 's" where
  "handle_scanners A rq sub s =
     (if \<not> can sub ViewInventory then (forbid ''your role cannot see the scanner catalog'', s)
      else
        (answer 200 (Scanners_Body (List.map_filter
           (\<lambda>n. case get_scanner Scanners.catalog n of
                  Inl e \<Rightarrow> None
                | Inr d \<Rightarrow> Some \<lparr>zw_name = n, zw_category = category_str (sd_category d),
                                 zw_default = (n \<in> set (default_scanners Scanners.catalog))\<rparr>)
           (available Scanners.catalog))), s))"

definition handle_compliance :: "'s api_server \<Rightarrow> api_request \<Rightarrow> subject \<Rightarrow> 's \<Rightarrow> api_response \<times> 's" where
  "handle_compliance A rq sub s =
     (if \<not> can sub ViewCompliance then (forbid ''your role cannot see compliance reports'', s)
      else
        (let model = rq_query rq ''model''; version = rq_query rq ''version'' in
         case (if model \<noteq> [] \<and> version \<noteq> []
               then list_matching compliance_index (model_key model version) (ap_compliance A) s
               else ap_compliance A s) of
           (Inl e, s1) \<Rightarrow> (internal_error ''cannot list compliance reports'', s1)
         | (Inr xs, s1) \<Rightarrow>
             (answer 200 (Compliance_Body (filter (\<lambda>r. can_see_namespace sub (om_namespace (cy_meta r))) xs)), s1)))"


section \<open>The audit log\<close>

definition default_audit_window :: int where "default_audit_window = 50"
definition max_audit_window :: int where "max_audit_window = 500"

text \<open>\<open>strconv.Atoi\<close>: an optional sign and digits, within 64 bits.\<close>

definition atoi :: "string \<Rightarrow> int option" where
  "atoi t =
     (let (neg, ds) = (case t of c # cs \<Rightarrow> if c = CHR ''-'' then (True, cs) else if c = CHR ''+'' then (False, cs) else (False, t)
                       | [] \<Rightarrow> (False, []))
      in if ds = [] \<or> \<not> list_all is_digit ds then None
         else (let n = (if neg then - int (str_nat ds) else int (str_nat ds))
               in if - (2 ^ 63) \<le> n \<and> n < 2 ^ 63 then Some n else None))"

definition audit_limit :: "string \<Rightarrow> int option" where
  "audit_limit raw =
     (if raw = [] then Some default_audit_window
      else (case atoi raw of
              None \<Rightarrow> None
            | Some n \<Rightarrow> if n < 1 then None else Some (min n max_audit_window)))"

definition audit_answer_of :: "digest_fn \<Rightarrow> int \<Rightarrow> audit_record list \<Rightarrow> checkpoint option \<Rightarrow> audit_answer" where
  "audit_answer_of H limit records cp =
     (let window = (if limit < int (length records) then drop (length records - nat limit) records else records);
          shown = rev window
      in \<lparr>aw_chain = verify_from H records (checkpoint_anchor cp) cp, aw_records = shown, aw_retained = length records,
          aw_showing = length shown, aw_checkpoint = cp, aw_archived = checkpoint_anchor cp\<rparr>)"

definition handle_audit :: "'s api_server \<Rightarrow> api_request \<Rightarrow> subject \<Rightarrow> 's \<Rightarrow> api_response \<times> 's" where
  "handle_audit A rq sub s =
     (if \<not> can sub ViewAudit then (forbid ''your role cannot read the audit log'', s)
      else if \<not> sc_all (su_scope sub)
      then (forbid (''the audit log is cluster-wide and cannot be filtered to your '' @
              ''namespaces without breaking the proof that it is intact; it needs a '' @
              ''cluster-wide binding to read''), s)
      else
        (case audit_limit (rq_query rq ''limit'') of
           None \<Rightarrow> (bad_request ''limit must be a positive whole number'', s)
         | Some limit \<Rightarrow>
             (let R = (ap_recorder A)\<lparr>rec_ns := ap_namespace A\<rparr> in
              case chain R s of
                (Inl e, s1) \<Rightarrow> (internal_error ''cannot read the audit chain'', s1)
              | (Inr (records, cp), s1) \<Rightarrow>
                  (answer 200 (Audit_Body (audit_answer_of (rec_digest R) limit records cp)), s1))))"

section \<open>The bill of materials\<close>

definition bom_answer :: "string \<Rightarrow> artifact_scan \<Rightarrow> str_map \<Rightarrow> api_response" where
  "bom_answer want sc docs =
     (if want \<noteq> []
      then (case map_of docs want of
              None \<Rightarrow> answer 404 (Error_Body (''no document '' @ quote want @ '' in this bill of materials''))
            | Some body \<Rightarrow> answer 200 (Document want body))
      else answer 200 (Bom_Index (om_name (as_meta sc)) (om_namespace (as_meta sc)) (sort (map fst docs))))"

fun first_bom :: "'s api_server \<Rightarrow> subject \<Rightarrow> string \<Rightarrow> artifact_scan list \<Rightarrow> 's \<Rightarrow> api_response option \<times> 's" where
  "first_bom A sub want [] s = (None, s)"
| "first_bom A sub want (sc # scs) s =
     (if \<not> can_see_namespace sub (om_namespace (as_meta sc)) then first_bom A sub want scs s
      else
        (case k_get (ap_configs A) (om_namespace (as_meta sc), bom_config_name (ap_digest A) (om_name (as_meta sc))) s of
           (Inl e, s1) \<Rightarrow> first_bom A sub want scs s1
         | (Inr (docs, rv), s1) \<Rightarrow> (Some (bom_answer want sc docs), s1)))"

definition handle_bom :: "'s api_server \<Rightarrow> api_request \<Rightarrow> subject \<Rightarrow> 's \<Rightarrow> api_response \<times> 's" where
  "handle_bom A rq sub s =
     (let model = rq_query rq ''model''; version = rq_query rq ''version'' in
      if model = [] \<or> version = [] then (bad_request ''model and version are required'', s)
      else
        (case list_matching scan_index (model_key model version) (ap_scans A) s of
           (Inl e, s1) \<Rightarrow> (internal_error ''cannot list scans'', s1)
         | (Inr xs, s1) \<Rightarrow>
             (case first_bom A sub (rq_query rq ''document'') (rev (sort_key (\<lambda>sc. om_created (as_meta sc)) (rev xs))) s1 of
                (Some r, s2) \<Rightarrow> (r, s2)
              | (None, s2) \<Rightarrow>
                  (case retained A sub model version s2 of
                     (sm, s3) \<Rightarrow>
                       (if (case sm of None \<Rightarrow> False | Some x \<Rightarrow> ry_aibom x)
                        then answer 410 (Error_Body (''a bill of materials was produced for this model version, but the '' @
                               ''scan holding it has since been pruned; rescan to produce it again''))
                        else answer 404 (Error_Body (''no bill of materials for this model version; the scan may have run '' @
                               ''without the tessera scanner enabled in its policy'')), s3)))))"

section \<open>Sessions and routes\<close>

datatype route =
    Healthz | Login | Callback | Logout
  | Whoami | Models | Findings | Bom | Create_Scan | Create_Exception | Scans | Exceptions | Connectors
  | Create_Connector | Delete_Connector string | Sync_Connector string | Policies | Scanner_List | Compliance_List | Audit_Log
  | Console | Not_Allowed

text \<open>\<open>net/http\<close> lets a pattern for GET serve HEAD too, and \<open>GET /\<close> takes every path that nothing else does.\<close>

definition api_route :: "string \<Rightarrow> string list \<Rightarrow> route" where
  "api_route m p =
     (if m = ''GET'' \<or> m = ''HEAD'' then
        (if p = [''healthz''] then Healthz
         else if p = [''auth'', ''login''] then Login
         else if p = [''auth'', ''callback''] then Callback
         else if p = [''api'', ''whoami''] then Whoami
         else if p = [''api'', ''models''] then Models
         else if p = [''api'', ''findings''] then Findings
         else if p = [''api'', ''bom''] then Bom
         else if p = [''api'', ''scans''] then Scans
         else if p = [''api'', ''exceptions''] then Exceptions
         else if p = [''api'', ''connectors''] then Connectors
         else if p = [''api'', ''policies''] then Policies
         else if p = [''api'', ''scanners''] then Scanner_List
         else if p = [''api'', ''compliance''] then Compliance_List
         else if p = [''api'', ''audit''] then Audit_Log
         else Console)
      else if m = ''POST'' then
        (if p = [''auth'', ''logout''] then Logout
         else if p = [''api'', ''scans''] then Create_Scan
         else if p = [''api'', ''exceptions''] then Create_Exception
         else if p = [''api'', ''connectors''] then Create_Connector
         else (case p of [a, b, name, c] \<Rightarrow>
                 if a = ''api'' \<and> b = ''connectors'' \<and> c = ''sync'' then Sync_Connector name else Not_Allowed
               | _ \<Rightarrow> Not_Allowed))
      else if m = ''DELETE'' then
        (case p of [a, b, name] \<Rightarrow> if a = ''api'' \<and> b = ''connectors'' then Delete_Connector name else Not_Allowed
         | _ \<Rightarrow> Not_Allowed)
      else Not_Allowed)"

text \<open>\<open>authenticated\<close>: the subject of the session, or the answer that refuses.\<close>

definition authenticate :: "'s api_server \<Rightarrow> api_request \<Rightarrow> 's \<Rightarrow> (api_response + subject) \<times> 's" where
  "authenticate A rq s =
     (case rq_cookie rq session_cookie of
        None \<Rightarrow> (Inl (answer 401 (Error_Body ''not signed in'')), s)
      | Some v \<Rightarrow>
          (case ap_now A s of
             (now, s1) \<Rightarrow>
               (case verify_session (ap_codec A) now v of
                  Inl e \<Rightarrow> (Inl ((answer 401 (Error_Body e))\<lparr>hp_cookies := [clear_session rq]\<rparr>), s1)
                | Inr sess \<Rightarrow>
                    (Inr (subject_for (ap_bindings A) \<lparr>cl_username = se_user sess, cl_groups = se_groups sess\<rparr>), s1))))"

definition authenticated ::
    "'s api_server \<Rightarrow> (api_request \<Rightarrow> subject \<Rightarrow> 's \<Rightarrow> api_response \<times> 's) \<Rightarrow> api_request \<Rightarrow> 's \<Rightarrow> api_response \<times> 's"
where
  "authenticated A h rq s = (case authenticate A rq s of (Inl r, s1) \<Rightarrow> (r, s1) | (Inr sub, s1) \<Rightarrow> h rq sub s1)"

definition handle_callback :: "'s api_server \<Rightarrow> api_request \<Rightarrow> 's \<Rightarrow> api_response \<times> 's" where
  "handle_callback A rq s =
     (case login_callback (ap_provider A) (ap_oidc A) rq of
        (res, cleared) \<Rightarrow>
          (let gone = (if cleared
                       then [\<lparr>ck_name = state_cookie, ck_value = [], ck_expires = None, ck_http_only = False, ck_lax = False,
                              ck_secure = False\<rparr>] else [])
           in case res of
                Inl e \<Rightarrow> ((answer 401 (Plain (''login failed: '' @ e)))\<lparr>hp_cookies := gone\<rparr>, s)
              | Inr cl \<Rightarrow>
                  if cl_username cl = []
                  then ((answer 401 (Plain ''the identity provider returned no username claim''))\<lparr>hp_cookies := gone\<rparr>, s)
                  else
                    (case ap_now A s of
                       (now, s1) \<Rightarrow>
                         (case issue_session (ap_codec A) now rq (cl_username cl) (cl_groups cl) of
                            Inl e \<Rightarrow> ((answer 500 (Plain ''cannot start session''))\<lparr>hp_cookies := gone\<rparr>, s1)
                          | Inr ck \<Rightarrow> ((answer 302 Empty_Body)\<lparr>hp_cookies := gone @ [ck], hp_location := ''/''\<rparr>, s1)))))"

definition handle_login :: "'s api_server \<Rightarrow> api_request \<Rightarrow> 's \<Rightarrow> api_response \<times> 's" where
  "handle_login A rq s =
     (case ap_random A s of
        (None, s1) \<Rightarrow> (answer 500 (Plain ''cannot start login''), s1)
      | (Some bytes, s1) \<Rightarrow>
          (case ap_now A s1 of
             (now, s2) \<Rightarrow>
               (case start_login now rq (Some bytes) of
                  Inl e \<Rightarrow> (answer 500 (Plain e), s2)
                | Inr (ck, state) \<Rightarrow> ((answer 302 Empty_Body)\<lparr>hp_cookies := [ck], hp_location := ap_auth_url A state\<rparr>, s2))))"

definition handle_console :: "'s api_server \<Rightarrow> 's \<Rightarrow> api_response \<times> 's" where
  "handle_console A s = (if ap_console A = [] then answer 404 (Plain ''404 page not found'') else answer 200 (Page (ap_console A)), s)"

definition serve :: "'s api_server \<Rightarrow> api_request \<Rightarrow> 's \<Rightarrow> api_response \<times> 's" where
  "serve A rq s =
     (case api_route (rq_method rq) (rq_path rq) of
        Healthz \<Rightarrow> (answer 200 (Plain ''ok''), s)
      | Login \<Rightarrow> handle_login A rq s
      | Callback \<Rightarrow> handle_callback A rq s
      | Logout \<Rightarrow> ((answer 204 Empty_Body)\<lparr>hp_cookies := [clear_session rq]\<rparr>, s)
      | Whoami \<Rightarrow> authenticated A (handle_whoami A) rq s
      | Models \<Rightarrow> authenticated A (handle_models A) rq s
      | Findings \<Rightarrow> authenticated A (handle_findings A) rq s
      | Bom \<Rightarrow> authenticated A (handle_bom A) rq s
      | Create_Scan \<Rightarrow> authenticated A (handle_create_scan A) rq s
      | Create_Exception \<Rightarrow> authenticated A (handle_create_exception A) rq s
      | Scans \<Rightarrow> authenticated A (handle_scans A) rq s
      | Exceptions \<Rightarrow> authenticated A (handle_exceptions A) rq s
      | Connectors \<Rightarrow> authenticated A (handle_connectors A) rq s
      | Create_Connector \<Rightarrow> authenticated A (handle_create_connector A) rq s
      | Delete_Connector n \<Rightarrow> authenticated A (handle_delete_connector A n) rq s
      | Sync_Connector n \<Rightarrow> authenticated A (handle_sync_connector A n) rq s
      | Policies \<Rightarrow> authenticated A (handle_policies A) rq s
      | Scanner_List \<Rightarrow> authenticated A (handle_scanners A) rq s
      | Compliance_List \<Rightarrow> authenticated A (handle_compliance A) rq s
      | Audit_Log \<Rightarrow> authenticated A (handle_audit A) rq s
      | Console \<Rightarrow> handle_console A s
      | Not_Allowed \<Rightarrow> (answer 405 (Plain ''Method Not Allowed''), s))"

end
