(* ===== verification/Api_Safety.thy ===== *)
theory Api_Safety
  imports Api_Server
begin

text \<open>
  What the console's server guarantees: whatever the request, what it does to the cluster is reading and at most
  one write, which the subject of the session is entitled to; what it lists is in the subject's tenants;
  and what these guarantees do not cover.
\<close>

section \<open>What a request does to the cluster\<close>

definition session_subject :: "'s api_server \<Rightarrow> api_request \<Rightarrow> 's \<Rightarrow> subject option" where
  "session_subject A rq s = (case fst (authenticate A rq s) of Inl r \<Rightarrow> None | Inr sub \<Rightarrow> Some sub)"

inductive api_read :: "'s api_server \<Rightarrow> 's \<Rightarrow> 's \<Rightarrow> bool" for A where
  "ap_now A s = (t, s') \<Longrightarrow> api_read A s s'"
| "ap_random A s = (b, s') \<Longrightarrow> api_read A s s'"
| "ap_models A s = (ms, s') \<Longrightarrow> api_read A s s'"
| "ap_scans A s = (xs, s') \<Longrightarrow> api_read A s s'"
| "ap_reports A s = (rs, s') \<Longrightarrow> api_read A s s'"
| "ap_exceptions A s = (es, s') \<Longrightarrow> api_read A s s'"
| "ap_connectors A s = (cs, s') \<Longrightarrow> api_read A s s'"
| "ap_policies A s = (ps, s') \<Longrightarrow> api_read A s s'"
| "ap_compliance A s = (ys, s') \<Longrightarrow> api_read A s s'"
| "k_get (ap_configs A) k s = (d, s') \<Longrightarrow> api_read A s s'"
| "k_get (ap_connector_client A) k s = (c, s') \<Longrightarrow> api_read A s s'"
| "chain ((ap_recorder A)\<lparr>rec_ns := ap_namespace A\<rparr>) s = (l, s') \<Longrightarrow> api_read A s s'"

inductive api_write :: "'s api_server \<Rightarrow> subject \<Rightarrow> 's \<Rightarrow> 's \<Rightarrow> bool" for A sub where
  start_scan: "can sub RunScan \<Longrightarrow> can_see_namespace sub (ap_namespace A) \<Longrightarrow>
     k_create (ap_scan_client A) (ap_namespace A, n) (manual_scan A sub q v) s = (e, s') \<Longrightarrow> api_write A sub s s'"
| accept_risk: "can sub Waive \<Longrightarrow> can_see_namespace sub (ap_namespace A) \<Longrightarrow> eq_reason x \<noteq> [] \<Longrightarrow>
     k_create (ap_exception_client A) (ap_namespace A, n) (console_exception A sub x) s = (e, s') \<Longrightarrow> api_write A sub s s'"
| add_source: "can sub capability.Manage \<Longrightarrow> dns_name n \<Longrightarrow>
     k_create (ap_connector_client A) (ap_namespace A, n) c s = (e, s') \<Longrightarrow> api_write A sub s s'"
| drop_source: "can sub capability.Manage \<Longrightarrow> dns_name n \<Longrightarrow>
     k_delete (ap_connector_client A) (ap_namespace A, n) s = (e, s') \<Longrightarrow> api_write A sub s s'"
| sync_source: "can sub capability.Manage \<Longrightarrow> dns_name n \<Longrightarrow>
     k_update (ap_connector_client A) (ap_namespace A, n) c s = (e, s') \<Longrightarrow> api_write A sub s s'"

definition api_effect :: "'s api_server \<Rightarrow> subject option \<Rightarrow> 's \<Rightarrow> 's \<Rightarrow> bool" where
  "api_effect A who s s' \<longleftrightarrow>
     (\<exists>t. (api_read A)\<^sup>*\<^sup>* s t \<and> (s' = t \<or> (\<exists>sub. who = Some sub \<and> api_write A sub t s')))"

lemma reads_refl [simp]: "(api_read A)\<^sup>*\<^sup>* s s" by simp

lemma read_effect: "(api_read A)\<^sup>*\<^sup>* s s' \<Longrightarrow> api_effect A who s s'"
  by (auto simp: api_effect_def)

lemma write_effect: "(api_read A)\<^sup>*\<^sup>* s t \<Longrightarrow> api_write A sub t s' \<Longrightarrow> api_effect A (Some sub) s s'"
  by (auto simp: api_effect_def)

lemma effect_after_read: "(api_read A)\<^sup>*\<^sup>* s t \<Longrightarrow> api_effect A who t s' \<Longrightarrow> api_effect A who s s'"
  unfolding api_effect_def by (elim exE conjE) (rule exI, rule conjI, rule rtranclp_trans, assumption+)

lemma list_matching_read:
  "list_matching idx key l s = (r, s') \<Longrightarrow> \<exists>x. l s = (x, s')"
  by (auto simp: list_matching_def split: prod.splits sum.splits)

lemma read_one: "api_read A s s' \<Longrightarrow> (api_read A)\<^sup>*\<^sup>* s s'"
  by (rule r_into_rtranclp)

lemmas read_steps = api_read.intros [THEN read_one]

lemma matching_steps:
  "list_matching idx key (ap_models A) s = (r, s') \<Longrightarrow> (api_read A)\<^sup>*\<^sup>* s s'"
  "list_matching idx2 key (ap_scans A) s = (r2, s') \<Longrightarrow> (api_read A)\<^sup>*\<^sup>* s s'"
  "list_matching idx3 key (ap_reports A) s = (r3, s') \<Longrightarrow> (api_read A)\<^sup>*\<^sup>* s s'"
  "list_matching idx4 key (ap_compliance A) s = (r4, s') \<Longrightarrow> (api_read A)\<^sup>*\<^sup>* s s'"
  by (auto dest!: list_matching_read intro: read_steps)

lemma reports_of_scans_read: "reports_of_scans A ns acc s = (r, s') \<Longrightarrow> (api_read A)\<^sup>*\<^sup>* s s'"
proof (induction ns arbitrary: acc s)
  case (Cons n ns)
  obtain x s1 where l: "list_matching scan_report_index n (ap_reports A) s = (x, s1)" by (rule prod.exhaust)
  have "(api_read A)\<^sup>*\<^sup>* s s1" by (rule matching_steps(3) [OF l])
  moreover have "s' = s1 \<or> (\<exists>acc'. reports_of_scans A ns acc' s1 = (r, s'))"
    using Cons.prems l by (auto split: sum.splits)
  ultimately show ?case using Cons.IH by (meson rtranclp_trans)
qed simp

lemma first_bom_read: "first_bom A sub want scs s = (r, s') \<Longrightarrow> (api_read A)\<^sup>*\<^sup>* s s'"
proof (induction scs arbitrary: s)
  case (Cons sc scs)
  obtain x s1 where g: "k_get (ap_configs A) (om_namespace (as_meta sc), bom_config_name (ap_digest A) (om_name (as_meta sc))) s = (x, s1)"
    by (rule prod.exhaust)
  have s1: "(api_read A)\<^sup>*\<^sup>* s s1" by (rule read_steps(10) [OF g])
  have "first_bom A sub want scs s = (r, s') \<or> s' = s1 \<or> first_bom A sub want scs s1 = (r, s')"
    using Cons.prems g by (auto split: sum.splits if_splits)
  then show ?case using Cons.IH s1 by (meson rtranclp_trans)
qed simp

lemma retained_read: "retained A sub m v s = (r, s') \<Longrightarrow> (api_read A)\<^sup>*\<^sup>* s s'"
  unfolding retained_def by (auto split: prod.splits sum.splits intro: matching_steps)

lemma handle_findings_read: "handle_findings A rq sub s = (r, s') \<Longrightarrow> (api_read A)\<^sup>*\<^sup>* s s'"
  unfolding handle_findings_def Let_def
  by (auto split: prod.splits sum.splits option.splits if_splits
      dest!: matching_steps(2) reports_of_scans_read retained_read)

lemma handle_bom_read: "handle_bom A rq sub s = (r, s') \<Longrightarrow> (api_read A)\<^sup>*\<^sup>* s s'"
  unfolding handle_bom_def Let_def
  by (auto split: prod.splits sum.splits option.splits if_splits
      dest!: matching_steps(2) first_bom_read retained_read)

lemma handle_lists_read:
  "handle_whoami A rq sub s = (r, s') \<Longrightarrow> (api_read A)\<^sup>*\<^sup>* s s'"
  "handle_models A rq sub s = (r, s') \<Longrightarrow> (api_read A)\<^sup>*\<^sup>* s s'"
  "handle_scans A rq sub s = (r, s') \<Longrightarrow> (api_read A)\<^sup>*\<^sup>* s s'"
  "handle_exceptions A rq sub s = (r, s') \<Longrightarrow> (api_read A)\<^sup>*\<^sup>* s s'"
  "handle_connectors A rq sub s = (r, s') \<Longrightarrow> (api_read A)\<^sup>*\<^sup>* s s'"
  "handle_policies A rq sub s = (r, s') \<Longrightarrow> (api_read A)\<^sup>*\<^sup>* s s'"
  "handle_scanners A rq sub s = (r, s') \<Longrightarrow> (api_read A)\<^sup>*\<^sup>* s s'"
  unfolding handle_whoami_def handle_models_def handle_scans_def handle_exceptions_def handle_connectors_def
    handle_policies_def handle_scanners_def Let_def
  by (auto split: prod.splits sum.splits if_splits intro: read_steps)

lemma handle_compliance_read: "handle_compliance A rq sub s = (r, s') \<Longrightarrow> (api_read A)\<^sup>*\<^sup>* s s'"
  unfolding handle_compliance_def Let_def
  by (auto split: prod.splits sum.splits if_splits intro: read_steps matching_steps)

lemma handle_audit_read: "handle_audit A rq sub s = (r, s') \<Longrightarrow> (api_read A)\<^sup>*\<^sup>* s s'"
  unfolding handle_audit_def Let_def
  by (auto split: prod.splits sum.splits option.splits if_splits intro: read_steps)

lemmas handler_reads =
  handle_lists_read handle_findings_read handle_bom_read handle_compliance_read handle_audit_read


lemma handle_create_scan_effect:
  assumes "handle_create_scan A rq sub s = (r, s')"
  shows "api_effect A (Some sub) s s'"
proof (cases "\<exists>q. can sub RunScan \<and> ap_read_scan A (rq_body rq) = Inr q \<and> sq_model q \<noteq> [] \<and> sq_uri q \<noteq> [] \<and>
    can_see_namespace sub (ap_namespace A)")
  case False
  then have "s' = s" using assms unfolding handle_create_scan_def by (auto split: sum.splits if_splits)
  then show ?thesis by (simp add: read_effect)
next
  case True
  then obtain q where q: "can sub RunScan" "ap_read_scan A (rq_body rq) = Inr q" "sq_model q \<noteq> []" "sq_uri q \<noteq> []"
    "can_see_namespace sub (ap_namespace A)" by blast
  obtain v s1 where v: "(if sq_version q = [] then (case ap_now A s of (t, s1) \<Rightarrow> (''scan-'' @ clock_digits t, s1))
      else (sq_version q, s)) = (v, s1)" by (rule prod.exhaust)
  then have r1: "(api_read A)\<^sup>*\<^sup>* s s1" by (auto split: if_splits prod.splits intro: read_steps)
  obtain e where "k_create (ap_scan_client A) (ap_namespace A, om_name (as_meta (manual_scan A sub q v))) (manual_scan A sub q v) s1 = (e, s')"
    using assms q v unfolding handle_create_scan_def by (auto simp: Let_def split: prod.splits option.splits)
  then show ?thesis by (intro write_effect [OF r1] api_write.start_scan q)
qed

lemma handle_create_exception_effect:
  assumes "handle_create_exception A rq sub s = (r, s')"
  shows "api_effect A (Some sub) s s'"
proof (cases "\<exists>q. can sub Waive \<and> ap_read_exception A (rq_body rq) = Inr q \<and> eq_reason q \<noteq> [] \<and> can_see_namespace sub (ap_namespace A)")
  case False
  then have "s' = s" using assms unfolding handle_create_exception_def by (auto split: sum.splits if_splits)
  then show ?thesis by (simp add: read_effect)
next
  case True
  then obtain q where q: "can sub Waive" "ap_read_exception A (rq_body rq) = Inr q" "eq_reason q \<noteq> []"
    "can_see_namespace sub (ap_namespace A)" by blast
  obtain e where "k_create (ap_exception_client A) (ap_namespace A, om_name (ae_meta (console_exception A sub q))) (console_exception A sub q) s = (e, s')"
    using assms q unfolding handle_create_exception_def by (auto simp: Let_def split: prod.splits option.splits)
  then show ?thesis by (intro write_effect [OF reads_refl] api_write.accept_risk [where x = q] q(1,3,4))
qed

lemma handle_create_connector_effect:
  assumes "handle_create_connector A rq sub s = (r, s')"
  shows "api_effect A (Some sub) s s'"
  using assms unfolding handle_create_connector_def
  by (auto split: sum.splits if_splits prod.splits option.splits intro: read_effect
      write_effect [OF reads_refl] api_write.add_source)

lemma handle_delete_connector_effect:
  assumes "handle_delete_connector A n rq sub s = (r, s')"
  shows "api_effect A (Some sub) s s'"
  using assms unfolding handle_delete_connector_def
  by (auto split: if_splits prod.splits option.splits intro: read_effect
      write_effect [OF reads_refl] api_write.drop_source)

lemma handle_sync_connector_effect:
  assumes "handle_sync_connector A n rq sub s = (r, s')"
  shows "api_effect A (Some sub) s s'"
proof (cases "can sub capability.Manage \<and> dns_name n")
  case False
  then have "s' = s" using assms unfolding handle_sync_connector_def by (auto split: if_splits)
  then show ?thesis by (simp add: read_effect)
next
  case True
  obtain g s1 where g: "k_get (ap_connector_client A) (ap_namespace A, n) s = (g, s1)" by (rule prod.exhaust)
  obtain t s2 where t: "ap_now A s1 = (t, s2)" by (rule prod.exhaust)
  have r1: "(api_read A)\<^sup>*\<^sup>* s s1" by (rule read_steps(11) [OF g])
  have r2: "(api_read A)\<^sup>*\<^sup>* s s2" by (rule rtranclp_trans [OF r1 read_steps(1) [OF t]])
  show ?thesis
  proof (cases g)
    case (Inl e)
    then have "s' = s1" using assms True g unfolding handle_sync_connector_def by simp
    then show ?thesis using r1 by (simp add: read_effect)
  next
    case (Inr p)
    then obtain x e where "k_update (ap_connector_client A) (ap_namespace A, n) x s2 = (e, s')"
      using assms True g t unfolding handle_sync_connector_def
      by (auto simp: Let_def split: prod.splits option.splits)
    then show ?thesis using True by (intro write_effect [OF r2] api_write.sync_source) auto
  qed
qed

lemma authenticate_read:
  assumes "authenticate A rq s = (x, s')"
  shows "(api_read A)\<^sup>*\<^sup>* s s'"
  using assms unfolding authenticate_def by (auto split: option.splits prod.splits sum.splits intro: read_steps)

lemma authenticated_effect:
  assumes "authenticated A h rq s = (r, s')"
    and "\<And>sub t q u. h rq sub t = (q, u) \<Longrightarrow> api_effect A (Some sub) t u"
  shows "api_effect A (session_subject A rq s) s s'"
proof -
  obtain x s1 where x: "authenticate A rq s = (x, s1)" by (rule prod.exhaust)
  note r1 = authenticate_read [OF x]
  show ?thesis
  proof (cases x)
    case (Inl e)
    then show ?thesis using assms(1) x r1 by (simp add: authenticated_def read_effect)
  next
    case (Inr sub)
    then have "api_effect A (Some sub) s1 s'" using assms x by (simp add: authenticated_def)
    then show ?thesis using effect_after_read [OF r1] Inr x by (simp add: session_subject_def)
  qed
qed

lemma login_read: "handle_login A rq s = (r, s') \<Longrightarrow> (api_read A)\<^sup>*\<^sup>* s s'"
  unfolding handle_login_def
  by (auto split: prod.splits option.splits sum.splits intro: read_steps rtranclp_trans)

lemma callback_read: "handle_callback A rq s = (r, s') \<Longrightarrow> (api_read A)\<^sup>*\<^sup>* s s'"
  unfolding handle_callback_def Let_def
  by (auto split: prod.splits sum.splits if_splits intro: read_steps)

lemmas handler_effects =
  handler_reads [THEN read_effect] handle_create_scan_effect handle_create_exception_effect
  handle_create_connector_effect handle_delete_connector_effect handle_sync_connector_effect

lemma serve_effect: "serve A rq s = (r, s') \<Longrightarrow> api_effect A (session_subject A rq s) s s'"
  unfolding serve_def
  by (cases "api_route (rq_method rq) (rq_path rq)")
    (auto simp: handle_console_def intro: authenticated_effect handler_effects read_effect login_read callback_read)

section \<open>What an answer shows\<close>

text \<open>The namespaces of what a body lists, and whether it carries anything of the cluster.\<close>

fun shown_namespaces :: "api_body \<Rightarrow> string list" where
  "shown_namespaces (Models_Body ms red) = map mv_namespace ms"
| "shown_namespaces (Scans_Body xs) = map sv_namespace xs"
| "shown_namespaces (Exceptions_Body xs) = map ew_namespace xs"
| "shown_namespaces (Connectors_Body xs) = map kw_namespace xs"
| "shown_namespaces (Compliance_Body xs) = map (\<lambda>r. om_namespace (cy_meta r)) xs"
| "shown_namespaces (Bom_Index n ns ds) = [ns]"
| "shown_namespaces b = []"

fun discloses :: "api_body \<Rightarrow> bool" where
  "discloses (Error_Body e) = False"
| "discloses (Plain t) = False"
| "discloses (Page t) = False"
| "discloses Empty_Body = False"
| "discloses b = True"

definition in_scope :: "subject \<Rightarrow> api_response \<Rightarrow> bool" where
  "in_scope sub r \<longleftrightarrow> list_all (can_see_namespace sub) (shown_namespaces (hp_body r))"

lemma answer_simps [simp]:
  "hp_body (answer n b) = b" "hp_body (forbid m) = Error_Body m" "hp_body (bad_request m) = Error_Body m"
  "hp_body (internal_error m) = Error_Body m"
  by (simp_all add: answer_def forbid_def bad_request_def internal_error_def)

lemma filter_models_scope: "filter_models sub ms = (vs, red) \<Longrightarrow> v \<in> set vs \<Longrightarrow> can_see_namespace sub (mv_namespace v)"
  by (auto simp: filter_models_def Let_def split: if_splits)

lemma lists_in_scope:
  "in_scope sub (fst (handle_whoami A rq sub s))" "in_scope sub (fst (handle_models A rq sub s))"
  "in_scope sub (fst (handle_scans A rq sub s))" "in_scope sub (fst (handle_exceptions A rq sub s))"
  "in_scope sub (fst (handle_connectors A rq sub s))" "in_scope sub (fst (handle_policies A rq sub s))"
  "in_scope sub (fst (handle_scanners A rq sub s))" "in_scope sub (fst (handle_compliance A rq sub s))"
  unfolding in_scope_def handle_whoami_def handle_models_def handle_scans_def handle_exceptions_def
    handle_connectors_def handle_policies_def handle_scanners_def handle_compliance_def Let_def
  by (auto simp: list_all_iff scan_view_of_def exception_view_of_def connector_view_of_def
      dest: filter_models_scope split: prod.split sum.split)

lemma first_bom_in_scope: "first_bom A sub want scs s = (Some r, s') \<Longrightarrow> in_scope sub r"
  by (induction A sub want scs s rule: first_bom.induct)
    (auto simp: bom_answer_def in_scope_def split: if_splits prod.splits sum.splits option.splits)

lemma others_in_scope:
  "in_scope sub (fst (handle_findings A rq sub s))" "in_scope sub (fst (handle_audit A rq sub s))"
  "in_scope sub (fst (handle_create_scan A rq sub s))" "in_scope sub (fst (handle_create_exception A rq sub s))"
  "in_scope sub (fst (handle_create_connector A rq sub s))" "in_scope sub (fst (handle_delete_connector A n rq sub s))"
  "in_scope sub (fst (handle_sync_connector A n rq sub s))"
  unfolding in_scope_def handle_findings_def handle_audit_def handle_create_scan_def handle_create_exception_def
    handle_create_connector_def handle_delete_connector_def handle_sync_connector_def Let_def
  by (auto split: prod.split sum.split option.split)

lemma bom_in_scope: "in_scope sub (fst (handle_bom A rq sub s))"
proof -
  have e: "in_scope sub (answer n (Error_Body m))" "in_scope sub (bad_request m)" "in_scope sub (internal_error m)" for n m
    by (simp_all add: in_scope_def)
  show ?thesis
    unfolding handle_bom_def Let_def
    by (auto split: prod.split sum.split option.split intro: e first_bom_in_scope)
qed

lemmas handlers_in_scope = lists_in_scope others_in_scope bom_in_scope

lemma authenticated_in_scope:
  assumes "\<And>sub t. in_scope sub (fst (h rq sub t))"
  shows "discloses (hp_body (fst (authenticated A h rq s))) \<Longrightarrow>
    \<exists>sub. session_subject A rq s = Some sub \<and> in_scope sub (fst (authenticated A h rq s))"
proof -
  assume d: "discloses (hp_body (fst (authenticated A h rq s)))"
  obtain x s1 where x: "authenticate A rq s = (x, s1)" by (rule prod.exhaust)
  show ?thesis
  proof (cases x)
    case (Inl e)
    then have "\<not> discloses (hp_body e)"
      using x by (auto simp: authenticate_def split: option.splits prod.splits sum.splits)
    then show ?thesis using d Inl x by (simp add: authenticated_def)
  next
    case (Inr sub)
    then show ?thesis using x assms by (simp add: authenticated_def session_subject_def)
  qed
qed

lemma serve_in_scope:
  assumes "discloses (hp_body (fst (serve A rq s)))"
  shows "\<exists>sub. session_subject A rq s = Some sub \<and> in_scope sub (fst (serve A rq s))"
proof -
  have n: "\<not> discloses (hp_body (fst (handle_login A rq s)))" "\<not> discloses (hp_body (fst (handle_callback A rq s)))"
    "\<not> discloses (hp_body (fst (handle_console A s)))"
    by (auto simp: handle_login_def handle_callback_def handle_console_def Let_def split: prod.split option.split sum.split)
  show ?thesis
    using assms n unfolding serve_def
    by (cases "api_route (rq_method rq) (rq_path rq)")
      (simp_all, (erule authenticated_in_scope [rotated], rule handlers_in_scope)+)
qed

section \<open>Properties\<close>

text \<open>
  Claim C20. A request does no more than its subject may. Whatever the request, everything the server does to
  the cluster is a sequence of reads and then at most one write, and a write needs a session
  whose subject is entitled to it: a scan and an accepted risk in the subject's own tenant, in the subject's name and, for the
  risk, by a role that may waive and with a reason; sources by an administrator.
\<close>

theorem api_writes_are_entitled:
  "api_effect A (session_subject A rq s) s (snd (serve A rq s))"
  by (rule serve_effect) (rule surjective_pairing)




section \<open>Findings and the audit log\<close>

lemma collect_findings_count:
  "collect_findings sub owned reps (out0, red0) = (out, red) \<Longrightarrow>
   int (length out) + rd_hidden red = int (length out0) + rd_hidden red0 +
     (\<Sum>r \<leftarrow> filter (\<lambda>r. map_of owned (sp_scan_ref r) \<noteq> None) reps. int (length (sp_findings r)))"
proof (induction reps arbitrary: out0 red0)
  case (Cons rep reps)
  show ?case
  proof (cases "map_of owned (sp_scan_ref rep)")
    case None
    then show ?thesis using Cons by simp
  next
    case (Some ns)
    obtain vs r2 where v: "redact_findings sub ns (sp_findings rep) (sp_scanner rep) = (vs, r2)" by (rule prod.exhaust)
    then have n: "int (length vs) + rd_hidden r2 = int (length (sp_findings rep))"
      by (auto simp: redact_findings_def Let_def split: if_splits)
    have "collect_findings sub owned reps
        (out0 @ vs, \<lparr>rd_hidden = rd_hidden red0 + rd_hidden r2, rd_withheld = (rd_withheld red0 \<or> rd_withheld r2),
                     rd_reason = (if rd_reason red0 = [] then rd_reason r2 else rd_reason red0)\<rparr>) = (out, red)"
      using Cons.prems Some v by simp
    from Cons.IH [OF this] show ?thesis using n Some by simp
  qed
qed simp

text \<open>
  No finding disappears. Of the reports of the scans found for a model version, each finding is either shown or
  counted as hidden: the two add up to all of them, for every subject and however many scanners
  reported.
\<close>

theorem findings_are_accounted:
  "int (length (fst (collect_findings sub owned reps ([], no_redaction)))) +
   rd_hidden (snd (collect_findings sub owned reps ([], no_redaction))) =
     (\<Sum>r \<leftarrow> filter (\<lambda>r. map_of owned (sp_scan_ref r) \<noteq> None) reps. int (length (sp_findings r)))"
proof -
  obtain out red where c: "collect_findings sub owned reps ([], no_redaction) = (out, red)" by (rule prod.exhaust)
  have z: "rd_hidden no_redaction = 0" by (simp add: no_redaction_def)
  show ?thesis using collect_findings_count [OF c] unfolding c fst_conv snd_conv z by simp
qed


text \<open>
  Claim C22. Findings of another tenant. Scans are looked up by name alone: where a tenant has a scan of a model version, a report of a
  scan of the same name in any other namespace is taken to belong to it, and a subject who sees
  the first tenant only is shown the locations and descriptions of the other tenant's findings.
\<close>

theorem findings_cross_tenants:
  assumes "rq_query rq ''model'' = model" and "rq_query rq ''version'' = version" and "model \<noteq> []" and "version \<noteq> []"
    and "list_matching scan_index (model_key model version) (ap_scans A) s = (Inr [sc], s1)"
    and "ap_order A [om_name (as_meta sc)] = [om_name (as_meta sc)]"
    and "list_matching scan_report_index (om_name (as_meta sc)) (ap_reports A) s1 = (Inr reps, s2)"
    and "can_see_namespace sub (om_namespace (as_meta sc))" and "can sub ViewFindings" and "can sub ViewFindingPath"
    and "rep \<in> set reps" and "\<not> can_see_namespace sub (om_namespace (sp_meta rep))"
  shows "\<exists>out red. fst (handle_findings A rq sub s) = answer 200 (Findings_Body out red None) \<and>
    set (map (view_of True (sp_scanner rep)) (sp_findings rep)) \<subseteq> set out"
proof -
  define n where "n = om_name (as_meta sc)"
  define ns where "ns = om_namespace (as_meta sc)"
  have o: "owned_scans [sc] = [(n, ns)]" by (simp add: owned_scans_def n_def ns_def)
  have refs: "sp_scan_ref r = n" if "r \<in> set reps" for r
    using assms(7) that by (auto simp: list_matching_def scan_report_index_def n_def split: prod.splits sum.splits if_splits)
  have red: "redact_findings sub ns fs x = (map (view_of True x) fs, no_redaction)" for fs x
    using assms(8-10) by (simp add: redact_findings_def ns_def no_redaction_def Let_def)
  have c: "fst (collect_findings sub [(n, ns)] rs acc) = fst acc @ concat (map (\<lambda>r. map (view_of True (sp_scanner r)) (sp_findings r)) rs)"
    if "\<forall>r \<in> set rs. sp_scan_ref r = n" for rs acc
    using that by (induction rs arbitrary: acc) (auto simp: red split: prod.splits)
  obtain out rd where f: "collect_findings sub [(n, ns)] reps ([], no_redaction) = (out, rd)" by (rule prod.exhaust)
  have out: "out = concat (map (\<lambda>r. map (view_of True (sp_scanner r)) (sp_findings r)) reps)"
    using c [of reps "([], no_redaction)"] refs f by simp
  have g: "reports_of_scans A [n] [] s1 = (Some reps, s2)" using assms(7) by (simp add: n_def)
  have "handle_findings A rq sub s = (answer 200 (Findings_Body out rd None), s2)"
    unfolding handle_findings_def Let_def assms(1,2)
    using assms(3-6) by (simp add: o g f flip: n_def ns_def del: reports_of_scans.simps)
  moreover have "set (map (view_of True (sp_scanner rep)) (sp_findings rep)) \<subseteq> set out"
    unfolding out using assms(11) by auto
  ultimately show ?thesis by (intro exI [of _ out] exI [of _ rd]) simp
qed

text \<open>
  Sources are not in anybody's tenant. Starting a scan and accepting a risk ask whether the subject may see the
  namespace the server writes into; adding, removing and syncing a source only ask for the
  capability, so an administrator of any one tenant removes the sources of the whole installation.
\<close>

theorem any_admin_removes_sources:
  assumes "can sub capability.Manage" and "dns_name name" and "\<not> can_see_namespace sub (ap_namespace A)"
    and "k_delete (ap_connector_client A) (ap_namespace A, name) s = (None, s')"
  shows "handle_delete_connector A name rq sub s = (answer 204 Empty_Body, s')"
  using assms by (simp add: handle_delete_connector_def)

text \<open>
  Manual scans share names. The console names a scan by joining model and version with a dash, so two different
  model versions get one name, and the second cannot be scanned while the first scan exists.
\<close>

theorem manual_scan_names_collide:
  assumes "sq_model q = a @ ''-'' @ b" and "sq_model q' = a"
  shows "om_name (as_meta (manual_scan A sub q c)) = om_name (as_meta (manual_scan A sub q' (b @ ''-'' @ c)))"
  using assms by (simp add: manual_scan_def fresh_meta_def)


section \<open>A console of two tenants\<close>

definition idle_client :: "(unit, 'o) kclient" where
  "idle_client =
     \<lparr>k_get = (\<lambda>k s. (Inl NotFound, s)), k_create = (\<lambda>k x s. (None, s)), k_update = (\<lambda>k x s. (Some NotFound, s)),
      k_delete = (\<lambda>k s. (None, s)), k_list = (\<lambda>ns s. (Inr [], s)), k_version = (\<lambda>k s. 0)\<rparr>"

definition demo_scan_of :: "string \<Rightarrow> artifact_scan" where
  "demo_scan_of ns =
     \<lparr>as_meta = fresh_meta ns ''fraud-1'',
      as_spec = artifact_scan_spec.make ''fraud'' ''1'' [] [] []
        \<lparr>ar_uri = ''oci://m'', ar_digest = [], ar_media_type = [], ar_format = [], ar_size = None\<rparr> [] [] [] [],
      as_status = artifact_scan_status.make [] None None [] None [] [] []\<rparr>"

definition demo_report_of :: "string \<Rightarrow> artifact_scan_report" where
  "demo_report_of ns =
     \<lparr>sp_meta = fresh_meta ns ''fraud-1-trufflehog'', sp_scanner = ''trufflehog'', sp_scan_ref = ''fraud-1'',
      sp_summary = scanner_result.make ''trufflehog'' ''Failed'' 1 no_counts no_counts no_counts None [] [] None,
      sp_findings = [secret_finding]\<rparr>"

text \<open>The scan is in the tenant \<open>a\<close>, the report of a scan of the same name in the tenant \<open>b\<close>.\<close>

definition demo_api :: "unit api_server" where
  "demo_api =
     \<lparr>ap_namespace = ''cupel'', ap_bindings = [bind ''ml'' ''security'' [''a'']], ap_codec = demo_codec, ap_oidc = demo_oidc,
      ap_provider = demo_provider, ap_auth_url = (\<lambda>x. x), ap_console = [],
      ap_models = (\<lambda>s. (Inr [], s)), ap_scans = (\<lambda>s. (Inr [demo_scan_of ''a''], s)),
      ap_reports = (\<lambda>s. (Inr [demo_report_of ''b''], s)), ap_exceptions = (\<lambda>s. (Inr [], s)),
      ap_connectors = (\<lambda>s. (Inr [], s)), ap_policies = (\<lambda>s. (Inr [], s)), ap_compliance = (\<lambda>s. (Inr [], s)),
      ap_scan_client = idle_client, ap_exception_client = idle_client, ap_connector_client = idle_client,
      ap_configs = idle_client,
      ap_recorder =
        \<lparr>rec_records = idle_client, rec_checkpoints = idle_client,
         rec_runtime = \<lparr>rt_now = (\<lambda>s. (0, s)), rt_rand = (\<lambda>n s. (0, s)), rt_sleep = (\<lambda>d s. (None, s))\<rparr>,
         rec_digest = escape, rec_ns = []\<rparr>,
      ap_now = (\<lambda>s. (0, s)), ap_random = (\<lambda>s. (None, s)), ap_order = (\<lambda>xs. xs),
      ap_read_scan = (\<lambda>b. Inl b), ap_read_exception = (\<lambda>b. Inl b), ap_read_connector = (\<lambda>b. Inl b),
      ap_duration = (\<lambda>t. None), ap_digest = (\<lambda>x. x), ap_kerr_str = (\<lambda>e. [])\<rparr>"

definition ann :: subject where
  "ann = subject_for [bind ''ml'' ''security'' [''a'']] \<lparr>cl_username = ''ann'', cl_groups = [''ml'']\<rparr>"

lemma ann_matched: "matched [bind ''ml'' ''security'' [''a'']] \<lparr>cl_username = ''ann'', cl_groups = [''ml'']\<rparr> = {bind ''ml'' ''security'' [''a'']}"
proof -
  have "\<not> suffix ''*'' ''ml''" by code_simp
  then show ?thesis by (auto simp: matched_def bind_def binding_matches_def)
qed

lemma ann_rights:
  "can ann ViewFindings" "can ann ViewFindingPath" "can ann ViewInventory"
  "can_see_namespace ann ns \<longleftrightarrow> ns = ''a''"
  unfolding ann_def subject_can subject_sees ann_matched
  by (simp_all add: bind_def caps_of_def role_capabilities_def)

definition demo_get :: "string \<Rightarrow> api_request" where
  "demo_get what =
     \<lparr>rq_method = ''GET'', rq_path = [''api'', what],
      rq_query = (\<lambda>k. if k = ''model'' then ''fraud'' else if k = ''version'' then ''1'' else []),
      rq_cookie = (\<lambda>k. if k = session_cookie then Some (ck_value demo_session_cookie) else None),
      rq_tls = True, rq_forwarded = [], rq_body = []\<rparr>"

theorem findings_cross_tenants_witness:
  "\<exists>out red. fst (handle_findings demo_api (demo_get ''findings'') ann ()) = answer 200 (Findings_Body out red None) \<and>
     ''weights/model.pkl'' \<in> set (map fv_location out)"
proof -
  have s: "list_matching scan_index (model_key ''fraud'' ''1'') (ap_scans demo_api) () = (Inr [demo_scan_of ''a''], ())"
    by (simp add: list_matching_def demo_api_def scan_index_def model_index_def demo_scan_of_def artifact_scan_spec.make_def)
  have r: "list_matching scan_report_index (om_name (as_meta (demo_scan_of ''a''))) (ap_reports demo_api) () = (Inr [demo_report_of ''b''], ())"
    by (simp add: list_matching_def demo_api_def scan_report_index_def demo_report_of_def demo_scan_of_def fresh_meta_def)
  have q: "rq_query (demo_get ''findings'') ''model'' = ''fraud''" "rq_query (demo_get ''findings'') ''version'' = ''1''"
    by (simp_all add: demo_get_def)
  have "\<exists>out red. fst (handle_findings demo_api (demo_get ''findings'') ann ()) = answer 200 (Findings_Body out red None) \<and>
      set (map (view_of True (sp_scanner (demo_report_of ''b''))) (sp_findings (demo_report_of ''b''))) \<subseteq> set out"
    by (rule findings_cross_tenants [OF q _ _ s _ r])
      (simp_all add: ann_rights demo_api_def demo_scan_of_def demo_report_of_def fresh_meta_def)
  then show ?thesis by (force simp: demo_report_of_def secret_finding_def view_of_def)
qed

lemma demo_session: "session_subject demo_api (demo_get what) () = Some ann"
proof -
  have "verify_session demo_codec 0 (ck_value demo_session_cookie) =
      Inr \<lparr>se_user = ''ann'', se_groups = [''ml''], se_expires = 3600\<rparr>"
  proof -
    have "ck_value demo_session_cookie = sign_session demo_codec ''ann''"
      by (simp add: demo_session_cookie_def issue_session_def) (simp add: demo_codec_def)
    then show ?thesis by (simp add: verify_signed) (simp add: demo_codec_def unix_sec_def)
  qed
  then show ?thesis
    by (simp add: session_subject_def authenticate_def demo_get_def demo_api_def ann_def)
qed



theorem any_admin_removes_sources_witness:
  "handle_delete_connector demo_api ''registry'' (demo_get ''x'') (ann\<lparr>su_roles := [''admin'']\<rparr>) () = (answer 204 Empty_Body, ())"
proof (rule any_admin_removes_sources)
  show "can (ann\<lparr>su_roles := [''admin'']\<rparr>) capability.Manage" by (simp add: can_def caps_of_def role_capabilities_def)
  show "dns_name ''registry''" by (simp add: dns_name_def is_lower_def is_digit_def)
  have "\<not> can_see_namespace ann ''cupel''" by (simp add: ann_rights)
  then show "\<not> can_see_namespace (ann\<lparr>su_roles := [''admin'']\<rparr>) (ap_namespace demo_api)"
    by (simp add: can_see_namespace_def) (simp add: demo_api_def)
  show "k_delete (ap_connector_client demo_api) (ap_namespace demo_api, ''registry'') () = (None, ())"
    by (simp add: demo_api_def idle_client_def)
qed

theorem manual_scan_names_collide_witness:
  "om_name (as_meta (manual_scan demo_api ann (scan_request.make ''llama-3'' [] ''u'' [] [] []) ''8b''))
     = om_name (as_meta (manual_scan demo_api ann (scan_request.make ''llama'' [] ''u'' [] [] []) ''3-8b''))"
  using manual_scan_names_collide [of "scan_request.make ''llama-3'' [] ''u'' [] [] []" "''llama''" "''3''"
      "scan_request.make ''llama'' [] ''u'' [] [] []" demo_api ann "''8b''"]
  by (simp add: scan_request.make_def)

end
