(* ===== verification/Cli_Audit.thy ===== *)
theory Cli_Audit
  imports Audit_Sink
begin

text \<open>
  Checking an archive from its files alone: \<open>ReadArchive\<close> (\<open>internal/audit/archive.go\<close>) and
  \<open>cupel audit verify\<close> (\<open>cmd/cupel/audit.go\<close>), with the command-line flags it takes, the comparison
  with a published checkpoint, its exit codes and its output.

  The directory is on the disk of \<open>Audit_Sink\<close>, whose calls can fail.  The JSON decoder of a checkpoint
  is a parameter; printing the verification as JSON cannot fail, as it holds strings and integers only.
\<close>

section \<open>Listing a directory\<close>

text \<open>
  An entry is the first component of a file's path below the directory, and whether more follows.  The
  disk holds files only, so a directory without any is not there.  \<open>os.ReadDir\<close> sorts by name.
\<close>

definition entry_in :: "string \<Rightarrow> string \<Rightarrow> (string \<times> bool) option" where
  "entry_in dir p =
     (if prefix (dir @ ''/'') p
      then (let rest = drop (length dir + 1) p; name = takeWhile (\<lambda>c. c \<noteq> CHR ''/'') rest
            in Some (name, name \<noteq> rest))
      else None)"

definition os_read_dir :: "string \<Rightarrow> disk \<Rightarrow> (string + (string \<times> bool) list) \<times> disk" where
  "os_read_dir dir k = (case next_fault k of
     (Works, k') \<Rightarrow>
       (case sort_key fst (remdups (List.map_filter (entry_in dir) (map fst (dk_files k')))) of
          [] \<Rightarrow> (Inl ''no such directory'', k') | es \<Rightarrow> (Inr es, k'))
   | (Fails e, k') \<Rightarrow> (Inl e, k') | (Torn n e, k') \<Rightarrow> (Inl e, k'))"

section \<open>Reading the archive\<close>

definition segment_files :: "(string \<times> bool) list \<Rightarrow> string list" where
  "segment_files es = sort (map fst (filter (\<lambda>e. \<not> snd e \<and> suffix ''.jsonl'' (fst e)) es))"

fun read_segments ::
    "record_codec \<Rightarrow> string \<Rightarrow> string list \<Rightarrow> disk \<Rightarrow> (string + audit_record list) \<times> disk" where
  "read_segments J dir [] k = (Inr [], k)"
| "read_segments J dir (name # names) k =
     (case os_read_file (join_path dir name) k of
        (Inl e, k1) \<Rightarrow> (Inl (''read '' @ name @ '': '' @ e), k1)
      | (Inr data, k1) \<Rightarrow>
          (case decode_segment J data of
             Inl e \<Rightarrow> (Inl (''parse '' @ name @ '': '' @ e), k1)
           | Inr records \<Rightarrow>
               (case read_segments J dir names k1 of
                  (Inl e, k2) \<Rightarrow> (Inl e, k2)
                | (Inr out, k2) \<Rightarrow> (Inr (records @ out), k2))))"

definition read_archive ::
    "record_codec \<Rightarrow> string \<Rightarrow> disk \<Rightarrow> ((string + audit_record list) \<times> string list) \<times> disk" where
  "read_archive J dir k =
     (case os_read_dir dir k of
        (Inl e, k1) \<Rightarrow> ((Inl e, []), k1)
      | (Inr es, k1) \<Rightarrow>
          (let names = segment_files es in
           case read_segments J dir names k1 of (r, k2) \<Rightarrow> ((r, names), k2)))"

section \<open>The command line\<close>

definition takes_value :: "string \<Rightarrow> bool" where
  "takes_value a \<longleftrightarrow> a = ''-checkpoint'' \<or> a = ''--checkpoint''"

definition is_flag :: "string \<Rightarrow> bool" where
  "is_flag a \<longleftrightarrow> prefix ''-'' a"

fun split_from :: "string \<Rightarrow> string list \<Rightarrow> string list \<Rightarrow> string \<times> string list" where
  "split_from positional rest [] = (positional, rest)"
| "split_from positional rest [a] =
     (if is_flag a then (positional, rest @ [a])
      else if positional = [] then (a, rest) else (positional, rest @ [a]))"
| "split_from positional rest (a # b # args) =
     (if is_flag a
      then if CHR ''='' \<notin> set a \<and> takes_value a
        then split_from positional (rest @ [a, b]) args
        else split_from positional (rest @ [a]) (b # args)
      else if positional = [] then split_from a rest (b # args)
      else split_from positional (rest @ [a]) (b # args))"

definition split_positional :: "string list \<Rightarrow> string \<times> string list" where
  "split_positional args = split_from [] [] args"

record audit_opts =
  ao_checkpoint :: string
  ao_json :: bool

text \<open>
  \<open>flag.FlagSet.Parse\<close> on these two flags: a flag starts with one or two dashes, its value follows a
  \<open>=\<close> or, for the path, is the next argument; parsing stops at the first other argument or after \<open>--\<close>.
\<close>

definition parse_bool :: "string \<Rightarrow> bool option" where
  "parse_bool s =
     (if s \<in> {''1'', ''t'', ''T'', ''TRUE'', ''true'', ''True''} then Some True
      else if s \<in> {''0'', ''f'', ''F'', ''FALSE'', ''false'', ''False''} then Some False else None)"

definition flag_name :: "string \<Rightarrow> string" where
  "flag_name a = (if length a > 1 \<and> a ! 1 = CHR ''-'' then drop 2 a else drop 1 a)"

definition flag_value :: "string \<Rightarrow> string \<times> string option" where
  "flag_value n =
     (let m = takeWhile (\<lambda>c. c \<noteq> CHR ''='') n in
      (m, if m = n then None else Some (drop (length m + 1) n)))"

fun parse_flags :: "audit_opts \<Rightarrow> string list \<Rightarrow> string + audit_opts \<times> string list" where
  "parse_flags p [] = Inr (p, [])"
| "parse_flags p (a # args) =
     (if length a < 2 \<or> \<not> is_flag a then Inr (p, a # args)
      else if a = ''--'' then Inr (p, args)
      else if hd (flag_name a) \<in> {CHR ''-'', CHR ''=''} then Inl (''bad flag syntax: '' @ a)
      else (case flag_value (flag_name a) of (m, v) \<Rightarrow>
        if m = ''json''
        then (case v of
                None \<Rightarrow> parse_flags (p\<lparr>ao_json := True\<rparr>) args
              | Some b \<Rightarrow>
                  (case parse_bool b of
                     None \<Rightarrow> Inl (''invalid boolean value '' @ quote b @ '' for -json'')
                   | Some x \<Rightarrow> parse_flags (p\<lparr>ao_json := x\<rparr>) args))
        else if m = ''checkpoint''
        then (case v of
                Some x \<Rightarrow> parse_flags (p\<lparr>ao_checkpoint := x\<rparr>) args
              | None \<Rightarrow>
                  (case args of
                     [] \<Rightarrow> Inl ''flag needs an argument: -checkpoint''
                   | x # others \<Rightarrow> parse_flags (p\<lparr>ao_checkpoint := x\<rparr>) others))
        else if m \<in> {''help'', ''h''} then Inl ''flag: help requested''
        else Inl (''flag provided but not defined: -'' @ m)))"

section \<open>Comparing with a checkpoint\<close>

definition check_against_checkpoint ::
    "audit_record list \<Rightarrow> string \<Rightarrow> checkpoint \<Rightarrow> string list" where
  "check_against_checkpoint records head cp =
     (let n = of_nat (length records) :: uint64 in
      case cp_archived cp of
        Some a \<Rightarrow>
          (if n \<noteq> an_length a
           then [''the checkpoint says '' @ u64_str (an_length a) @
             '' records were archived, but this archive holds '' @ u64_str n @ '': '' @
             int_str (sint (an_length a - n)) @ '' are missing from it''] else []) @
          (if head \<noteq> an_head a
           then [''this archive ends on '' @ short head @
             '', but the checkpoint says the archived records end on '' @ short (an_head a) @
             '': it is not the archive this checkpoint describes''] else [])
      | None \<Rightarrow>
          if n < cp_length cp
          then [''the checkpoint records a chain of '' @ u64_str (cp_length cp) @
            '' and this archive holds '' @ u64_str n @
            '', with no archive boundary to account for the difference: '' @
            u64_str (cp_length cp - n) @ '' records are unaccounted for'']
          else if n = cp_length cp \<and> head \<noteq> cp_head cp
          then [''this archive has the checkpointed length but a different head ('' @ short head @
            '', the checkpoint says '' @ short (cp_head cp) @ ''): it has been rewritten'']
          else [])"

section \<open>The command\<close>

text \<open>What it prints last, by what it was given to compare with.\<close>

datatype closing =
    No_Checkpoint
  | Matches_Boundary (archived_records: uint64) (held_records: nat) (remaining_records: uint64)
  | Matches_Checkpoint (checkpointed_records: uint64)

datatype audit_report =
    Usage
  | Failed string
  | Json_Report "string list" verification
  | Broken_Report "string list" uint64 uint64 verification
  | Sound_Report "string list" uint64 uint64 verification closing

text \<open>A run exits with a code, or panics.\<close>

datatype cli_result = Exits nat audit_report | Panics

definition exit_approved :: nat where "exit_approved = 0"
definition exit_error :: nat where "exit_error = 1"
definition exit_review_required :: nat where "exit_review_required = 2"
definition exit_quarantined :: nat where "exit_quarantined = 3"

definition closing_line :: "audit_record list \<Rightarrow> checkpoint option \<Rightarrow> closing" where
  "closing_line records c =
     (case c of
        None \<Rightarrow> No_Checkpoint
      | Some cp \<Rightarrow>
          (case cp_archived cp of
             Some a \<Rightarrow> Matches_Boundary (an_length a) (length records) (cp_length cp - an_length a)
           | None \<Rightarrow> Matches_Checkpoint (cp_length cp)))"

definition archive_verdict ::
    "digest_fn \<Rightarrow> audit_record list \<Rightarrow> checkpoint option \<Rightarrow> verification" where
  "archive_verdict H records c =
     (let v = verify H records None in
      case c of
        None \<Rightarrow> v
      | Some cp \<Rightarrow>
          if v_valid v
          then (let ps = v_problems v @ check_against_checkpoint records (v_head v) cp
                in v\<lparr>v_problems := ps, v_valid := ps = []\<rparr>)
          else v)"

definition audit_output ::
    "audit_opts \<Rightarrow> audit_record list \<Rightarrow> string list \<Rightarrow> checkpoint option \<Rightarrow> verification \<Rightarrow> cli_result"
where
  "audit_output p records segments c v =
     (if ao_json p
      then Exits (if v_valid v then exit_approved else exit_quarantined) (Json_Report segments v)
      else if records = [] then Panics
      else let lo = ar_seq (hd records); hi = ar_seq (last records) in
        if v_valid v then Exits exit_approved (Sound_Report segments lo hi v (closing_line records c))
        else Exits exit_quarantined (Broken_Report segments lo hi v))"

definition read_checkpoint_file ::
    "(string \<Rightarrow> string + checkpoint) \<Rightarrow> string \<Rightarrow> disk \<Rightarrow> (string + checkpoint option) \<times> disk" where
  "read_checkpoint_file cj path k =
     (if path = [] then (Inr None, k)
      else (case os_read_file path k of
              (Inl e, k1) \<Rightarrow> (Inl (''cannot read the checkpoint: '' @ e), k1)
            | (Inr data, k1) \<Rightarrow>
                (case cj data of
                   Inl e \<Rightarrow> (Inl (''cannot parse the checkpoint: '' @ e), k1)
                 | Inr cp \<Rightarrow> (Inr (Some cp), k1))))"

definition run_audit_verify ::
    "digest_fn \<Rightarrow> record_codec \<Rightarrow> (string \<Rightarrow> string + checkpoint) \<Rightarrow> string list \<Rightarrow> disk \<Rightarrow>
     cli_result \<times> disk" where
  "run_audit_verify H J cj args k =
     (case split_positional args of (dir, rest) \<Rightarrow>
        (case parse_flags \<lparr>ao_checkpoint = [], ao_json = False\<rparr> rest of
           Inl e \<Rightarrow> (Exits exit_error (Failed e), k)
         | Inr (p, others) \<Rightarrow>
             if dir = [] \<or> others \<noteq> [] then (Exits exit_error Usage, k)
             else
               (case read_archive J dir k of ((r, segments), k1) \<Rightarrow>
                  (case r of
                     Inl e \<Rightarrow> (Exits exit_error (Failed (''cannot read the archive: '' @ e)), k1)
                   | Inr records \<Rightarrow>
                       if segments = []
                       then (Exits exit_error (Failed (''no audit segments in '' @ dir)), k1)
                       else
                         (case read_checkpoint_file cj (ao_checkpoint p) k1 of
                            (Inl e, k2) \<Rightarrow> (Exits exit_error (Failed e), k2)
                          | (Inr c, k2) \<Rightarrow>
                              (audit_output p records segments c (archive_verdict H records c), k2))))))"

section \<open>Segments in the order of their names\<close>

lemma str_nat_Cons: "str_nat (c # s) = char_digit c * 10 ^ length s + str_nat s"
  by (induction s rule: rev_induct) (simp_all add: str_nat_def)

lemma str_nat_bound: "\<forall>c \<in> set s. is_digit c \<Longrightarrow> str_nat s < 10 ^ length s"
proof (induction s)
  case Nil
  then show ?case by (simp add: str_nat_def)
next
  case (Cons c s)
  have "char_digit c \<le> 9" using Cons.prems by (auto simp: is_digit_def char_digit_def)
  then have "char_digit c * 10 ^ length s \<le> 9 * 10 ^ length s" by (rule mult_right_mono) simp
  moreover have "str_nat s < 10 ^ length s" using Cons by simp
  ultimately have "char_digit c * 10 ^ length s + str_nat s < 10 * 10 ^ length s" by linarith
  then show ?case by (simp add: str_nat_Cons)
qed

lemma digits_order:
  assumes "length s = length t" and "\<forall>c \<in> set s. is_digit c" and "\<forall>c \<in> set t. is_digit c"
    and "str_nat s < str_nat t"
  shows "s < t"
  using assms
proof (induction s t rule: list_induct2)
  case (Cons c s d t)
  have b: "str_nat s < 10 ^ length s" "str_nat t < 10 ^ length s"
    using Cons.prems Cons.hyps str_nat_bound [of s] str_nat_bound [of t] by auto
  have n: "str_nat (c # s) < str_nat (d # t)" by fact
  have digits: "48 \<le> (of_char c :: nat)" "48 \<le> (of_char d :: nat)"
    using Cons.prems by (auto simp: is_digit_def)
  consider "char_digit d < char_digit c" | "char_digit c < char_digit d" | "char_digit c = char_digit d"
    by linarith
  then show ?case
  proof cases
    case 1
    then have "Suc (char_digit d) * 10 ^ length s \<le> char_digit c * 10 ^ length s"
      by (intro mult_right_mono) auto
    then show ?thesis using n b Cons.hyps by (simp add: str_nat_Cons)
  next
    case 2
    then have "c < d" using digits by (simp add: less_char_def char_digit_def)
    then show ?thesis by simp
  next
    case 3
    have "(of_char c :: nat) = of_char d" using 3 digits unfolding char_digit_def by linarith
    then have "c = d" by simp
    moreover have "s < t" using Cons n 3 by (simp add: str_nat_Cons)
    ultimately show ?thesis by simp
  qed
qed (simp add: str_nat_def)

lemma nat_str_length: "n < 10 ^ w \<Longrightarrow> 0 < w \<Longrightarrow> length (nat_str n) \<le> w"
proof (induction n arbitrary: w rule: nat_str.induct)
  case (1 n)
  show ?case
  proof (cases "n < 10")
    case True
    then show ?thesis using 1 by (simp add: nat_str.simps [of n])
  next
    case False
    then obtain v where v: "w = Suc v" "0 < v"
      using 1 by (cases w; cases "w - 1") auto
    then have "n div 10 < 10 ^ v" using 1 by (simp add: div_less_iff_less_mult mult.commute)
    then show ?thesis using 1 False v by (simp add: nat_str.simps [of n])
  qed
qed

lemma zero_pad_order:
  assumes "m < n" and "n < 10 ^ w" and "0 < w"
  shows "zero_pad w (nat_str m) < zero_pad w (nat_str n)"
proof (rule digits_order)
  show "length (zero_pad w (nat_str m)) = length (zero_pad w (nat_str n))"
    using nat_str_length [of m w] nat_str_length [of n w] assms by (simp add: length_zero_pad)
  show "\<forall>c \<in> set (zero_pad w (nat_str m)). is_digit c" "\<forall>c \<in> set (zero_pad w (nat_str n)). is_digit c"
    by (auto intro: zero_pad_digits nat_str_digits)
qed (simp add: assms)

lemma append_order: "length (x :: string) = length y \<Longrightarrow> x < y \<Longrightarrow> x @ s < y @ t"
  by (induction x y rule: list_induct2) auto

lemma segment_name_order:
  assumes "f < f'" and "unat f' < 10 ^ 12"
  shows "segment_name f l < segment_name f' l'"
proof -
  have "unat f < unat f'" using assms by (simp add: word_less_nat_alt)
  moreover from this assms have "length (zero_pad 12 (nat_str (unat f)))
      = length (zero_pad 12 (nat_str (unat f')))"
    using nat_str_length [of "unat f" 12] nat_str_length [of "unat f'" 12]
    by (simp add: length_zero_pad)
  ultimately have "zero_pad 12 (nat_str (unat f)) @ s < zero_pad 12 (nat_str (unat f')) @ t" for s t
    using zero_pad_order [of "unat f" "unat f'" 12] assms by (intro append_order) auto
  then show ?thesis by (simp add: segment_name_def)
qed

lemma prefix_order: "(p :: string) @ s < p @ t \<longleftrightarrow> s < t"
  by (induction p) auto

lemma segment_name_order_last:
  assumes "l < l'" and "unat l' < 10 ^ 12"
  shows "segment_name f l < segment_name f l'"
proof -
  have "unat l < unat l'" using assms by (simp add: word_less_nat_alt)
  then have "zero_pad 12 (nat_str (unat l)) @ s < zero_pad 12 (nat_str (unat l')) @ t" for s t
    using zero_pad_order [of "unat l" "unat l'" 12] assms
      nat_str_length [of "unat l" 12] nat_str_length [of "unat l'" 12]
    by (intro append_order) (auto simp: length_zero_pad)
  then show ?thesis by (simp add: segment_name_def prefix_order)
qed

text \<open>The name the archiver gives a segment, and segments that continue each other.\<close>

definition seg_name :: "audit_record list \<Rightarrow> string" where
  "seg_name seg = segment_name (ar_seq (hd seg)) (ar_seq (last seg))"

lemma chain_segments_sorted:
  assumes "chain_ok H n h (concat segs)" and "\<forall>seg \<in> set segs. seg \<noteq> []"
    and "unat n + length (concat segs) < 10 ^ 12"
  shows "sorted_wrt (<) (map seg_name segs) \<and>
    (\<forall>seg \<in> set segs. n < ar_seq (hd seg) \<and> unat (ar_seq (hd seg)) < 10 ^ 12)"
  using assms
proof (induction segs arbitrary: n h)
  case Nil
  then show ?case by simp
next
  case (Cons seg segs)
  let ?m = "n + of_nat (length seg)"
  obtain r rs where seg: "seg = r # rs" using Cons.prems(2) by (cases seg) auto
  have big: "(10 :: nat) ^ 12 < 2 ^ 64" by simp
  have m: "unat ?m = unat n + length seg" and n1: "unat (n + 1) = unat n + 1"
    using Cons.prems(3) big by (simp_all add: seg unat_word_ariths unat_of_nat)
  have "chain_ok H ?m (head_hash h seg) (concat segs)" using Cons.prems(1) by simp
  then have IH: "sorted_wrt (<) (map seg_name segs)"
    "\<And>q. q \<in> set segs \<Longrightarrow> ?m < ar_seq (hd q) \<and> unat (ar_seq (hd q)) < 10 ^ 12"
    using Cons.IH [of ?m "head_hash h seg"] Cons.prems m by auto
  have first: "ar_seq r = n + 1" using Cons.prems(1) by (simp add: seg)
  have "n < n + 1" "n + 1 \<le> ?m" using m n1 by (simp_all add: seg word_less_nat_alt word_le_nat_alt)
  then have lt: "n + 1 < ar_seq (hd q)" "n < ar_seq (hd q)" if "q \<in> set segs" for q
    using IH(2) [OF that] by (meson order.strict_trans1 order.strict_trans)+
  have "seg_name seg < seg_name q" if "q \<in> set segs" for q
    using segment_name_order lt(1) [OF that] IH(2) [OF that] by (simp add: seg_name_def seg first)
  then show ?case using IH lt Cons.prems(3) \<open>n < n + 1\<close> n1 by (auto simp: first seg)
qed

section \<open>What an archive holds\<close>

text \<open>
  A directory holds the archive of \<open>segs\<close>: the encoded bytes of each segment under its name, and no
  other file whose name ends in \<open>.jsonl\<close>.  Anything else may lie there, a write that was never finished
  among it.
\<close>

definition holds_archive :: "record_codec \<Rightarrow> string \<Rightarrow> disk \<Rightarrow> audit_record list list \<Rightarrow> bool" where
  "holds_archive J dir k segs \<longleftrightarrow>
     (\<forall>seg \<in> set segs. seg \<noteq> [] \<and>
        (\<exists>d. encode_segment J seg = Inr d \<and> dir_content dir k (seg_name seg) = Some d)) \<and>
     (\<forall>p \<in> fst ` set (dk_files k). \<forall>n. entry_in dir p = Some (n, False) \<longrightarrow>
        suffix ''.jsonl'' n \<longrightarrow> n \<in> seg_name ` set segs)"

lemma takeWhile_self: "takeWhile P xs = xs \<longleftrightarrow> (\<forall>x \<in> set xs. P x)"
  by (induction xs) auto

lemma entry_in_file:
  assumes "dir \<noteq> []"
  shows "entry_in dir p = Some (n, False) \<longleftrightarrow> p = join_path dir n \<and> CHR ''/'' \<notin> set n"
proof
  assume e: "entry_in dir p = Some (n, False)"
  then obtain rest where p: "p = (dir @ ''/'') @ rest"
    by (auto simp: entry_in_def Let_def prefix_def split: if_splits)
  then have "takeWhile (\<lambda>c. c \<noteq> CHR ''/'') rest = n" "n = rest"
    using e by (auto simp: entry_in_def Let_def)
  then show "p = join_path dir n \<and> CHR ''/'' \<notin> set n"
    using assms p by (auto simp: join_path_def takeWhile_self)
next
  assume p: "p = join_path dir n \<and> CHR ''/'' \<notin> set n"
  then have "takeWhile (\<lambda>c. c \<noteq> CHR ''/'') n = n" by (auto simp: takeWhile_self)
  then show "entry_in dir p = Some (n, False)"
    using assms p by (simp add: entry_in_def join_path_def Let_def)
qed

lemma seg_name_plain: "CHR ''/'' \<notin> set (seg_name seg)" and seg_name_jsonl: "suffix ''.jsonl'' (seg_name seg)"
proof -
  have d: "CHR ''/'' \<notin> set (zero_pad 12 (nat_str (unat n)))" for n :: uint64
    using zero_pad_digits [of "nat_str (unat n)" "CHR ''/''" 12] nat_str_digits
    by (auto simp: is_digit_def)
  then show "CHR ''/'' \<notin> set (seg_name seg)" by (simp add: seg_name_def segment_name_def)
  have "seg_name seg = (''audit-'' @ zero_pad 12 (nat_str (unat (ar_seq (hd seg)))) @ ''-'' @
      zero_pad 12 (nat_str (unat (ar_seq (last seg))))) @ ''.jsonl''"
    by (simp add: seg_name_def segment_name_def)
  then show "suffix ''.jsonl'' (seg_name seg)" by (simp only: suffixI)
qed

lemma next_fault_works: "dk_faults k = [] \<Longrightarrow> next_fault k = (Works, k)"
  by (simp add: next_fault_def)

lemma map_filter_set: "set (List.map_filter f xs) = {y. \<exists>x \<in> set xs. f x = Some y}"
  by (induction xs) (auto simp: List.map_filter_simps split: option.splits)

lemma map_of_key: "map_of ps x = Some y \<Longrightarrow> x \<in> fst ` set ps"
  by (metis domI dom_map_of_conv_image_fst)

text \<open>The listing of such a directory: the names of its segments, in the order of the chain.\<close>

lemma archive_listing:
  assumes h: "holds_archive J dir k segs" and dir: "dir \<noteq> []" and k: "dk_faults k = []"
    and ne: "segs \<noteq> []" and s: "sorted_wrt (<) (map seg_name segs)"
  shows "\<exists>es. os_read_dir dir k = (Inr es, k) \<and> segment_files es = map seg_name segs"
proof -
  define es where "es = sort_key fst (remdups (List.map_filter (entry_in dir) (map fst (dk_files k))))"
  have set_es: "(n, False) \<in> set es \<longleftrightarrow> join_path dir n \<in> fst ` set (dk_files k) \<and> CHR ''/'' \<notin> set n" for n
    by (force simp: es_def map_filter_set entry_in_file [OF dir] image_iff)
  have stored: "join_path dir (seg_name seg) \<in> fst ` set (dk_files k)" if "seg \<in> set segs" for seg
    using h that by (auto simp: holds_archive_def dir_content_def dest!: map_of_key bspec)
  have "set (segment_files es) = seg_name ` set segs"
  proof (intro set_eqI iffI)
    fix n assume "n \<in> set (segment_files es)"
    then have "(n, False) \<in> set es" "suffix ''.jsonl'' n" by (auto simp: segment_files_def)
    then show "n \<in> seg_name ` set segs"
      using h unfolding set_es by (auto simp: holds_archive_def entry_in_file [OF dir])
  next
    fix n assume "n \<in> seg_name ` set segs"
    then have "(n, False) \<in> set es" "suffix ''.jsonl'' n"
      using stored seg_name_plain seg_name_jsonl unfolding set_es by auto
    then show "n \<in> set (segment_files es)" by (force simp: segment_files_def)
  qed
  moreover have "distinct (segment_files es)"
  proof -
    have "distinct (filter (\<lambda>e. \<not> snd e \<and> suffix ''.jsonl'' (fst e)) es)" by (simp add: es_def)
    then show ?thesis by (auto simp: segment_files_def distinct_map inj_on_def)
  qed
  moreover have "sorted (segment_files es)" by (simp add: segment_files_def)
  moreover have "sorted (map seg_name segs)" "distinct (map seg_name segs)"
    using s by (simp_all only: strict_sorted_iff)
  ultimately have files: "segment_files es = map seg_name segs"
    by (intro sorted_distinct_set_unique) simp_all
  then have "es \<noteq> []" using ne by (auto simp: segment_files_def)
  then have "os_read_dir dir k = (Inr es, k)"
    by (simp add: os_read_dir_def next_fault_works [OF k] es_def [symmetric] split: list.split)
  with files show ?thesis by blast
qed

lemma read_segments_all:
  assumes "codec_ok J P" and "dk_faults k = []" and "\<forall>seg \<in> set segs. \<forall>r \<in> set seg. P r"
    and "\<forall>seg \<in> set segs. \<exists>d. encode_segment J seg = Inr d \<and> dir_content dir k (seg_name seg) = Some d"
  shows "read_segments J dir (map seg_name segs) k = (Inr (concat segs), k)"
  using assms(3,4)
proof (induction segs)
  case (Cons seg segs)
  obtain d where d: "encode_segment J seg = Inr d" "map_of (dk_files k) (join_path dir (seg_name seg)) = Some d"
    using Cons.prems(2) by (auto simp: dir_content_def)
  then have "decode_segment J d = Inr seg" using assms(1) Cons.prems(1) by (intro decode_encode) auto
  then show ?case using Cons d by (simp add: os_read_file_def next_fault_works [OF assms(2)])
qed simp

lemma holds_archive_read:
  assumes "codec_ok J P" and "dk_faults k = []" and "dir \<noteq> []" and "segs \<noteq> []"
    and h: "holds_archive J dir k segs" and "\<forall>r \<in> set (concat segs). P r"
    and s: "sorted_wrt (<) (map seg_name segs)"
  shows "read_archive J dir k = ((Inr (concat segs), map seg_name segs), k)"
proof -
  obtain es where "os_read_dir dir k = (Inr es, k)" "segment_files es = map seg_name segs"
    using archive_listing [OF h] assms by blast
  moreover have "read_segments J dir (map seg_name segs) k = (Inr (concat segs), k)"
    using assms by (intro read_segments_all) (auto simp: holds_archive_def)
  ultimately show ?thesis by (simp add: read_archive_def Let_def)
qed

section \<open>The command's result\<close>

text \<open>
  What an archive has to satisfy beside its chain: to end where the boundary in the checkpoint ends, or,
  without a boundary, to be no shorter than the checkpoint and equal to it at the same length.
\<close>

definition archive_matches :: "checkpoint option \<Rightarrow> audit_record list \<Rightarrow> bool" where
  "archive_matches c records \<longleftrightarrow>
     (let n = of_nat (length records); h = head_hash genesis_hash records in
      case c of
        None \<Rightarrow> True
      | Some cp \<Rightarrow>
          (case cp_archived cp of
             Some a \<Rightarrow> an_length a = n \<and> an_head a = h
           | None \<Rightarrow> cp_length cp < n \<or> (cp_length cp = n \<and> cp_head cp = h)))"

lemma verify_plain:
  "v_valid (verify H rs None) \<longleftrightarrow> chain_ok H 0 genesis_hash rs"
  "v_head (verify H rs None) = head_hash genesis_hash rs"
  by (simp_all add: verify_def verify_from_valid verify_from_frame anchor_length_def anchor_head_def
      checkpoint_ok_def)

lemma sound_no_problems: "v_valid (verify H rs None) \<Longrightarrow> v_problems (verify H rs None) = []"
proof -
  have c: "v_valid (check_record H n h r v) \<Longrightarrow> check_record H n h r v = v" for n h r v
    by (auto simp: check_record_def Let_def split: if_splits)
  have "v_valid (fst (verify_walk H n h rs v)) \<Longrightarrow> v_problems (fst (verify_walk H n h rs v)) = v_problems v"
    for n h v
  proof (induction rs arbitrary: n h v)
    case (Cons r rs)
    have "v_valid (check_record H n h r v)" using Cons.prems by (simp add: verify_walk_spec)
    from Cons c [OF this] show ?case by simp
  qed simp
  then show "v_valid (verify H rs None) \<Longrightarrow> v_problems (verify H rs None) = []"
    by (simp add: verify_def verify_from_def check_checkpoint_def Let_def case_prod_beta)
qed

lemma archive_verdict_valid:
  "v_valid (archive_verdict H rs c) \<longleftrightarrow> chain_ok H 0 genesis_hash rs \<and> archive_matches c rs"
proof -
  have "check_against_checkpoint rs (head_hash genesis_hash rs) cp = [] \<longleftrightarrow> archive_matches (Some cp) rs" for cp
    by (auto simp: check_against_checkpoint_def archive_matches_def Let_def split: option.splits)
  then show ?thesis
    by (auto simp: archive_verdict_def verify_plain sound_no_problems Let_def archive_matches_def
        split: option.splits)
qed

lemma run_audit_verify_reads:
  assumes "split_positional args = (dir, rest)"
    and "parse_flags \<lparr>ao_checkpoint = [], ao_json = False\<rparr> rest = Inr (p, [])" and "dir \<noteq> []"
    and "read_archive J dir k = ((Inr records, segments), k1)" and "segments \<noteq> []"
    and "read_checkpoint_file cj (ao_checkpoint p) k1 = (Inr c, k2)"
  shows "run_audit_verify H J cj args k =
    (audit_output p records segments c (archive_verdict H records c), k2)"
  using assms by (simp add: run_audit_verify_def)

text \<open>
  The exit code of \<open>cupel audit verify\<close>. When the archive and the checkpoint can be read and
  the archive holds a record, the command exits 0 exactly when the records form a chain from its start
  and end where the checkpoint says, 3 otherwise, and never with the code of an error.
\<close>

theorem audit_verify_exit_code:
  assumes "split_positional args = (dir, rest)"
    and "parse_flags \<lparr>ao_checkpoint = [], ao_json = False\<rparr> rest = Inr (p, [])" and "dir \<noteq> []"
    and "read_archive J dir k = ((Inr records, segments), k1)" and "segments \<noteq> []"
    and "read_checkpoint_file cj (ao_checkpoint p) k1 = (Inr c, k2)"
    and "records \<noteq> [] \<or> ao_json p"
  shows "\<exists>report. run_audit_verify H J cj args k =
    (Exits (if chain_ok H 0 genesis_hash records \<and> archive_matches c records then 0 else 3) report, k2)"
  using run_audit_verify_reads [OF assms(1-6)] assms(7)
  by (auto simp: audit_output_def archive_verdict_valid Let_def exit_approved_def exit_quarantined_def)

text \<open>
  Claim C32. A written archive reads back. A directory that holds the segments of a valid chain, each under
  the name the archiver gives it and in whatever order the disk lists them, beside any files that are
  no segments, is read as exactly that chain in its order, as long as it has fewer than \<open>10^12\<close> records,
  the width of the numbers in the names.
\<close>

theorem archive_reads_back:
  assumes "codec_ok J P" and "dk_faults k = []" and "dir \<noteq> []" and "segs \<noteq> []"
    and "holds_archive J dir k segs" and "\<forall>r \<in> set (concat segs). P r"
    and "v_valid (verify H (concat segs) None)" and "length (concat segs) < 10 ^ 12"
  shows "read_archive J dir k = ((Inr (concat segs), map seg_name segs), k)"
proof (rule holds_archive_read [OF assms(1-6)])
  have "\<forall>seg \<in> set segs. seg \<noteq> []" using assms(5) by (simp add: holds_archive_def)
  then show "sorted_wrt (<) (map seg_name segs)"
    using chain_segments_sorted [of H 0 genesis_hash segs] assms(7,8) by (simp add: verify_plain)
qed

text \<open>
  Claim C33. What an accepted archive is. When the command exits 0 against a checkpoint with a boundary
  that was published for the first \<open>m\<close> records of a log, the archive holds \<open>m\<close> records and they record
  the same events as those: nothing was removed, altered, added or reordered (as far as the digests of
  the records involved do not collide).
\<close>

theorem accepted_archive_is_the_front:
  assumes "split_positional args = (dir, rest)"
    and "parse_flags \<lparr>ao_checkpoint = [], ao_json = False\<rparr> rest = Inr (p, [])" and "dir \<noteq> []"
    and "read_archive J dir k = ((Inr records, segments), k1)" and "segments \<noteq> []"
    and "read_checkpoint_file cj (ao_checkpoint p) k1 = (Inr (Some cp), k2)"
    and run: "run_audit_verify H J cj args k = (Exits 0 report, k2)"
    and log: "v_valid (verify H log None)" "m \<le> length log" "\<forall>r \<in> set log. record_wf r"
    and cp: "cp_archived cp = Some \<lparr>an_length = of_nat m,
      an_head = head_hash genesis_hash (take m log), an_location = loc\<rparr>"
    and sizes: "length log < 2 ^ 64" "length records < 2 ^ 64"
    and H: "inj_on H (canonical ` (set log \<union> set records))"
  shows "length records = m \<and> list_all2 same_event (take m log) records"
proof -
  have "v_valid (archive_verdict H records (Some cp))"
    using run run_audit_verify_reads [OF assms(1-6), of H]
    by (auto simp: audit_output_def Let_def exit_approved_def exit_quarantined_def split: if_splits)
  then have ok: "chain_ok H 0 genesis_hash records" "of_nat m = (of_nat (length records) :: uint64)"
    "head_hash genesis_hash (take m log) = head_hash genesis_hash records"
    by (auto simp: archive_verdict_valid archive_matches_def cp Let_def)
  have len: "m = length records" using of_nat_length_eq [OF ok(2)] log(2) sizes by simp
  have "chain_ok H 0 genesis_hash (take m log @ drop m log)" using log(1) by (simp add: verify_plain)
  then have "chain_ok H 0 genesis_hash (take m log)" by (simp only: chain_ok_append)
  then have "list_all2 same_event (take m log) records \<and> map ar_hash (take m log) = map ar_hash records"
  proof (rule chain_unique [OF _ ok(1) _ ok(3)])
    show "length (take m log) = length records" using len log(2) by simp
    show "\<forall>r \<in> set (take m log). record_wf r" using log(3) by (auto dest: in_set_takeD)
    show "inj_on H (canonical ` (set (take m log) \<union> set records))"
      by (rule inj_on_subset [OF H]) (auto dest: in_set_takeD)
  qed
  with len show ?thesis by simp
qed


text \<open>A list of flags that are complete: the last one does not wait for a value.\<close>

fun flags_only :: "string list \<Rightarrow> bool" where
  "flags_only [] \<longleftrightarrow> True"
| "flags_only [a] \<longleftrightarrow> is_flag a \<and> \<not> takes_value a"
| "flags_only (a # b # args) \<longleftrightarrow> is_flag a \<and>
     (if CHR ''='' \<notin> set a \<and> takes_value a then flags_only args else flags_only (b # args))"

lemma split_from_flags:
  "flags_only ys \<Longrightarrow> split_from p rest (ys @ args) = split_from p (rest @ ys) args"
proof (induction ys arbitrary: rest rule: flags_only.induct)
  case (2 a)
  then show ?case by (cases args) auto
next
  case (3 a b ys)
  then show ?case by (cases "CHR ''='' \<notin> set a \<and> takes_value a") auto
qed simp

text \<open>
  The order of the arguments does not matter. Wherever the directory stands among complete
  flags, the command behaves as if it came first: a checkpoint given after it is not ignored.
\<close>

theorem audit_flags_any_order:
  assumes "flags_only ys" and "flags_only zs" and "dir \<noteq> []" and "\<not> is_flag dir"
  shows "run_audit_verify H J cj (ys @ dir # zs) k = run_audit_verify H J cj (dir # ys @ zs) k"
proof -
  have z: "split_from dir rest zs = (dir, rest @ zs)" for rest
    using split_from_flags [OF assms(2), of dir rest "[]"] by simp
  have d: "split_from [] rest (dir # as) = split_from dir rest as" for rest as
    using assms(3,4) by (cases as) auto
  have "split_positional (ys @ dir # zs) = (dir, ys @ zs)"
    using split_from_flags [OF assms(1), of "[]" "[]" "dir # zs"] by (simp add: split_positional_def d z)
  moreover have "split_positional (dir # ys @ zs) = (dir, ys @ zs)"
    using split_from_flags [OF assms(1), of dir "[]" zs] by (simp add: split_positional_def d z)
  ultimately show ?thesis by (simp add: run_audit_verify_def)
qed

text \<open>
  An archive without a record. When the directory holds segment files and none of them holds
  a record, the command without \<open>--json\<close> panics on the first record it prints, and with it reports
  success.
\<close>

theorem empty_archive_panics:
  assumes "split_positional args = (dir, rest)"
    and "parse_flags \<lparr>ao_checkpoint = [], ao_json = False\<rparr> rest = Inr (p, [])" and "dir \<noteq> []"
    and "read_archive J dir k = ((Inr [], segments), k1)" and "segments \<noteq> []"
    and "ao_checkpoint p = []"
  shows "fst (run_audit_verify H J cj args k) =
    (if ao_json p then Exits 0 (Json_Report segments (verify H [] None)) else Panics)"
proof -
  have "read_checkpoint_file cj (ao_checkpoint p) k1 = (Inr None, k1)"
    by (simp add: read_checkpoint_file_def assms(6))
  then show ?thesis
    using run_audit_verify_reads [OF assms(1-5)]
    by (simp add: audit_output_def archive_verdict_def verify_plain exit_approved_def Let_def)
qed

section \<open>On a concrete archive\<close>

text \<open>Two records in a directory, listed backwards beside a write that was never finished.\<close>

definition demo_codec :: record_codec where
  "demo_codec = unary_codec sample_log"

definition demo_files :: "audit_record list list \<Rightarrow> disk" where
  "demo_files segs =
     \<lparr>dk_files = (''a/audit.jsonl.partial'', ''x'') #
        map (\<lambda>seg. (''a/'' @ seg_name seg, projr (encode_segment demo_codec seg))) (rev segs) @ [(''cp'', ''c'')],
      dk_faults = []\<rparr>"

definition demo_boundary :: checkpoint where
  "demo_boundary = \<lparr>cp_length = 5, cp_head = ''later'', cp_time = 0,
     cp_archived = Some \<lparr>an_length = of_nat 2, an_head = head_hash genesis_hash (take 2 sample_log),
       an_location = ''a''\<rparr>\<rparr>"

definition demo_reader :: "string \<Rightarrow> string + checkpoint" where
  "demo_reader d = (if d = ''c'' then Inr demo_boundary else Inl ''not a checkpoint'')"

abbreviation "first_record \<equiv> hd sample_log"
abbreviation "second_record \<equiv> last sample_log"

lemma sample_log_split: "sample_log = [first_record] @ [second_record]"
  by (simp add: sample_log_def Let_def)

lemma sample_log_seqs: "ar_seq first_record = 1" "ar_seq second_record = 2"
  by (simp_all add: sample_log_def Let_def)

lemma sample_log_valid: "v_valid (verify escape sample_log None)"
  by (simp add: verify_plain sample_log_def Let_def)

lemma demo_codec_ok: "codec_ok demo_codec (\<lambda>r. r \<in> set sample_log)"
  unfolding demo_codec_def by (rule unary_codec_ok) (simp add: sample_log_def Let_def)

lemma demo_encodes: "\<exists>d. encode_segment demo_codec seg = Inr d"
  by (induction seg) (auto simp: demo_codec_def unary_codec_def)

lemma demo_holds:
  assumes "\<forall>seg \<in> set segs. seg \<noteq> []" and "distinct (map seg_name segs)"
  shows "holds_archive demo_codec ''a'' (demo_files segs) segs"
proof -
  have m: "map_of (map (\<lambda>s. (f s, g s)) xs @ ys) (f x) = Some (g x)"
    if "x \<in> set xs" "distinct (map f xs)" for f :: "audit_record list \<Rightarrow> string" and g xs ys x
    using that by (induction xs) (auto simp: image_iff)
  have p: "''a/'' @ seg_name seg \<noteq> ''a/audit.jsonl.partial''" for seg
  proof
    assume "''a/'' @ seg_name seg = ''a/audit.jsonl.partial''"
    then have "suffix ''.jsonl'' ''audit.jsonl.partial''" using seg_name_jsonl [of seg] by simp
    moreover have "\<not> suffix ''.jsonl'' ''audit.jsonl.partial''" by code_simp
    ultimately show False by simp
  qed
  have c: "dir_content ''a'' (demo_files segs) (seg_name seg) = Some (projr (encode_segment demo_codec seg))"
    if "seg \<in> set segs" for seg
    using m [of seg "rev segs" "\<lambda>s. ''a/'' @ seg_name s"] that assms(2) p [of seg]
    by (simp add: dir_content_def demo_files_def join_path_def distinct_map inj_on_def)
  moreover have "n \<in> seg_name ` set segs"
    if e: "entry_in ''a'' q = Some (n, False)" "suffix ''.jsonl'' n" "q \<in> fst ` set (dk_files (demo_files segs))"
    for q n
  proof -
    have q: "q = ''a/'' @ n" using e(1) by (simp add: entry_in_file join_path_def)
    have "\<not> suffix ''.jsonl'' ''audit.jsonl.partial''" by code_simp
    then have "n \<noteq> ''audit.jsonl.partial''" using e(2) by auto
    then show ?thesis using e(3) by (auto simp: q demo_files_def)
  qed
  moreover have "\<exists>d. encode_segment demo_codec seg = Inr d \<and>
      dir_content ''a'' (demo_files segs) (seg_name seg) = Some d" if "seg \<in> set segs" for seg
    using demo_encodes [of seg] c [OF that] by auto
  ultimately show ?thesis using assms(1) unfolding holds_archive_def by blast
qed

lemma demo_faults [simp]: "dk_faults (demo_files segs) = []"
  by (simp add: demo_files_def)

lemma demo_reads_whole:
  "read_archive demo_codec ''a'' (demo_files [sample_log]) =
     ((Inr sample_log, [seg_name sample_log]), demo_files [sample_log])"
proof -
  have "sample_log \<noteq> []" by (simp add: sample_log_def Let_def)
  then have "holds_archive demo_codec ''a'' (demo_files [sample_log]) [sample_log]" by (intro demo_holds) simp_all
  then show ?thesis
    using holds_archive_read [OF demo_codec_ok, of "demo_files [sample_log]" "''a''" "[sample_log]"] by simp
qed

lemma demo_checkpoint: "read_checkpoint_file demo_reader ''cp'' (demo_files segs) = (Inr (Some demo_boundary), demo_files segs)"
proof -
  have "map_of (ps @ [(''cp'', ''c'')]) ''cp'' = Some ''c''"
    if "\<forall>p \<in> set ps. fst p \<noteq> ''cp''" for ps :: "(string \<times> string) list"
    using that by (induction ps) auto
  then have "map_of (dk_files (demo_files segs)) ''cp'' = Some ''c''"
    by (simp add: demo_files_def image_iff del: map_append)
  then show ?thesis
    by (simp add: read_checkpoint_file_def os_read_file_def next_fault_works demo_reader_def)
qed

lemma demo_args:
  "split_positional [''--checkpoint'', ''cp'', ''a''] = (''a'', [''--checkpoint'', ''cp''])"
  "parse_flags \<lparr>ao_checkpoint = [], ao_json = False\<rparr> [''--checkpoint'', ''cp''] =
     Inr (\<lparr>ao_checkpoint = ''cp'', ao_json = False\<rparr>, [])"
  by code_simp+

lemma demo_matches: "chain_ok escape 0 genesis_hash sample_log" "archive_matches (Some demo_boundary) sample_log"
  by (simp_all add: archive_matches_def demo_boundary_def sample_log_def Let_def head_hash_def)

theorem audit_verify_exit_code_witness:
  "\<exists>report. run_audit_verify escape demo_codec demo_reader [''--checkpoint'', ''cp'', ''a'']
    (demo_files [sample_log]) = (Exits 0 report, demo_files [sample_log])"
  using audit_verify_exit_code [OF demo_args _ demo_reads_whole, of demo_reader "Some demo_boundary" _ escape]
    demo_checkpoint demo_matches by (simp add: sample_log_def Let_def)

theorem archive_reads_back_witness:
  "read_archive demo_codec ''a'' (demo_files [[first_record], [second_record]]) =
    ((Inr sample_log, map seg_name [[first_record], [second_record]]), demo_files [[first_record], [second_record]])"
proof -
  have c: "concat [[first_record], [second_record]] = sample_log" by (simp add: sample_log_def Let_def)
  have "distinct (map seg_name [[first_record], [second_record]])"
    using segment_name_order [of 1 2 1 2] by (simp add: seg_name_def sample_log_seqs)
  then have "holds_archive demo_codec ''a'' (demo_files [[first_record], [second_record]]) [[first_record], [second_record]]"
    by (intro demo_holds) simp_all
  then show ?thesis
    using archive_reads_back [OF demo_codec_ok, of "demo_files [[first_record], [second_record]]" "''a''"
        "[[first_record], [second_record]]" escape]
    unfolding c using sample_log_valid by simp (simp add: sample_log_def Let_def)
qed

theorem accepted_archive_is_the_front_witness:
  "\<exists>report. run_audit_verify escape demo_codec demo_reader [''--checkpoint'', ''cp'', ''a'']
      (demo_files [sample_log]) = (Exits 0 report, demo_files [sample_log]) \<and>
    length sample_log = 2 \<and> list_all2 same_event (take 2 sample_log) sample_log"
proof -
  have r: "run_audit_verify escape demo_codec demo_reader [''--checkpoint'', ''cp'', ''a'']
      (demo_files [sample_log]) = (audit_output \<lparr>ao_checkpoint = ''cp'', ao_json = False\<rparr> sample_log
        [seg_name sample_log] (Some demo_boundary) (archive_verdict escape sample_log (Some demo_boundary)),
      demo_files [sample_log])"
    using run_audit_verify_reads [OF demo_args _ demo_reads_whole, of demo_reader "Some demo_boundary"]
      demo_checkpoint by simp
  have ne: "sample_log \<noteq> []" by (simp add: sample_log_def Let_def)
  obtain report where e: "run_audit_verify escape demo_codec demo_reader [''--checkpoint'', ''cp'', ''a'']
      (demo_files [sample_log]) = (Exits 0 report, demo_files [sample_log])"
    using r ne demo_matches by (simp add: audit_output_def archive_verdict_valid Let_def exit_approved_def)
  have "length sample_log = 2 \<and> list_all2 same_event (take 2 sample_log) sample_log"
  proof (rule accepted_archive_is_the_front [OF demo_args _ demo_reads_whole _ _ e sample_log_valid])
    show "read_checkpoint_file demo_reader (ao_checkpoint \<lparr>ao_checkpoint = ''cp'', ao_json = False\<rparr>)
        (demo_files [sample_log]) = (Inr (Some demo_boundary), demo_files [sample_log])"
      by (simp add: demo_checkpoint)
    show "cp_archived demo_boundary = Some \<lparr>an_length = of_nat 2,
        an_head = head_hash genesis_hash (take 2 sample_log), an_location = ''a''\<rparr>"
      by (simp add: demo_boundary_def)
    show "\<forall>r \<in> set sample_log. record_wf r" by (rule sample_log_wf)
    show "inj_on escape (canonical ` (set sample_log \<union> set sample_log))" by (rule inj_onI) simp
  qed (simp_all add: sample_log_def Let_def)
  with e show ?thesis by blast
qed


theorem audit_flags_any_order_witness:
  "run_audit_verify escape demo_codec demo_reader ([''--json''] @ ''a'' # [''--checkpoint'', ''cp'']) (demo_files []) =
    run_audit_verify escape demo_codec demo_reader (''a'' # [''--json''] @ [''--checkpoint'', ''cp'']) (demo_files [])"
proof (rule audit_flags_any_order)
  show "flags_only [''--json'']" "flags_only [''--checkpoint'', ''cp'']" "\<not> is_flag ''a''" by code_simp+
qed simp

theorem empty_archive_panics_witness:
  "fst (run_audit_verify escape demo_codec demo_reader [''a'']
    \<lparr>dk_files = [(''a/x.jsonl'', [])], dk_faults = []\<rparr>) = Panics"
proof -
  have "split_positional [''a''] = (''a'', [])" by code_simp
  moreover have "read_archive demo_codec ''a'' \<lparr>dk_files = [(''a/x.jsonl'', [])], dk_faults = []\<rparr> =
      ((Inr [], [''x.jsonl'']), \<lparr>dk_files = [(''a/x.jsonl'', [])], dk_faults = []\<rparr>)"
    by code_simp
  ultimately show ?thesis
    using empty_archive_panics [of "[''a'']" "''a''" "[]" "\<lparr>ao_checkpoint = [], ao_json = False\<rparr>"
        demo_codec _ "[''x.jsonl'']" _ escape demo_reader] by simp
qed

end
