(* ===== verification/Evidence_Run.thy ===== *)
theory Evidence_Run
  imports Evidence Audit_Store Frameworks
begin

text \<open>
  Building an evidence bundle from the cluster and checking one offline (\<open>cmd/runner/main.go\<close>,
  \<open>runBuildEvidence\<close> and \<open>runVerifyEvidence\<close>): what the bundle of \<open>Evidence\<close> is built from, and the exit code of
  the check.  Writing the bundle and decoding one are parameters, as is the encoder its digest is taken over.
\<close>

section \<open>What a bundle is built from\<close>

definition evidence_subject :: "artifact_scan \<Rightarrow> bundle_subject" where
  "evidence_subject scan =
     \<lparr>bs_model = ss_model (as_spec scan), bs_version = ss_version (as_spec scan),
      bs_uri = ar_uri (ss_artifact (as_spec scan)), bs_digest = st_digest (as_status scan),
      bs_namespace = om_namespace (as_meta scan)\<rparr>"

definition evidence_verdict :: "artifact_scan \<Rightarrow> bundle_verdict" where
  "evidence_verdict scan =
     \<lparr>bv_decision = st_verdict (as_status scan),
      bv_risk = (case st_risk (as_status scan) of None \<Rightarrow> 0 | Some r \<Rightarrow> r),
      bv_policy = ss_policy_ref (as_spec scan),
      bv_scanned_at = (case st_completed (as_status scan) of None \<Rightarrow> zero_time | Some t \<Rightarrow> t),
      bv_trigger = ss_trigger (as_spec scan), bv_triggered_by = ss_triggered_by (as_spec scan)\<rparr>"

definition evidence_scanner :: "scanner_result \<Rightarrow> scanner_run" where
  "evidence_scanner r =
     \<lparr>rn_name = sr_scanner r, rn_category = [],
      rn_completed = (sr_status r = ''Passed'' \<or> sr_status r = ''Failed''),
      rn_findings = sint (sr_findings r), rn_message = sr_message r\<rparr>"

definition evidence_findings :: "artifact_scan \<Rightarrow> artifact_scan_report list \<Rightarrow> finding list" where
  "evidence_findings scan reports =
     concat (map sp_findings (filter (\<lambda>r. sp_scan_ref r = om_name (as_meta scan)) reports))"

definition evidence_acceptance :: "exception_spec \<Rightarrow> acceptance" where
  "evidence_acceptance ex =
     \<lparr>ac_findings = ex_findings ex, ac_rules = ex_rules ex, ac_reason = ex_reason ex,
      ac_approved_by = ex_approved_by ex,
      ac_approved_at = (case ex_approved_at ex of None \<Rightarrow> zero_time | Some t \<Rightarrow> t),
      ac_expires = ex_expires ex, ac_signed = (ex_approved_by ex \<noteq> [] \<and> ex_approved_at ex \<noteq> None),
      ac_digest = ex_digest ex\<rparr>"

definition evidence_acceptances :: "artifact_scan \<Rightarrow> artifact_exception list \<Rightarrow> acceptance list" where
  "evidence_acceptances scan exs =
     map (evidence_acceptance \<circ> ae_spec)
       (filter (\<lambda>ex. \<not> (ex_model (ae_spec ex) \<noteq> ss_model (as_spec scan) \<or>
                        ex_version (ae_spec ex) \<noteq> ss_version (as_spec scan))) exs)"

definition evidence_input ::
    "go_time \<Rightarrow> string \<Rightarrow> artifact_scan \<Rightarrow> artifact_scan_report list \<Rightarrow> artifact_exception list \<Rightarrow>
     'e + audit_record list \<times> checkpoint option \<Rightarrow> bundle_input" where
  "evidence_input now producer scan reports exs log =
     (let (records, cp) = (case log of Inl e \<Rightarrow> ([], None) | Inr x \<Rightarrow> x) in
      \<lparr>bi_now = now, bi_producer = producer, bi_subject = evidence_subject scan,
       bi_verdict = evidence_verdict scan, bi_findings = evidence_findings scan reports,
       bi_scanners = map evidence_scanner (st_results (as_status scan)),
       bi_acceptances = evidence_acceptances scan exs, bi_gaps = [],
       bi_frameworks = [nist_ai_rmf_10, nist_80053_r5], bi_attestations = 0,
       bi_chain = records, bi_checkpoint = cp, bi_anchor = checkpoint_anchor cp\<rparr>)"

section \<open>Building\<close>

record 's evidence_env =
  ee_scans :: "('s, artifact_scan) kclient"
  ee_reports :: "('s, artifact_scan_report) kclient"
  ee_exceptions :: "('s, artifact_exception) kclient"
  ee_recorder :: "string \<Rightarrow> 's recorder"
  ee_digest :: digest_fn
  ee_encode :: bundle_encoder
  ee_now :: "'s \<Rightarrow> go_time \<times> 's"
  ee_write :: "string \<Rightarrow> evidence_bundle \<Rightarrow> 's \<Rightarrow> string option \<times> 's"

datatype evidence_error =
    Missing_Flags | Read_Scan kerr | List_Reports kerr | List_Exceptions kerr | Build_Bundle string
  | Write_Bundle string

definition run_build_evidence ::
    "'s evidence_env \<Rightarrow> string \<Rightarrow> string \<Rightarrow> string \<Rightarrow> string \<Rightarrow> 's
       \<Rightarrow> (evidence_error + evidence_bundle) \<times> 's" where
  "run_build_evidence E scan_name ns out producer s =
     (if scan_name = [] \<or> ns = [] then (Inl Missing_Flags, s)
      else
        (case k_get (ee_scans E) (ns, scan_name) s of
           (Inl e, s1) \<Rightarrow> (Inl (Read_Scan e), s1)
         | (Inr (scan, rv), s1) \<Rightarrow>
             (case ee_now E s1 of (now, s2) \<Rightarrow>
               (case list_plain (ee_reports E) ns s2 of
                  (Inl e, s3) \<Rightarrow> (Inl (List_Reports e), s3)
                | (Inr reports, s3) \<Rightarrow>
                    (case list_plain (ee_exceptions E) ns s3 of
                       (Inl e, s4) \<Rightarrow> (Inl (List_Exceptions e), s4)
                     | (Inr exs, s4) \<Rightarrow>
                         (case chain (ee_recorder E ns) s4 of (log, s5) \<Rightarrow>
                            let i = evidence_input now producer scan (map snd reports) (map snd exs) log in
                            (case build_bundle (ee_digest E) (ee_encode E) now i of
                               Inl e \<Rightarrow> (Inl (Build_Bundle e), s5)
                             | Inr b \<Rightarrow>
                                 (case ee_write E out b s5 of
                                    (Some e, s6) \<Rightarrow> (Inl (Write_Bundle e), s6)
                                  | (None, s6) \<Rightarrow> (Inr b, s6)))))))))"

section \<open>Checking\<close>

text \<open>What is printed of a bundle, and the exit code: 0 intact, 4 not, 1 that it could not be checked.\<close>

record evidence_summary =
  es_subject :: bundle_subject
  es_verdict :: bundle_verdict
  es_generated :: go_time
  es_producer :: string
  es_digest :: string
  es_audit :: string
  es_records :: nat
  es_completed :: nat
  es_requested :: nat
  es_problems :: "string list"
  es_out_of_scope :: "string list"

definition status_word :: "bool \<Rightarrow> string \<Rightarrow> string \<Rightarrow> string" where
  "status_word ok yes no = (if ok then yes else no)"

definition summarize_bundle :: "evidence_bundle \<Rightarrow> bundle_verification \<Rightarrow> evidence_summary" where
  "summarize_bundle b w =
     \<lparr>es_subject = bu_subject b, es_verdict = bu_verdict b, es_generated = bu_generated b, es_producer = bu_producer b,
      es_digest = status_word (bw_digest w) ''unmodified'' ''MODIFIED'',
      es_audit = (if au_records (bu_audit b) = [] then ''none recorded''
                  else status_word (bw_chain w) ''intact'' ''BROKEN''),
      es_records = length (au_records (bu_audit b)), es_completed = bc_completed (bu_coverage b),
      es_requested = bc_requested (bu_coverage b), es_problems = bw_problems w,
      es_out_of_scope = bc_out_of_scope (bu_coverage b)\<rparr>"

datatype evidence_check =
    Unchecked string
  | Checked_Json bundle_verification
  | Checked evidence_summary

definition run_verify_evidence ::
    "digest_fn \<Rightarrow> bundle_encoder \<Rightarrow> (string \<Rightarrow> string + string) \<Rightarrow> (string \<Rightarrow> string + evidence_bundle) \<Rightarrow>
     bool \<Rightarrow> string list \<Rightarrow> nat \<times> evidence_check" where
  "run_verify_evidence H enc read decode as_json args =
     (case args of
        [] \<Rightarrow> (1, Unchecked ''an evidence bundle file is required'')
      | path # _ \<Rightarrow>
          (case read path of
             Inl e \<Rightarrow> (1, Unchecked e)
           | Inr raw \<Rightarrow>
               (case decode raw of
                  Inl e \<Rightarrow> (1, Unchecked (''parse evidence bundle: '' @ e))
                | Inr b \<Rightarrow>
                    (case verify_bundle H enc b of
                       Inl e \<Rightarrow> (1, Unchecked e)
                     | Inr w \<Rightarrow>
                         (if bw_valid w then 0 else 4,
                          if as_json then Checked_Json w else Checked (summarize_bundle b w))))))"

section \<open>Properties\<close>

lemma evidence_input_simps:
  "bi_verdict (evidence_input now p scan reports exs log) = evidence_verdict scan"
  "bi_subject (evidence_input now p scan reports exs log) = evidence_subject scan"
  "bi_findings (evidence_input now p scan reports exs log) = evidence_findings scan reports"
  "bi_acceptances (evidence_input now p scan reports exs log) = evidence_acceptances scan exs"
  "bi_scanners (evidence_input now p scan reports exs log) = map evidence_scanner (st_results (as_status scan))"
  "bi_attestations (evidence_input now p scan reports exs log) = 0"
  "bi_gaps (evidence_input now p scan reports exs log) = []"
  by (simp_all add: evidence_input_def case_prod_beta)

lemma evidence_input_chain:
  "bi_chain (evidence_input now p scan reports exs (Inr (rs, cp))) = rs"
  "bi_checkpoint (evidence_input now p scan reports exs (Inr (rs, cp))) = cp"
  "bi_anchor (evidence_input now p scan reports exs (Inr (rs, cp))) = checkpoint_anchor cp"
  "bi_chain (evidence_input now p scan reports exs (Inl e)) = []"
  "bi_checkpoint (evidence_input now p scan reports exs (Inl e)) = None"
  "bi_anchor (evidence_input now p scan reports exs (Inl e)) = None"
  by (simp_all add: evidence_input_def checkpoint_anchor_def)

lemma run_build_evidence_cases:
  assumes "run_build_evidence E scan_name ns out producer s = (Inr b, s')"
  obtains scan rv s1 now s2 reports s3 exs s4 log s5 where
    "k_get (ee_scans E) (ns, scan_name) s = (Inr (scan, rv), s1)" "ee_now E s1 = (now, s2)"
    "list_plain (ee_reports E) ns s2 = (Inr reports, s3)" "list_plain (ee_exceptions E) ns s3 = (Inr exs, s4)"
    "chain (ee_recorder E ns) s4 = (log, s5)"
    "build_bundle (ee_digest E) (ee_encode E) now
       (evidence_input now producer scan (map snd reports) (map snd exs) log) = Inr b"
proof -
  obtain scan rv s1 where g: "k_get (ee_scans E) (ns, scan_name) s = (Inr (scan, rv), s1)"
    using assms by (auto simp: run_build_evidence_def split: if_splits prod.splits sum.splits)
  obtain now s2 where n: "ee_now E s1 = (now, s2)" by force
  obtain reports s3 where r: "list_plain (ee_reports E) ns s2 = (Inr reports, s3)"
    using assms g n by (auto simp: run_build_evidence_def split: if_splits prod.splits sum.splits)
  obtain exs s4 where x: "list_plain (ee_exceptions E) ns s3 = (Inr exs, s4)"
    using assms g n r by (auto simp: run_build_evidence_def split: if_splits prod.splits sum.splits)
  obtain log s5 where l: "chain (ee_recorder E ns) s4 = (log, s5)" by force
  have "build_bundle (ee_digest E) (ee_encode E) now
       (evidence_input now producer scan (map snd reports) (map snd exs) log) = Inr b"
    using assms g n r x l
    by (auto simp: run_build_evidence_def Let_def split: if_splits prod.splits sum.splits option.splits)
  then show thesis using that g n r x l by blast
qed

lemma list_plain_objects:
  assumes "kclient_ok vw fr env c" and "list_plain c ns s = (Inr xs, s')"
  shows "env s s'" and "set (map snd xs) = {x. \<exists>n v. vw s' (ns, n) = Some (x, v)}"
proof -
  note lc = list_cases [OF assms(1,2)]
  show "env s s'" by (rule lc(1))
  show "set (map snd xs) = {x. \<exists>n v. vw s' (ns, n) = Some (x, v)}"
  proof (intro set_eqI iffI)
    fix x assume "x \<in> set (map snd xs)"
    then obtain n where "map_of xs n = Some x" using lc(2) [OF refl] by auto
    then show "x \<in> {x. \<exists>n v. vw s' (ns, n) = Some (x, v)}" using lc(3) [OF refl, of n] by auto
  next
    fix x assume "x \<in> {x. \<exists>n v. vw s' (ns, n) = Some (x, v)}"
    then obtain n where "map_of xs n = Some x" using lc(3) [OF refl] by auto
    then show "x \<in> set (map snd xs)" by (force dest: map_of_SomeD)
  qed
qed

lemma built_bundle_content:
  assumes "build_bundle H enc clock i = Inr b"
  shows "bu_findings b = bi_findings i" "bu_acceptances b = bi_acceptances i" "bu_scanners b = bi_scanners i"
  using assms unfolding build_bundle_def draft_bundle_def Let_def by (auto split: sum.splits)


text \<open>When the check accepts the bundle built from a reading \<open>log\<close> of the audit log.\<close>

definition log_accepted :: "digest_fn \<Rightarrow> 'e + audit_record list \<times> checkpoint option \<Rightarrow> bool" where
  "log_accepted H log =
     (case log of
        Inl e \<Rightarrow> True
      | Inr (rs, cp) \<Rightarrow>
          (let a = checkpoint_anchor cp in
           chain_ok H (anchor_length a) (anchor_head a) rs \<and>
           checkpoint_ok cp (anchor_length a + of_nat (length rs)) (head_hash (anchor_head a) rs)))"

lemma fresh_exit_code:
  assumes b: "build_bundle H enc now (evidence_input now producer scan rs xs log) = Inr b"
    and "read path = Inr raw" and "decode raw = Inr b"
  shows "fst (run_verify_evidence H enc read decode json (path # more_args)) = (if log_accepted H log then 0 else 4)"
proof -
  let ?i = "evidence_input now producer scan rs xs log"
  note c = build_bundle_cases [OF b]
  have v: "v_valid (verify_from H (bi_chain ?i) (bi_anchor ?i) (bi_checkpoint ?i)) = log_accepted H log"
  proof (cases log)
    case (Inl e)
    then show ?thesis
      unfolding verify_from_valid log_accepted_def Inl evidence_input_chain
      by (simp add: checkpoint_ok_def)
  next
    case (Inr x)
    obtain qs cp where x: "x = (qs, cp)" by force
    show ?thesis
      unfolding verify_from_valid log_accepted_def Inr x evidence_input_chain by (simp add: Let_def)
  qed
  have "altered_records H (au_records (bu_audit b)) = []" if "log_accepted H log"
  proof -
    have "chain_ok H (anchor_length (bi_anchor ?i)) (anchor_head (bi_anchor ?i)) (bi_chain ?i)"
      using that unfolding v [symmetric] verify_from_valid by simp
    then show ?thesis unfolding altered_records_iff c(6) by (intro excerpt_intact chain_ok_intact)
  qed
  then obtain w where "verify_bundle H enc b = Inr w" "bw_valid w = log_accepted H log"
    by (auto simp: verify_bundle_def c(1) c(7) v Let_def)
  then show ?thesis using assms(2,3) by (simp add: run_verify_evidence_def)
qed

text \<open>
  The exit code of the offline check. A bundle that is read back as it was built is
  accepted, with exit code 0, exactly when the log it was built from verified against its boundary and its
  checkpoint, and refused with code 4 otherwise; it never counts as a bundle that could not be checked.
\<close>

theorem evidence_exit_code:
  assumes "run_build_evidence E scan_name ns out producer s = (Inr b, s')"
    and "read path = Inr raw" and "decode raw = Inr b"
  shows "\<exists>t. fst (run_verify_evidence (ee_digest E) (ee_encode E) read decode json [path]) =
    (if log_accepted (ee_digest E) (fst (chain (ee_recorder E ns) t)) then 0 else 4)"
proof -
  from assms(1) obtain scan rv s1 now s2 rs s3 xs s4 log s5 where
    "k_get (ee_scans E) (ns, scan_name) s = (Inr (scan, rv), s1)" "ee_now E s1 = (now, s2)"
    "list_plain (ee_reports E) ns s2 = (Inr rs, s3)" "list_plain (ee_exceptions E) ns s3 = (Inr xs, s4)"
    and l: "chain (ee_recorder E ns) s4 = (log, s5)"
    and b: "build_bundle (ee_digest E) (ee_encode E) now
       (evidence_input now producer scan (map snd rs) (map snd xs) log) = Inr b"
    by (rule run_build_evidence_cases)
  show ?thesis
    using fresh_exit_code [where read = read and decode = decode, OF b assms(2,3), of json "[]"] l by (intro exI [of _ s4]) simp
qed

text \<open>
  A log that cannot be read passes. When reading the log fails, for any reason, the error is dropped and
  the bundle is built over an empty log; the offline check then accepts it with exit code 0 like one whose log
  verified, and its text says that nothing was recorded.
\<close>

theorem unreadable_log_passes:
  assumes "run_build_evidence E scan_name ns out producer s = (Inr b, s')"
    and "\<forall>t. isl (fst (chain (ee_recorder E ns) t))"
    and "read path = Inr raw" and "decode raw = Inr b"
  shows "\<exists>summary. run_verify_evidence (ee_digest E) (ee_encode E) read decode False [path] = (0, Checked summary) \<and>
    es_audit summary = ''none recorded''"
proof -
  from assms(1) obtain scan rv s1 now s2 rs s3 xs s4 log s5 where
    "k_get (ee_scans E) (ns, scan_name) s = (Inr (scan, rv), s1)" "ee_now E s1 = (now, s2)"
    "list_plain (ee_reports E) ns s2 = (Inr rs, s3)" "list_plain (ee_exceptions E) ns s3 = (Inr xs, s4)"
    and l: "chain (ee_recorder E ns) s4 = (log, s5)"
    and b: "build_bundle (ee_digest E) (ee_encode E) now
       (evidence_input now producer scan (map snd rs) (map snd xs) log) = Inr b"
    by (rule run_build_evidence_cases)
  obtain e where e: "log = Inl e" using assms(2) l by (metis fst_conv isl_def)
  have "fst (run_verify_evidence (ee_digest E) (ee_encode E) read decode False [path]) = 0"
    using fresh_exit_code [where read = read and decode = decode, OF b assms(3,4), of False "[]"] by (simp add: e log_accepted_def)
  moreover have "au_records (bu_audit b) = []"
    unfolding build_bundle_cases(6) [OF b] e by (simp add: evidence_input_chain excerpt_for_def)
  ultimately show ?thesis using assms(3,4)
    by (auto simp: run_verify_evidence_def summarize_bundle_def split: sum.splits)
qed

section \<open>A cluster with one scan\<close>

record evidence_world =
  ew_scans :: "artifact_scan mem_store"
  ew_reports :: "artifact_scan_report mem_store"
  ew_exceptions :: "artifact_exception mem_store"

definition bundled_meta :: "string \<Rightarrow> object_meta" where
  "bundled_meta n = \<lparr>om_name = n, om_namespace = ''team'', om_uid = [], om_labels = [], om_annotations = [],
     om_owner = None, om_created = 0, om_deleted = None\<rparr>"

definition bundled_result :: "string \<Rightarrow> string \<Rightarrow> scanner_result" where
  "bundled_result n status =
     \<lparr>sr_scanner = n, sr_status = status, sr_findings = 1, sr_severities = no_counts, sr_drift = no_counts,
      sr_unexamined = no_counts, sr_produced = None, sr_message = [], sr_report_ref = [], sr_completed = None\<rparr>"

definition bundled_finding :: finding where
  "bundled_finding = \<lparr>f_id = ''f1'', f_title = [], f_severity = [], f_category = [], f_location = [], f_description = []\<rparr>"

definition bundled_world :: evidence_world where
  "bundled_world =
     \<lparr>ew_scans = [((''team'', ''s''),
        (\<lparr>as_meta = bundled_meta ''s'',
          as_spec = \<lparr>ss_model = ''fraud'', ss_version = ''1'', ss_registry_model = [], ss_registry_version = [],
            ss_connector = [], ss_artifact = \<lparr>ar_uri = [], ar_digest = [], ar_media_type = [], ar_format = [], ar_size = None\<rparr>,
            ss_policy_ref = [], ss_scanners = [], ss_trigger = [], ss_triggered_by = []\<rparr>,
          as_status = \<lparr>st_phase = ''Completed'', st_started = None, st_completed = None,
            st_results = [bundled_result ''clamav'' ''Failed''], st_risk = Some 90, st_verdict = verdict_quarantined,
            st_message = [], st_digest = []\<rparr>\<rparr>, 1))],
      ew_reports = [((''team'', ''r''),
        (\<lparr>sp_meta = bundled_meta ''r'', sp_scanner = ''clamav'', sp_scan_ref = ''s'',
          sp_summary = bundled_result ''clamav'' ''Failed'', sp_findings = [bundled_finding]\<rparr>, 1))],
      ew_exceptions = []\<rparr>"

definition failing :: "('s, 'o) kclient" where
  "failing =
     \<lparr>k_get = (\<lambda>k s. (Inl (ApiError ''forbidden''), s)), k_create = (\<lambda>k x s. (Some (ApiError []), s)),
      k_update = (\<lambda>k x s. (Some (ApiError []), s)), k_delete = (\<lambda>k s. (Some (ApiError []), s)),
      k_list = (\<lambda>n s. (Inl (ApiError ''forbidden''), s)), k_version = (\<lambda>k s. 0)\<rparr>"

definition demo_evidence :: "evidence_world evidence_env" where
  "demo_evidence =
     \<lparr>ee_scans = mem_client ew_scans (\<lambda>m. ew_scans_update (\<lambda>_. m)),
      ee_reports = mem_client ew_reports (\<lambda>m. ew_reports_update (\<lambda>_. m)),
      ee_exceptions = mem_client ew_exceptions (\<lambda>m. ew_exceptions_update (\<lambda>_. m)),
      ee_recorder = (\<lambda>ns. \<lparr>rec_records = failing, rec_checkpoints = failing,
        rec_runtime = \<lparr>rt_now = (\<lambda>s. (0, s)), rt_rand = (\<lambda>n s. (0, s)), rt_sleep = (\<lambda>d s. (None, s))\<rparr>,
        rec_digest = escape, rec_ns = ns\<rparr>),
      ee_digest = escape, ee_encode = (\<lambda>b. Inr (bv_decision (bu_verdict b))), ee_now = (\<lambda>s. (5, s)),
      ee_write = (\<lambda>p b s. (None, s))\<rparr>"

definition bundled :: evidence_bundle where
  "bundled = projr (fst (run_build_evidence demo_evidence ''s'' ''team'' ''out'' ''tessera'' bundled_world))"

lemma demo_evidence_simps:
  "ee_digest demo_evidence = escape" "ee_encode demo_evidence = (\<lambda>b. Inr (bv_decision (bu_verdict b)))"
  "ee_now demo_evidence = (\<lambda>s. (5, s))" "ee_write demo_evidence = (\<lambda>p b s. (None, s))"
  "ee_scans demo_evidence = mem_client ew_scans (\<lambda>m. ew_scans_update (\<lambda>_. m))"
  "ee_reports demo_evidence = mem_client ew_reports (\<lambda>m. ew_reports_update (\<lambda>_. m))"
  "ee_exceptions demo_evidence = mem_client ew_exceptions (\<lambda>m. ew_exceptions_update (\<lambda>_. m))"
  by (simp_all add: demo_evidence_def)

lemma demo_log: "chain (ee_recorder demo_evidence ns) t = (Inl (ListErr (ApiError ''forbidden'')), t)"
  by (simp add: demo_evidence_def chain_def load_def list_plain_def failing_def)

lemma demo_evidence_run:
  "run_build_evidence demo_evidence ''s'' ''team'' ''out'' ''tessera'' bundled_world = (Inr bundled, bundled_world)"
proof -
  have "\<exists>b. run_build_evidence demo_evidence ''s'' ''team'' ''out'' ''tessera'' bundled_world = (Inr b, bundled_world)"
    by (simp add: run_build_evidence_def demo_log demo_evidence_simps list_plain_def build_bundle_def bundle_hash_def
        Let_def mem_client_def mem_list_def bundled_world_def)
  then show ?thesis unfolding bundled_def by auto
qed

lemma demo_evidence_ok:
  "kclient_ok (\<lambda>w. map_of (ew_scans w)) (\<lambda>_ _. True) (=) (ee_scans demo_evidence)"
  "kclient_ok (\<lambda>w. map_of (ew_reports w)) (\<lambda>_ _. True) (=) (ee_reports demo_evidence)"
  "kclient_ok (\<lambda>w. map_of (ew_exceptions w)) (\<lambda>_ _. True) (=) (ee_exceptions demo_evidence)"
  unfolding demo_evidence_def evidence_env.simps by (rule mem_client_ok; simp)+


theorem evidence_exit_code_witness:
  "fst (run_verify_evidence escape (ee_encode demo_evidence) (\<lambda>p. Inr p) (\<lambda>raw. Inr bundled) True [''out'']) = 0"
  using evidence_exit_code [OF demo_evidence_run, of "\<lambda>p. Inr p" "''out''" "''out''" "\<lambda>raw. Inr bundled" True]
  by (simp add: demo_log demo_evidence_simps log_accepted_def)

theorem unreadable_log_passes_witness:
  "\<exists>summary. run_verify_evidence escape (ee_encode demo_evidence) (\<lambda>p. Inr p) (\<lambda>raw. Inr bundled) False [''out''] =
     (0, Checked summary) \<and> es_audit summary = ''none recorded''"
  using unreadable_log_passes [OF demo_evidence_run, of "\<lambda>p. Inr p" "''out''" "''out''" "\<lambda>raw. Inr bundled"]
  by (simp add: demo_log demo_evidence_simps)

end
