(* ===== verification/Runner.thy ===== *)
theory Runner
  imports Artifact_Scan
begin

text \<open>
  The last step of a scan pod (\<open>cmd/runner/main.go\<close>, \<open>runPublish\<close>): it reads what the scanner wrote
  (\<open>internal/results\<close>), records it as the report the scan controller collects, and keeps the bill of
  materials (\<open>internal/controller/bom.go\<close>).

  The files of the pod are read through two functions, a parameter; so are the parsers of scanner output,
  which are a library, and the JSON decoder of the metadata the fetch step left.
\<close>

section \<open>Files\<close>

datatype file_error = Not_Exist | Io_Error string

record pod_files =
  pf_read_dir :: "string \<Rightarrow> file_error + (string \<times> bool) list"
  pf_read_file :: "string \<Rightarrow> file_error + string"

definition io_text :: "file_error \<Rightarrow> string" where
  "io_text e = (case e of Not_Exist \<Rightarrow> ''no such file or directory'' | Io_Error m \<Rightarrow> m)"

text \<open>\<open>filepath.Join\<close> and \<open>filepath.Dir\<close> of clean paths.\<close>

definition path_join :: "string \<Rightarrow> string \<Rightarrow> string" where
  "path_join dir name = (if dir = [] then name else dir @ ''/'' @ name)"

definition path_dir :: "string \<Rightarrow> string" where
  "path_dir p =
     (case last_index_char p CHR ''/'' of
        None \<Rightarrow> ''.'' | Some i \<Rightarrow> if i = 0 then ''/'' else take i p)"

section \<open>What a scanner wrote\<close>

text \<open>
  The library's findings and counts, and what it makes of one output file.  \<open>to_absent\<close> says that there was no
  file: a clean scanner may write none, and so may one that crashed.
\<close>

record tool_counts =
  tc_critical :: int32
  tc_high :: int32
  tc_medium :: int32
  tc_low :: int32
  tc_unknown :: int32

record tool_finding =
  tf_id :: string
  tf_title :: string
  tf_severity :: string
  tf_category :: string
  tf_location :: string
  tf_description :: string

record tool_output =
  to_findings :: "tool_finding list"
  to_severities :: tool_counts
  to_drift :: tool_counts
  to_produced :: "bool option"
  to_absent :: bool

record parsed =
  pa_findings :: "finding list"
  pa_severities :: severity_counts
  pa_drift :: severity_counts
  pa_unexamined :: severity_counts
  pa_produced :: "bool option"
  pa_absent :: bool

definition from_counts :: "tool_counts \<Rightarrow> severity_counts" where
  "from_counts c =
     \<lparr>n_critical = tc_critical c, n_high = tc_high c, n_medium = tc_medium c, n_low = tc_low c,
      n_unknown = tc_unknown c\<rparr>"

definition from_finding :: "tool_finding \<Rightarrow> finding" where
  "from_finding f =
     \<lparr>f_id = tf_id f, f_title = tf_title f, f_severity = tf_severity f, f_category = tf_category f,
      f_location = tf_location f, f_description = tf_description f\<rparr>"

definition parse_results ::
    "(string \<Rightarrow> string \<Rightarrow> string + tool_output) \<Rightarrow> (tool_finding list \<Rightarrow> tool_counts) \<Rightarrow>
     string \<Rightarrow> string \<Rightarrow> string + parsed" where
  "parse_results ingest tally format path =
     (case ingest format path of
        Inl e \<Rightarrow> Inl e
      | Inr p \<Rightarrow>
          Inr \<lparr>pa_findings = map from_finding (to_findings p), pa_severities = from_counts (to_severities p),
               pa_drift = from_counts (to_drift p), pa_unexamined = from_counts (tally (to_findings p)),
               pa_produced = to_produced p, pa_absent = to_absent p\<rparr>)"

definition nothing_parsed :: parsed where
  "nothing_parsed =
     \<lparr>pa_findings = [], pa_severities = no_counts, pa_drift = no_counts, pa_unexamined = no_counts,
      pa_produced = None, pa_absent = False\<rparr>"

section \<open>The bill of materials\<close>

definition max_bom_bytes :: nat where "max_bom_bytes = 524288"

definition bom_documents :: "string list" where
  "bom_documents = [''.cdx.json'', ''.spdx.json'', ''.sarif.json'']"

definition bom_files :: "(string \<times> bool) list \<Rightarrow> string list" where
  "bom_files es =
     sort (map fst (filter (\<lambda>e. \<not> snd e \<and> list_ex (\<lambda>x. suffix x (fst e)) bom_documents) es))"

fun keep_documents :: "pod_files \<Rightarrow> string \<Rightarrow> nat \<Rightarrow> string list \<Rightarrow> str_map" where
  "keep_documents F dir used [] = []"
| "keep_documents F dir used (n # ns) =
     (case pf_read_file F (path_join dir n) of
        Inl e \<Rightarrow> keep_documents F dir used ns
      | Inr b \<Rightarrow>
          (if max_bom_bytes < used + length b then keep_documents F dir used ns
           else (n, b) # keep_documents F dir (used + length b) ns))"

definition collect_boms :: "pod_files \<Rightarrow> string \<Rightarrow> string + str_map" where
  "collect_boms F dir =
     (if dir = [] then Inr []
      else (case pf_read_dir F dir of
              Inl Not_Exist \<Rightarrow> Inr []
            | Inl (Io_Error e) \<Rightarrow> Inl e
            | Inr es \<Rightarrow> Inr (keep_documents F dir 0 (bom_files es))))"

text \<open>The config map a bill of materials is kept in, and the owner that would remove it.\<close>

record bom_map =
  bo_labels :: str_map
  bo_owner :: "string option"
  bo_data :: str_map

datatype bom_error = Collect string | Get_Existing kerr | Write_Bom kerr

definition publish_bom ::
    "hex_digest \<Rightarrow> ('s, bom_map) kclient \<Rightarrow> pod_files \<Rightarrow> string \<Rightarrow> string \<Rightarrow> string \<Rightarrow> 's
       \<Rightarrow> bom_error option \<times> 's" where
  "publish_bom D c F ns scan dir s =
     (case collect_boms F dir of
        Inl e \<Rightarrow> (Some (Collect e), s)
      | Inr docs \<Rightarrow>
          if docs = [] then (None, s)
          else
            (let labels = [(label_scan, scan), (''security.davano.io/artifact'', ''bom'')];
                 key = (ns, bom_config_name D scan) in
             case k_create c key \<lparr>bo_labels = labels, bo_owner = None, bo_data = docs\<rparr> s of
               (None, s1) \<Rightarrow> (None, s1)
             | (Some e, s1) \<Rightarrow>
                 if e \<noteq> AlreadyExists then (Some (Write_Bom e), s1)
                 else (case k_get c key s1 of
                         (Inl e', s2) \<Rightarrow> (Some (Get_Existing e'), s2)
                       | (Inr (existing, rv), s2) \<Rightarrow>
                           (case k_update c key (existing\<lparr>bo_data := docs, bo_labels := labels\<rparr>, rv) s2 of
                              (None, s3) \<Rightarrow> (None, s3)
                            | (Some e', s3) \<Rightarrow> (Some (Write_Bom e'), s3)))))"

section \<open>Publishing\<close>

record artifact_metadata =
  am_uri :: string
  am_digest :: string
  am_media_type :: string
  am_size :: int64

record publish_opts =
  pu_scan :: string
  pu_namespace :: string
  pu_scanner :: string
  pu_format :: string
  pu_results :: string
  pu_metadata :: string

text \<open>The flags it requires, in the order in which the map of them is iterated.\<close>

definition required_flags :: "publish_opts \<Rightarrow> (string \<times> string) list" where
  "required_flags q =
     [(''--scan'', pu_scan q), (''--namespace'', pu_namespace q), (''--scanner'', pu_scanner q),
      (''--format'', pu_format q), (''--results'', pu_results q)]"

record 's publish_env =
  pb_digest :: hex_digest
  pb_reports :: "('s, artifact_scan_report) kclient"
  pb_maps :: "('s, bom_map) kclient"
  pb_files :: pod_files
  pb_ingest :: "string \<Rightarrow> string \<Rightarrow> string + tool_output"
  pb_tally :: "tool_finding list \<Rightarrow> tool_counts"
  pb_metadata :: "string \<Rightarrow> string + artifact_metadata"
  pb_order :: "(string \<times> string) list \<Rightarrow> (string \<times> string) list"
  pb_now :: "'s \<Rightarrow> go_time \<times> 's"

datatype publish_error = Required string | Create_Report kerr | Get_Report kerr | Update_Report kerr

definition read_metadata :: "'s publish_env \<Rightarrow> string \<Rightarrow> string + artifact_metadata" where
  "read_metadata P path =
     (case pf_read_file (pb_files P) path of Inl e \<Rightarrow> Inl (io_text e) | Inr d \<Rightarrow> pb_metadata P d)"

text \<open>The status and the message of a report, and what is reported.\<close>

definition outcome_of :: "string + parsed \<Rightarrow> string \<times> string \<times> parsed" where
  "outcome_of r =
     (case r of
        Inl e \<Rightarrow> (''Error'', e, nothing_parsed)
      | Inr p \<Rightarrow>
          if 0 <s total_counts (pa_severities p)
          then (''Failed'', int_str (sint (total_counts (pa_severities p))) @ '' findings'', p)
          else (''Passed'', [], p))"

definition report_annotations :: "'s publish_env \<Rightarrow> string \<Rightarrow> str_map" where
  "report_annotations P path =
     (if path = [] then []
      else (case read_metadata P path of
              Inl e \<Rightarrow> []
            | Inr m \<Rightarrow>
                if am_digest m = [] then []
                else [(annotation_artifact_digest, am_digest m),
                      (''security.davano.io/artifact-uri'', am_uri m)]))"

definition report_to_publish :: "'s publish_env \<Rightarrow> publish_opts \<Rightarrow> go_time \<Rightarrow> artifact_scan_report" where
  "report_to_publish P q now =
     (case outcome_of (parse_results (pb_ingest P) (pb_tally P) (pu_format q) (pu_results q)) of
        (status, message, p) \<Rightarrow>
          \<lparr>sp_meta =
             \<lparr>om_name = scan_report (pb_digest P) (pu_scan q) (pu_scanner q), om_namespace = pu_namespace q,
              om_uid = [],
              om_labels = [(label_scan, pu_scan q), (''security.davano.io/scanner'', pu_scanner q)],
              om_annotations = report_annotations P (pu_metadata q), om_owner = None, om_created = 0,
              om_deleted = None\<rparr>,
           sp_scanner = pu_scanner q, sp_scan_ref = pu_scan q,
           sp_summary =
             \<lparr>sr_scanner = pu_scanner q, sr_status = status,
              sr_findings = total_counts (pa_severities p), sr_severities = pa_severities p,
              sr_drift = pa_drift p, sr_unexamined = pa_unexamined p, sr_produced = pa_produced p,
              sr_message = message, sr_report_ref = [], sr_completed = Some now\<rparr>,
           sp_findings = pa_findings p\<rparr>)"

text \<open>A retried Job publishes again: the report it finds is overwritten.\<close>

definition put_report ::
    "'s publish_env \<Rightarrow> artifact_scan_report \<Rightarrow> 's \<Rightarrow> publish_error option \<times> 's" where
  "put_report P report s =
     (let key = (om_namespace (sp_meta report), om_name (sp_meta report)) in
      case k_create (pb_reports P) key report s of
        (None, s1) \<Rightarrow> (None, s1)
      | (Some e, s1) \<Rightarrow>
          if e \<noteq> AlreadyExists then (Some (Create_Report e), s1)
          else (case k_get (pb_reports P) key s1 of
                  (Inl e', s2) \<Rightarrow> (Some (Get_Report e'), s2)
                | (Inr (existing, rv), s2) \<Rightarrow>
                    (case k_update (pb_reports P) key (report, rv) s2 of
                       (None, s3) \<Rightarrow> (None, s3)
                     | (Some e', s3) \<Rightarrow> (Some (Update_Report e'), s3))))"

definition run_publish_step ::
    "'s publish_env \<Rightarrow> publish_opts \<Rightarrow> 's \<Rightarrow> publish_error option \<times> 's" where
  "run_publish_step P q s =
     (case find (\<lambda>f. snd f = []) (pb_order P (required_flags q)) of
        Some f \<Rightarrow> (Some (Required (fst f)), s)
      | None \<Rightarrow>
          (case pb_now P s of (now, s1) \<Rightarrow>
             let report = report_to_publish P q now in
             case publish_bom (pb_digest P) (pb_maps P) (pb_files P) (pu_namespace q) (pu_scan q)
                    (path_dir (pu_results q)) s1 of
               (bom_problem, s2) \<Rightarrow> put_report P report s2))"

section \<open>What is kept of the bill of materials\<close>

lemma kept_documents:
  "(n, b) \<in> set (keep_documents F dir used ns) \<Longrightarrow> n \<in> set ns \<and> pf_read_file F (path_join dir n) = Inr b"
  by (induction F dir used ns rule: keep_documents.induct) (auto split: sum.splits if_splits)

lemma kept_size: "used \<le> max_bom_bytes \<Longrightarrow> used + sum_list (map (length \<circ> snd) (keep_documents F dir used ns)) \<le> max_bom_bytes"
proof (induction F dir used ns rule: keep_documents.induct)
  case (2 F dir used n ns)
  then show ?case by (cases "pf_read_file F (path_join dir n)") (auto simp: add.assoc)
qed simp

lemma kept_distinct: "distinct ns \<Longrightarrow> distinct (map fst (keep_documents F dir used ns))"
proof (induction F dir used ns rule: keep_documents.induct)
  case (2 F dir used n ns)
  have "n \<notin> fst ` set (keep_documents F dir u ns)" for u
    using kept_documents [of _ _ F dir u ns] 2(4) by force
  then show ?case using 2 by (auto split: sum.split)
qed simp

text \<open>
  The documents fit and are whole. Whatever lies in the results directory, what is collected as the
  bill of materials is at most 512 KiB in all, and each document kept is the whole content of a
  file of that directory with one of the three suffixes, none kept twice.
\<close>

theorem bom_documents_fit:
  assumes "collect_boms F dir = Inr docs" and "\<And>es. pf_read_dir F dir = Inr es \<Longrightarrow> distinct (map fst es)"
  shows "sum_list (map (length \<circ> snd) docs) \<le> max_bom_bytes \<and> distinct (map fst docs) \<and>
    list_all (\<lambda>(n, b). pf_read_file F (path_join dir n) = Inr b \<and> list_ex (\<lambda>x. suffix x n) bom_documents) docs"
proof (cases "docs = []")
  case False
  then obtain es where es: "pf_read_dir F dir = Inr es" and d: "docs = keep_documents F dir 0 (bom_files es)"
    using assms(1) by (auto simp: collect_boms_def split: if_splits sum.splits file_error.splits)
  have "distinct (bom_files es)"
    using assms(2) [OF es] by (auto simp: bom_files_def distinct_map_filter)
  moreover have "list_ex (\<lambda>x. suffix x n) bom_documents" if "n \<in> set (bom_files es)" for n
    using that by (auto simp: bom_files_def)
  ultimately show ?thesis
    using kept_size [of 0 F dir "bom_files es"] kept_distinct [of "bom_files es" F dir 0]
      kept_documents [of _ _ F dir 0 "bom_files es"]
    unfolding d by (auto simp: list_all_iff)
qed simp

lemma publish_bom_stores:
  assumes maps: "kclient_ok vm fm env c" and docs: "collect_boms F dir = Inr docs" "docs \<noteq> []"
    and run: "publish_bom D c F ns scan dir s = (None, s')"
  shows "\<exists>m rv. vm s' (ns, bom_config_name D scan) = Some (m, rv) \<and> bo_data m = docs"
proof -
  let ?key = "(ns, bom_config_name D scan)"
  let ?m = "\<lparr>bo_labels = [(label_scan, scan), (''security.davano.io/artifact'', ''bom'')], bo_owner = None, bo_data = docs\<rparr>"
  obtain r s1 where c: "k_create c ?key ?m s = (r, s1)" by force
  show ?thesis
  proof (cases r)
    case None
    then have "s' = s1" using run docs c by (simp add: publish_bom_def Let_def)
    then show ?thesis using reply_version(1) [OF maps c [unfolded None]] by simp
  next
    case (Some e)
    then obtain existing rv s2 where g: "k_get c ?key s1 = (Inr (existing, rv), s2)"
      using run docs c by (auto simp: publish_bom_def Let_def split: if_splits prod.splits sum.splits)
    then have "k_update c ?key (existing\<lparr>bo_data := docs, bo_labels := bo_labels ?m\<rparr>, rv) s2 = (None, s')"
      using run docs c Some by (auto simp: publish_bom_def Let_def split: if_splits prod.splits option.splits)
    from reply_version(2) [OF maps this] show ?thesis by simp
  qed
qed

text \<open>
  Claim C16. One scanner's documents replace another's. The config map of a scan's bill of materials has one name
  for all its scanners, each of which runs in a pod of its own with its own results directory.  After a
  successful publication it holds the documents of that pod and nothing else: a document
  another scanner of the same scan had published is gone.
\<close>

theorem bom_of_last_scanner_only:
  assumes "kclient_ok vm fm env c" and "collect_boms F dir = Inr docs" and "docs \<noteq> []"
    and "publish_bom D c F ns scan dir s = (None, s')"
  shows "\<exists>m rv. vm s' (ns, bom_config_name D scan) = Some (m, rv) \<and>
    (\<forall>n. map_of (bo_data m) n = map_of docs n)"
  using publish_bom_stores [OF assms] by auto

section \<open>What is published\<close>

lemma put_report_stores:
  assumes reports: "kclient_ok vw fr env (pb_reports P)" and run: "put_report P report s = (None, s')"
  shows "\<exists>rv. vw s' (om_namespace (sp_meta report), om_name (sp_meta report)) = Some (report, rv)"
proof -
  let ?key = "(om_namespace (sp_meta report), om_name (sp_meta report))"
  obtain r s1 where c: "k_create (pb_reports P) ?key report s = (r, s1)" by force
  show ?thesis
  proof (cases r)
    case None
    then have "s' = s1" using run c by (simp add: put_report_def Let_def)
    then show ?thesis using reply_version(1) [OF reports c [unfolded None]] by simp
  next
    case (Some e)
    then obtain existing rv s2 where g: "k_get (pb_reports P) ?key s1 = (Inr (existing, rv), s2)"
      using run c by (auto simp: put_report_def Let_def split: if_splits prod.splits sum.splits)
    then have "k_update (pb_reports P) ?key (report, rv) s2 = (None, s')"
      using run c Some by (auto simp: put_report_def Let_def split: if_splits prod.splits option.splits)
    from reply_version(2) [OF reports this] show ?thesis by simp
  qed
qed

lemma report_to_publish_simps:
  "om_namespace (sp_meta (report_to_publish P q now)) = pu_namespace q"
  "om_name (sp_meta (report_to_publish P q now)) = scan_report (pb_digest P) (pu_scan q) (pu_scanner q)"
  "om_labels (sp_meta (report_to_publish P q now)) =
     [(label_scan, pu_scan q), (''security.davano.io/scanner'', pu_scanner q)]"
  "sp_scanner (report_to_publish P q now) = pu_scanner q" "sp_scan_ref (report_to_publish P q now) = pu_scan q"
  by (simp_all add: report_to_publish_def split: prod.split)

lemma report_to_publish_outcome:
  "pb_ingest P (pu_format q) (pu_results q) = Inl e \<Longrightarrow>
     sr_status (sp_summary (report_to_publish P q now)) = ''Error'' \<and>
     sr_message (sp_summary (report_to_publish P q now)) = e \<and> sp_findings (report_to_publish P q now) = []"
  "pb_ingest P (pu_format q) (pu_results q) = Inr t \<Longrightarrow>
     sp_findings (report_to_publish P q now) = map from_finding (to_findings t) \<and>
     sr_severities (sp_summary (report_to_publish P q now)) = from_counts (to_severities t) \<and>
     sr_status (sp_summary (report_to_publish P q now)) =
       (if 0 <s total_counts (from_counts (to_severities t)) then ''Failed'' else ''Passed'')"
  by (simp_all add: report_to_publish_def outcome_of_def parse_results_def nothing_parsed_def)

lemma run_publish_step_stores:
  assumes "kclient_ok vw fr env (pb_reports P)" and "run_publish_step P q s = (None, s')"
  shows "\<exists>rv. vw s' (pu_namespace q, scan_report (pb_digest P) (pu_scan q) (pu_scanner q)) =
    Some (report_to_publish P q (fst (pb_now P s)), rv)"
proof -
  obtain now s1 where now: "pb_now P s = (now, s1)" by force
  obtain b s2 where b: "publish_bom (pb_digest P) (pb_maps P) (pb_files P) (pu_namespace q) (pu_scan q)
      (path_dir (pu_results q)) s1 = (b, s2)" by force
  have "put_report P (report_to_publish P q now) s2 = (None, s')"
    using assms(2) by (simp add: run_publish_step_def now b Let_def split: option.splits)
  from put_report_stores [OF assms(1) this] show ?thesis
    by (simp add: now report_to_publish_simps)
qed

text \<open>
  A report says what the scanner's output said. When the publish step succeeds, whatever was stored
  before and whether or not the bill of materials could be kept, the report of this scan and
  scanner is stored, with status \<open>Error\<close> exactly when the output could not be read, and otherwise with the findings
  read, \<open>Failed\<close> when their count is positive and \<open>Passed\<close> when it is not.
\<close>

theorem publish_records_outcome:
  assumes "kclient_ok vw fr env (pb_reports P)" and "run_publish_step P q s = (None, s')"
  shows "\<exists>report rv. vw s' (pu_namespace q, scan_report (pb_digest P) (pu_scan q) (pu_scanner q)) = Some (report, rv) \<and>
    sp_scanner report = pu_scanner q \<and> sp_scan_ref report = pu_scan q \<and>
    map_of (om_labels (sp_meta report)) label_scan = Some (pu_scan q) \<and>
    (case pb_ingest P (pu_format q) (pu_results q) of
       Inl e \<Rightarrow> sr_status (sp_summary report) = ''Error'' \<and> sr_message (sp_summary report) = e \<and> sp_findings report = []
     | Inr t \<Rightarrow>
         sp_findings report = map from_finding (to_findings t) \<and>
         sr_severities (sp_summary report) = from_counts (to_severities t) \<and>
         sr_status (sp_summary report) =
           (if 0 <s total_counts (from_counts (to_severities t)) then ''Failed'' else ''Passed''))"
proof -
  obtain rv where v: "vw s' (pu_namespace q, scan_report (pb_digest P) (pu_scan q) (pu_scanner q)) =
      Some (report_to_publish P q (fst (pb_now P s)), rv)"
    using run_publish_step_stores [OF assms] by blast
  have l: "map_of (om_labels (sp_meta (report_to_publish P q now))) label_scan = Some (pu_scan q)" for now
    by (simp add: report_to_publish_simps)
  show ?thesis
    using v l report_to_publish_outcome [of P q _ "fst (pb_now P s)"]
    by (intro exI [of _ "report_to_publish P q (fst (pb_now P s))"] exI [of _ rv] conjI)
      (simp_all add: report_to_publish_simps split: sum.split)
qed

lemma report_annotations_frame: "report_annotations (P\<lparr>pb_ingest := g\<rparr>) path = report_annotations P path"
proof -
  have "read_metadata (P\<lparr>pb_ingest := g\<rparr>) path = read_metadata P path"
    by (cases "pf_read_file (pb_files P) path") (simp_all add: read_metadata_def)
  then show ?thesis by (simp add: report_annotations_def)
qed

text \<open>
  A missing output file is not told apart. That a scanner left no output file is read from the
  library and then not used: with and without the file the same report is published, \<open>Passed\<close> if
  nothing was found.
\<close>

theorem absence_is_not_published:
  "report_to_publish (P\<lparr>pb_ingest := \<lambda>f p. map_sum id (to_absent_update (\<lambda>_. absent)) (pb_ingest P f p)\<rparr>) q now =
   report_to_publish P q now"
proof (cases "pb_ingest P (pu_format q) (pu_results q)")
  case (Inl e)
  then show ?thesis by (simp add: report_to_publish_def parse_results_def report_annotations_frame)
next
  case (Inr t)
  then show ?thesis
    by (simp add: report_to_publish_def parse_results_def report_annotations_frame outcome_of_def)
qed

section \<open>What the controller collects\<close>

lemma read_reports_one:
  assumes "read_reports C scan xs acc s = (Inr (by', d'), s')"
    and "\<And>x. x \<in> set xs \<Longrightarrow> sp_scanner (fst (snd x)) = n \<Longrightarrow> report_result (fst x) (fst (snd x)) = r"
  shows "by' n = (if \<exists>x \<in> set xs. sp_scanner (fst (snd x)) = n then Some r else fst acc n)"
  using assms
proof (induction xs arbitrary: acc s)
  case (Cons x xs)
  obtain by0 d0 where acc: "acc = (by0, d0)" by force
  obtain s1 where a: "adopt_report C scan x s = (None, s1)"
    using Cons.prems(1) by (auto split: prod.splits option.splits)
  let ?report = "fst (snd x)"
  obtain d1 where step: "read_reports C scan xs (by0(sp_scanner ?report \<mapsto> report_result (fst x) ?report), d1) s1
      = (Inr (by', d'), s')"
    using Cons.prems(1) by (simp add: a acc Let_def)
  have "by' n = (if \<exists>x \<in> set xs. sp_scanner (fst (snd x)) = n then Some r
      else (by0(sp_scanner ?report \<mapsto> report_result (fst x) ?report)) n)"
    using Cons.IH [OF step] Cons.prems(2) by simp
  then show ?case using Cons.prems(2) [of x] by (auto simp: acc)
qed simp

lemma read_wanted_has:
  assumes "read_wanted C scan by ns s = (Inr (rs, pending), s')" and "n \<in> set ns" and "by n = Some r"
  shows "r \<in> set rs"
  using assms(1,2)
proof (induction ns arbitrary: s rs pending)
  case (Cons m ns)
  show ?case
  proof (cases "by m")
    case None
    then have "m \<noteq> n" using assms(3) by auto
    moreover obtain j s1 rs1 p1 where
      "read_wanted C scan by ns s1 = (Inr (rs1, p1), s')" "rs = interim_result C m j # rs1"
      using Cons.prems(1) None by (auto simp: Let_def split: prod.splits sum.splits)
    ultimately show ?thesis using Cons.IH Cons.prems(2) by auto
  next
    case (Some q)
    then obtain rs1 p1 where "read_wanted C scan by ns s = (Inr (rs1, p1), s')" "rs = q # rs1"
      using Cons.prems(1) by (auto split: prod.splits sum.splits)
    then show ?thesis using Cons.IH Cons.prems(2) Some assms(3) by (cases "m = n") auto
  qed
qed simp

text \<open>
  Claim C15. What a pod publishes is what the controller judges. After a successful publish step the scan
  controller collects, for this scanner, the status and the counts of the scanner's output: an output that
  could not be read is collected as \<open>Error\<close> and never as a clean result.  It needs that the reports are not
  changed meanwhile, and that no report of this scan under another name claims the same scanner.
\<close>

theorem published_result_is_collected:
  assumes reports: "kclient_ok vw fr env (pb_reports P)" "sc_scan_reports C = pb_reports P"
    and run: "run_publish_step P q s = (None, s')"
    and quiet: "\<forall>t. env s' t \<longrightarrow> vw t = vw s'"
    and alone: "\<forall>n x rv. vw s' (pu_namespace q, n) = Some (x, rv) \<longrightarrow>
      map_of (om_labels (sp_meta x)) label_scan = Some (pu_scan q) \<longrightarrow> sp_scanner x = pu_scanner q \<longrightarrow>
      n = scan_report (pb_digest P) (pu_scan q) (pu_scanner q)"
    and scan: "om_namespace (as_meta scan) = pu_namespace q" "om_name (as_meta scan) = pu_scan q"
    and collect: "collect_results C scan wanted s' = (Inr (rs, pending, digest), s'')"
    and wanted: "pu_scanner q \<in> set wanted"
  shows "\<exists>r \<in> set rs. sr_scanner r = pu_scanner q \<and>
    (case pb_ingest P (pu_format q) (pu_results q) of
       Inl e \<Rightarrow> sr_status r = ''Error''
     | Inr t \<Rightarrow> sr_severities r = from_counts (to_severities t) \<and>
         sr_status r = (if 0 <s total_counts (from_counts (to_severities t)) then ''Failed'' else ''Passed''))"
proof -
  let ?n = "scan_report (pb_digest P) (pu_scan q) (pu_scanner q)"
  let ?report = "report_to_publish P q (fst (pb_now P s))"
  obtain rv where stored: "vw s' (pu_namespace q, ?n) = Some (?report, rv)"
    using run_publish_step_stores [OF reports(1) run] by blast
  obtain xs s1 where l: "k_list (pb_reports P) (pu_namespace q) s' = (Inr xs, s1)"
    using collect by (auto simp: collect_results_def reports(2) scan split: prod.splits sum.splits)
  define mine where "mine = filter (\<lambda>x. map_of (om_labels (sp_meta (fst (snd x)))) label_scan = Some (pu_scan q)) xs"
  obtain by0 d0 s2 where b: "read_reports C scan mine (Map.empty, st_digest (as_status scan)) s1 = (Inr (by0, d0), s2)"
    using collect by (auto simp: collect_results_def reports(2) scan l Let_def mine_def split: prod.splits sum.splits)
  obtain p where w: "read_wanted C scan by0 wanted s2 = (Inr (rs, p), s'')"
    using collect b by (auto simp: collect_results_def reports(2) scan l Let_def mine_def [symmetric] split: prod.splits sum.splits)
  have view: "distinct (map fst xs)" "map_of xs n = vw s' (pu_namespace q, n)" for n
    using list_rv_cases [OF reports(1) l] quiet by auto
  have "(?n, ?report, rv) \<in> set xs" using view(2) [of ?n] stored by (auto dest: map_of_SomeD)
  then have mem: "(?n, ?report, rv) \<in> set mine" by (simp add: mine_def report_to_publish_simps)
  have one: "report_result (fst x) (fst (snd x)) = report_result ?n ?report"
    if x: "x \<in> set mine" "sp_scanner (fst (snd x)) = pu_scanner q" for x
  proof -
    obtain n y v where e: "x = (n, y, v)" by (rule prod_cases3)
    have "map_of xs n = Some (y, v)" using x(1) view(1) by (simp add: e mine_def map_of_is_SomeI)
    then have "vw s' (pu_namespace q, n) = Some (y, v)" using view(2) by simp
    moreover from this have "n = ?n" using alone x by (auto simp: e mine_def)
    ultimately show ?thesis using stored by (simp add: e)
  qed
  have "by0 (pu_scanner q) = Some (report_result ?n ?report)"
    using read_reports_one [OF b one] mem by (force simp: report_to_publish_simps)
  then have "report_result ?n ?report \<in> set rs" by (rule read_wanted_has [OF w wanted])
  then show ?thesis
    using report_to_publish_outcome [of P q _ "fst (pb_now P s)"]
    by (intro bexI [of _ "report_result ?n ?report"])
      (simp_all add: report_result_def report_to_publish_simps split: sum.split)
qed

section \<open>Two scanners of one scan\<close>

record runner_world =
  rw_reports :: "artifact_scan_report mem_store"
  rw_maps :: "bom_map mem_store"

definition demo_pod :: "(string \<times> string) list \<Rightarrow> pod_files" where
  "demo_pod fs =
     \<lparr>pf_read_dir = (\<lambda>d. Inr (map (\<lambda>f. (fst f, False)) fs)),
      pf_read_file = (\<lambda>p. case find (\<lambda>f. path_join ''/results'' (fst f) = p) fs of
        None \<Rightarrow> Inl Not_Exist | Some f \<Rightarrow> Inr (snd f))\<rparr>"

definition syft_pod :: pod_files where
  "syft_pod = demo_pod [(''artifact.json'', ''m''), (sd_output (the (map_of catalog ''syft'')), ''packages'')]"

definition tessera_pod :: pod_files where
  "tessera_pod = demo_pod [(''artifact.json'', ''m''), (''model.cdx.json'', ''model''), (''model.spdx.json'', ''model''),
     (''tessera.json'', '''')]"

definition demo_publish :: "pod_files \<Rightarrow> (string + tool_output) \<Rightarrow> runner_world publish_env" where
  "demo_publish F out =
     \<lparr>pb_digest = (\<lambda>s. s),
      pb_reports = mem_client rw_reports (\<lambda>m. rw_reports_update (\<lambda>_. m)),
      pb_maps = mem_client rw_maps (\<lambda>m. rw_maps_update (\<lambda>_. m)), pb_files = F,
      pb_ingest = (\<lambda>f p. out), pb_tally = (\<lambda>fs. \<lparr>tc_critical = 0, tc_high = 0, tc_medium = 0, tc_low = 0, tc_unknown = 0\<rparr>),
      pb_metadata = (\<lambda>d. Inr \<lparr>am_uri = ''u'', am_digest = ''d'', am_media_type = [], am_size = 3\<rparr>),
      pb_order = (\<lambda>fs. fs), pb_now = (\<lambda>s. (9, s))\<rparr>"

definition demo_opts :: "string \<Rightarrow> publish_opts" where
  "demo_opts scanner =
     \<lparr>pu_scan = ''s1'', pu_namespace = ''ns'', pu_scanner = scanner, pu_format = ''tessera'',
      pu_results = ''/results/out.json'', pu_metadata = ''/results/artifact.json''\<rparr>"

definition empty_runner_world :: runner_world where
  "empty_runner_world = \<lparr>rw_reports = [], rw_maps = []\<rparr>"

definition after_syft :: runner_world where
  "after_syft = snd (run_publish_step (demo_publish syft_pod (Inl ''bad json'')) (demo_opts ''syft'') empty_runner_world)"

lemma demo_publish_ok:
  "kclient_ok (\<lambda>w. map_of (rw_reports w)) (\<lambda>_ _. True) (=) (pb_reports (demo_publish F out))"
  "kclient_ok (\<lambda>w. map_of (rw_maps w)) (\<lambda>_ _. True) (=) (pb_maps (demo_publish F out))"
  unfolding demo_publish_def publish_env.simps by (rule mem_client_ok; simp)+

lemma demo_suffixes:
  "list_ex (\<lambda>x. suffix x ''artifact.json'') bom_documents = False"
  "list_ex (\<lambda>x. suffix x ''tessera.json'') bom_documents = False"
  "list_ex (\<lambda>x. suffix x ''sbom.spdx.json'') bom_documents = True"
  "list_ex (\<lambda>x. suffix x ''model.cdx.json'') bom_documents = True"
  "list_ex (\<lambda>x. suffix x ''model.spdx.json'') bom_documents = True"
  by code_simp+

lemma demo_outputs: "sd_output (the (map_of catalog ''syft'')) = ''sbom.spdx.json''"
  by code_simp

lemma demo_order: "''model.cdx.json'' \<le> ''model.spdx.json''"
  by (simp add: less_char_def)

lemma demo_documents:
  "collect_boms syft_pod ''/results'' = Inr [(''sbom.spdx.json'', ''packages'')]"
  "collect_boms tessera_pod ''/results'' = Inr [(''model.cdx.json'', ''model''), (''model.spdx.json'', ''model'')]"
proof -
  have s: "bom_files [(''artifact.json'', False), (''sbom.spdx.json'', False)] = [''sbom.spdx.json'']"
    by (simp add: bom_files_def demo_suffixes)
  have t: "bom_files [(''artifact.json'', False), (''model.cdx.json'', False), (''model.spdx.json'', False),
      (''tessera.json'', False)] = [''model.cdx.json'', ''model.spdx.json'']"
    using demo_order by (simp add: bom_files_def demo_suffixes del: Cons_le_Cons)
  show "collect_boms syft_pod ''/results'' = Inr [(''sbom.spdx.json'', ''packages'')]"
    by (simp add: collect_boms_def syft_pod_def demo_pod_def demo_outputs s path_join_def max_bom_bytes_def)
  show "collect_boms tessera_pod ''/results'' = Inr [(''model.cdx.json'', ''model''), (''model.spdx.json'', ''model'')]"
    by (simp add: collect_boms_def tessera_pod_def demo_pod_def t path_join_def max_bom_bytes_def)
qed

abbreviation "bom_key \<equiv> (''ns'', bom_config_name (\<lambda>s. s) ''s1'')"
abbreviation "syft_key \<equiv> (''ns'', scan_report (\<lambda>s. s) ''s1'' ''syft'')"
abbreviation "bom_labels \<equiv> [(label_scan, ''s1''), (''security.davano.io/artifact'', ''bom'')]"

lemma demo_publish_simps:
  "pb_digest (demo_publish F out) = (\<lambda>s. s)" "pb_files (demo_publish F out) = F"
  "pb_ingest (demo_publish F out) = (\<lambda>f p. out)" "pb_order (demo_publish F out) = (\<lambda>fs. fs)"
  "pb_now (demo_publish F out) = (\<lambda>s. (9, s))"
  "pu_scan (demo_opts n) = ''s1''" "pu_namespace (demo_opts n) = ''ns''" "pu_scanner (demo_opts n) = n"
  "pu_results (demo_opts n) = ''/results/out.json''"
  by (simp_all add: demo_publish_def demo_opts_def)

lemma demo_bom:
  "publish_bom (\<lambda>s. s) (pb_maps (demo_publish F out)) syft_pod ''ns'' ''s1'' ''/results'' \<lparr>rw_reports = [], rw_maps = []\<rparr> =
     (None, \<lparr>rw_reports = [], rw_maps = [(bom_key, \<lparr>bo_labels = bom_labels, bo_owner = None,
        bo_data = [(''sbom.spdx.json'', ''packages'')]\<rparr>, 1)]\<rparr>)"
  by (simp add: publish_bom_def demo_documents demo_publish_def mem_client_def)

lemma after_syft_runs:
  "run_publish_step (demo_publish syft_pod (Inl ''bad json'')) (demo_opts ''syft'') empty_runner_world = (None, after_syft)"
  "after_syft =
     \<lparr>rw_reports = [(syft_key, report_to_publish (demo_publish syft_pod (Inl ''bad json'')) (demo_opts ''syft'') 9, 1)],
      rw_maps = [(bom_key, \<lparr>bo_labels = bom_labels, bo_owner = None, bo_data = [(''sbom.spdx.json'', ''packages'')]\<rparr>, 1)]\<rparr>"
proof -
  let ?P = "demo_publish syft_pod (Inl ''bad json'')"
  have d: "path_dir ''/results/out.json'' = ''/results''" by code_simp
  have f: "find (\<lambda>f. snd f = []) (required_flags (demo_opts ''syft'')) = None" by code_simp
  have "k_create (pb_reports ?P) = k_create (mem_client rw_reports (\<lambda>m. rw_reports_update (\<lambda>_. m)))"
    by (simp add: demo_publish_def)
  then have r: "run_publish_step ?P (demo_opts ''syft'') empty_runner_world =
     (None, \<lparr>rw_reports = [(syft_key, report_to_publish ?P (demo_opts ''syft'') 9, 1)],
      rw_maps = [(bom_key, \<lparr>bo_labels = bom_labels, bo_owner = None, bo_data = [(''sbom.spdx.json'', ''packages'')]\<rparr>, 1)]\<rparr>)"
    by (simp add: run_publish_step_def demo_publish_simps f d demo_bom Let_def put_report_def
        report_to_publish_simps mem_client_def empty_runner_world_def)
  show "run_publish_step ?P (demo_opts ''syft'') empty_runner_world = (None, after_syft)"
    unfolding after_syft_def r by simp
  show "after_syft =
     \<lparr>rw_reports = [(syft_key, report_to_publish ?P (demo_opts ''syft'') 9, 1)],
      rw_maps = [(bom_key, \<lparr>bo_labels = bom_labels, bo_owner = None, bo_data = [(''sbom.spdx.json'', ''packages'')]\<rparr>, 1)]\<rparr>"
    unfolding after_syft_def r by simp
qed

text \<open>Both scanners are in the catalog and on by default; the second to publish removes the package list.\<close>

theorem bom_of_last_scanner_only_witness:
  "set [''syft'', ''tessera''] \<subseteq> set (default_scanners catalog) \<and>
   sm_get (bo_data (fst (the (map_of (rw_maps after_syft) bom_key)))) ''sbom.spdx.json'' = ''packages'' \<and>
   (\<exists>m rv. map_of (rw_maps (snd (publish_bom (\<lambda>s. s) (pb_maps (demo_publish tessera_pod (Inl []))) tessera_pod
       ''ns'' ''s1'' ''/results'' after_syft))) bom_key = Some (m, rv) \<and>
     map_of (bo_data m) ''model.cdx.json'' = Some ''model'' \<and> map_of (bo_data m) ''sbom.spdx.json'' = None)"
proof (intro conjI)
  show "set [''syft'', ''tessera''] \<subseteq> set (default_scanners catalog)" by code_simp
  show "sm_get (bo_data (fst (the (map_of (rw_maps after_syft) bom_key)))) ''sbom.spdx.json'' = ''packages''"
    by (simp add: after_syft_runs(2) sm_get_def)
  let ?r = "publish_bom (\<lambda>s. s) (pb_maps (demo_publish tessera_pod (Inl []))) tessera_pod ''ns'' ''s1'' ''/results'' after_syft"
  have "fst ?r = None"
    by (simp add: publish_bom_def demo_documents after_syft_runs(2) demo_publish_def mem_client_def)
  then have "?r = (None, snd ?r)" by (simp add: prod_eq_iff)
  from bom_of_last_scanner_only [OF demo_publish_ok(2) demo_documents(2) _ this]
  show "\<exists>m rv. map_of (rw_maps (snd ?r)) bom_key = Some (m, rv) \<and>
     map_of (bo_data m) ''model.cdx.json'' = Some ''model'' \<and> map_of (bo_data m) ''sbom.spdx.json'' = None"
    by auto
qed

theorem bom_documents_fit_witness:
  "collect_boms tessera_pod ''/results'' \<noteq> Inr [] \<and>
   (let docs = projr (collect_boms tessera_pod ''/results'') in
    sum_list (map (length \<circ> snd) docs) \<le> max_bom_bytes \<and> distinct (map fst docs) \<and>
    list_all (\<lambda>(n, b). pf_read_file tessera_pod (path_join ''/results'' n) = Inr b \<and>
      list_ex (\<lambda>x. suffix x n) bom_documents) docs)"
proof -
  note d = demo_documents(2)
  have "distinct (map fst es)" if "pf_read_dir tessera_pod ''/results'' = Inr es" for es
    using that by (auto simp: tessera_pod_def demo_pod_def)
  from bom_documents_fit [OF d this] show ?thesis by (simp add: d)
qed

theorem publish_records_outcome_witness:
  "\<exists>report rv. map_of (rw_reports after_syft) syft_key = Some (report, rv) \<and>
     sr_status (sp_summary report) = ''Error'' \<and> sr_message (sp_summary report) = ''bad json''"
  using publish_records_outcome [OF demo_publish_ok(1) after_syft_runs(1)]
  by (auto simp: demo_publish_simps)

definition unused :: "(runner_world, 'o) kclient" where
  "unused = mem_client (\<lambda>w. []) (\<lambda>m w. w)"

definition demo_collector :: "(runner_world, nat, unit) scan_ctl" where
  "demo_collector =
     \<lparr>sc_scans = unused, sc_policies = unused, sc_exceptions = unused,
      sc_scan_reports = pb_reports (demo_publish syft_pod (Inl ''bad json'')), sc_models = unused, sc_jobs = unused,
      sc_job_status = (\<lambda>j. \<lparr>jc_failed = 0, jc_active = 0, jc_succeeded = 0\<rparr>), sc_build_job = (\<lambda>sc d sp. Inl []),
      sc_trust = \<lparr>ts_publishers = unused, ts_maps = unused, ts_keyless = (\<lambda>p. False), ts_encode = (\<lambda>p. Inl []),
        ts_root = [], ts_require_log = False\<rparr>,
      sc_append = None, sc_now = (\<lambda>w. (0, w)), sc_digest = (\<lambda>s. s),
      sc_gate = (\<lambda>rs a r es t. \<lparr>ev_verdict = verdict_unknown, ev_risk = 0, ev_violations = [], ev_waived = [],
        ev_malware = [], ev_secrets = [], ev_cves = no_counts, ev_unexamined = no_counts, ev_drift = no_counts,
        ev_signature_verified = False, ev_sbom_generated = False, ev_aibom_generated = False\<rparr>), sc_violation_str = (\<lambda>v. []), sc_deadline = 0\<rparr>"

definition collected_scan :: artifact_scan where
  "collected_scan =
     \<lparr>as_meta = \<lparr>om_name = ''s1'', om_namespace = ''ns'', om_uid = ''u'', om_labels = [], om_annotations = [],
        om_owner = None, om_created = 0, om_deleted = None\<rparr>,
      as_spec = \<lparr>ss_model = ''m'', ss_version = ''1'', ss_registry_model = [], ss_registry_version = [],
        ss_connector = [], ss_artifact = \<lparr>ar_uri = [], ar_digest = [], ar_media_type = [], ar_format = [], ar_size = None\<rparr>,
        ss_policy_ref = [], ss_scanners = [''syft''], ss_trigger = [], ss_triggered_by = []\<rparr>,
      as_status = \<lparr>st_phase = ''Scanning'', st_started = Some 1, st_completed = None, st_results = [],
        st_risk = None, st_verdict = [], st_message = [], st_digest = []\<rparr>\<rparr>"

lemma demo_collect_run:
  "collect_results demo_collector collected_scan [''syft''] after_syft =
     (Inr ([report_result (scan_report (\<lambda>s. s) ''s1'' ''syft'')
        (report_to_publish (demo_publish syft_pod (Inl ''bad json'')) (demo_opts ''syft'') 9)], 0, ''d''),
      snd (collect_results demo_collector collected_scan [''syft''] after_syft))"
proof -
  let ?P = "demo_publish syft_pod (Inl ''bad json'')"
  let ?r = "report_to_publish ?P (demo_opts ''syft'') 9"
  have c: "sc_scan_reports demo_collector = mem_client rw_reports (\<lambda>m. rw_reports_update (\<lambda>_. m))"
    by (simp add: demo_collector_def demo_publish_def)
  have m: "om_namespace (as_meta collected_scan) = ''ns''" "om_name (as_meta collected_scan) = ''s1''"
    by (simp_all add: collected_scan_def)
  have "om_annotations (sp_meta ?r) = report_annotations ?P ''/results/artifact.json''" "om_owner (sp_meta ?r) = None"
    by (simp_all add: report_to_publish_def demo_opts_def split: prod.split)
  moreover have "report_annotations ?P ''/results/artifact.json'' =
      [(annotation_artifact_digest, ''d''), (''security.davano.io/artifact-uri'', ''u'')]"
    by code_simp
  ultimately have a: "sm_get (om_annotations (sp_meta ?r)) annotation_artifact_digest = ''d''" "om_owner (sp_meta ?r) = None"
    by (simp_all add: sm_get_def)
  show ?thesis
    by (simp add: collect_results_def c m after_syft_runs(2) mem_client_def mem_list_def Let_def
        report_to_publish_simps demo_publish_simps adopt_report_def a)
qed

theorem published_result_is_collected_witness:
  "\<exists>r \<in> set (fst (projr (fst (collect_results demo_collector collected_scan [''syft''] after_syft)))).
    sr_scanner r = ''syft'' \<and> sr_status r = ''Error''"
proof -
  let ?P = "demo_publish syft_pod (Inl ''bad json'')"
  have alone: "n = scan_report (\<lambda>s. s) ''s1'' ''syft''" if "map_of (rw_reports after_syft) (''ns'', n) = Some y" for n y
    using that by (simp add: after_syft_runs(2) split: if_splits)
  have "\<exists>r \<in> set [report_result (scan_report (\<lambda>s. s) ''s1'' ''syft'')
        (report_to_publish ?P (demo_opts ''syft'') 9)]. sr_scanner r = pu_scanner (demo_opts ''syft'') \<and>
      (case pb_ingest ?P (pu_format (demo_opts ''syft'')) (pu_results (demo_opts ''syft'')) of
         Inl e \<Rightarrow> sr_status r = ''Error''
       | Inr t \<Rightarrow> sr_severities r = from_counts (to_severities t) \<and>
           sr_status r = (if 0 <s total_counts (from_counts (to_severities t)) then ''Failed'' else ''Passed''))"
  proof (rule published_result_is_collected [OF demo_publish_ok(1) _ after_syft_runs(1) _ _ _ _ demo_collect_run])
    show "sc_scan_reports demo_collector = pb_reports ?P" by (simp add: demo_collector_def)
    show "\<forall>t. after_syft = t \<longrightarrow> map_of (rw_reports t) = map_of (rw_reports after_syft)" by simp
    show "om_namespace (as_meta collected_scan) = pu_namespace (demo_opts ''syft'')"
      "om_name (as_meta collected_scan) = pu_scan (demo_opts ''syft'')"
      by (simp_all add: demo_publish_simps collected_scan_def)
    show "pu_scanner (demo_opts ''syft'') \<in> set [''syft'']" by (simp add: demo_publish_simps)
  qed (use alone in \<open>auto simp: demo_publish_simps\<close>)
  then show ?thesis by (subst demo_collect_run) (simp add: demo_publish_simps)
qed

end
