(* ===== verification/Aibom.thy ===== *)
theory Aibom
  imports Runner
begin

text \<open>
  The AI bill of materials (\<open>internal/aibom/aibom.go\<close>): which directories of a staged artifact hold a model, what
  is reported of the first and of the others, and the step of the scan pod that writes the documents
  (\<open>cmd/runner/main.go\<close>, \<open>runAIBOM\<close>).

  The workspace is a tree, each directory with its entries in the order \<open>os.ReadDir\<close> gives them.  The analyser
  and the two renderers are a library, a parameter; paths are clean.
\<close>

section \<open>Paths\<close>

definition path_base :: "string \<Rightarrow> string" where
  "path_base p = (case last_index_char p CHR ''/'' of None \<Rightarrow> p | Some i \<Rightarrow> drop (Suc i) p)"

text \<open>\<open>filepath.Ext\<close>: from the last dot of the last component.\<close>

definition path_ext :: "string \<Rightarrow> string" where
  "path_ext p = (case last_index_char (path_base p) CHR ''.'' of None \<Rightarrow> [] | Some i \<Rightarrow> drop i (path_base p))"

definition is_abs :: "string \<Rightarrow> bool" where
  "is_abs p \<longleftrightarrow> prefix ''/'' p"

text \<open>\<open>filepath.Rel\<close> for a path at or below the root.\<close>

definition relative :: "string \<Rightarrow> string \<Rightarrow> string" where
  "relative root path = (if path = root then ''.'' else drop (length root + 1) path)"

definition path_depth :: "string \<Rightarrow> string \<Rightarrow> nat" where
  "path_depth root path =
     (let rel = relative root path in
      if rel = ''.'' then 0 else length (split_char CHR ''/'' rel))"

section \<open>Finding the models\<close>

datatype fs_node = Regular | Special | Unreadable | Folder "(string \<times> fs_node) list"

definition max_search_depth :: nat where "max_search_depth = 6"

definition model_extensions :: "string list" where
  "model_extensions = [''.gguf'', ''.ggml'', ''.safetensors'', ''.onnx'']"

definition is_model_file :: "string \<Rightarrow> bool" where
  "is_model_file path \<longleftrightarrow> to_lower (path_ext path) \<in> set model_extensions"

definition note_dir :: "string \<Rightarrow> string list \<Rightarrow> string list" where
  "note_dir path dirs =
     (if is_model_file path
      then let dir = path_dir path in if dir \<in> set dirs then dirs else dirs @ [dir]
      else dirs)"

fun walk :: "string \<Rightarrow> string \<Rightarrow> fs_node \<Rightarrow> string list \<Rightarrow> string list"
and walk_all :: "string \<Rightarrow> string \<Rightarrow> (string \<times> fs_node) list \<Rightarrow> string list \<Rightarrow> string list" where
  "walk root path Regular dirs = note_dir path dirs"
| "walk root path Special dirs = dirs"
| "walk root path Unreadable dirs = dirs"
| "walk root path (Folder es) dirs =
     (if max_search_depth < path_depth root path then dirs else walk_all root path es dirs)"
| "walk_all root path [] dirs = dirs"
| "walk_all root path ((n, x) # es) dirs = walk_all root path es (walk root (path_join path n) x dirs)"

text \<open>By depth, and by name at one depth: a stable sort by depth of the names in order.\<close>

definition sort_models :: "string \<Rightarrow> string list \<Rightarrow> string list" where
  "sort_models root dirs = sort_key (path_depth root) (sort dirs)"

text \<open>\<open>detect\<close> is the library's test of a single file; a workspace that cannot be read is the error of \<open>os.Stat\<close>.\<close>

definition find_models ::
    "(string \<Rightarrow> bool) \<Rightarrow> string \<Rightarrow> string + fs_node \<Rightarrow> string + string list" where
  "find_models detect workspace tree =
     (case tree of
        Inl e \<Rightarrow> Inl e
      | Inr (Folder es) \<Rightarrow> Inr (sort_models workspace (walk workspace workspace (Folder es) []))
      | Inr Unreadable \<Rightarrow> Inr []
      | Inr x \<Rightarrow> if detect workspace then Inr [workspace] else Inr [])"

section \<open>The report\<close>

record tool_artifact =
  ta_findings :: "tool_finding list"
  ta_format :: string
  ta_files :: nat
  ta_tensors :: int
  ta_parameters :: int64
  ta_architecture :: string
  ta_dtype :: string
  ta_quantization :: string
  ta_licenses :: "string list"

record aibom_options =
  ao_max_file_size :: int64
  ao_max_files :: int
  ao_generated_at :: go_time

datatype analyze_option = With_Max_File_Size int64 | With_Max_Files int

record aibom_tool =
  at_detect :: "string \<Rightarrow> bool"
  at_analyze :: "string \<Rightarrow> analyze_option list \<Rightarrow> string + tool_artifact"
  at_cyclonedx :: "tool_artifact \<Rightarrow> go_time \<Rightarrow> string + string"
  at_spdx :: "tool_artifact \<Rightarrow> go_time \<Rightarrow> string + string"

record aibom_report =
  ab_findings :: "finding list"
  ab_format :: string
  ab_path :: string
  ab_files :: nat
  ab_tensors :: int
  ab_parameters :: int64
  ab_architecture :: string
  ab_precision :: string
  ab_quantization :: string
  ab_licenses :: "string list"
  ab_generated :: bool
  ab_others :: "string list"

record aibom_documents =
  ad_cyclonedx :: string
  ad_spdx :: string

definition aibom_category :: string where "aibom_category = ''aibom''"
definition finding_no_model :: string where "finding_no_model = ''cupel-AIBOM-001''"
definition finding_partial :: string where "finding_partial = ''cupel-AIBOM-002''"
definition finding_unparsed :: string where "finding_unparsed = ''cupel-AIBOM-003''"

definition empty_aibom_report :: aibom_report where
  "empty_aibom_report =
     \<lparr>ab_findings = [], ab_format = [], ab_path = [], ab_files = 0, ab_tensors = 0, ab_parameters = 0,
      ab_architecture = [], ab_precision = [], ab_quantization = [], ab_licenses = [], ab_generated = False,
      ab_others = []\<rparr>"

definition no_model_finding :: finding where
  "no_model_finding =
     \<lparr>f_id = finding_no_model, f_title = ''No model artifact was described'', f_severity = ''Medium'',
      f_category = aibom_category, f_location = ''.'',
      f_description = ''Nothing in the staged artifact was a GGUF, safetensors or ONNX '' @
        ''file, so no AI bill of materials was produced. This is reported rather '' @
        ''than passed silently: a scan with no bill of materials is not the same '' @
        ''as a model whose bill of materials is clean, and a policy requiring one '' @
        ''must be able to tell the difference. Formats that hold weights in a '' @
        ''pickle (.bin, .pt, .ckpt) are covered by the model-inspector scanner '' @
        ''instead, which reports what they execute rather than what they contain.''\<rparr>"

definition partial_finding :: "nat \<Rightarrow> string \<Rightarrow> string list \<Rightarrow> finding" where
  "partial_finding n rel others =
     \<lparr>f_id = finding_partial, f_title = ''Only the primary model is described'', f_severity = ''Medium'',
      f_category = aibom_category, f_location = rel,
      f_description = ''The artifact stages '' @ nat_str n @ '' models and this bill of materials describes '' @
        rel @ ''. The others are named but not analysed: '' @ str_join '', '' others @
        ''. A document that covers part of an artifact reads as covering all of it unless it says otherwise.''\<rparr>"

definition unparsed_finding :: "string \<Rightarrow> string \<Rightarrow> finding" where
  "unparsed_finding rel e =
     \<lparr>f_id = finding_unparsed, f_title = ''Model could not be described'', f_severity = ''High'',
      f_category = aibom_category, f_location = rel,
      f_description = ''A model file was found and could not be read: '' @ e @ ''. An artifact that '' @
        ''defeats the parser still loads in the framework that consumes it, '' @
        ''so this is reported at a severity a policy will not approve by '' @
        ''default (MITRE ATLAS AML.T0076, Corrupt AI Model).''\<rparr>"

definition analyze_options :: "aibom_options \<Rightarrow> analyze_option list" where
  "analyze_options q =
     (if 0 <s ao_max_file_size q then [With_Max_File_Size (ao_max_file_size q)] else []) @
     (if 0 < ao_max_files q then [With_Max_Files (ao_max_files q)] else [])"

definition translate_finding :: "string \<Rightarrow> tool_finding \<Rightarrow> finding" where
  "translate_finding model_path f =
     (let dir = path_dir model_path;
          loc = (if tf_location f = [] then model_path
                 else if \<not> is_abs (tf_location f) \<and> dir \<noteq> ''.'' \<and> dir \<noteq> []
                 then path_join dir (tf_location f) else tf_location f);
          cat = (if tf_category f = [] then aibom_category else tf_category f)
      in \<lparr>f_id = tf_id f, f_title = tf_title f, f_severity = tf_severity f, f_category = cat,
          f_location = loc, f_description = tf_description f\<rparr>)"

definition translate :: "tool_finding list \<Rightarrow> string \<Rightarrow> finding list" where
  "translate fs model_path = map (translate_finding model_path) fs"

definition describe :: "aibom_report \<Rightarrow> tool_artifact \<Rightarrow> aibom_report" where
  "describe r art =
     r\<lparr>ab_findings := ab_findings r @ translate (ta_findings art) (ab_path r), ab_format := ta_format art,
       ab_files := ta_files art, ab_tensors := ta_tensors art, ab_parameters := ta_parameters art,
       ab_architecture := ta_architecture art, ab_precision := ta_dtype art,
       ab_quantization := ta_quantization art, ab_licenses := filter (\<lambda>l. l \<noteq> []) (ta_licenses art)\<rparr>"

definition primary_report :: "string \<Rightarrow> string list \<Rightarrow> aibom_report" where
  "primary_report workspace candidates =
     (let rel = relative workspace (hd candidates); r = empty_aibom_report\<lparr>ab_path := rel\<rparr> in
      if 1 < length candidates
      then let others = map (relative workspace) (tl candidates)
           in r\<lparr>ab_others := others, ab_findings := [partial_finding (length candidates) rel others]\<rparr>
      else r)"

definition generate ::
    "aibom_tool \<Rightarrow> go_time \<Rightarrow> string \<Rightarrow> string + fs_node \<Rightarrow> aibom_options \<Rightarrow>
     string + aibom_report \<times> aibom_documents option" where
  "generate T clock workspace tree q =
     (case find_models (at_detect T) workspace tree of
        Inl e \<Rightarrow> Inl e
      | Inr [] \<Rightarrow> Inr (empty_aibom_report\<lparr>ab_findings := [no_model_finding]\<rparr>, None)
      | Inr (c # cs) \<Rightarrow>
          (let r = primary_report workspace (c # cs) in
           case at_analyze T c (analyze_options q) of
             Inl e \<Rightarrow> Inr (r\<lparr>ab_findings := ab_findings r @ [unparsed_finding (ab_path r) e]\<rparr>, None)
           | Inr art \<Rightarrow>
               (let at = (if ao_generated_at q = zero_time then clock else ao_generated_at q) in
                case at_cyclonedx T art at of
                  Inl e \<Rightarrow> Inl (''render CycloneDX: '' @ e)
                | Inr cdx \<Rightarrow>
                    (case at_spdx T art at of
                       Inl e \<Rightarrow> Inl (''render SPDX: '' @ e)
                     | Inr spdx \<Rightarrow>
                         Inr ((describe r art)\<lparr>ab_generated := True\<rparr>,
                              Some \<lparr>ad_cyclonedx = cdx, ad_spdx = spdx\<rparr>)))))"

section \<open>The step of the scan pod\<close>

text \<open>
  \<open>mkdir\<close> and \<open>write\<close> act on the pod's files; \<open>order\<close> is the order in which the map of the two documents is
  iterated, and \<open>encode\<close> the JSON of the report.
\<close>

record 's aibom_pod =
  ap_tool :: aibom_tool
  ap_tree :: "string \<Rightarrow> 's \<Rightarrow> (string + fs_node) \<times> 's"
  ap_clock :: "'s \<Rightarrow> go_time \<times> 's"
  ap_mkdir :: "string \<Rightarrow> 's \<Rightarrow> string option \<times> 's"
  ap_write :: "string \<Rightarrow> string \<Rightarrow> 's \<Rightarrow> string option \<times> 's"
  ap_order :: "(string \<times> string) list \<Rightarrow> (string \<times> string) list"
  ap_encode :: "aibom_report \<Rightarrow> string + string"

fun write_documents :: "'s aibom_pod \<Rightarrow> string \<Rightarrow> (string \<times> string) list \<Rightarrow> 's \<Rightarrow> string option \<times> 's" where
  "write_documents A dir [] s = (None, s)"
| "write_documents A dir ((n, body) # ds) s =
     (let path = path_join dir n in
      case ap_write A path body s of
        (Some e, s1) \<Rightarrow> (Some (''write '' @ path @ '': '' @ e), s1)
      | (None, s1) \<Rightarrow> write_documents A dir ds s1)"

definition store_documents ::
    "'s aibom_pod \<Rightarrow> string \<Rightarrow> aibom_documents option \<Rightarrow> 's \<Rightarrow> string option \<times> 's" where
  "store_documents A bom_dir docs s =
     (case docs of
        None \<Rightarrow> (None, s)
      | Some d \<Rightarrow>
          if bom_dir = [] then (None, s)
          else
            (case ap_mkdir A bom_dir s of
               (Some e, s1) \<Rightarrow> (Some (''create '' @ bom_dir @ '': '' @ e), s1)
             | (None, s1) \<Rightarrow>
                 write_documents A bom_dir
                   (ap_order A [(''model.cdx.json'', ad_cyclonedx d), (''model.spdx.json'', ad_spdx d)]) s1))"

definition run_aibom :: "'s aibom_pod \<Rightarrow> string \<Rightarrow> string \<Rightarrow> string \<Rightarrow> 's \<Rightarrow> string option \<times> 's" where
  "run_aibom A workspace out bom_dir s =
     (if out = [] then (Some ''--out is required'', s)
      else
        (case ap_tree A workspace s of (tree, s1) \<Rightarrow>
         case ap_clock A s1 of (clock, s2) \<Rightarrow>
           (case generate (ap_tool A) clock workspace tree
                   \<lparr>ao_max_file_size = 0, ao_max_files = 0, ao_generated_at = zero_time\<rparr> of
              Inl e \<Rightarrow> (Some e, s2)
            | Inr (report, docs) \<Rightarrow>
                (case store_documents A bom_dir docs s2 of
                   (Some e, s3) \<Rightarrow> (Some e, s3)
                 | (None, s3) \<Rightarrow>
                     (case ap_encode A report of
                        Inl e \<Rightarrow> (Some (''encode '' @ out @ '': '' @ e), s3)
                      | Inr data \<Rightarrow>
                          (case ap_write A out data s3 of
                             (Some e, s4) \<Rightarrow> (Some (''write '' @ out @ '': '' @ e), s4)
                           | (None, s4) \<Rightarrow> (None, s4)))))))"

section \<open>What is found\<close>

text \<open>The regular files of a tree, by the names on the way to them, and the names a directory can hold.\<close>

inductive holds_file :: "fs_node \<Rightarrow> string list \<Rightarrow> bool" where
  here: "holds_file Regular []"
| below: "(n, x) \<in> set es \<Longrightarrow> holds_file x cs \<Longrightarrow> holds_file (Folder es) (n # cs)"

inductive_simps holds_file_simps:
  "holds_file Regular cs" "holds_file Special cs" "holds_file Unreadable cs" "holds_file (Folder es) cs"

fun names_ok :: "fs_node \<Rightarrow> bool" and entries_ok :: "(string \<times> fs_node) list \<Rightarrow> bool" where
  "names_ok (Folder es) \<longleftrightarrow> entries_ok es"
| "names_ok x \<longleftrightarrow> True"
| "entries_ok [] \<longleftrightarrow> True"
| "entries_ok ((n, x) # es) \<longleftrightarrow> n \<noteq> [] \<and> n \<noteq> ''.'' \<and> CHR ''/'' \<notin> set n \<and> names_ok x \<and> entries_ok es"

definition path_at :: "string \<Rightarrow> string list \<Rightarrow> string" where
  "path_at root cs = foldl path_join root cs"

lemma path_at_simps [simp]:
  "path_at root [] = root" "path_at root (cs @ [n]) = path_join (path_at root cs) n"
  "path_at (path_join root n) cs = path_at root (n # cs)"
  by (simp_all add: path_at_def)

lemma path_at_append: "path_at root (cs @ ds) = path_at (path_at root cs) ds"
  by (simp add: path_at_def)

lemma path_at_join: "root \<noteq> [] \<Longrightarrow> cs \<noteq> [] \<Longrightarrow> path_at root cs = root @ ''/'' @ str_join ''/'' cs"
proof (induction cs rule: rev_induct)
  case (snoc n cs)
  have j: "str_join sep (xs @ [n]) = (if xs = [] then n else str_join sep xs @ sep @ n)" for sep xs
    by (induction sep xs rule: str_join.induct) auto
  show ?case
    using snoc by (cases "cs = []") (simp_all add: path_join_def j path_at_def)
qed simp

definition good_name :: "string \<Rightarrow> bool" where
  "good_name n \<longleftrightarrow> n \<noteq> [] \<and> n \<noteq> ''.'' \<and> CHR ''/'' \<notin> set n"

lemma depth_at:
  assumes "root \<noteq> []" and "list_all good_name cs"
  shows "path_depth root (path_at root cs) = length cs"
proof (cases "cs = []")
  case True
  then show ?thesis by (simp add: path_depth_def relative_def)
next
  case False
  have no: "\<And>p. p \<in> set cs \<Longrightarrow> CHR ''/'' \<notin> set p" using assms(2) by (auto simp: list_all_iff good_name_def)
  have p: "path_at root cs = root @ ''/'' @ str_join ''/'' cs" by (rule path_at_join [OF assms(1) False])
  then have r: "relative root (path_at root cs) = str_join ''/'' cs" by (simp add: relative_def)
  have "str_join ''/'' cs \<noteq> ''.''"
  proof
    assume "str_join ''/'' cs = ''.''"
    then have "split_char CHR ''/'' (str_join ''/'' cs) = [''.'']" by simp
    then have "cs = [''.'']" using split_join_char [OF False no] by simp
    then show False using assms(2) by (simp add: good_name_def)
  qed
  then show ?thesis using split_join_char [OF False no] by (simp add: path_depth_def r)
qed

lemma note_dir_set: "set (note_dir path dirs) = set dirs \<union> (if is_model_file path then {path_dir path} else {})"
  by (auto simp: note_dir_def Let_def)

lemma note_dir_distinct: "distinct dirs \<Longrightarrow> distinct (note_dir path dirs)"
  by (simp add: note_dir_def Let_def)

definition model_dirs :: "string \<Rightarrow> nat \<Rightarrow> fs_node \<Rightarrow> string set" where
  "model_dirs path d x =
     {path_dir (path_at path cs) |cs. holds_file x cs \<and> d + length cs \<le> 7 \<and> is_model_file (path_at path cs)}"

lemma holds_file_Cons:
  "holds_file (Folder ((n, x) # es)) cs \<longleftrightarrow> (\<exists>ds. cs = n # ds \<and> holds_file x ds) \<or> holds_file (Folder es) cs"
  by (simp only: holds_file_simps) auto

lemma model_dirs_Cons:
  "model_dirs path d (Folder ((n, x) # es)) = model_dirs (path_join path n) (Suc d) x \<union> model_dirs path d (Folder es)"
proof (intro set_eqI iffI)
  fix y assume "y \<in> model_dirs path d (Folder ((n, x) # es))"
  then obtain cs where y: "y = path_dir (path_at path cs)" "d + length cs \<le> 7" "is_model_file (path_at path cs)"
    and h: "holds_file (Folder ((n, x) # es)) cs" unfolding model_dirs_def by blast
  from h show "y \<in> model_dirs (path_join path n) (Suc d) x \<union> model_dirs path d (Folder es)"
    unfolding holds_file_Cons
  proof
    assume "\<exists>ds. cs = n # ds \<and> holds_file x ds"
    then obtain ds where ds: "cs = n # ds" "holds_file x ds" by blast
    have "y \<in> model_dirs (path_join path n) (Suc d) x"
      unfolding model_dirs_def mem_Collect_eq by (rule exI [of _ ds]) (use y ds in simp)
    then show ?thesis by blast
  next
    assume "holds_file (Folder es) cs"
    then have "y \<in> model_dirs path d (Folder es)" unfolding model_dirs_def using y by blast
    then show ?thesis by blast
  qed
next
  fix y assume "y \<in> model_dirs (path_join path n) (Suc d) x \<union> model_dirs path d (Folder es)"
  then show "y \<in> model_dirs path d (Folder ((n, x) # es))"
  proof
    assume "y \<in> model_dirs (path_join path n) (Suc d) x"
    then obtain ds where y: "y = path_dir (path_at path (n # ds))" "Suc d + length ds \<le> 7"
      "is_model_file (path_at path (n # ds))" "holds_file x ds" unfolding model_dirs_def path_at_simps by blast
    show ?thesis unfolding model_dirs_def mem_Collect_eq
      by (rule exI [of _ "n # ds"]) (use y in \<open>simp add: holds_file_Cons\<close>)
  next
    assume "y \<in> model_dirs path d (Folder es)"
    then show ?thesis unfolding model_dirs_def holds_file_Cons by blast
  qed
qed

lemma walk_set:
  "root \<noteq> [] \<Longrightarrow> path = path_at root ps \<Longrightarrow> list_all good_name ps \<Longrightarrow> names_ok x \<Longrightarrow> length ps \<le> 7 \<Longrightarrow>
     set (walk root path x dirs) = set dirs \<union> model_dirs path (length ps) x"
  "root \<noteq> [] \<Longrightarrow> path = path_at root ps \<Longrightarrow> list_all good_name ps \<Longrightarrow> entries_ok es \<Longrightarrow> length ps \<le> 6 \<Longrightarrow>
     set (walk_all root path es dirs) = set dirs \<union> model_dirs path (length ps) (Folder es)"
proof (induction root path x dirs and root path es dirs arbitrary: ps and ps rule: walk_walk_all.induct)
  case (1 root path dirs)
  then show ?case by (auto simp: note_dir_set model_dirs_def holds_file_simps)
next
  case (4 root path es dirs)
  show ?case
  proof (cases "max_search_depth < path_depth root path")
    case True
    then have "length ps = 7" using 4 depth_at [of root ps] by (simp add: max_search_depth_def)
    then show ?thesis using True by (auto simp: model_dirs_def holds_file_simps)
  next
    case False
    then have "length ps \<le> 6" using 4 depth_at [of root ps] by (simp add: max_search_depth_def)
    then show ?thesis using 4 False by simp
  qed
next
  case (6 root path n x es dirs)
  have n: "good_name n" using 6 by (simp add: good_name_def)
  have w: "set (walk root (path_join path n) x dirs) = set dirs \<union> model_dirs (path_join path n) (length (ps @ [n])) x"
    using 6 n by (intro 6(1)) auto
  have "set (walk_all root path ((n, x) # es) dirs) =
      set (walk root (path_join path n) x dirs) \<union> model_dirs path (length ps) (Folder es)"
    using 6 by simp
  then show ?case by (simp only: w model_dirs_Cons length_append list.size Un_assoc) simp
qed (auto simp: model_dirs_def holds_file_simps)

lemma walk_distinct:
  "distinct dirs \<Longrightarrow> distinct (walk root path x dirs)"
  "distinct dirs \<Longrightarrow> distinct (walk_all root path es dirs)"
  by (induction root path x dirs and root path es dirs rule: walk_walk_all.induct)
    (auto simp: note_dir_distinct)

text \<open>
  Claim C17. The candidates are the directories that hold a model. For a workspace that is a directory, what is
  found are, once each and the shallowest first, exactly the directories with a regular file of a
  model format at most seven names below the workspace and behind no directory that cannot be read.
\<close>

theorem find_models_exact:
  assumes "workspace \<noteq> []" and "names_ok (Folder es)"
    and "find_models detect workspace (Inr (Folder es)) = Inr ds"
  shows "distinct ds \<and> sorted (map (path_depth workspace) ds) \<and>
    set ds = {path_dir (path_at workspace cs) |cs.
      holds_file (Folder es) cs \<and> length cs \<le> 7 \<and> is_model_file (path_at workspace cs)}"
proof -
  have d: "ds = sort_models workspace (walk workspace workspace (Folder es) [])"
    using assms(3) by (simp add: find_models_def)
  have "set (walk workspace workspace (Folder es) []) = model_dirs workspace 0 (Folder es)"
    using walk_set(1) [of workspace workspace "[]" "Folder es" "[]"] assms by simp
  moreover have "distinct (walk workspace workspace (Folder es) [])" by (rule walk_distinct(1)) simp
  ultimately show ?thesis by (simp add: d sort_models_def model_dirs_def)
qed

text \<open>
  No document without a finding. Whatever is staged and whatever the analyser makes of it, a report is
  marked as generated exactly when there is a document, and a report without one carries a finding of medium or
  high severity in the scanner's own category: nothing described never reads as a clean description.
\<close>

theorem no_document_no_silence:
  assumes "generate T clock workspace tree q = Inr (report, docs)"
  shows "ab_generated report = (docs \<noteq> None) \<and>
    (docs \<noteq> None \<or> list_ex (\<lambda>f. f_category f = aibom_category \<and> f_severity f \<in> {''Medium'', ''High''}) (ab_findings report)) \<and>
    (ab_others report = [] \<or> list_ex (\<lambda>f. f_id f = finding_partial) (ab_findings report))"
proof -
  obtain cs where c: "find_models (at_detect T) workspace tree = Inr cs"
    using assms by (auto simp: generate_def split: sum.splits)
  show ?thesis
  proof (cases cs)
    case Nil
    then have "report = empty_aibom_report\<lparr>ab_findings := [no_model_finding]\<rparr>" "docs = None"
      using assms c by (simp_all add: generate_def)
    then show ?thesis by (simp add: empty_aibom_report_def no_model_finding_def)
  next
    case (Cons p ps)
    define r where "r = primary_report workspace (p # ps)"
    have r: "ab_generated r = False" "ab_others r = [] \<or> list_ex (\<lambda>f. f_id f = finding_partial) (ab_findings r)"
      by (simp_all add: r_def primary_report_def empty_aibom_report_def partial_finding_def Let_def)
    show ?thesis
    proof (cases "at_analyze T p (analyze_options q)")
      case (Inl e)
      then have "report = r\<lparr>ab_findings := ab_findings r @ [unparsed_finding (ab_path r) e]\<rparr>" "docs = None"
        using assms c Cons by (simp_all add: generate_def Let_def r_def)
      then show ?thesis using r by (auto simp: unparsed_finding_def)
    next
      case (Inr art)
      then obtain d where "report = (describe r art)\<lparr>ab_generated := True\<rparr>" "docs = Some d"
        using assms c Cons by (auto simp: generate_def Let_def r_def split: sum.splits if_splits)
      then show ?thesis using r by (auto simp: describe_def)
    qed
  qed
qed

text \<open>
  A model that lies deeper is denied. When every model file of a workspace is more than seven names below
  it, the report says that nothing in the staged artifact was a model file, though the artifact
  holds one.
\<close>

theorem deep_model_is_denied:
  assumes "workspace \<noteq> []" and "names_ok (Folder es)"
    and "\<forall>cs. holds_file (Folder es) cs \<longrightarrow> is_model_file (path_at workspace cs) \<longrightarrow> 7 < length cs"
  shows "generate T clock workspace (Inr (Folder es)) q =
    Inr (empty_aibom_report\<lparr>ab_findings := [no_model_finding]\<rparr>, None)"
proof -
  have "set (walk workspace workspace (Folder es) []) = model_dirs workspace 0 (Folder es)"
    using walk_set(1) [of workspace workspace "[]" "Folder es" "[]"] assms by simp
  also have "\<dots> = {}" using assms(3) by (force simp: model_dirs_def)
  finally have "find_models (at_detect T) workspace (Inr (Folder es)) = Inr []"
    by (simp add: find_models_def sort_models_def)
  then show ?thesis by (simp add: generate_def)
qed

section \<open>Three workspaces\<close>

definition shallow_tree :: "(string \<times> fs_node) list" where
  "shallow_tree = [(''b'', Folder [(''w.onnx'', Regular)]), (''m.GGUF'', Regular), (''secret'', Unreadable)]"

definition deep_tree :: "(string \<times> fs_node) list" where
  "deep_tree = [(''a'', Folder [(''b'', Folder [(''c'', Folder [(''d'', Folder [(''e'', Folder [(''f'', Folder [
     (''g'', Folder [(''w.onnx'', Regular)])])])])])])])]"

definition demo_tool :: "string + tool_artifact \<Rightarrow> aibom_tool" where
  "demo_tool r =
     \<lparr>at_detect = (\<lambda>p. False), at_analyze = (\<lambda>p os. r), at_cyclonedx = (\<lambda>a t. Inr ''cdx''),
      at_spdx = (\<lambda>a t. Inr ''spdx'')\<rparr>"

definition no_aibom_options :: aibom_options where
  "no_aibom_options = \<lparr>ao_max_file_size = 0, ao_max_files = 0, ao_generated_at = zero_time\<rparr>"

lemma shallow_candidates: "find_models (\<lambda>p. False) ''/w'' (Inr (Folder shallow_tree)) = Inr [''/w'', ''/w/b'']"
  by code_simp

theorem find_models_exact_witness:
  "set [''/w'', ''/w/b''] = {path_dir (path_at ''/w'' cs) |cs.
     holds_file (Folder shallow_tree) cs \<and> length cs \<le> 7 \<and> is_model_file (path_at ''/w'' cs)}"
proof -
  have "names_ok (Folder shallow_tree)" by code_simp
  from find_models_exact [OF _ this shallow_candidates] show ?thesis by simp
qed

theorem no_document_no_silence_witness:
  "\<exists>report. generate (demo_tool (Inl ''truncated'')) 5 ''/w'' (Inr (Folder shallow_tree)) no_aibom_options = Inr (report, None) \<and>
     list_ex (\<lambda>f. f_category f = aibom_category \<and> f_severity f \<in> {''Medium'', ''High''}) (ab_findings report) \<and>
     list_ex (\<lambda>f. f_id f = finding_partial) (ab_findings report)"
proof -
  have t: "at_detect (demo_tool (Inl ''truncated'')) = (\<lambda>p. False)" by (simp add: demo_tool_def)
  obtain report where g: "generate (demo_tool (Inl ''truncated'')) 5 ''/w'' (Inr (Folder shallow_tree)) no_aibom_options
      = Inr (report, None)" and o: "ab_others report = [''b'']"
    by (simp add: generate_def t shallow_candidates primary_report_def relative_def Let_def)
      (simp add: demo_tool_def Let_def relative_def)
  from no_document_no_silence [OF g] show ?thesis using g o by auto
qed

theorem deep_model_is_denied_witness:
  "generate (demo_tool (Inl [])) 5 ''/w'' (Inr (Folder deep_tree)) no_aibom_options =
     Inr (empty_aibom_report\<lparr>ab_findings := [no_model_finding]\<rparr>, None) \<and>
   holds_file (Folder deep_tree) [''a'', ''b'', ''c'', ''d'', ''e'', ''f'', ''g'', ''w.onnx''] \<and> is_model_file ''w.onnx''"
proof (intro conjI)
  show "generate (demo_tool (Inl [])) 5 ''/w'' (Inr (Folder deep_tree)) no_aibom_options =
     Inr (empty_aibom_report\<lparr>ab_findings := [no_model_finding]\<rparr>, None)"
  proof (rule deep_model_is_denied)
    show "names_ok (Folder deep_tree)" by code_simp
    have "7 < length cs" if "holds_file (Folder deep_tree) cs" for cs
      using that by (auto simp: deep_tree_def holds_file_simps)
    then show "\<forall>cs. holds_file (Folder deep_tree) cs \<longrightarrow> is_model_file (path_at ''/w'' cs) \<longrightarrow> 7 < length cs"
      by blast
  qed simp
  show "holds_file (Folder deep_tree) [''a'', ''b'', ''c'', ''d'', ''e'', ''f'', ''g'', ''w.onnx'']"
    by (simp add: deep_tree_def holds_file_simps)
  show "is_model_file ''w.onnx''" by code_simp
qed

end
