(* ===== verification/Runner_Steps.thy ===== *)
theory Runner_Steps
  imports Runner
begin

text \<open>
  The other steps of a scan pod (\<open>cmd/runner/main.go\<close>): staging an artifact, inspecting it
  (\<open>internal/inspector\<close>), checking who signed it (\<open>internal/provenance\<close>), and which exit code a command gives.
  None of them has cluster credentials.  The resolvers, the inspector, the verifier of signatures and the JSON
  encoders are libraries, parameters of the model.
\<close>

section \<open>Staging\<close>

record 's fetch_env =
  fe_supports :: "string \<Rightarrow> bool"
  fe_resolve :: "string \<Rightarrow> string \<Rightarrow> 's \<Rightarrow> (string + artifact_metadata) \<times> 's"
  fe_write :: "string \<Rightarrow> artifact_metadata \<Rightarrow> 's \<Rightarrow> string option \<times> 's"

definition run_fetch :: "'s fetch_env \<Rightarrow> string \<Rightarrow> string \<Rightarrow> string \<Rightarrow> 's \<Rightarrow> string option \<times> 's" where
  "run_fetch E uri dest metadata_path s =
     (if uri = [] then (Some ''--uri is required'', s)
      else if \<not> fe_supports E uri then (Some (''no resolver for artifact URI '' @ quote uri), s)
      else
        (case fe_resolve E uri dest s of
           (Inl e, s1) \<Rightarrow> (Some e, s1)
         | (Inr m, s1) \<Rightarrow> if metadata_path \<noteq> [] then fe_write E metadata_path m s1 else (None, s1)))"

section \<open>Inspecting\<close>

record tool_inspection =
  ti_findings :: "tool_finding list"
  ti_files :: int
  ti_formats :: "string list"
  ti_truncated :: bool

record inspection =
  in_findings :: "finding list"
  in_files :: int
  in_formats :: "string list"
  in_truncated :: bool

definition inspect :: "('l \<Rightarrow> string \<Rightarrow> string + tool_inspection) \<Rightarrow> string \<Rightarrow> 'l \<Rightarrow> string + inspection" where
  "inspect tool root limits =
     (case tool limits root of
        Inl e \<Rightarrow> Inl e
      | Inr r \<Rightarrow>
          Inr \<lparr>in_findings = map from_finding (ti_findings r), in_files = ti_files r, in_formats = ti_formats r,
               in_truncated = ti_truncated r\<rparr>)"

text \<open>The inspector succeeds whatever it finds: the verdict is the controller's.\<close>

definition run_inspect_step ::
    "('l \<Rightarrow> string \<Rightarrow> string + tool_inspection) \<Rightarrow> 'l \<Rightarrow> (string \<Rightarrow> inspection \<Rightarrow> 's \<Rightarrow> string option \<times> 's) \<Rightarrow>
     string \<Rightarrow> string \<Rightarrow> 's \<Rightarrow> string option \<times> 's" where
  "run_inspect_step tool limits write workspace out s =
     (if out = [] then (Some ''--out is required'', s)
      else (case inspect tool workspace limits of
              Inl e \<Rightarrow> (Some e, s)
            | Inr r \<Rightarrow> write out r s))"

section \<open>Provenance\<close>

definition no_trust_policy :: trust_policy where
  "no_trust_policy = \<lparr>tr_root = [], tr_require_log = False, tr_publishers = []\<rparr>"

definition load_trust_policy ::
    "pod_files \<Rightarrow> (string \<Rightarrow> string + trust_policy) \<Rightarrow> string \<Rightarrow> string + trust_policy" where
  "load_trust_policy F decode path =
     (if path = [] then Inr no_trust_policy
      else (case pf_read_file F path of
              Inl Not_Exist \<Rightarrow> Inr no_trust_policy
            | Inl (Io_Error e) \<Rightarrow> Inl (''read trust policy: '' @ e)
            | Inr raw \<Rightarrow> (case decode raw of Inl e \<Rightarrow> Inl (''parse trust policy: '' @ e) | Inr p \<Rightarrow> Inr p)))"

definition signed_uri :: "pod_files \<Rightarrow> (string \<Rightarrow> string + artifact_metadata) \<Rightarrow> string \<Rightarrow> string" where
  "signed_uri F decode path =
     (if path = [] then []
      else (case pf_read_file F path of
              Inl e \<Rightarrow> []
            | Inr raw \<Rightarrow> (case decode raw of Inl e \<Rightarrow> [] | Inr m \<Rightarrow> am_uri m)))"

record ('v, 's) provenance_env =
  pe_files :: pod_files
  pe_policy :: "string \<Rightarrow> string + trust_policy"
  pe_metadata :: "string \<Rightarrow> string + artifact_metadata"
  pe_verifier :: "trust_policy \<Rightarrow> string + 'v"
  pe_verify :: "'v \<Rightarrow> string \<Rightarrow> string \<Rightarrow> string + tool_finding list"
  pe_not_configured :: string
  pe_write :: "string \<Rightarrow> finding list \<Rightarrow> 's \<Rightarrow> string option \<times> 's"

definition bad_root_finding :: "string \<Rightarrow> string \<Rightarrow> finding" where
  "bad_root_finding i e =
     \<lparr>f_id = i, f_title = ''Trust root could not be loaded'', f_severity = ''Medium'',
      f_category = ''provenance'', f_location = [], f_description = e\<rparr>"

definition run_verify_provenance ::
    "('v, 's) provenance_env \<Rightarrow> string \<Rightarrow> string \<Rightarrow> string \<Rightarrow> string \<Rightarrow> 's \<Rightarrow> string option \<times> 's" where
  "run_verify_provenance E workspace out policy_path metadata_path s =
     (if out = [] then (Some ''--out is required'', s)
      else
        (case load_trust_policy (pe_files E) (pe_policy E) policy_path of
           Inl e \<Rightarrow> (Some e, s)
         | Inr policy \<Rightarrow>
             (let uri = signed_uri (pe_files E) (pe_metadata E) metadata_path in
              case pe_verifier E policy of
                Inl e \<Rightarrow> pe_write E out [bad_root_finding (pe_not_configured E) e] s
              | Inr v \<Rightarrow>
                  (case pe_verify E v workspace uri of
                     Inl e \<Rightarrow> (Some e, s)
                   | Inr fs \<Rightarrow> pe_write E out (map from_finding fs) s))))"

section \<open>The command\<close>

definition runner_commands :: "string list" where
  "runner_commands =
     [''fetch'', ''inspect'', ''publish'', ''verify-provenance'', ''aibom'', ''evidence'', ''verify-evidence'']"

text \<open>\<open>main\<close>: \<open>run\<close> is the command with its arguments; an error exits 1, a wrong command 2.\<close>

definition runner_main ::
    "(string \<Rightarrow> string list \<Rightarrow> 's \<Rightarrow> string option \<times> 's) \<Rightarrow> string list \<Rightarrow> 's \<Rightarrow> nat \<times> 's" where
  "runner_main run args s =
     (case args of
        [] \<Rightarrow> (2, s)
      | c # rest \<Rightarrow>
          if c \<in> set runner_commands
          then (case run c rest s of (Some e, s1) \<Rightarrow> (1, s1) | (None, s1) \<Rightarrow> (0, s1))
          else if c \<in> {''-h'', ''--help'', ''help''} then (0, s) else (2, s))"

section \<open>Properties\<close>

text \<open>
  Provenance that cannot be checked is not silent. When the trust policy can be read and no verifier can be
  made from it, the step writes a report with one finding of medium severity, and when a verifier is made its findings are written;
  a policy file that is not there is the empty policy, and one that cannot be read or parsed fails the step with nothing written.
\<close>

theorem provenance_outcomes:
  assumes "out \<noteq> []"
  shows "run_verify_provenance E workspace out policy_path metadata_path s =
    (let F = pe_files E; uri = signed_uri F (pe_metadata E) metadata_path;
         judged = (\<lambda>p. case pe_verifier E p of
           Inl e \<Rightarrow> Inr [bad_root_finding (pe_not_configured E) e]
         | Inr v \<Rightarrow> map_sum id (map from_finding) (pe_verify E v workspace uri));
         result = (if policy_path = [] \<or> pf_read_file F policy_path = Inl Not_Exist then judged no_trust_policy
           else case pf_read_file F policy_path of
             Inl e \<Rightarrow> Inl (''read trust policy: '' @ io_text e)
           | Inr raw \<Rightarrow> (case pe_policy E raw of Inl e \<Rightarrow> Inl (''parse trust policy: '' @ e) | Inr p \<Rightarrow> judged p))
     in case result of Inl e \<Rightarrow> (Some e, s) | Inr fs \<Rightarrow> pe_write E out fs s)"
  using assms
  by (cases "policy_path = []"; cases "pf_read_file (pe_files E) policy_path")
    (auto simp: run_verify_provenance_def load_trust_policy_def io_text_def Let_def
      split: file_error.splits sum.splits)

theorem provenance_outcomes_witness:
  "run_verify_provenance
     \<lparr>pe_files = \<lparr>pf_read_dir = (\<lambda>d. Inl Not_Exist), pf_read_file = (\<lambda>p. Inl Not_Exist)\<rparr>,
      pe_policy = (\<lambda>d. Inl []), pe_metadata = (\<lambda>d. Inl []),
      pe_verifier = (\<lambda>p. if tr_publishers p = [] then Inl ''no root'' else Inr ()), pe_verify = (\<lambda>v w u. Inr []),
      pe_not_configured = ''N'', pe_write = (\<lambda>p fs s. (None, fs))\<rparr> ''/w'' ''o'' ''p'' ''m'' [] =
   (None, [bad_root_finding ''N'' ''no root''])"
  by (subst provenance_outcomes) (simp_all add: no_trust_policy_def)

end
