(* ===== verification/Cli_Inspect.thy ===== *)
theory Cli_Inspect
  imports Runner_Steps
begin

text \<open>
  \<open>cupel inspect\<close> (\<open>cmd/cupel/main.go\<close>): a model file, directory or remote artifact is staged, inspected and judged
  by the policy library under no policy, and the verdict becomes the exit code.  The resolvers
  (\<open>internal/resolver\<close>), the inspector and the policy library are third-party code, parameters of the model,
  as are the flags once they are parsed.
\<close>

section \<open>Coverage\<close>

text \<open>What a partial fetch read, as the library reports it: the unread files that can run code, why files were skipped.\<close>

record coverage =
  cv_unread :: "string list"
  cv_skipped :: str_map
  cv_complete :: bool
  cv_summary :: string

definition is_uri :: "string \<Rightarrow> bool" where
  "is_uri s \<longleftrightarrow> (case str_index s ''://'' of None \<Rightarrow> False | Some i \<Rightarrow> 1 < i)"

definition coverage_gap :: "coverage \<Rightarrow> string \<Rightarrow> finding" where
  "coverage_gap cov f =
     \<lparr>f_id = ''TESS-COVERAGE-001'', f_title = ''Executable-capable file was not scanned'',
      f_severity = ''High'', f_category = ''model'', f_location = f,
      f_description = f @ '' was not read ('' @ sm_get (cv_skipped cov) f @
        ''), and its format can execute code when the model is loaded. '' @
        ''This artifact has not been cleared; raise the fetch limits or scan it locally.''\<rparr>"

definition coverage_gaps :: "coverage option \<Rightarrow> finding list" where
  "coverage_gaps c = (case c of None \<Rightarrow> [] | Some cov \<Rightarrow> map (coverage_gap cov) (cv_unread cov))"

section \<open>Counting and judging\<close>

definition count_severity :: "severity_counts \<Rightarrow> finding \<Rightarrow> severity_counts" where
  "count_severity c f =
     (if f_severity f = ''Critical'' then c\<lparr>n_critical := n_critical c + 1\<rparr>
      else if f_severity f = ''High'' then c\<lparr>n_high := n_high c + 1\<rparr>
      else if f_severity f = ''Medium'' then c\<lparr>n_medium := n_medium c + 1\<rparr>
      else if f_severity f = ''Low'' then c\<lparr>n_low := n_low c + 1\<rparr>
      else c\<lparr>n_unknown := n_unknown c + 1\<rparr>)"

definition count_severities :: "finding list \<Rightarrow> severity_counts" where
  "count_severities fs = foldl count_severity no_counts fs"

definition primary_format :: "string list \<Rightarrow> string" where
  "primary_format formats = (if length formats = 1 then formats ! 0 else [])"

text \<open>A severity the table does not list has rank 0.\<close>

definition severity_rank :: "string \<Rightarrow> int" where
  "severity_rank x =
     (if x = ''Critical'' then 0 else if x = ''High'' then 1 else if x = ''Medium'' then 2
      else if x = ''Low'' then 3 else if x = ''Unknown'' then 4 else 0)"

definition inspection_result :: "finding list \<Rightarrow> scanner_result" where
  "inspection_result fs =
     \<lparr>sr_scanner = ''model-inspector'', sr_status = (if 0 < length fs then ''Failed'' else ''Passed''),
      sr_findings = of_nat (length fs), sr_severities = count_severities fs, sr_drift = no_counts,
      sr_unexamined = no_counts, sr_produced = None, sr_message = [], sr_report_ref = [], sr_completed = None\<rparr>"

section \<open>The command\<close>

record staged_artifact =
  sg_uri :: string
  sg_coverage :: "coverage option"

record ('l, 's) inspect_env =
  ie_mkdtemp :: "'s \<Rightarrow> (string + string) \<times> 's"
  ie_remove_all :: "string \<Rightarrow> 's \<Rightarrow> 's"
  ie_supports :: "string \<Rightarrow> bool"
  ie_resolve :: "string \<Rightarrow> string \<Rightarrow> 's \<Rightarrow> (string + staged_artifact) \<times> 's"
  ie_stat :: "string \<Rightarrow> 's \<Rightarrow> string option"
  ie_limits :: 'l
  ie_cap :: "int \<Rightarrow> 'l \<Rightarrow> 'l"
  ie_inspect :: "'s \<Rightarrow> 'l \<Rightarrow> string \<Rightarrow> string + tool_inspection"
  ie_gate :: gate_fn
  ie_violation :: "gate_violation \<Rightarrow> string"
  ie_now :: "'s \<Rightarrow> go_time"
  ie_version :: string

record inspect_opts =
  io_json :: bool
  io_max_files :: int
  io_args :: "string list"

record inspect_output =
  io_path :: string
  io_verdict :: string
  io_risk :: int32
  io_files :: int
  io_formats :: "string list"
  io_severities :: severity_counts
  io_violations :: "string list"
  io_findings :: "finding list"
  io_coverage :: "coverage option"
  io_version :: string

datatype inspect_text = Inspect_Usage | Inspect_Failed string | Inspect_Json inspect_output | Inspect_Human inspect_output

definition exit_of_verdict :: "string \<Rightarrow> nat" where
  "exit_of_verdict v =
     (if v = verdict_quarantined then 3 else if v = verdict_review_required then 2 else 0)"

text \<open>The text output lists the findings by severity, and the coverage only where it is not complete.\<close>

definition print_human :: "inspect_output \<Rightarrow> inspect_output" where
  "print_human r =
     r\<lparr>io_findings := sort_key (\<lambda>f. severity_rank (f_severity f)) (io_findings r),
       io_coverage := (case io_coverage r of
         None \<Rightarrow> None | Some cov \<Rightarrow> if cv_complete cov then None else Some cov)\<rparr>"

definition judge_artifact ::
    "('l, 's) inspect_env \<Rightarrow> inspect_opts \<Rightarrow> string \<Rightarrow> string \<Rightarrow> coverage option \<Rightarrow> 's \<Rightarrow> nat \<times> inspect_text" where
  "judge_artifact E q path target cov s =
     (let limits = (if 0 < io_max_files q then ie_cap E (io_max_files q) (ie_limits E) else ie_limits E) in
      case inspect (ie_inspect E s) path limits of
        Inl e \<Rightarrow> (1, Inspect_Failed e)
      | Inr report \<Rightarrow>
          (let findings = in_findings report @ coverage_gaps cov;
               result = inspection_result findings;
               ev = evaluate (ie_gate E) [result]
                 \<lparr>ar_uri = path, ar_digest = [], ar_media_type = [], ar_format = primary_format (in_formats report),
                  ar_size = None\<rparr> None [] (ie_now E s);
               out = \<lparr>io_path = target, io_verdict = ev_verdict ev, io_risk = ev_risk ev,
                 io_files = in_files report, io_formats = in_formats report,
                 io_severities = sr_severities result, io_violations = map (ie_violation E) (ev_violations ev),
                 io_findings = findings, io_coverage = cov, io_version = ie_version E\<rparr>
           in (exit_of_verdict (ev_verdict ev),
               if io_json q then Inspect_Json out else Inspect_Human (print_human out))))"

definition run_inspect :: "('l, 's) inspect_env \<Rightarrow> inspect_opts \<Rightarrow> 's \<Rightarrow> (nat \<times> inspect_text) \<times> 's" where
  "run_inspect E q s =
     (if length (io_args q) \<noteq> 1 then ((1, Inspect_Usage), s)
      else
        (let target = io_args q ! 0 in
         if is_uri target
         then
           (case ie_mkdtemp E s of
              (Inl e, s1) \<Rightarrow> ((1, Inspect_Failed e), s1)
            | (Inr staged, s1) \<Rightarrow>
                if \<not> ie_supports E target
                then ((1, Inspect_Failed (''no resolver for '' @ quote target)), ie_remove_all E staged s1)
                else
                  (case ie_resolve E target staged s1 of
                     (Inl e, s2) \<Rightarrow> ((1, Inspect_Failed e), ie_remove_all E staged s2)
                   | (Inr a, s2) \<Rightarrow>
                       (judge_artifact E q staged (sg_uri a) (sg_coverage a) s2, ie_remove_all E staged s2)))
         else
           (case ie_stat E target s of
              Some e \<Rightarrow> ((1, Inspect_Failed e), s)
            | None \<Rightarrow> (judge_artifact E q target target None s, s))))"

text \<open>
  \<open>main\<close>: a command line it cannot use exits 2; \<open>parse\<close> is the flag package with \<open>ExitOnError\<close>, which exits 2
  on an unknown flag and 0 when asked for help.
\<close>

datatype inspect_flags = Flags_Help | Flags_Bad | Flags inspect_opts

definition cupel_main ::
    "('l, 's) inspect_env \<Rightarrow> (string list \<Rightarrow> inspect_flags) \<Rightarrow> (string list \<Rightarrow> 's \<Rightarrow> nat \<times> 's) \<Rightarrow>
     string list \<Rightarrow> 's \<Rightarrow> nat \<times> 's" where
  "cupel_main E parse audit args s =
     (case args of
        [] \<Rightarrow> (2, s)
      | c # rest \<Rightarrow>
          if c = ''inspect''
          then (case parse rest of
                  Flags_Help \<Rightarrow> (0, s)
                | Flags_Bad \<Rightarrow> (2, s)
                | Flags q \<Rightarrow> (case run_inspect E q s of (r, s1) \<Rightarrow> (fst r, s1)))
          else if c = ''audit''
          then (if rest = [] \<or> hd rest \<noteq> ''verify'' then (2, s) else audit (tl rest) s)
          else if c = ''version'' \<or> c \<in> {''-h'', ''--help'', ''help''} then (0, s)
          else (2, s))"

section \<open>What is counted\<close>

lemma count_severities_snoc: "count_severities (fs @ [f]) = count_severity (count_severities fs) f"
  by (simp add: count_severities_def)

lemma count_severities_counts:
  "n_critical (count_severities fs) = of_nat (length (filter (\<lambda>f. f_severity f = ''Critical'') fs))"
  "n_high (count_severities fs) = of_nat (length (filter (\<lambda>f. f_severity f = ''High'') fs))"
  "total_counts (count_severities fs) = of_nat (length fs)"
proof -
  have "n_critical (count_severities fs) = of_nat (length (filter (\<lambda>f. f_severity f = ''Critical'') fs)) \<and>
    n_high (count_severities fs) = of_nat (length (filter (\<lambda>f. f_severity f = ''High'') fs)) \<and>
    total_counts (count_severities fs) = of_nat (length fs)"
  proof (induction fs rule: rev_induct)
    case Nil
    then show ?case by (simp add: count_severities_def no_counts_def total_counts_def)
  next
    case (snoc f fs)
    then show ?case by (auto simp: count_severities_snoc count_severity_def total_counts_def algebra_simps)
  qed
  then show "n_critical (count_severities fs) = of_nat (length (filter (\<lambda>f. f_severity f = ''Critical'') fs))"
    "n_high (count_severities fs) = of_nat (length (filter (\<lambda>f. f_severity f = ''High'') fs))"
    "total_counts (count_severities fs) = of_nat (length fs)" by simp_all
qed

section \<open>Properties\<close>

text \<open>
  Claim C18. What was not read is not approved. Suppose the policy library does not approve a result with a finding of
  high severity.  Then a remote artifact of which a file that can run code was not fetched exits 2 or 3
  whatever the inspector found in the rest (up to \<open>2^31\<close> findings), and its staging directory is removed.
\<close>

theorem unread_files_deny_approval:
  assumes law: "\<And>rs a t. \<exists>r \<in> set rs. 0 <s n_high (gi_severities r) \<Longrightarrow>
      ev_verdict (ie_gate E rs a None [] t) \<in> {verdict_quarantined, verdict_review_required}"
    and remote: "io_args q = [target]" "is_uri target" "ie_mkdtemp E s = (Inr staged, s1)" "ie_supports E target"
      "ie_resolve E target staged s1 = (Inr a, s2)"
    and unread: "sg_coverage a = Some cov" "cv_unread cov \<noteq> []"
    and read: "inspect (ie_inspect E s2) staged (if 0 < io_max_files q then ie_cap E (io_max_files q) (ie_limits E) else ie_limits E) = Inr report"
    and size: "length (in_findings report) + length (cv_unread cov) < 2 ^ 31"
  shows "fst (fst (run_inspect E q s)) \<in> {2, 3} \<and> snd (run_inspect E q s) = ie_remove_all E staged s2"
proof -
  define fs where "fs = in_findings report @ coverage_gaps (sg_coverage a)"
  let ?high = "filter (\<lambda>f. f_severity f = ''High'') fs"
  have "set (map (coverage_gap cov) (cv_unread cov)) \<subseteq> set ?high"
    by (auto simp: fs_def coverage_gaps_def unread coverage_gap_def)
  then have "?high \<noteq> []" using unread(2) by (metis empty_set list.map_disc_iff set_empty subset_empty)
  then have pos: "0 < length ?high" by simp
  have "length ?high \<le> length fs" by (rule length_filter_le)
  also have "length fs = length (in_findings report) + length (cv_unread cov)"
    by (simp add: fs_def coverage_gaps_def unread)
  finally have "sint (of_nat (length ?high) :: int32) = int (length ?high)"
    using size by (simp add: signed_of_nat signed_take_bit_int_eq_self)
  then have high: "0 <s n_high (count_severities fs)"
    using pos by (simp add: count_severities_counts word_sless_alt)
  let ?art = "\<lparr>ar_uri = staged, ar_digest = [], ar_media_type = [], ar_format = primary_format (in_formats report),
      ar_size = None\<rparr>"
  have "ev_verdict (evaluate (ie_gate E) [inspection_result fs] ?art None [] (ie_now E s2))
      \<in> {verdict_quarantined, verdict_review_required}"
    unfolding evaluate_def to_rules_def option.case to_exceptions_def list.map to_results_def
    by (rule law) (simp add: to_result_def inspection_result_def high)
  then have "exit_of_verdict (ev_verdict (evaluate (ie_gate E) [inspection_result fs] ?art None [] (ie_now E s2))) \<in> {2, 3}"
    by (auto simp: exit_of_verdict_def)
  then have "fst (judge_artifact E q staged (sg_uri a) (sg_coverage a) s2) \<in> {2, 3}"
    by (simp add: judge_artifact_def read fs_def [symmetric] Let_def)
  then show ?thesis using remote by (simp add: run_inspect_def)
qed

text \<open>
  An undecided verdict exits as an approval. The command exits 0 for every verdict that is neither
  quarantined nor to be reviewed, so for one the library leaves undecided too.
\<close>

theorem undecided_exits_as_approved:
  assumes "io_args q = [path]" and "\<not> is_uri path" and "ie_stat E path s = None"
    and "\<And>l. isl (inspect (ie_inspect E s) path l) = False"
    and "\<And>rs a t. ev_verdict (ie_gate E rs a None [] t) = verdict_unknown"
  shows "fst (fst (run_inspect E q s)) = 0"
proof -
  let ?l = "if 0 < io_max_files q then ie_cap E (io_max_files q) (ie_limits E) else ie_limits E"
  obtain report where "inspect (ie_inspect E s) path ?l = Inr report"
    using assms(4) [of ?l] by (cases "inspect (ie_inspect E s) path ?l") auto
  moreover have "ev_verdict (evaluate (ie_gate E) rs a None [] t) = verdict_unknown" for rs a t
    by (simp add: evaluate_def to_rules_def to_exceptions_def assms(5))
  ultimately show ?thesis
    using assms(1-3)
    by (simp add: run_inspect_def judge_artifact_def Let_def exit_of_verdict_def verdict_unknown_def
        verdict_quarantined_def verdict_review_required_def)
qed

section \<open>Two artifacts\<close>

definition demo_inspector :: "string \<Rightarrow> (unit, string list) inspect_env" where
  "demo_inspector verdict =
     \<lparr>ie_mkdtemp = (\<lambda>s. (Inr ''/tmp/c'', ''/tmp/c'' # s)), ie_remove_all = (\<lambda>d s. filter (\<lambda>x. x \<noteq> d) s),
      ie_supports = (\<lambda>u. True),
      ie_resolve = (\<lambda>u d s. (Inr \<lparr>sg_uri = u, sg_coverage = Some \<lparr>cv_unread = [''big.pt''], cv_skipped = [(''big.pt'', ''too large'')],
        cv_complete = False, cv_summary = ''partial''\<rparr>\<rparr>, s)),
      ie_stat = (\<lambda>p s. None), ie_limits = (), ie_cap = (\<lambda>n l. l),
      ie_inspect = (\<lambda>s l p. Inr \<lparr>ti_findings = [], ti_files = 1, ti_formats = [''gguf''], ti_truncated = False\<rparr>),
      ie_gate = (\<lambda>rs a r es t. \<lparr>ev_verdict = (if \<exists>r \<in> set rs. 0 <s n_high (gi_severities r) then verdict_quarantined else verdict),
        ev_risk = 0, ev_violations = [], ev_waived = [], ev_malware = [], ev_secrets = [], ev_cves = no_counts,
        ev_unexamined = no_counts, ev_drift = no_counts, ev_signature_verified = False, ev_sbom_generated = False,
        ev_aibom_generated = False\<rparr>),
      ie_violation = (\<lambda>v. []), ie_now = (\<lambda>s. 0), ie_version = ''dev''\<rparr>"

theorem unread_files_deny_approval_witness:
  "fst (fst (run_inspect (demo_inspector verdict_approved) \<lparr>io_json = True, io_max_files = 0, io_args = [''hf://o/m'']\<rparr> [])) \<in> {2, 3} \<and>
   snd (run_inspect (demo_inspector verdict_approved) \<lparr>io_json = True, io_max_files = 0, io_args = [''hf://o/m'']\<rparr> []) = []"
proof -
  have u: "is_uri ''hf://o/m''" by code_simp
  show ?thesis
    using unread_files_deny_approval [of "demo_inspector verdict_approved"
        "\<lparr>io_json = True, io_max_files = 0, io_args = [''hf://o/m'']\<rparr>" "''hf://o/m''" "[]" "''/tmp/c''" "[''/tmp/c'']"
        "\<lparr>sg_uri = ''hf://o/m'', sg_coverage = Some \<lparr>cv_unread = [''big.pt''], cv_skipped = [(''big.pt'', ''too large'')],
          cv_complete = False, cv_summary = ''partial''\<rparr>\<rparr>" "[''/tmp/c'']", OF _ _ u]
    by (simp add: demo_inspector_def inspect_def)
qed

definition idle_inspector :: "(unit, unit) inspect_env" where
  "idle_inspector =
     \<lparr>ie_mkdtemp = (\<lambda>s. (Inr [], s)), ie_remove_all = (\<lambda>d s. s), ie_supports = (\<lambda>u. False),
      ie_resolve = (\<lambda>u d s. (Inl [], s)), ie_stat = (\<lambda>p s. None), ie_limits = (), ie_cap = (\<lambda>n l. l),
      ie_inspect = (\<lambda>s l p. Inr \<lparr>ti_findings = [], ti_files = 0, ti_formats = [], ti_truncated = True\<rparr>),
      ie_gate = (\<lambda>rs a r es t. \<lparr>ev_verdict = verdict_unknown, ev_risk = 0, ev_violations = [], ev_waived = [],
        ev_malware = [], ev_secrets = [], ev_cves = no_counts, ev_unexamined = no_counts, ev_drift = no_counts,
        ev_signature_verified = False, ev_sbom_generated = False, ev_aibom_generated = False\<rparr>),
      ie_violation = (\<lambda>v. []), ie_now = (\<lambda>s. 0), ie_version = ''dev''\<rparr>"

theorem undecided_exits_as_approved_witness:
  "fst (fst (run_inspect idle_inspector \<lparr>io_json = True, io_max_files = 0, io_args = [''m'']\<rparr> ())) = 0"
proof (rule undecided_exits_as_approved)
  show "\<not> is_uri ''m''" by code_simp
qed (simp_all add: idle_inspector_def inspect_def)

end
