(* ===== verification/Startup.thy ===== *)
theory Startup
  imports Api_Safety Webhook_Gate Webhook_Sign Scan_Job Maintenance Promotion Compliance_Control
begin

text \<open>
  How the two long-running processes are put together: \<open>cmd/api/main.go\<close> with \<open>New\<close> of
  \<open>internal/api/server.go\<close>, which starts the console's server from its flags and files or refuses to, and
  \<open>cmd/manager/main.go\<close>, which gives the controllers, the admission gate, the signer and the maintenance
  loop what they were asked for on the command line.
\<close>

section \<open>Flags\<close>

definition env_or :: "(string \<Rightarrow> string) \<Rightarrow> string \<Rightarrow> string \<Rightarrow> string" where
  "env_or env key fallback = (let v = env key in if v \<noteq> [] then v else fallback)"

definition split_list :: "string \<Rightarrow> string list" where
  "split_list s = filter (\<lambda>p. p \<noteq> []) (map trim_space (split_char CHR '','' s))"

section \<open>The cache of the console\<close>

text \<open>
  \<open>stripServerMetadata\<close> of an object's metadata, of which the model has no managed fields.
\<close>

definition last_applied :: string where
  "last_applied = ''kubectl.kubernetes.io/last-applied-configuration''"

definition strip_server_metadata :: "object_meta \<Rightarrow> object_meta" where
  "strip_server_metadata m =
     (if map_of (om_annotations m) last_applied \<noteq> None
      then m\<lparr>om_annotations := filter (\<lambda>kv. fst kv \<noteq> last_applied) (om_annotations m)\<rparr>
      else m)"

section \<open>The files of the console\<close>

datatype file_fault = Missing | Unreadable string

definition load_bindings ::
    "(string \<Rightarrow> file_fault + string) \<Rightarrow> (string \<Rightarrow> string + binding list) \<Rightarrow> (string \<Rightarrow> string + binding list) \<Rightarrow> string
       \<Rightarrow> string + binding list"
where
  "load_bindings read obj lst path =
     (case read path of
        Inl Missing \<Rightarrow>
          Inl (''no role bindings at '' @ path @ ''. Without them nobody can be granted a role, and '' @
               ''defaulting to a permissive mapping would hand every finding to every '' @
               ''authenticated user. Mount a bindings file, or see config/samples for one'')
      | Inl (Unreadable e) \<Rightarrow> Inl e
      | Inr raw \<Rightarrow>
          (case parse_bindings obj lst raw of
             Inl e \<Rightarrow> Inl (''parse '' @ path @ '': '' @ e)
           | Inr bs \<Rightarrow>
               (case bindings_validate bs of
                  Some e \<Rightarrow> Inl (path @ '': '' @ e)
                | None \<Rightarrow> Inr bs)))"

definition fault_str :: "string \<Rightarrow> file_fault \<Rightarrow> string" where
  "fault_str path f = (case f of Missing \<Rightarrow> ''open '' @ path @ '': no such file or directory'' | Unreadable e \<Rightarrow> e)"

definition load_session_key :: "(string \<Rightarrow> file_fault + string) \<Rightarrow> string \<Rightarrow> string + string" where
  "load_session_key read path =
     (if path = [] then Inr []
      else
        (case read path of
           Inl f \<Rightarrow> Inl (''read session key: '' @ fault_str path f)
         | Inr raw \<Rightarrow>
             (let key = trim_space raw in
              if length key < 32
              then Inl (''the session key must be at least 32 bytes; '' @ path @ '' holds '' @ nat_str (length key))
              else Inr key)))"

section \<open>Starting the console\<close>

record api_options =
  ao_namespace :: string
  ao_bindings_path :: string
  ao_oidc :: oidc_config
  ao_session_ttl :: duration
  ao_session_key_path :: string
  ao_cert :: string
  ao_key :: string

text \<open>
  What the process relies on: its files, the YAML and session libraries, the random bytes, the
  discovery of the identity provider, which gives the provider and, for the scopes, the address to log in at.
\<close>

record api_env =
  ae_read :: "string \<Rightarrow> file_fault + string"
  ae_obj :: "string \<Rightarrow> string + binding list"
  ae_lst :: "string \<Rightarrow> string + binding list"
  ae_mac :: "string \<Rightarrow> string \<Rightarrow> string"
  ae_encode :: "session \<Rightarrow> string + string"
  ae_decode :: "string \<Rightarrow> session option"
  ae_random_key :: "string option"
  ae_discover :: "string \<Rightarrow> string + oidc_provider \<times> (string list \<Rightarrow> string \<Rightarrow> string)"
  ae_console :: string

definition new_authenticator :: "api_env \<Rightarrow> oidc_config \<Rightarrow> string + oidc_provider \<times> (string \<Rightarrow> string)" where
  "new_authenticator E cfg =
     (if oc_issuer cfg = [] \<or> oc_client cfg = [] then Inl ''OIDC requires an issuer URL and a client ID''
      else
        (case ae_discover E (trim_right_if (\<lambda>c. c = CHR ''/'') (oc_issuer cfg)) of
           Inl e \<Rightarrow> Inl (''discover OIDC issuer '' @ quote (oc_issuer cfg) @ '': '' @ e)
         | Inr (p, url) \<Rightarrow> Inr (p, url (oidc_scopes cfg))))"

datatype 'a start = Refused_Start string | Crashed | Started 'a

text \<open>\<open>New\<close>: the server over the cluster's clients \<open>base\<close>.\<close>

definition new_server ::
    "api_env \<Rightarrow> 's api_server \<Rightarrow> api_options \<Rightarrow> binding list \<Rightarrow> string \<Rightarrow> 's api_server start"
where
  "new_server E base opts bs key =
     (if oc_issuer (ao_oidc opts) = []
      then Refused_Start (''the console API requires an OIDC issuer: it serves finding detail, and there is no '' @
             ''anonymous mode. Set --oidc-issuer-url, or disable the console with --enable-console=false'')
      else
        (case bindings_validate bs of
           Some e \<Rightarrow> Refused_Start e
         | None \<Rightarrow>
             (case (if key = [] then ae_random_key E else Some key) of
                None \<Rightarrow> Crashed
              | Some k \<Rightarrow>
                  (case new_session_codec (ae_mac E) (ae_encode E) (ae_decode E) k (ao_session_ttl opts) of
                     Inl e \<Rightarrow> Refused_Start e
                   | Inr codec \<Rightarrow>
                       (case new_authenticator E (ao_oidc opts) of
                          Inl e \<Rightarrow> Refused_Start e
                        | Inr (provider, url) \<Rightarrow>
                            Started (base\<lparr>ap_namespace := ao_namespace opts, ap_bindings := bs, ap_codec := codec,
                              ap_oidc := ao_oidc opts, ap_provider := provider, ap_auth_url := url,
                              ap_console := ae_console E\<rparr>))))))"

text \<open>
  \<open>run\<close>: the clients of the cluster, once the cache has synced, or the error of getting them; then the
  files, the server, and whether it listens with TLS.
\<close>

definition serves_tls :: "api_options \<Rightarrow> bool" where
  "serves_tls opts \<longleftrightarrow> \<not> (ao_cert opts = [] \<or> ao_key opts = [])"

definition run_api :: "api_env \<Rightarrow> string + 's api_server \<Rightarrow> api_options \<Rightarrow> ('s api_server \<times> bool) start" where
  "run_api E cluster opts =
     (case cluster of
        Inl e \<Rightarrow> Refused_Start e
      | Inr base \<Rightarrow>
          (case load_bindings (ae_read E) (ae_obj E) (ae_lst E) (ao_bindings_path opts) of
             Inl e \<Rightarrow> Refused_Start e
           | Inr bs \<Rightarrow>
               (case load_session_key (ae_read E) (ao_session_key_path opts) of
                  Inl e \<Rightarrow> Refused_Start e
                | Inr key \<Rightarrow>
                    (case new_server E base opts bs key of
                       Refused_Start e \<Rightarrow> Refused_Start e
                     | Crashed \<Rightarrow> Crashed
                     | Started A \<Rightarrow> Started (A, serves_tls opts)))))"

section \<open>Starting the manager\<close>

text \<open>The flags that reach a modelled component; \<open>int\<close> of the code has 64 bits.\<close>

record manager_flags =
  mf_webhook :: bool
  mf_operator_image :: string
  mf_registry :: string
  mf_account :: string
  mf_pull_secret :: string
  mf_storage_secret :: string
  mf_workspace_size :: string
  mf_job_ttl :: int64
  mf_default_policy :: string
  mf_max_report_days :: int64
  mf_require_report :: bool
  mf_deadline_minutes :: int64
  mf_audit_namespace :: string
  mf_archive_dir :: string
  mf_archive_threshold :: int64
  mf_archive_retain :: int64
  mf_scan_days :: int64
  mf_maintenance_minutes :: int64
  mf_report_namespace :: string

text \<open>
  The trusted root and the demand for a transparency log are in the trust synchronisation of the scan
  controller that \<open>wire_scan_ctl\<close> is given.
\<close>

text \<open>A multiple of a unit as \<open>time.Duration\<close> computes it, in 64 bits.\<close>

definition go_units :: "int64 \<Rightarrow> duration \<Rightarrow> duration" where
  "go_units n unit = sint (n * word_of_int unit)"

definition go_days :: "int64 \<Rightarrow> duration" where
  "go_days n = sint (n * 24 * word_of_int hour)"

definition manager_job_config :: "(string \<Rightarrow> string + 'q) \<Rightarrow> 'q \<Rightarrow> manager_flags \<Rightarrow> string + 'q job_config" where
  "manager_job_config quantity no_tmp f =
     (if mf_operator_image f = []
      then Inl ''operator image is required; set --operator-image or CUPEL_OPERATOR_IMAGE''
      else
        (case quantity (mf_workspace_size f) of
           Inl e \<Rightarrow> Inl (''invalid --workspace-size: '' @ e)
         | Inr q \<Rightarrow>
             Inr \<lparr>jc_operator_image = mf_operator_image f, jc_registry = mf_registry f, jc_account = mf_account f,
                  jc_pull_secret = mf_pull_secret f, jc_storage_secret = mf_storage_secret f,
                  jc_workspace_size = q, jc_tmp_size = no_tmp, jc_ttl_after = ucast (mf_job_ttl f)\<rparr>))"

definition wire_recorder ::
    "manager_flags \<Rightarrow> (string \<Rightarrow> audit_record \<Rightarrow> 's \<Rightarrow> ('e + audit_record) \<times> 's) \<Rightarrow>
     (audit_record \<Rightarrow> 's \<Rightarrow> ('e + audit_record) \<times> 's) option"
where
  "wire_recorder f to_log = (if mf_audit_namespace f \<noteq> [] then Some (to_log (mf_audit_namespace f)) else None)"

definition wire_scan_ctl ::
    "manager_flags \<Rightarrow> (string \<Rightarrow> audit_record \<Rightarrow> 's \<Rightarrow> ('e + audit_record) \<times> 's) \<Rightarrow> ('s, 'j, 'e) scan_ctl \<Rightarrow> ('s, 'j, 'e) scan_ctl"
where
  "wire_scan_ctl f to_log C =
     C\<lparr>sc_deadline := go_units (mf_deadline_minutes f) minute, sc_append := wire_recorder f to_log\<rparr>"

definition wire_promoter ::
    "manager_flags \<Rightarrow> (string \<Rightarrow> audit_record \<Rightarrow> 's \<Rightarrow> ('e + audit_record) \<times> 's) \<Rightarrow> ('s, 'e) promoter \<Rightarrow> ('s, 'e) promoter"
where
  "wire_promoter f to_log C = C\<lparr>pt_append := wire_recorder f to_log\<rparr>"

definition wire_gate ::
    "manager_flags \<Rightarrow> (string \<Rightarrow> audit_record \<Rightarrow> 's \<Rightarrow> ('e + audit_record) \<times> 's) \<Rightarrow> ('s, 'e) model_gate \<Rightarrow> ('s, 'e) model_gate"
where
  "wire_gate f to_log G =
     (let gate = G\<lparr>mg_append := None, mg_max_age := 0, mg_default_policy := mf_default_policy f,
                   mg_require_report := mf_require_report f, mg_report_namespace := mf_report_namespace f\<rparr>
      in if mf_audit_namespace f \<noteq> []
         then gate\<lparr>mg_append := Some (to_log (mf_audit_namespace f)), mg_max_age := go_days (mf_max_report_days f)\<rparr>
         else gate)"

definition wire_signer ::
    "manager_flags \<Rightarrow> (string \<Rightarrow> audit_record \<Rightarrow> 's \<Rightarrow> ('e + audit_record) \<times> 's) \<Rightarrow> ('s, 'e) signer \<Rightarrow> ('s, 'e) signer"
where
  "wire_signer f to_log S = S\<lparr>sg_append := wire_recorder f to_log\<rparr>"

definition wire_compliance :: "manager_flags \<Rightarrow> 's compliance_ctl \<Rightarrow> 's compliance_ctl" where
  "wire_compliance f C = C\<lparr>cc_enforcing := mf_webhook f\<rparr>"

definition scan_retention :: "int64 \<Rightarrow> duration" where
  "scan_retention days =
     (if days = 0 then -1
      else if 0 <s days then go_days days
      else default_max_age)"

text \<open>The pruner and the archiver over the cluster's clients, which \<open>P\<close>, \<open>R\<close> and \<open>codec\<close> hold.\<close>

definition wire_loop ::
    "manager_flags \<Rightarrow> (string \<Rightarrow> 's sink) \<Rightarrow> record_codec \<Rightarrow> 's recorder \<Rightarrow> 's pruner \<Rightarrow> 's loop"
where
  "wire_loop f dir codec R P =
     (let recorder = R\<lparr>rec_ns := mf_audit_namespace f\<rparr>
      in \<lparr>lp_recorder = Some recorder,
          lp_archiver = (if mf_archive_dir f \<noteq> []
            then Some \<lparr>ac_recorder = recorder, ac_sink = dir (mf_archive_dir f), ac_codec = codec,
                       ac_threshold = sint (mf_archive_threshold f), ac_retain = sint (mf_archive_retain f)\<rparr>
            else None),
          lp_pruner = Some (P\<lparr>pn_namespace := [], pn_max_age := scan_retention (mf_scan_days f)\<rparr>),
          lp_interval = go_units (mf_maintenance_minutes f) minute\<rparr>)"

text \<open>\<open>main\<close>: the components over the cluster's clients, or the reason the process exits with.\<close>

record ('s, 'j, 'e, 'q) manager =
  mn_jobs :: "'q job_config"
  mn_scans :: "('s, 'j, 'e) scan_ctl"
  mn_promotions :: "('s, 'e) promoter"
  mn_compliance :: "'s compliance_ctl"
  mn_gate :: "('s, 'e) model_gate option"
  mn_signer :: "('s, 'e) signer option"
  mn_loop :: "'s loop"

definition start_manager ::
    "(string \<Rightarrow> string + 'q) \<Rightarrow> 'q \<Rightarrow> manager_flags \<Rightarrow> (string \<Rightarrow> audit_record \<Rightarrow> 's \<Rightarrow> ('e + audit_record) \<times> 's) \<Rightarrow>
     ('q job_config \<Rightarrow> ('s, 'j, 'e) scan_ctl) \<Rightarrow> ('s, 'e) promoter \<Rightarrow> 's compliance_ctl \<Rightarrow> ('s, 'e) model_gate \<Rightarrow> ('s, 'e) signer \<Rightarrow>
     (string \<Rightarrow> 's sink) \<Rightarrow> record_codec \<Rightarrow> 's recorder \<Rightarrow> 's pruner \<Rightarrow> string + ('s, 'j, 'e, 'q) manager"
where
  "start_manager quantity no_tmp f to_log scans Pr Co G S dir codec R P =
     (case manager_job_config quantity no_tmp f of
        Inl e \<Rightarrow> Inl e
      | Inr cfg \<Rightarrow>
          Inr \<lparr>mn_jobs = cfg, mn_scans = wire_scan_ctl f to_log (scans cfg),
               mn_promotions = wire_promoter f to_log Pr, mn_compliance = wire_compliance f Co,
               mn_gate = (if mf_webhook f then Some (wire_gate f to_log G) else None),
               mn_signer = (if mf_webhook f then Some (wire_signer f to_log S) else None),
               mn_loop = wire_loop f dir codec R P\<rparr>)"

text \<open>The readiness check: with the webhook, whether its server has started.\<close>

definition manager_ready :: "manager_flags \<Rightarrow> bool \<Rightarrow> bool" where
  "manager_ready f started = (if mf_webhook f then started else True)"

text \<open>Every component records to the same log or none does, and enforcement counts as evidence only where a gate runs.\<close>

lemma started_manager_wiring:
  assumes "start_manager quantity no_tmp f to_log scans Pr Co G S dir codec R P = Inr M"
  shows "sc_append (mn_scans M) = wire_recorder f to_log" "pt_append (mn_promotions M) = wire_recorder f to_log"
    "mn_gate M = Some gate \<Longrightarrow> mg_append gate = wire_recorder f to_log"
    "mn_signer M = Some signer \<Longrightarrow> sg_append signer = wire_recorder f to_log"
    "cc_enforcing (mn_compliance M) \<longleftrightarrow> mn_gate M \<noteq> None" "jc_operator_image (mn_jobs M) \<noteq> []"
  using assms
  by (auto simp: start_manager_def manager_job_config_def wire_scan_ctl_def wire_promoter_def wire_compliance_def wire_gate_def
      wire_signer_def wire_recorder_def Let_def split: sum.splits if_splits)

section \<open>Durations from flags\<close>

lemma sint_word_of_int_small: "0 \<le> k \<Longrightarrow> k < 2 ^ 63 \<Longrightarrow> sint (word_of_int k :: int64) = k"
  by (simp add: sint_sbintrunc' signed_take_bit_int_eq_self)

lemma go_days_exact:
  assumes "0 \<le> sint d" "sint d \<le> 106751"
  shows "go_days d = sint d * (24 * hour)"
proof -
  have u: "d * 24 * word_of_int hour = word_of_int (sint d * (24 * hour))"
    by (simp add: mult.assoc)
  have "sint d * (24 * hour) < 2 ^ 63" "0 \<le> sint d * (24 * hour)"
    using assms by (simp_all add: hour_def minute_def second_def)
  then show ?thesis unfolding go_days_def u by (rule sint_word_of_int_small [rotated])
qed

lemma go_minutes_exact:
  assumes "0 \<le> sint n" "sint n \<le> 153722867"
  shows "go_units n minute = sint n * minute"
proof -
  have u: "n * word_of_int minute = word_of_int (sint n * minute)" by simp
  have "sint n * minute < 2 ^ 63" "0 \<le> sint n * minute"
    using assms by (simp_all add: minute_def second_def)
  then show ?thesis unfolding go_units_def u by (rule sint_word_of_int_small [rotated])
qed

text \<open>
   Flags to durations.  The pruner the manager starts keeps finished scans for the days asked for, for any count of
  days from 1 to 106751; for 0 days it does nothing, and a negative count gives the default of 90 days.
  Above that the product wraps: 106752 days also mean for ever, and 213504 days less than an hour.
\<close>

theorem scan_retention_bounds:
  "let P = (\<lambda>d. the (lp_pruner (wire_loop (f\<lparr>mf_scan_days := d\<rparr>) dir codec R Q))) in
    (0 < sint d \<longrightarrow> sint d \<le> 106751 \<longrightarrow> prune_age (P d) = sint d * (24 * hour)) \<and>
    (d = 0 \<longrightarrow> prune_run (P d) s = ((0, None), s)) \<and>
    (sint d < 0 \<longrightarrow> prune_age (P d) = 90 * (24 * hour)) \<and>
    prune_run (P 106752) s = ((0, None), s) \<and> 0 < prune_age (P 213504) \<and> prune_age (P 213504) < hour"
proof -
  define P where "P d = the (lp_pruner (wire_loop (f\<lparr>mf_scan_days := d\<rparr>) dir codec R Q))" for d
  have a: "prune_age (P e) = (if scan_retention e = 0 then default_max_age else scan_retention e)" for e
    by (simp add: P_def wire_loop_def prune_age_def Let_def)
  have pos: "prune_age (P d) = sint d * (24 * hour)" if "0 < sint d" "sint d \<le> 106751"
    using that by (auto simp: a scan_retention_def go_days_exact word_sless_alt hour_def minute_def second_def)
  have neg: "prune_age (P d) = 90 * (24 * hour)" if "sint d < 0"
    using that by (auto simp: a scan_retention_def word_sless_alt default_max_age_def hour_def minute_def second_def)
  have never: "prune_age (P 0) < 0" by (simp add: a scan_retention_def)
  have wraps: "scan_retention 106752 < 0" "0 < scan_retention 213504" "scan_retention 213504 < hour" by code_simp+
  show ?thesis unfolding Let_def P_def [symmetric]
    using pos neg never wraps by (auto simp: a prune_run_def)
qed

section \<open>The age limit of the gate\<close>

text \<open>
   Claim C36. The age limit and the audit log.  With recording to the audit log on, the gate the manager starts admits a
  report only within the days asked for.  With recording off it decides every request as if no limit
  had been asked for: an approval of any age is taken.
\<close>

theorem gate_age_limit_needs_log:
  "let limit = sint (mf_max_report_days f) * (24 * hour);
       gate = (\<lambda>days. wire_gate (f\<lparr>mf_max_report_days := days\<rparr>) to_log G) in
    (mf_audit_namespace f \<noteq> [] \<longrightarrow> 0 < limit \<longrightarrow> sint (mf_max_report_days f) \<le> 106751 \<longrightarrow>
      evaluate_report (mg_max_age (gate (mf_max_report_days f))) now report ref promotion = None \<longrightarrow>
      (\<exists>t. rt_last_scan (mr_status report) = Some t \<and> time_sub now t \<le> limit)) \<and>
    (mf_audit_namespace f = [] \<longrightarrow>
      gate_ruling (gate (mf_max_report_days f)) req s = gate_ruling (gate 0) req s \<and>
      (evaluate_report (mg_max_age (gate (mf_max_report_days f))) now report ref promotion = None
        \<longleftrightarrow> approval_ok 0 now report ref promotion))"
proof -
  define limit where "limit = sint (mf_max_report_days f) * (24 * hour)"
  define gate where "gate days = wire_gate (f\<lparr>mf_max_report_days := days\<rparr>) to_log G" for days
  have on: "mg_max_age (gate (mf_max_report_days f)) = limit"
    if "mf_audit_namespace f \<noteq> []" "0 < limit" "sint (mf_max_report_days f) \<le> 106751"
  proof -
    have "0 < sint (mf_max_report_days f)" using that(2) by (simp add: limit_def hour_def minute_def second_def)
    then show ?thesis using that by (simp add: gate_def wire_gate_def limit_def go_days_exact)
  qed
  have off: "gate days = gate 0" "mg_max_age (gate days) = 0" if "mf_audit_namespace f = []" for days
    using that by (simp_all add: gate_def wire_gate_def)
  have fresh: "\<exists>t. rt_last_scan (mr_status report) = Some t \<and> time_sub now t \<le> limit"
    if "0 < limit" "approval_ok limit now report ref promotion"
    using that by (auto simp: approval_ok_def split: option.splits)
  show ?thesis unfolding Let_def limit_def [symmetric] gate_def [symmetric] evaluate_report_None
  proof (intro conjI impI)
    show "\<exists>t. rt_last_scan (mr_status report) = Some t \<and> time_sub now t \<le> limit"
      if "mf_audit_namespace f \<noteq> []" "0 < limit" "sint (mf_max_report_days f) \<le> 106751"
        "approval_ok (mg_max_age (gate (mf_max_report_days f))) now report ref promotion"
      using fresh [OF that(2)] that(4) unfolding on [OF that(1-3)] by simp
    show "gate_ruling (gate (mf_max_report_days f)) req s = gate_ruling (gate 0) req s" if "mf_audit_namespace f = []"
      unfolding off(1) [OF that, of "mf_max_report_days f"] ..
    show "approval_ok (mg_max_age (gate (mf_max_report_days f))) now report ref promotion \<longleftrightarrow> approval_ok 0 now report ref promotion"
      if "mf_audit_namespace f = []"
      unfolding off(2) [OF that] ..
  qed
qed


section \<open>What a started console has\<close>

lemma bindings_validate_all:
  assumes "bindings_validate bs = None" "b \<in> set bs"
  shows "binding_validate b = None"
proof -
  let ?line = "\<lambda>(i, b). case binding_validate b of None \<Rightarrow> [] | Some e \<Rightarrow> [''  ['' @ nat_str i @ ''] '' @ e]"
  have none: "concat (map ?line (enumerate 0 bs)) = []"
    using assms(1) unfolding bindings_validate_def Let_def by (metis (no_types) option.distinct(1))
  have "b \<in> snd ` set (enumerate 0 bs)" using assms(2) by (metis map_snd_enumerate set_map)
  then obtain i where i: "(i, b) \<in> set (enumerate 0 bs)" by auto
  have "?line (i, b) = []" by (rule bspec [OF none [unfolded concat_eq_Nil_conv set_map] imageI [OF i]])
  then show ?thesis by (cases "binding_validate b") simp_all
qed

lemma load_bindings_Inr:
  assumes "load_bindings read obj lst path = Inr bs"
  shows "\<exists>raw. read path = Inr raw \<and> parse_bindings obj lst raw = Inr bs" "bindings_validate bs = None" "bs \<noteq> []"
proof -
  show "\<exists>raw. read path = Inr raw \<and> parse_bindings obj lst raw = Inr bs" "bindings_validate bs = None"
    using assms by (auto simp: load_bindings_def split: sum.splits file_fault.splits option.splits)
  then show "bs \<noteq> []" by (auto simp: parse_bindings_def split: if_splits sum.splits option.splits)
qed

lemma new_server_Started:
  assumes "new_server E base opts bs key = Started A"
  shows "oc_issuer (ap_oidc A) \<noteq> []" "ap_bindings A = bs" "32 \<le> length (sk_key (ap_codec A))" "0 < sk_ttl (ap_codec A)"
    "key \<noteq> [] \<Longrightarrow> sk_key (ap_codec A) = key" "ap_namespace A = ao_namespace opts"
  using assms
  by (auto simp: new_server_def new_session_codec_def hour_def minute_def second_def
      split: if_splits option.splits sum.splits)

lemma session_rights:
  assumes "session_subject A rq s = Some sub" "can sub cap"
  shows "\<exists>v sess. rq_cookie rq session_cookie = Some v \<and> verify_session (ap_codec A) (fst (ap_now A s)) v = Inr sess \<and>
    (\<exists>b \<in> set (ap_bindings A). (\<exists>g \<in> set (se_groups sess). binding_matches b g) \<and> cap \<in> set (caps_of (b_role b)))"
  using assms
  by (auto simp: session_subject_def authenticate_def subject_can matched_def
      split: option.splits prod.splits sum.splits) blast


section \<open>The smaller steps\<close>

lemma map_of_without:
  "map_of (filter (\<lambda>kv. fst kv \<noteq> a) m) k = (if k = a then None else map_of m k)"
  by (induction m) auto

lemma strip_keeps_metadata:
  "k \<noteq> last_applied \<Longrightarrow> sm_get (om_annotations (strip_server_metadata m)) k = sm_get (om_annotations m) k"
  "om_name (strip_server_metadata m) = om_name m" "om_namespace (strip_server_metadata m) = om_namespace m"
  "om_labels (strip_server_metadata m) = om_labels m" "strip_server_metadata (strip_server_metadata m) = strip_server_metadata m"
  by (auto simp: strip_server_metadata_def sm_get_def map_of_without)

lemma session_key_read:
  "load_session_key read path = Inr key \<Longrightarrow> key = [] \<longleftrightarrow> path = []"
  "load_session_key read path = Inr key \<Longrightarrow> path \<noteq> [] \<Longrightarrow> 32 \<le> length key"
  by (auto simp: load_session_key_def Let_def split: if_splits sum.splits)


section \<open>Instances\<close>

definition demo_flags :: manager_flags where
  "demo_flags =
     \<lparr>mf_webhook = True, mf_operator_image = ''cupel'', mf_registry = [], mf_account = ''cupel-scanner'', mf_pull_secret = [],
      mf_storage_secret = [], mf_workspace_size = ''50Gi'', mf_job_ttl = 3600, mf_default_policy = [],
      mf_max_report_days = 180, mf_require_report = False, mf_deadline_minutes = 120, mf_audit_namespace = [],
      mf_archive_dir = [], mf_archive_threshold = 50000, mf_archive_retain = 10000, mf_scan_days = 30,
      mf_maintenance_minutes = 60, mf_report_namespace = ''cupel''\<rparr>"

definition idle_pruner :: "arch_world pruner" where
  "idle_pruner =
     \<lparr>pn_list_scans = (\<lambda>ns w. (Inr [], w)), pn_list_reports = (\<lambda>ns w. (Inr [], w)), pn_delete = (\<lambda>k w. (None, w)),
      pn_namespace = ''team'', pn_max_age = 0, pn_now = (\<lambda>w. (100, w))\<rparr>"

theorem scan_retention_bounds_witness:
  "prune_age (the (lp_pruner (wire_loop (demo_flags\<lparr>mf_scan_days := 30\<rparr>) (\<lambda>d. demo_sink) (ac_codec (demo_archiver []))
     (ac_recorder (demo_archiver [])) idle_pruner))) = 30 * (24 * hour)"
  using scan_retention_bounds [of demo_flags "\<lambda>d. demo_sink" "ac_codec (demo_archiver [])" "ac_recorder (demo_archiver [])"
    idle_pruner 30 "demo_arch_world [] []"]
  by (simp add: Let_def)

definition demo_append :: "string \<Rightarrow> audit_record \<Rightarrow> gate_world \<Rightarrow> (unit + audit_record) \<times> gate_world" where
  "demo_append ns ev w = (Inr ev, w\<lparr>gw_log := gw_log w @ [ev]\<rparr>)"

text \<open>An approval of 200 days, where one of at most 180 was asked for.\<close>

theorem gate_age_limit_needs_log_witness:
  "evaluate_report (mg_max_age (wire_gate (demo_flags\<lparr>mf_audit_namespace := ''cupel''\<rparr>) demo_append demo_gate))
       (200 * (24 * hour)) (some_report verdict_approved (Some 0) no_counts) some_ref promotion_require \<noteq> None \<and>
   evaluate_report (mg_max_age (wire_gate demo_flags demo_append demo_gate))
       (200 * (24 * hour)) (some_report verdict_approved (Some 0) no_counts) some_ref promotion_require = None"
proof -
  have ok: "approval_ok 0 now (some_report verdict_approved (Some 0) no_counts) some_ref promotion_require" for now
    by (simp add: approval_ok_def some_report_def some_ref_def no_ref_def)
  have flags: "demo_flags\<lparr>mf_max_report_days := 180\<rparr> = demo_flags" "mf_max_report_days demo_flags = 180"
    "mf_audit_namespace demo_flags = []" "sint (180 :: int64) = 180"
    "demo_flags\<lparr>mf_audit_namespace := ''cupel'', mf_max_report_days := 180\<rparr> = demo_flags\<lparr>mf_audit_namespace := ''cupel''\<rparr>"
    by (simp_all add: demo_flags_def)
  have old: "\<not> time_sub (200 * (24 * hour)) 0 \<le> 180 * (24 * hour)" by code_simp
  have scanned: "rt_last_scan (mr_status (some_report verdict_approved (Some 0) no_counts)) = Some 0"
    by (simp add: some_report_def)
  show ?thesis
    using gate_age_limit_needs_log [of "demo_flags\<lparr>mf_audit_namespace := ''cupel''\<rparr>" demo_append demo_gate
        "200 * (24 * hour)" "some_report verdict_approved (Some 0) no_counts" some_ref promotion_require demo_request
        "demo_world (some_report verdict_approved (Some 0) no_counts)"]
      gate_age_limit_needs_log [of demo_flags demo_append demo_gate
        "200 * (24 * hour)" "some_report verdict_approved (Some 0) no_counts" some_ref promotion_require demo_request
        "demo_world (some_report verdict_approved (Some 0) no_counts)"]
      ok old scanned by (auto simp: Let_def flags hour_def minute_def second_def)
qed

definition demo_env :: api_env where
  "demo_env =
     \<lparr>ae_read = (\<lambda>p. Inr (if p = ''k'' then replicate 32 (CHR ''k'') else ''b'')),
      ae_obj = (\<lambda>raw. Inr [bind ''ml'' ''security'' [''a'']]), ae_lst = (\<lambda>raw. Inl raw),
      ae_mac = sk_mac demo_codec, ae_encode = sk_encode demo_codec, ae_decode = sk_decode demo_codec,
      ae_random_key = None, ae_discover = (\<lambda>i. Inr (demo_provider, \<lambda>scopes state. state)), ae_console = []\<rparr>"

definition demo_options :: api_options where
  "demo_options =
     \<lparr>ao_namespace = ''cupel'', ao_bindings_path = ''b'', ao_oidc = demo_oidc, ao_session_ttl = hour,
      ao_session_key_path = ''k'', ao_cert = [], ao_key = []\<rparr>"

lemma demo_started: "run_api demo_env (Inr demo_api) demo_options = Started (demo_api\<lparr>ap_auth_url := \<lambda>state. state\<rparr>, False)"
proof -
  have b: "load_bindings (ae_read demo_env) (ae_obj demo_env) (ae_lst demo_env) (ao_bindings_path demo_options) =
      Inr [bind ''ml'' ''security'' [''a'']]" by code_simp
  have k: "load_session_key (ae_read demo_env) (ao_session_key_path demo_options) = Inr (replicate 32 (CHR ''k''))" by code_simp
  have v: "bindings_validate [bind ''ml'' ''security'' [''a'']] = None" by code_simp
  have c: "new_session_codec (ae_mac demo_env) (ae_encode demo_env) (ae_decode demo_env) (replicate 32 (CHR ''k'')) hour = Inr demo_codec"
    by (simp add: new_session_codec_def demo_env_def demo_codec_def hour_def minute_def second_def)
  have a: "new_authenticator demo_env demo_oidc = Inr (demo_provider, \<lambda>state. state)"
    by (simp add: new_authenticator_def demo_env_def demo_oidc_def)
  have o: "ao_oidc demo_options = demo_oidc" "ao_session_ttl demo_options = hour" "ao_namespace demo_options = ''cupel''"
    "oc_issuer demo_oidc \<noteq> []" "\<not> serves_tls demo_options" "ae_console demo_env = []"
    by (simp_all add: demo_options_def demo_oidc_def serves_tls_def demo_env_def)
  show ?thesis by (simp add: run_api_def b k new_server_def v o c a demo_api_def)
qed


end
