(* ===== verification/Spec2Isabelle.thy ===== *)
theory Spec2Isabelle
  imports Audit_Archive Webhook_Sign Promotion Verdict_Path Maintenance Source_Safety Compliance_Safety Scan_Job Evidence Api_Safety Cli_Audit Evidence_Run Aibom Cli_Inspect Startup
begin

text \<open>
  Cupel keeps unscanned and unapproved machine-learning models out of a Kubernetes cluster.  This is
  its verification library: the Go code that decides, records and enforces, translated definition by
  definition, and the theorems that say what it promises.

  \<^bold>\<open>The program and its parts.\<close>  A connector lists the model versions of a registry and creates an
  \<open>ArtifactScan\<close> for each.  The scan controller runs one Job per scanner, collects their reports, has the
  gate library judge them under the namespace's policy and exceptions, and writes the verdict into the
  model's \<open>ModelSecurityReport\<close>.  The promotion controller adds environments to that report.  The
  admission gate finds the models a workload would run, looks their reports up and lets the workload in
  or refuses it.  Two more webhooks sign exceptions and promotion decisions with the identity of the
  request.  Decisions go to a hash-chained audit log kept as Kubernetes objects, whose front an archiver
  moves to files.  Bindings from groups to roles and tenants say who may see what of all this.

  \<^bold>\<open>Theories and sources\<close> (under \<open>src/\<close>; a definition has the name of the function it
  translates, in lower case with underscores).

    \<^item> \<open>Cupel_Prelude\<close>, \<open>Go_Time\<close>: Go's integers at their width, and the parts of \<open>strings\<close>,
      \<open>strconv\<close>, \<open>sort\<close>, \<open>fmt\<close> and \<open>time\<close> the code calls.
    \<^item> \<open>Kube\<close>: the client of the API server as a record of functions on an abstract world, and its
      documented laws as locales (\<open>kclient_ok\<close> and the views of it), interpreted on a store in memory
      that can be evaluated.  Other clients act between any two calls; the relation \<open>env\<close> says what they
      may do.
    \<^item> \<open>Cupel_Types\<close>: the resources of \<open>api/v1alpha1\<close>.
    \<^item> \<open>Audit_Chain\<close> (\<open>internal/audit/chain.go\<close>), \<open>Audit_Events\<close>, \<open>Audit_Store\<close>, \<open>Audit_Append\<close>,
      \<open>Audit_Log\<close> (\<open>recorder.go\<close>), \<open>Audit_Sink\<close>, \<open>Audit_Archive\<close> (\<open>archive.go\<close>).
    \<^item> \<open>Authz\<close> (\<open>internal/authz\<close>), \<open>Policy\<close> (\<open>internal/policy\<close>), \<open>Naming\<close> (\<open>internal/naming\<close>),
      \<open>Scanners\<close> (\<open>internal/scanners/catalog.go\<close>).
    \<^item> \<open>Webhook_Ref\<close> (\<open>modelref.go\<close>), \<open>Webhook_Discover\<close> (\<open>discover.go\<close>), \<open>Webhook_Gate\<close> (\<open>gate.go\<close>,
      \<open>audit.go\<close>), \<open>Gate_Safety\<close> (what the gate guarantees over a store), \<open>Webhook_Sign\<close>
      (\<open>exception.go\<close>, \<open>promotion.go\<close>), all of \<open>internal/webhook\<close>.
    \<^item> \<open>Controller_Names\<close> (\<open>names.go\<close>), \<open>Promotion\<close> (\<open>promotion_controller.go\<close>), \<open>Trust_Policy\<close>
      (\<open>trust_policy.go\<close>), \<open>Artifact_Scan\<close> (\<open>artifactscan_controller.go\<close>), \<open>Scan_Safety\<close> (its state
      machine and refinement), \<open>Verdict_Path\<close> (from the verdict of a scan to the decision of the gate),
      all of \<open>internal/controller\<close>.
    \<^item> \<open>Scan_Job\<close> (\<open>internal/controller/jobs.go\<close>): the Job of a scan and its pod.
    \<^item> \<open>Model_Source\<close> (\<open>internal/modelsource\<close>, \<open>internal/registry\<close>), \<open>Source_Sync\<close>
      (\<open>internal/controller/source_sync.go\<close>, \<open>modelregistryconnector_controller.go\<close>) with the patterns of
      \<open>path.Match\<close> in \<open>Glob\<close>, and \<open>Source_Safety\<close>, what a connector guarantees over a store.
    \<^item> \<open>Frameworks\<close>, \<open>Atlas\<close>, \<open>Compliance\<close> (\<open>internal/compliance\<close>: the controls and techniques, and their
      evaluation), \<open>Compliance_Control\<close> and \<open>Compliance_Safety\<close>
      (\<open>internal/controller/compliance_controller.go\<close>).
    \<^item> \<open>Evidence\<close> (\<open>internal/evidence/bundle.go\<close>): the evidence bundle, built and verified.
    \<^item> \<open>Api_Session\<close> (\<open>internal/api/session.go\<close>, \<open>auth.go\<close>), \<open>Api_Server\<close> (the handlers and routes of
      \<open>internal/api\<close>, with \<open>internal/indexes\<close>), \<open>Api_Safety\<close> (what a request can see and do).
    \<^item> \<open>Cli_Audit\<close> (\<open>cmd/cupel/audit.go\<close>): checking an archive from its files.
    \<^item> \<open>Runner\<close>, \<open>Runner_Steps\<close> (\<open>cmd/runner/main.go\<close>, \<open>internal/results\<close>, \<open>internal/inspector\<close>,
      \<open>internal/controller/bom.go\<close>): the steps of a scan pod, from staging to the published report;
      \<open>Aibom\<close> (\<open>internal/aibom\<close>): the AI bill of materials; \<open>Evidence_Run\<close>: the evidence commands of the runner;
      \<open>Cli_Inspect\<close> (\<open>cmd/cupel/main.go\<close>): \<open>cupel inspect\<close>.
    \<^item> \<open>Startup\<close> (\<open>cmd/api/main.go\<close>, \<open>New\<close> of \<open>internal/api/server.go\<close>, \<open>cmd/manager/main.go\<close>): how the processes
      are put together from their flags and files.
    \<^item> \<open>Maintenance\<close> (\<open>internal/maintenance\<close>): the pruner and one round of the loop.

  State is passed explicitly: an operation takes the world and returns its result and the new world.
  A resource is read with its version and written back against it, as the code does.  Errors are values of
  a sum; a reconcile returns \<open>reconciled\<close>, the pair of \<open>ctrl.Result\<close> and the error.

  \<^bold>\<open>What the lemmas show.\<close>  The audit theories: sealing keeps a log valid, the verifier accepts exactly the
  chain specification, tampering and truncation are detected, appends that race keep one chain and lose
  nothing they reported, an archiver stopped anywhere loses nothing.  The scan theories: everything a
  reconcile does to stored scans is a move of a small state machine (\<open>scan_move\<close>), for which the invariant
  that every approval was judged from its own results holds in every run; a verdict waits for every
  scanner; the report carries it and the gate enforces it.  The gate: its decision characterised on every
  branch, its approvals shown to rest on stored evidence, its denials recorded.  The webhooks: what a
  signature can and cannot be made to say afterwards.  Authorization: who may do what, and that what is
  hidden does not influence what is shown.  Naming: names are valid and distinct.
  Connectors: what is listed is scanned once per version, when a rescan is due, and what stops it.  Compliance: a
  framework is reported conformant exactly when every control has its evidence or its attestation.  Jobs: the
  scanner's container holds no credential.  The bundle: what its verification does and does not establish.
  The console: every write is one its subject is entitled to, every list is of the subject's tenants, a
  session verifies exactly until it expires.  The archive command: a written archive reads back, and what it
  accepts against a published boundary is the archived front of the log.
  The scan pod: what it publishes is what the controller collects, and an output that cannot be read is never a clean
  result.  The bill of materials: which models are described, and that a report without a document
  says so.  \<open>cupel inspect\<close>: an artifact that was not read in full is not approved.  Start-up: the console
  starts only over valid bindings and grants nothing that is not in them.

  \<^bold>\<open>Bounds.\<close>  Loops the source bounds keep its bounds: 4096 attempts of an append, 1000 records of
  catching up, 5 attempts to write a boundary.  They are structural recursions on the remaining
  attempts, so nothing is lost to fuel.  The decoder of an archived segment recurses on the length
  of its input, which every step shortens.  Sequence numbers are 64-bit words, counters of resources
  32-bit words; differences of times saturate as Go's do, and multiples of a unit given by a flag wrap.

  \<^bold>\<open>Parameters.\<close>  Code outside this repository is an argument: SHA-256 (with the hypothesis that the
  preimages compared do not collide, and that its output is 64 hexadecimal digits), the JSON encoder and
  decoder of one record, the YAML reader, the accessors of unstructured objects, the evaluation of
  the policy library, the API server (with its laws), the registries' HTTP clients, the keyless test of
  the signature library, clocks and randomness.  Every theorem with such a hypothesis has a
  witness that runs the code's model on concrete instances of them.
  Further parameters: HTTP and the JSON of requests and answers, the rewriting of MLflow locations, the
  order in which a map is iterated, the setter of owner references, resource quantities, the keyed hash of
  sessions, the identity provider, \<open>time.ParseDuration\<close>.  The page loop of a model source is a
  \<open>partial_function\<close> whose value \<open>None\<close> means that it never returns; when it returns is a theorem.
  In the scan pod and the commands: the files read, the parsers of scanner output, the analyser and the
  renderers of the bill of materials, the inspector, the resolvers, the verifier of signatures, and the flag
  package of \<open>cupel inspect\<close>; the flags of \<open>cupel audit verify\<close> are parsed by the model.

  \<^bold>\<open>Not modelled.\<close>  Generated deep copies and the registration of types; metrics, logging and display
  conditions; the flag packages, HTTP listeners and client construction of
  \<open>cmd\<close>; the Kubernetes watch and queue machinery, which only decides when a reconcile runs; the
  staging of bytes and the reading of model formats, which third-party libraries do.

  \<^bold>\<open>Divergences the models showed\<close>, each stated by a theorem where the list of findings names one:
  a finished scan judged again overwrites the report of a newer one; a report whose write failed after
  the scan was stored as completed is never written again; a signed exception and a decided promotion
  can be moved to another model by an update; environments survive a rescan of other bytes; an append
  behind by more than 1000 records fails for ever; a missing head restarts the sequence; verifying a log
  of which a part was archived reports it broken; roles of one tenant apply in another; a binding can be
  valid and grant nothing; the number of hidden findings is shown to everyone.
  The page loop of MLflow may never end; of several artifacts of one version one is scanned; one scan reads as
  continuous monitoring; an altered bundle with a new digest verifies; findings of a tenant appear under
  another through a scan of the same name; the names of manual scans collide; a segment an archiver left
  behind makes the archive refused for ever, and an empty one makes the command panic.
  The documents of one scanner replace those of another; a missing scanner output is published as passed; a log that
  cannot be read passes as intact in a bundle; a model more than six levels down is denied; an undecided verdict
  and a bad command line exit with codes documented for an approval and a review.  With
  recording off the age limit of approvals is ignored; a retention of too many days wraps.
\<close>

end
